(* ===== verification/Prelude.thy ===== *)
theory Prelude
  imports Complex_Main "HOL-Library.Char_ord" "HOL-Library.List_Lexorder"
begin

text \<open>
  Shared vocabulary of the development. Python values that cross a component boundary untyped
  (parsed JSON, configuration dictionaries) are \<open>pyval\<close>; a \<open>dict\<close> keeps its insertion order
  as an association list. A Python \<open>str\<close> is a \<open>string\<close> whose characters stand for the code
  points 0 to 255; a \<open>float\<close> (time stamps, durations) is a \<open>real\<close>, so rounding, infinities and
  NaN are outside the model; an \<open>int\<close> is an \<open>int\<close>. Enumerations are datatypes and dataclasses are
  records whose fields carry a short prefix, because several classes of the program share field
  names.
\<close>

section \<open>Collections of facts\<close>

named_theorems lifecycle_defs \<open>operations of the bundle lifecycle stores\<close>
named_theorems runtime_defs \<open>operations of the runtime state store\<close>
named_theorems broker_defs \<open>operations of the broker repository\<close>
named_theorems workflow_defs \<open>transitions of the workflow runtime\<close>

section \<open>Python values\<close>

type_synonym time = real

datatype pyval =
    PNone
  | PBool bool
  | PInt int
  | PFloat real
  | PStr string
  | PList "pyval list"
  | PDict "(string \<times> pyval) list"

type_synonym pydict = "(string \<times> pyval) list"

text \<open>\<open>d.get(k)\<close> and \<open>d.get(k, default)\<close>.\<close>

definition dget :: "pydict \<Rightarrow> string \<Rightarrow> pyval" where
  "dget d k = (case map_of d k of None \<Rightarrow> PNone | Some v \<Rightarrow> v)"

definition dget_or :: "pydict \<Rightarrow> string \<Rightarrow> pyval \<Rightarrow> pyval" where
  "dget_or d k v0 = (case map_of d k of None \<Rightarrow> v0 | Some v \<Rightarrow> v)"

definition has_key :: "pydict \<Rightarrow> string \<Rightarrow> bool" where
  "has_key d k = (map_of d k \<noteq> None)"

fun truthy :: "pyval \<Rightarrow> bool" where
  "truthy PNone = False"
| "truthy (PBool b) = b"
| "truthy (PInt i) = (i \<noteq> 0)"
| "truthy (PFloat x) = (x \<noteq> 0)"
| "truthy (PStr s) = (s \<noteq> [])"
| "truthy (PList xs) = (xs \<noteq> [])"
| "truthy (PDict d) = (d \<noteq> [])"

fun is_str :: "pyval \<Rightarrow> bool" where
  "is_str (PStr _) = True"
| "is_str _ = False"

fun is_dict :: "pyval \<Rightarrow> bool" where
  "is_dict (PDict _) = True"
| "is_dict _ = False"

fun is_bool :: "pyval \<Rightarrow> bool" where
  "is_bool (PBool _) = True"
| "is_bool _ = False"

text \<open>\<open>isinstance(v, int) and not isinstance(v, bool) and v >= 1\<close>.\<close>

fun pos_int :: "pyval \<Rightarrow> bool" where
  "pos_int (PInt i) = (1 \<le> i)"
| "pos_int _ = False"

text \<open>
  Equality of values: numbers compare across \<open>bool\<close>, \<open>int\<close> and \<open>float\<close>, dictionaries regardless of the
  order of their keys.
\<close>

primrec norm_val :: "pyval \<Rightarrow> pyval" where
  "norm_val PNone = PNone"
| "norm_val (PBool b) = PFloat (if b then 1 else 0)"
| "norm_val (PInt i) = PFloat (of_int i)"
| "norm_val (PFloat x) = PFloat x"
| "norm_val (PStr s) = PStr s"
| "norm_val (PList vs) = PList (map norm_val vs)"
| "norm_val (PDict d) = PDict (sort_key fst (map (map_prod id norm_val) d))"

definition py_eq :: "pyval \<Rightarrow> pyval \<Rightarrow> bool" where
  "py_eq v w \<longleftrightarrow> norm_val v = norm_val w"

lemma py_eq_refl [simp]: "py_eq v v"
  by (simp add: py_eq_def)

lemma py_eq_str [simp]: "py_eq v (PStr s) \<longleftrightarrow> v = PStr s" "py_eq (PStr s) v \<longleftrightarrow> v = PStr s"
  by (cases v; auto simp: py_eq_def)+

text \<open>\<open>d[k] = v\<close>: an existing key keeps its place.\<close>

definition set_key :: "pydict \<Rightarrow> string \<Rightarrow> pyval \<Rightarrow> pydict" where
  "set_key d k v = (if k \<in> fst ` set d then map (\<lambda>(a, b). if a = k then (a, v) else (a, b)) d else d @ [(k, v)])"

text \<open>Membership in a set of strings, of a value that may be of any type.\<close>

definition str_in :: "pyval \<Rightarrow> string list \<Rightarrow> bool" where
  "str_in v names = (case v of PStr s \<Rightarrow> s \<in> set names | _ \<Rightarrow> False)"

text \<open>A validator is a concatenation of conditional messages.\<close>

abbreviation err_if :: "bool \<Rightarrow> 'e \<Rightarrow> 'e list" where
  "err_if b e \<equiv> (if b then [e] else [])"

section \<open>Strings\<close>

text \<open>\<open>str.strip\<close> and the truth value of the stripped string.\<close>

definition is_space :: "char \<Rightarrow> bool" where
  "is_space c = (let n = (of_char c :: nat) in
     (9 \<le> n \<and> n \<le> 13) \<or> (28 \<le> n \<and> n \<le> 32) \<or> n = 133 \<or> n = 160)"

definition strip :: "string \<Rightarrow> string" where
  "strip s = rev (dropWhile is_space (rev (dropWhile is_space s)))"

definition blank :: "string \<Rightarrow> bool" where
  "blank s = (strip s = [])"

definition is_alnum :: "char \<Rightarrow> bool" where
  "is_alnum c = (let n = (of_char c :: nat) in
     (48 \<le> n \<and> n \<le> 57) \<or> (65 \<le> n \<and> n \<le> 90) \<or> (97 \<le> n \<and> n \<le> 122))"

text \<open>\<open>str.lower\<close> on the code points 0 to 255.\<close>

definition lower_char :: "char \<Rightarrow> char" where
  "lower_char c = (let n = (of_char c :: nat) in
     if (65 \<le> n \<and> n \<le> 90) \<or> (192 \<le> n \<and> n \<le> 222 \<and> n \<noteq> 215) then char_of (n + 32) else c)"

definition lower :: "string \<Rightarrow> string" where
  "lower s = map lower_char s"

text \<open>The identifier pattern \<open>[A-Za-z0-9][A-Za-z0-9._-]{0,127}\<close> and the digest pattern
  \<open>[0-9a-f]{64}\<close>, matched against the whole string.\<close>

definition is_id :: "string \<Rightarrow> bool" where
  "is_id s = (case s of [] \<Rightarrow> False
     | c # cs \<Rightarrow> is_alnum c \<and> length cs \<le> 127 \<and> list_all (\<lambda>x. is_alnum x \<or> x \<in> set ''._-'') cs)"

definition is_sha256 :: "string \<Rightarrow> bool" where
  "is_sha256 s = (length s = 64 \<and> list_all (\<lambda>c. c \<in> set ''0123456789abcdef'') s)"

lemma strip_Nil [simp]: "strip [] = []"
  by (simp add: strip_def)

lemma rev_dropWhile_rev_eq_Nil:
  "rev (dropWhile P (rev xs)) = [] \<longleftrightarrow> (\<forall>x \<in> set xs. P x)"
  by simp

lemma blank_iff: "blank s \<longleftrightarrow> (\<forall>c \<in> set s. is_space c)"
proof
  assume "blank s"
  then have *: "\<forall>c \<in> set (dropWhile is_space s). is_space c"
    by (simp add: blank_def strip_def)
  then have "dropWhile is_space s = []"
    by (cases "dropWhile is_space s") (auto dest: dropWhile_eq_Cons_conv [THEN iffD1])
  then show "\<forall>c \<in> set s. is_space c"
    by simp
next
  assume "\<forall>c \<in> set s. is_space c"
  then show "blank s" by (auto simp: blank_def strip_def dest: set_dropWhileD)
qed

lemma dropWhile_idem_hd: "dropWhile P xs = [] \<or> \<not> P (hd (dropWhile P xs))"
  by (metis hd_dropWhile)

lemma strip_not_blank: "strip s \<noteq> [] \<Longrightarrow> \<not> blank (strip s)"
proof -
  assume ne: "strip s \<noteq> []"
  let ?d = "dropWhile is_space s"
  have d: "dropWhile is_space (rev ?d) \<noteq> []"
    using ne by (simp add: strip_def)
  then have "hd (dropWhile is_space (rev ?d)) \<in> set (strip s)"
    by (simp add: strip_def)
  moreover have "\<not> is_space (hd (dropWhile is_space (rev ?d)))"
    using d by (rule hd_dropWhile)
  ultimately show ?thesis
    by (auto simp: blank_iff)
qed

lemma strip_fix: "s \<noteq> [] \<Longrightarrow> \<not> is_space (hd s) \<Longrightarrow> \<not> is_space (last s) \<Longrightarrow> strip s = s"
  by (cases s) (auto simp: strip_def hd_rev [symmetric] dropWhile_eq_self_iff)

lemma strip_idem [simp]: "strip (strip s) = strip s"
proof (cases "strip s = []")
  case False
  let ?d = "dropWhile is_space s"
  let ?e = "dropWhile is_space (rev ?d)"
  have e1: "?e \<noteq> []" using False by (simp add: strip_def)
  then have "?d \<noteq> []" by (metis dropWhile.simps(1) rev.simps(1))
  with e1 have e: "?e \<noteq> []" "?d \<noteq> []" by simp_all
  then have last: "\<not> is_space (last (strip s))"
    by (simp add: strip_def last_rev hd_dropWhile)
  have "last ?e = hd ?d"
    using e by (metis dropWhile_eq_Nil_conv hd_rev last_appendR rev_rev_ident takeWhile_dropWhile_id)
  then have "\<not> is_space (hd (strip s))"
    using e by (simp add: strip_def hd_rev hd_dropWhile)
  then show ?thesis using False last by (intro strip_fix)
qed simp

text \<open>Decimal text of an integer, and \<open>int(text)\<close>: surrounding white space, a sign, and digits with single
  underscores between them.\<close>

fun show_nat :: "nat \<Rightarrow> string" where
  "show_nat n = (if n < 10 then [char_of (48 + n)] else show_nat (n div 10) @ [char_of (48 + n mod 10)])"

declare show_nat.simps [simp del]

definition show_int :: "int \<Rightarrow> string" where
  "show_int i = (if i < 0 then CHR ''-'' # show_nat (nat (- i)) else show_nat (nat i))"

definition is_digit :: "char \<Rightarrow> bool" where
  "is_digit c = (let n = (of_char c :: nat) in 48 \<le> n \<and> n \<le> 57)"

fun digits_value :: "string \<Rightarrow> int \<Rightarrow> int option" where
  "digits_value [] acc = Some acc"
| "digits_value (c # cs) acc =
     (if is_digit c then digits_value cs (10 * acc + of_char c - 48)
      else if c = CHR ''_'' \<and> cs \<noteq> [] \<and> is_digit (hd cs) then digits_value cs acc else None)"

definition unsigned_value :: "string \<Rightarrow> int option" where
  "unsigned_value s = (if s \<noteq> [] \<and> is_digit (hd s) then digits_value s 0 else None)"

definition int_text :: "string \<Rightarrow> int option" where
  "int_text s = (case strip s of
     [] \<Rightarrow> None
   | c # cs \<Rightarrow> if c = CHR ''-'' then map_option uminus (unsigned_value cs)
               else if c = CHR ''+'' then unsigned_value cs else unsigned_value (c # cs))"

text \<open>The conversions \<open>str\<close>, \<open>int\<close>, \<open>float\<close> and the iteration over a value; \<open>None\<close> is a \<open>TypeError\<close> or
  \<open>ValueError\<close>. The text of a value that is not a string and the number a text denotes are parameters.\<close>

definition py_str :: "(pyval \<Rightarrow> string) \<Rightarrow> pyval \<Rightarrow> string" where
  "py_str strf v = (case v of PStr s \<Rightarrow> s | _ \<Rightarrow> strf v)"

definition py_int :: "pyval \<Rightarrow> int option" where
  "py_int v = (case v of PInt i \<Rightarrow> Some i | PBool b \<Rightarrow> Some (if b then 1 else 0)
     | PFloat x \<Rightarrow> Some (if 0 \<le> x then \<lfloor>x\<rfloor> else \<lceil>x\<rceil>) | PStr s \<Rightarrow> int_text s | _ \<Rightarrow> None)"

definition py_float :: "(string \<Rightarrow> real option) \<Rightarrow> pyval \<Rightarrow> real option" where
  "py_float readf v = (case v of PFloat x \<Rightarrow> Some x | PInt i \<Rightarrow> Some (of_int i) | PBool b \<Rightarrow> Some (if b then 1 else 0)
     | PStr s \<Rightarrow> readf s | _ \<Rightarrow> None)"

definition py_iter :: "pyval \<Rightarrow> pyval list option" where
  "py_iter v = (case v of PList vs \<Rightarrow> Some vs | PStr s \<Rightarrow> Some (map (\<lambda>c. PStr [c]) s) | PDict d \<Rightarrow> Some (map (\<lambda>p. PStr (fst p)) d)
     | _ \<Rightarrow> None)"

section \<open>Maps and options\<close>

text \<open>Truth value of an optional string: \<open>None\<close> and the empty string are false.\<close>

fun opt_true :: "string option \<Rightarrow> bool" where
  "opt_true None = False"
| "opt_true (Some s) = (s \<noteq> [])"

lemma opt_true_iff: "opt_true x \<longleftrightarrow> (\<exists>s. x = Some s \<and> s \<noteq> [])"
  by (cases x) auto

lemma opt_trueE [elim]:
  assumes "opt_true x" obtains s where "x = Some s" and "s \<noteq> []"
  using assms by (cases x) auto

lemma map_sum_Inr: "map_sum id f x = Inr y \<longleftrightarrow> (\<exists>z. x = Inr z \<and> y = f z)"
  by (cases x) auto

text \<open>Folding updates over the keys of a list touches exactly these keys.\<close>

fun upd_all :: "('k \<rightharpoonup> 'v) \<Rightarrow> 'k list \<Rightarrow> 'v \<Rightarrow> ('k \<rightharpoonup> 'v)" where
  "upd_all m [] v = m"
| "upd_all m (k # ks) v = upd_all (m(k \<mapsto> v)) ks v"

fun del_all :: "('k \<rightharpoonup> 'v) \<Rightarrow> 'k list \<Rightarrow> ('k \<rightharpoonup> 'v)" where
  "del_all m [] = m"
| "del_all m (k # ks) = del_all (m(k := None)) ks"

lemma upd_all_apply [simp]: "upd_all m ks v k = (if k \<in> set ks then Some v else m k)"
  by (induction ks arbitrary: m) auto

lemma del_all_apply [simp]: "del_all m ks k = (if k \<in> set ks then None else m k)"
  by (induction ks arbitrary: m) auto

text \<open>\<open>sorted(set(xs))\<close>.\<close>

definition sort_uniq :: "'a::linorder list \<Rightarrow> 'a list" where
  "sort_uniq xs = sort (remdups xs)"

lemma set_sort_uniq [simp]: "set (sort_uniq xs) = set xs"
  by (simp add: sort_uniq_def)

lemma distinct_sort_uniq [simp]: "distinct (sort_uniq xs)"
  by (simp add: sort_uniq_def)

lemma sorted_sort_uniq [simp]: "sorted (sort_uniq xs)"
  by (simp add: sort_uniq_def)

lemma sort_uniq_Nil_iff [simp]: "sort_uniq xs = [] \<longleftrightarrow> xs = []"
  by (metis set_sort_uniq set_empty)

lemma sort_uniq_fix: "sorted xs \<Longrightarrow> distinct xs \<Longrightarrow> sort_uniq xs = xs"
  by (simp add: sort_uniq_def distinct_remdups_id sorted_sort_id)

end
