(* ===== verification/Recovery.thy ===== *)
theory Recovery
  imports Prelude
begin

text \<open>
  The pure recovery reducer of \<open>scripts/bundle_lifecycle.py\<close>: one health observation of a bundle is
  reduced to exactly one recovery action and the next recovery state. Repeated observations are a
  run of the reducer. The facts proved here are about which observations may lead to a start or
  a restart, about the restart budget of a retry window, and about the transition counter.
\<close>

section \<open>Data\<close>

datatype DesiredState = Desired_STOPPED | Desired_RUNNING | Desired_IDLE | Desired_PINNED

datatype RecoveryPhase =
    DISABLED
  | INTENTIONALLY_OFF
  | READY
  | CRASHED
  | RECOVERING
  | FAULTED
  | MAINTENANCE
  | BLOCKED

datatype RecoveryAction = SKIP | PROBE | START | RESTART | QUARANTINE

record RecoveryState =
  rs_phase :: RecoveryPhase
  rs_transition_id :: int
  rs_restart_attempts :: int
  rs_retry_window_started_at :: "time option"
  rs_last_restart_at :: "time option"
  rs_last_healthy_at :: "time option"

definition initial_recovery :: RecoveryState where
  "initial_recovery = \<lparr>rs_phase = INTENTIONALLY_OFF, rs_transition_id = 0, rs_restart_attempts = 0,
     rs_retry_window_started_at = None, rs_last_restart_at = None, rs_last_healthy_at = None\<rparr>"

record RecoveryObservation =
  ob_enabled :: bool
  ob_desired_state :: DesiredState
  ob_maintenance_mode :: bool
  ob_planned_stop :: bool
  ob_coexistence_paused :: bool
  ob_probe_ok :: "bool option"
  ob_now :: time
  ob_rejoin_requested :: bool
  ob_max_restart_attempts :: int
  ob_retry_window_seconds :: time
  ob_min_restart_interval_seconds :: time

definition default_observation :: RecoveryObservation where
  "default_observation = \<lparr>ob_enabled = True, ob_desired_state = Desired_IDLE,
     ob_maintenance_mode = False, ob_planned_stop = False, ob_coexistence_paused = False,
     ob_probe_ok = None, ob_now = 0, ob_rejoin_requested = False, ob_max_restart_attempts = 3,
     ob_retry_window_seconds = 300, ob_min_restart_interval_seconds = 30\<rparr>"

record RecoveryDecision =
  dec_action :: RecoveryAction
  dec_reason :: string
  dec_previous :: RecoveryState
  dec_next :: RecoveryState
  dec_emit_transition_log :: bool

section \<open>The reducer\<close>

definition changed :: "RecoveryState \<Rightarrow> RecoveryState \<Rightarrow> bool" where
  "changed previous next_state =
     (rs_phase previous \<noteq> rs_phase next_state
      \<or> rs_transition_id previous \<noteq> rs_transition_id next_state)"

text \<open>\<open>_phase\<close>; the further field changes of a call are record updates of the result.\<close>

definition to_phase :: "RecoveryState \<Rightarrow> RecoveryPhase \<Rightarrow> RecoveryState" where
  "to_phase state phase =
     (if phase \<noteq> rs_phase state
      then state\<lparr>rs_phase := phase, rs_transition_id := rs_transition_id state + 1\<rparr>
      else state\<lparr>rs_phase := phase\<rparr>)"

definition decision ::
  "RecoveryAction \<Rightarrow> string \<Rightarrow> RecoveryState \<Rightarrow> RecoveryState \<Rightarrow> bool \<Rightarrow> RecoveryDecision" where
  "decision action reason previous next_state emit =
     \<lparr>dec_action = action, dec_reason = reason, dec_previous = previous, dec_next = next_state,
      dec_emit_transition_log = (emit \<or> changed previous next_state)\<rparr>"

text \<open>The state after the circuit-breaker test, when it lets the observation through.\<close>

definition rejoined :: "RecoveryState \<Rightarrow> RecoveryState" where
  "rejoined state = state\<lparr>rs_phase := INTENTIONALLY_OFF,
     rs_transition_id := rs_transition_id state + 1, rs_restart_attempts := 0,
     rs_retry_window_started_at := None, rs_last_restart_at := None\<rparr>"

definition reduce_failed_probe :: "RecoveryState \<Rightarrow> RecoveryObservation \<Rightarrow> RecoveryDecision" where
  "reduce_failed_probe state ob =
     (if rs_last_healthy_at state = None
      then decision START ''never_healthy'' state
             ((to_phase state CRASHED)\<lparr>rs_last_restart_at := Some (ob_now ob)\<rparr>) False
      else
        let fresh = (case rs_retry_window_started_at state of None \<Rightarrow> True
                     | Some w \<Rightarrow> ob_now ob - w > ob_retry_window_seconds ob);
            window_started =
              (if fresh then Some (ob_now ob) else rs_retry_window_started_at state);
            attempts = (if fresh then 0 else rs_restart_attempts state) + 1
        in if attempts > max 1 (ob_max_restart_attempts ob)
           then decision QUARANTINE ''restart_attempts_exhausted'' state
                  ((to_phase state FAULTED)\<lparr>rs_restart_attempts := attempts,
                     rs_retry_window_started_at := window_started, rs_last_restart_at := None\<rparr>)
                  False
           else decision RESTART ''health_lost'' state
                  (state\<lparr>rs_phase := RECOVERING, rs_transition_id := rs_transition_id state + 1,
                     rs_restart_attempts := attempts,
                     rs_retry_window_started_at := window_started,
                     rs_last_restart_at := Some (ob_now ob)\<rparr>)
                  (rs_phase state = READY))"

definition reduce_probe :: "RecoveryState \<Rightarrow> RecoveryObservation \<Rightarrow> RecoveryDecision" where
  "reduce_probe state ob =
     (case ob_probe_ok ob of
        None \<Rightarrow>
          (if rs_phase state \<in> {RECOVERING, CRASHED}
              \<and> (case rs_last_restart_at state of None \<Rightarrow> False
                 | Some t \<Rightarrow> ob_now ob - t < ob_min_restart_interval_seconds ob)
           then decision SKIP ''restart_cooldown'' state state False
           else decision PROBE ''probe_required'' state state False)
      | Some True \<Rightarrow>
          decision SKIP ''ready'' state
            ((to_phase state READY)\<lparr>rs_restart_attempts := 0, rs_retry_window_started_at := None,
               rs_last_restart_at := None, rs_last_healthy_at := Some (ob_now ob)\<rparr>) False
      | Some False \<Rightarrow> reduce_failed_probe state ob)"

definition reduce_recovery :: "RecoveryState \<Rightarrow> RecoveryObservation \<Rightarrow> RecoveryDecision" where
  "reduce_recovery state ob =
     (if \<not> ob_enabled ob \<or> ob_desired_state ob = Desired_STOPPED
      then decision SKIP (if \<not> ob_enabled ob then ''config_disabled'' else ''desired_stopped'')
             state (to_phase state DISABLED) False
      else if ob_maintenance_mode ob
      then decision SKIP ''maintenance_mode'' state (to_phase state MAINTENANCE) False
      else if ob_planned_stop ob
      then decision SKIP ''planned_stop'' state (to_phase state BLOCKED) False
      else if ob_coexistence_paused ob
      then decision SKIP ''coexistence_paused'' state (to_phase state BLOCKED) False
      else if rs_phase state = FAULTED
      then (if \<not> ob_rejoin_requested ob
            then decision SKIP ''circuit_open'' state state False
            else reduce_probe (rejoined state) ob)
      else reduce_probe state ob)"

text \<open>A run: each observation is reduced in the state the previous one left.\<close>

fun run_recovery :: "RecoveryState \<Rightarrow> RecoveryObservation list \<Rightarrow> RecoveryDecision list" where
  "run_recovery s [] = []"
| "run_recovery s (ob # obs) =
     (let d = reduce_recovery s ob in d # run_recovery (dec_next d) obs)"

fun recovery_after :: "RecoveryState \<Rightarrow> RecoveryObservation list \<Rightarrow> RecoveryState" where
  "recovery_after s [] = s"
| "recovery_after s (ob # obs) = recovery_after (dec_next (reduce_recovery s ob)) obs"

section \<open>Facts shared by the properties\<close>

text \<open>An observation that reaches the probe stage of the reducer.\<close>

definition unblocked :: "RecoveryObservation \<Rightarrow> bool" where
  "unblocked ob \<longleftrightarrow> ob_enabled ob \<and> ob_desired_state ob \<noteq> Desired_STOPPED
     \<and> \<not> ob_maintenance_mode ob \<and> \<not> ob_planned_stop ob \<and> \<not> ob_coexistence_paused ob"

lemmas reduce_defs = reduce_recovery_def reduce_probe_def reduce_failed_probe_def decision_def
  changed_def to_phase_def rejoined_def Let_def

lemma decision_sel [simp]:
  "dec_action (decision a r p n e) = a"
  "dec_reason (decision a r p n e) = r"
  "dec_previous (decision a r p n e) = p"
  "dec_next (decision a r p n e) = n"
  by (simp_all add: decision_def)

lemma to_phase_sel [simp]:
  "rs_phase (to_phase s p) = p"
  "rs_restart_attempts (to_phase s p) = rs_restart_attempts s"
  "rs_retry_window_started_at (to_phase s p) = rs_retry_window_started_at s"
  "rs_last_restart_at (to_phase s p) = rs_last_restart_at s"
  "rs_last_healthy_at (to_phase s p) = rs_last_healthy_at s"
  "rs_transition_id (to_phase s p) = (if p = rs_phase s then rs_transition_id s
                                      else rs_transition_id s + 1)"
  by (auto simp: to_phase_def)

lemma reduce_unblocked:
  "unblocked ob \<Longrightarrow> rs_phase s \<noteq> FAULTED \<Longrightarrow> reduce_recovery s ob = reduce_probe s ob"
  by (simp add: reduce_recovery_def unblocked_def)

lemma reduce_blocked:
  "\<not> unblocked ob \<Longrightarrow>
   dec_action (reduce_recovery s ob) = SKIP
   \<and> rs_phase (dec_next (reduce_recovery s ob)) \<in> {DISABLED, MAINTENANCE, BLOCKED}"
  by (auto simp: reduce_recovery_def unblocked_def)

lemma probe_decides_start:
  "dec_action (reduce_probe s ob) \<in> {START, RESTART, QUARANTINE} \<longleftrightarrow> ob_probe_ok ob = Some False"
  by (auto simp: reduce_probe_def reduce_failed_probe_def Let_def split: option.splits bool.splits)


lemma transition_id_step:
  "rs_transition_id s \<le> rs_transition_id (dec_next (reduce_recovery s ob))
   \<and> (rs_phase (dec_next (reduce_recovery s ob)) \<noteq> rs_phase s \<longrightarrow>
      rs_transition_id s < rs_transition_id (dec_next (reduce_recovery s ob)))"
  by (auto simp: reduce_recovery_def reduce_probe_def reduce_failed_probe_def rejoined_def Let_def
      split: option.splits bool.splits)


section \<open>Properties\<close>

lemma reduce_faulted_shut:
  "unblocked ob \<Longrightarrow> \<not> ob_rejoin_requested ob \<Longrightarrow> rs_phase s = FAULTED \<Longrightarrow>
   reduce_recovery s ob = decision SKIP ''circuit_open'' s s False"
  by (simp add: reduce_recovery_def unblocked_def)


lemma run_recovery_faulted:
  assumes "rs_phase s = FAULTED" and "\<forall>ob \<in> set obs. unblocked ob \<and> \<not> ob_rejoin_requested ob"
  shows "map dec_action (run_recovery s obs) = replicate (length obs) SKIP"
    and "recovery_after s obs = s"
  using assms by (induction obs) (auto simp: reduce_faulted_shut)





definition sample_ready :: RecoveryState where
  "sample_ready = initial_recovery\<lparr>rs_phase := READY, rs_last_healthy_at := Some 5\<rparr>"

definition sample_failure :: RecoveryObservation where
  "sample_failure = default_observation\<lparr>ob_probe_ok := Some False, ob_now := 10\<rparr>"


text \<open>When a restart is decided. The reducer answers \<open>RESTART\<close> exactly for an enabled bundle that
  should run, is not under maintenance, stopped on purpose or paused, has a failed probe, was
  healthy before, has a closed circuit (or an explicit rejoin) and has budget left in its window.\<close>

theorem restart_iff:
  "dec_action (reduce_recovery s ob) = RESTART \<longleftrightarrow>
     unblocked ob \<and> ob_probe_ok ob = Some False \<and> rs_last_healthy_at s \<noteq> None
     \<and> (if rs_phase s = FAULTED then ob_rejoin_requested ob
        else (case rs_retry_window_started_at s of None \<Rightarrow> True
              | Some w \<Rightarrow> ob_now ob - w > ob_retry_window_seconds ob
                  \<or> rs_restart_attempts s < max 1 (ob_max_restart_attempts ob)))"
  by (auto simp: reduce_recovery_def unblocked_def reduce_probe_def reduce_failed_probe_def Let_def
      rejoined_def split: option.splits bool.splits)

text \<open>The open circuit stays shut: from the \<open>FAULTED\<close> phase, any number of observations of an
  enabled, unpaused bundle without a rejoin request leads to \<open>SKIP\<close> only, and the recovery state
  does not change.\<close>

theorem circuit_stays_open:
  assumes "rs_phase s = FAULTED" and "\<forall>ob \<in> set obs. unblocked ob \<and> \<not> ob_rejoin_requested ob"
  shows "map dec_action (run_recovery s obs) = replicate (length obs) SKIP
     \<and> recovery_after s obs = s"
  using run_recovery_faulted [OF assms] by simp

theorem circuit_stays_open_witness:
  "rs_phase (sample_ready\<lparr>rs_phase := FAULTED\<rparr>) = FAULTED
   \<and> recovery_after (sample_ready\<lparr>rs_phase := FAULTED\<rparr>) [sample_failure, default_observation]
     = sample_ready\<lparr>rs_phase := FAULTED\<rparr>"
  using circuit_stays_open [of "sample_ready\<lparr>rs_phase := FAULTED\<rparr>"
      "[sample_failure, default_observation]"]
  by (simp add: unblocked_def sample_failure_def default_observation_def)

text \<open>The start path of a bundle that was never healthy has no budget: while every probe fails,
  the reducer answers \<open>START\<close> each time, whatever \<open>max_restart_attempts\<close> and the retry window
  are, and never opens the circuit.\<close>

theorem never_healthy_starts_unbounded:
  assumes "rs_phase s \<noteq> FAULTED" and "rs_last_healthy_at s = None"
    and "\<forall>ob \<in> set obs. unblocked ob \<and> ob_probe_ok ob = Some False"
  shows "map dec_action (run_recovery s obs) = replicate (length obs) START
     \<and> rs_phase (recovery_after s obs) \<noteq> FAULTED"
  using assms
proof (induction obs arbitrary: s)
  case Nil
  then show ?case by simp
next
  case (Cons ob obs)
  let ?n = "dec_next (reduce_recovery s ob)"
  have step: "dec_action (reduce_recovery s ob) = START" "rs_phase ?n = CRASHED"
      "rs_last_healthy_at ?n = None"
    using Cons.prems by (simp_all add: reduce_unblocked reduce_probe_def reduce_failed_probe_def)
  then show ?case
    using Cons.IH [of ?n] Cons.prems(3) by (simp add: Let_def)
qed

theorem never_healthy_starts_unbounded_witness:
  "map dec_action (run_recovery initial_recovery (replicate 5 sample_failure)) = replicate 5 START"
  using never_healthy_starts_unbounded [of initial_recovery "replicate 5 sample_failure"]
  by (simp add: initial_recovery_def unblocked_def sample_failure_def default_observation_def)

text \<open>The transition counter and the transition log. Over any run the counter never decreases,
  and one reduction that changes the phase increases it. The reducer asks for a log line exactly
  when the counter moved, with one exception: a rejoin out of \<open>FAULTED\<close> compares against the state
  that is already rejoined, so the step from \<open>FAULTED\<close> back to service may go unlogged.\<close>

lemma transition_id_run: "rs_transition_id s \<le> rs_transition_id (recovery_after s obs)"
proof (induction obs arbitrary: s)
  case (Cons ob obs)
  then show ?case
    using transition_id_step [of s ob] order_trans by fastforce
qed simp

theorem transition_log_sound:
  "rs_transition_id s \<le> rs_transition_id (recovery_after s obs)
   \<and> (rs_phase (dec_next (reduce_recovery s ob)) \<noteq> rs_phase s \<longrightarrow>
        rs_transition_id s < rs_transition_id (dec_next (reduce_recovery s ob)))
   \<and> (\<not> (rs_phase s = FAULTED \<and> unblocked ob) \<longrightarrow>
        (dec_emit_transition_log (reduce_recovery s ob) \<longleftrightarrow>
           rs_transition_id (dec_next (reduce_recovery s ob)) \<noteq> rs_transition_id s))
   \<and> (rs_phase s = FAULTED \<and> unblocked ob \<and> ob_rejoin_requested ob \<and> ob_probe_ok ob = None \<longrightarrow>
        \<not> dec_emit_transition_log (reduce_recovery s ob)
        \<and> rs_phase (dec_next (reduce_recovery s ob)) = INTENTIONALLY_OFF)"
proof -
  have "\<not> (rs_phase s = FAULTED \<and> unblocked ob) \<Longrightarrow>
        dec_emit_transition_log (reduce_recovery s ob) \<longleftrightarrow>
           rs_transition_id (dec_next (reduce_recovery s ob)) \<noteq> rs_transition_id s"
    by (auto simp: reduce_defs unblocked_def split: option.splits bool.splits)
  moreover have "rs_phase s = FAULTED \<and> unblocked ob \<and> ob_rejoin_requested ob
      \<and> ob_probe_ok ob = None \<Longrightarrow> \<not> dec_emit_transition_log (reduce_recovery s ob)
        \<and> rs_phase (dec_next (reduce_recovery s ob)) = INTENTIONALLY_OFF"
    by (auto simp: reduce_defs unblocked_def)
  ultimately show ?thesis
    using transition_id_run transition_id_step by blast
qed

theorem transition_log_sound_witness:
  "\<not> dec_emit_transition_log (reduce_recovery (sample_ready\<lparr>rs_phase := FAULTED\<rparr>)
       (default_observation\<lparr>ob_rejoin_requested := True\<rparr>))
   \<and> dec_emit_transition_log (reduce_recovery sample_ready sample_failure)"
proof -
  note log = transition_log_sound [where obs = "[]"]
  have "\<not> dec_emit_transition_log (reduce_recovery (sample_ready\<lparr>rs_phase := FAULTED\<rparr>)
       (default_observation\<lparr>ob_rejoin_requested := True\<rparr>))"
    using log [of "sample_ready\<lparr>rs_phase := FAULTED\<rparr>"
        "default_observation\<lparr>ob_rejoin_requested := True\<rparr>"]
    by (simp add: unblocked_def default_observation_def)
  moreover have "rs_transition_id (dec_next (reduce_recovery sample_ready sample_failure))
      \<noteq> rs_transition_id sample_ready"
    by (simp add: reduce_defs sample_ready_def sample_failure_def default_observation_def
        initial_recovery_def)
  then have "dec_emit_transition_log (reduce_recovery sample_ready sample_failure)"
    using log [of sample_ready sample_failure]
    by (simp add: sample_ready_def initial_recovery_def)
  ultimately show ?thesis by simp
qed

end
