(* ===== verification/Redis_Model.thy ===== *)
theory Redis_Model
  imports Prelude "HOL-Library.Product_Lexorder"
begin

text \<open>
  The part of Redis the queue engine (\<open>scripts/queue_engine.py\<close>) talks to: keys with an optional expiry, hashes,
  strings, and streams with consumer groups. A command (also a Lua script or a MULTI/EXEC block, which Redis
  runs atomically) may be answered, may never reach the server, or may be carried out while its reply is lost;
  \<open>kv_faults\<close> scripts which, one fault for each command. A Python call ends with a value, with a \<open>redis.RedisError\<close>,
  with a \<open>ValueError\<close> or with a \<open>KeyError\<close>. Stream ids have the full form \<open>ms-seq\<close>, the only one the program passes back to Redis.
\<close>

section \<open>Streams\<close>

type_synonym stream_id = "nat \<times> nat"
type_synonym sfields = "(string \<times> string) list"
type_synonym entry = "stream_id \<times> sfields"

record rgroup =
  gr_last :: stream_id
  gr_pel :: "(stream_id \<times> string) list"

record rstream =
  st_entries :: "entry list"
  st_last :: stream_id
  st_groups :: "string \<rightharpoonup> rgroup"

definition empty_stream :: rstream where
  "empty_stream = \<lparr>st_entries = [], st_last = (0, 0), st_groups = Map.empty\<rparr>"

text \<open>\<open>XADD key *\<close> at server time \<open>ms\<close>: the new id is larger than every id the stream ever had.\<close>

definition next_id :: "nat \<Rightarrow> rstream \<Rightarrow> stream_id" where
  "next_id ms st = (if fst (st_last st) < ms then (ms, 0) else (fst (st_last st), Suc (snd (st_last st))))"

definition stream_add :: "nat \<Rightarrow> sfields \<Rightarrow> rstream \<Rightarrow> rstream" where
  "stream_add ms fs st = st\<lparr>st_entries := st_entries st @ [(next_id ms st, fs)], st_last := next_id ms st\<rparr>"

definition stream_del :: "stream_id \<Rightarrow> rstream \<Rightarrow> rstream" where
  "stream_del i st = st\<lparr>st_entries := filter (\<lambda>e. fst e \<noteq> i) (st_entries st)\<rparr>"

text \<open>\<open>XTRIM MAXLEN = n\<close> keeps the newest \<open>n\<close> entries.\<close>

definition stream_trim :: "nat \<Rightarrow> rstream \<Rightarrow> rstream" where
  "stream_trim n st = st\<lparr>st_entries := drop (length (st_entries st) - n) (st_entries st)\<rparr>"

definition stream_ack :: "string \<Rightarrow> stream_id \<Rightarrow> rstream \<Rightarrow> rstream" where
  "stream_ack g i st = st\<lparr>st_groups := (\<lambda>h. if h = g then map_option (gr_pel_update (filter (\<lambda>p. fst p \<noteq> i))) (st_groups st g)
     else st_groups st h)\<rparr>"

definition stream_group :: "string \<Rightarrow> rstream \<Rightarrow> rstream" where
  "stream_group g st = (if st_groups st g = None then st\<lparr>st_groups := (st_groups st)(g \<mapsto> \<lparr>gr_last = (0, 0), gr_pel = []\<rparr>)\<rparr> else st)"

definition after :: "stream_id \<Rightarrow> rstream \<Rightarrow> entry list" where
  "after i st = filter (\<lambda>e. i < fst e) (st_entries st)"

definition find_entry :: "stream_id \<Rightarrow> rstream \<Rightarrow> sfields option" where
  "find_entry i st = map_of (st_entries st) i"

text \<open>\<open>XREADGROUP GROUP g consumer COUNT n STREAMS key >\<close>: the entries never delivered to the group so far; they go
  to its pending list.\<close>

definition stream_claim :: "string \<Rightarrow> string \<Rightarrow> nat \<Rightarrow> rstream \<Rightarrow> (entry list \<times> rstream) option" where
  "stream_claim g consumer n st =
     (case st_groups st g of
        None \<Rightarrow> None
      | Some gr \<Rightarrow>
          let es = take n (after (gr_last gr) st) in
          Some (es, if es = [] then st
            else st\<lparr>st_groups := (st_groups st)(g \<mapsto>
              \<lparr>gr_last = fst (last es), gr_pel = gr_pel gr @ map (\<lambda>e. (fst e, consumer)) es\<rparr>)\<rparr>))"

text \<open>The text of an id, and reading it back; \<open>None\<close> is the error \<open>Invalid stream ID\<close>.\<close>

definition id_text :: "stream_id \<Rightarrow> string" where
  "id_text i = show_nat (fst i) @ ''-'' @ show_nat (snd i)"

definition read_digits :: "string \<Rightarrow> nat option" where
  "read_digits s = (if s \<noteq> [] \<and> list_all is_digit s then Some (foldl (\<lambda>n c. 10 * n + (of_char c - 48)) 0 s) else None)"

definition read_id :: "string \<Rightarrow> stream_id option" where
  "read_id s = (let (a, b) = (takeWhile (\<lambda>c. c \<noteq> CHR ''-'') s, dropWhile (\<lambda>c. c \<noteq> CHR ''-'') s) in
     case (read_digits a, read_digits (tl b)) of (Some ms, Some sq) \<Rightarrow> Some (ms, sq) | _ \<Rightarrow> None)"

section \<open>The key space and commands\<close>

datatype rvalue = RStream rstream | RHash "string \<rightharpoonup> string" | RText string

datatype fault = Answered | Not_sent | Reply_lost

record redis =
  kv_keys :: "string \<rightharpoonup> rvalue \<times> time option"
  kv_clock :: time
  kv_faults :: "fault list"

definition lookup :: "redis \<Rightarrow> string \<Rightarrow> rvalue option" where
  "lookup s k = (case kv_keys s k of
     Some (v, e) \<Rightarrow> if (case e of None \<Rightarrow> False | Some x \<Rightarrow> x \<le> kv_clock s) then None else Some v
   | None \<Rightarrow> None)"

definition expiry :: "redis \<Rightarrow> string \<Rightarrow> time option" where
  "expiry s k = (if lookup s k = None then None else Option.bind (kv_keys s k) snd)"

text \<open>A write keeps the expiry of a living key; \<open>EXPIRE\<close> and \<open>PERSIST\<close> change it.\<close>

definition put :: "string \<Rightarrow> rvalue \<Rightarrow> redis \<Rightarrow> redis" where
  "put k v s = s\<lparr>kv_keys := (kv_keys s)(k \<mapsto> (v, expiry s k))\<rparr>"

definition set_expiry :: "string \<Rightarrow> time option \<Rightarrow> redis \<Rightarrow> redis" where
  "set_expiry k e s = (case lookup s k of None \<Rightarrow> s | Some v \<Rightarrow> s\<lparr>kv_keys := (kv_keys s)(k \<mapsto> (v, e))\<rparr>)"

definition remove :: "string \<Rightarrow> redis \<Rightarrow> redis" where
  "remove k s = s\<lparr>kv_keys := (kv_keys s)(k := None)\<rparr>"

definition clock_ms :: "redis \<Rightarrow> nat" where
  "clock_ms s = nat \<lfloor>1000 * kv_clock s\<rfloor>"

datatype 'a outcome = Value 'a | RedisError | ValueError | KeyError

type_synonym 'a rcomp = "redis \<Rightarrow> 'a outcome \<times> redis"

text \<open>One command: the fault it meets decides whether it runs and whether its reply arrives.\<close>

definition command :: "(redis \<Rightarrow> 'a outcome \<times> redis) \<Rightarrow> 'a rcomp" where
  "command f s =
     (let s' = s\<lparr>kv_faults := tl (kv_faults s)\<rparr> in
      case kv_faults s of
        [] \<Rightarrow> f s
      | Answered # _ \<Rightarrow> f s'
      | Not_sent # _ \<Rightarrow> (RedisError, s')
      | Reply_lost # _ \<Rightarrow> (RedisError, snd (f s')))"

definition ret :: "'a \<Rightarrow> 'a rcomp" where
  "ret x s = (Value x, s)"

definition raise_redis :: "'a rcomp" where
  "raise_redis s = (RedisError, s)"

definition raise_key :: "'a rcomp" where
  "raise_key s = (KeyError, s)"

definition raise_value :: "'a rcomp" where
  "raise_value s = (ValueError, s)"

definition rbind :: "'a rcomp \<Rightarrow> ('a \<Rightarrow> 'b rcomp) \<Rightarrow> 'b rcomp" where
  "rbind m k s = (case m s of (Value x, s') \<Rightarrow> k x s' | (RedisError, s') \<Rightarrow> (RedisError, s') | (ValueError, s') \<Rightarrow> (ValueError, s') | (KeyError, s') \<Rightarrow> (KeyError, s'))"

text \<open>\<open>except redis.RedisError: return v\<close>, and \<open>except Exception: return v\<close>.\<close>

definition on_redis_error :: "'a \<Rightarrow> 'a rcomp \<Rightarrow> 'a rcomp" where
  "on_redis_error v m s = (case m s of (RedisError, s') \<Rightarrow> (Value v, s') | r \<Rightarrow> r)"

definition on_exception :: "'a \<Rightarrow> 'a rcomp \<Rightarrow> 'a rcomp" where
  "on_exception v m s = (case m s of (Value x, s') \<Rightarrow> (Value x, s') | (_, s') \<Rightarrow> (Value v, s'))"

definition lift_value :: "'a option \<Rightarrow> 'a rcomp" where
  "lift_value x = (case x of None \<Rightarrow> raise_value | Some v \<Rightarrow> ret v)"

text \<open>The stream at a key: a missing key counts as an empty stream where the command creates it, and a key of
  another type is an error.\<close>

definition stream_at :: "redis \<Rightarrow> string \<Rightarrow> rstream option" where
  "stream_at s k = (case lookup s k of None \<Rightarrow> Some empty_stream | Some (RStream st) \<Rightarrow> Some st | _ \<Rightarrow> None)"

definition hash_at :: "redis \<Rightarrow> string \<Rightarrow> (string \<rightharpoonup> string) option" where
  "hash_at s k = (case lookup s k of None \<Rightarrow> Some Map.empty | Some (RHash h) \<Rightarrow> Some h | _ \<Rightarrow> None)"

text \<open>A block of commands that read or change an existing stream (\<open>XACK\<close>, \<open>XDEL\<close>, \<open>XTRIM\<close>): a missing stream stays missing.\<close>

definition change_stream :: "string \<Rightarrow> (rstream \<Rightarrow> rstream) \<Rightarrow> unit rcomp" where
  "change_stream k f = command (\<lambda>s. case lookup s k of
     None \<Rightarrow> (Value (), s) | Some (RStream st) \<Rightarrow> (Value (), put k (RStream (f st)) s) | _ \<Rightarrow> (RedisError, s))"

text \<open>A block of commands that creates the stream (\<open>XADD\<close>, \<open>XGROUP CREATE MKSTREAM\<close>).\<close>

definition make_stream :: "string \<Rightarrow> (nat \<Rightarrow> rstream \<Rightarrow> 'a \<times> rstream) \<Rightarrow> 'a rcomp" where
  "make_stream k f = command (\<lambda>s. case stream_at s k of
     None \<Rightarrow> (RedisError, s) | Some st \<Rightarrow> (let (x, st') = f (clock_ms s) st in (Value x, put k (RStream st') s)))"

definition read_stream :: "string \<Rightarrow> (rstream \<Rightarrow> 'a) \<Rightarrow> 'a rcomp" where
  "read_stream k f = command (\<lambda>s. case stream_at s k of None \<Rightarrow> (RedisError, s) | Some st \<Rightarrow> (Value (f st), s))"

definition read_hash :: "string \<Rightarrow> ((string \<rightharpoonup> string) \<Rightarrow> 'a) \<Rightarrow> 'a rcomp" where
  "read_hash k f = command (\<lambda>s. case hash_at s k of None \<Rightarrow> (RedisError, s) | Some h \<Rightarrow> (Value (f h), s))"

section \<open>Facts about commands\<close>

definition same_data :: "redis \<Rightarrow> redis \<Rightarrow> bool" where
  "same_data s s' \<longleftrightarrow> kv_keys s' = kv_keys s \<and> kv_clock s' = kv_clock s"

lemma lookup_cong: "kv_keys t k = kv_keys s k \<Longrightarrow> kv_clock t = kv_clock s \<Longrightarrow> lookup t k = lookup s k"
  by (auto simp: lookup_def split: option.splits)

lemma stream_at_cong: "kv_keys t k = kv_keys s k \<Longrightarrow> kv_clock t = kv_clock s \<Longrightarrow> stream_at t k = stream_at s k"
  using lookup_cong [of t k s] by (simp add: stream_at_def)

lemma lookup_faults [simp]: "lookup (s\<lparr>kv_faults := x\<rparr>) k = lookup s k"
  by (auto simp: lookup_def split: option.splits)

lemma faults_irrelevant [simp]:
  "expiry (s\<lparr>kv_faults := x\<rparr>) k = expiry s k" "clock_ms (s\<lparr>kv_faults := x\<rparr>) = clock_ms s"
  "stream_at (s\<lparr>kv_faults := x\<rparr>) k = stream_at s k" "hash_at (s\<lparr>kv_faults := x\<rparr>) k = hash_at s k"
  by (simp_all add: expiry_def stream_at_def hash_at_def clock_ms_def)

lemma lookup_put [simp]: "lookup (put k v s) k' = (if k' = k then Some v else lookup s k')"
  by (auto simp: lookup_def put_def expiry_def split: option.splits)

lemma expiry_put [simp]: "expiry (put k v s) k' = expiry s k'"
  by (auto simp: expiry_def lookup_def put_def split: option.splits)

lemma put_fields [simp]: "kv_clock (put k v s) = kv_clock s" "kv_faults (put k v s) = kv_faults s"
  by (simp_all add: put_def)

lemma lookup_set_expiry: "lookup (set_expiry k e s) k' =
    (if k' = k \<and> (case e of None \<Rightarrow> False | Some x \<Rightarrow> x \<le> kv_clock s) then None else lookup s k')"
  by (auto simp: lookup_def set_expiry_def split: option.splits if_splits)

lemma expiry_set_expiry: "expiry (set_expiry k e s) k' =
    (if k' = k \<and> lookup s k \<noteq> None then (case e of None \<Rightarrow> None | Some x \<Rightarrow> if x \<le> kv_clock s then None else Some x) else expiry s k')"
  by (auto simp: expiry_def lookup_def set_expiry_def split: option.splits if_splits)

lemma set_expiry_fields [simp]: "kv_clock (set_expiry k e s) = kv_clock s" "kv_faults (set_expiry k e s) = kv_faults s"
  by (simp_all add: set_expiry_def split: option.splits)

lemma expiry_remove: "k' \<noteq> k \<Longrightarrow> expiry (remove k s) k' = expiry s k'"
  by (auto simp: expiry_def lookup_def remove_def split: option.splits)

lemma lookup_remove [simp]: "lookup (remove k s) k' = (if k' = k then None else lookup s k')"
  by (auto simp: lookup_def remove_def split: option.splits)

lemma next_id_greater: "st_last st < next_id ms st"
  by (cases "st_last st") (auto simp: next_id_def less_prod_def less_eq_prod_def)

section \<open>Ids read back\<close>

lemma is_digit_char_of [simp]: "(n::nat) < 10 \<Longrightarrow> is_digit (char_of (48 + n))"
  by (simp add: is_digit_def)

lemma show_nat_digits: "show_nat n \<noteq> [] \<and> list_all is_digit (show_nat n)"
proof (induction n rule: show_nat.induct)
  case (1 n)
  then show ?case by (subst (1 2) show_nat.simps) auto
qed

lemma show_nat_value: "foldl (\<lambda>n c. 10 * n + (of_char c - 48)) 0 (show_nat n) = n"
proof (induction n rule: show_nat.induct)
  case (1 n)
  then show ?case by (subst show_nat.simps) auto
qed

lemma read_show_nat [simp]: "read_digits (show_nat n) = Some n"
  by (simp add: read_digits_def show_nat_digits show_nat_value)

lemma show_nat_no_dash: "c \<in> set (show_nat n) \<Longrightarrow> c \<noteq> CHR ''-''"
  using show_nat_digits [of n] by (auto simp: list_all_iff is_digit_def)

lemma read_id_text [simp]: "read_id (id_text i) = Some i"
proof -
  have "takeWhile (\<lambda>c. c \<noteq> CHR ''-'') (id_text i) = show_nat (fst i)" "dropWhile (\<lambda>c. c \<noteq> CHR ''-'') (id_text i) = CHR ''-'' # show_nat (snd i)"
    by (simp_all add: id_text_def takeWhile_append2 dropWhile_append2 show_nat_no_dash)
  then show ?thesis by (simp add: read_id_def)
qed

lemma id_text_inject [simp]: "id_text i = id_text j \<longleftrightarrow> i = j"
  by (metis option.inject read_id_text)

section \<open>Invariants of the key space\<close>

text \<open>A predicate on the data that a call keeps, whichever faults it meets. A call keeps it when each of its commands does.\<close>

definition keeps :: "(redis \<Rightarrow> bool) \<Rightarrow> 'a rcomp \<Rightarrow> bool" where
  "keeps good m \<longleftrightarrow> (\<forall>s. good s \<longrightarrow> good (snd (m s)))"

lemma keeps_goodD: "keeps good m \<Longrightarrow> good s \<Longrightarrow> good (snd (m s))"
  by (simp add: keeps_def)

locale redis_invariant =
  fixes good :: "redis \<Rightarrow> bool"
  assumes faults [simp]: "good (s\<lparr>kv_faults := x\<rparr>) \<longleftrightarrow> good s"
begin

lemma keeps_command: "(\<And>s. good s \<Longrightarrow> good (snd (f s))) \<Longrightarrow> keeps good (command f)"
proof -
  assume f: "\<And>s. good s \<Longrightarrow> good (snd (f s))"
  have "good (snd (f (s\<lparr>kv_faults := x\<rparr>)))" if "good s" for s x using f [of "s\<lparr>kv_faults := x\<rparr>"] that by simp
  then show ?thesis using f by (auto simp: keeps_def command_def Let_def split: list.splits fault.splits)
qed

lemma keeps_reads:
  "keeps good (read_stream k f)" "keeps good (read_hash k g)"
  unfolding read_stream_def read_hash_def by (rule keeps_command; auto split: option.splits)+

lemma keeps_bind: "keeps good m \<Longrightarrow> (\<And>x. keeps good (g x)) \<Longrightarrow> keeps good (rbind m g)"
  unfolding keeps_def
proof (intro allI impI)
  fix s assume m: "\<forall>s. good s \<longrightarrow> good (snd (m s))" and g: "\<And>x. \<forall>s. good s \<longrightarrow> good (snd (g x s))" and "good s"
  then show "good (snd (rbind m g s))" by (cases "m s"; cases "fst (m s)") (auto simp: rbind_def dest: spec [of _ s])
qed

lemma keeps_ends: "keeps good (ret x)" "keeps good raise_value" "keeps good raise_redis" "keeps good raise_key" "keeps good (lift_value v)"
  by (auto simp: keeps_def ret_def raise_value_def raise_redis_def raise_key_def lift_value_def split: option.splits)

lemma keeps_catch: "keeps good m \<Longrightarrow> keeps good (on_redis_error x m)" "keeps good m \<Longrightarrow> keeps good (on_exception x m)"
proof -
  have "snd (on_redis_error x m s) = snd (m s)" "snd (on_exception x m s) = snd (m s)" for s
    by (auto simp: on_redis_error_def on_exception_def split: prod.splits outcome.splits)
  then show "keeps good m \<Longrightarrow> keeps good (on_redis_error x m)" "keeps good m \<Longrightarrow> keeps good (on_exception x m)" by (simp_all add: keeps_def)
qed

lemma keeps_lift: "(\<And>x. v = Some x \<Longrightarrow> keeps good (g x)) \<Longrightarrow> keeps good (rbind (lift_value v) g)"
  by (cases v) (auto simp: keeps_def rbind_def lift_value_def ret_def raise_value_def)

lemmas keeps_intros = keeps_bind keeps_ends keeps_catch keeps_reads

end

end
