(* ===== verification/Priority_Contract.thy ===== *)
theory Priority_Contract
  imports Prelude
begin

text \<open>
  The priority contract of \<open>scripts/gpu_manager_contracts.py\<close>: a request carries a number in one of three
  conventions or a named class, and is translated into the broker's lanes; a child request may not
  outrank its parent. The text of the messages is not kept, only which check fails.
\<close>

section \<open>Conventions and classes\<close>

datatype PriorityConvention = GENERATION_HIGHER_IS_URGENT | LEGACY_LOWER_IS_URGENT | BROKER_LOWER_IS_URGENT

datatype PriorityClass = P_INTERACTIVE | P_NORMAL | P_BACKGROUND

fun convention_text :: "PriorityConvention \<Rightarrow> string" where
  "convention_text GENERATION_HIGHER_IS_URGENT = ''generation_higher_is_urgent''"
| "convention_text LEGACY_LOWER_IS_URGENT = ''legacy_lower_is_urgent''"
| "convention_text BROKER_LOWER_IS_URGENT = ''broker_lower_is_urgent''"

fun class_text :: "PriorityClass \<Rightarrow> string" where
  "class_text P_INTERACTIVE = ''interactive''"
| "class_text P_NORMAL = ''normal''"
| "class_text P_BACKGROUND = ''background''"

fun class_rank :: "PriorityClass \<Rightarrow> int" where
  "class_rank P_INTERACTIVE = 0"
| "class_rank P_NORMAL = 1"
| "class_rank P_BACKGROUND = 2"

fun broker_value :: "PriorityClass \<Rightarrow> int" where
  "broker_value P_INTERACTIVE = 0"
| "broker_value P_NORMAL = 10"
| "broker_value P_BACKGROUND = 20"

text \<open>\<open>PriorityConvention(value)\<close>, and the lookup of a class name or one of its synonyms.\<close>

definition convention_of :: "pyval \<Rightarrow> PriorityConvention option" where
  "convention_of v =
     find (\<lambda>c. v = PStr (convention_text c)) [GENERATION_HIGHER_IS_URGENT, LEGACY_LOWER_IS_URGENT, BROKER_LOWER_IS_URGENT]"

definition priority_names :: "(string \<times> PriorityClass) list" where
  "priority_names = [(''interactive'', P_INTERACTIVE), (''high'', P_INTERACTIVE), (''urgent'', P_INTERACTIVE),
     (''normal'', P_NORMAL), (''medium'', P_NORMAL), (''med'', P_NORMAL), (''background'', P_BACKGROUND), (''low'', P_BACKGROUND)]"

definition class_of :: "pyval \<Rightarrow> PriorityClass option" where
  "class_of v = (case v of PStr s \<Rightarrow> map_of priority_names (lower s) | _ \<Rightarrow> None)"

section \<open>Envelopes\<close>

record PriorityEnvelope =
  pe_raw :: int
  pe_class :: PriorityClass
  pe_broker_priority :: int
  pe_convention :: PriorityConvention

definition envelope_rank :: "PriorityEnvelope \<Rightarrow> int" where
  "envelope_rank e = class_rank (pe_class e)"

definition to_priority_fields :: "PriorityEnvelope \<Rightarrow> pydict" where
  "to_priority_fields e = [(''priority'', PInt (pe_raw e)), (''priority_class'', PStr (class_text (pe_class e))),
     (''broker_priority'', PInt (pe_broker_priority e)), (''priority_convention'', PStr (convention_text (pe_convention e)))]"

datatype priority_error = Bad_convention | Unknown_priority_class | Priority_not_an_integer | Elevation_not_authorized

type_synonym 'a priority_result = "priority_error + 'a"

definition coerce_int :: "pyval \<Rightarrow> int priority_result" where
  "coerce_int v =
     (case v of
        PInt i \<Rightarrow> Inr i
      | PFloat x \<Rightarrow> if x = of_int \<lfloor>x\<rfloor> then Inr \<lfloor>x\<rfloor> else Inl Priority_not_an_integer
      | PStr s \<Rightarrow> (case int_text s of None \<Rightarrow> Inl Priority_not_an_integer | Some i \<Rightarrow> Inr i)
      | _ \<Rightarrow> Inl Priority_not_an_integer)"

definition class_for_numeric :: "int \<Rightarrow> PriorityConvention \<Rightarrow> PriorityClass" where
  "class_for_numeric value convention =
     (case convention of
        GENERATION_HIGHER_IS_URGENT \<Rightarrow>
          if value \<ge> 60 then P_INTERACTIVE else if value \<ge> 10 then P_NORMAL else P_BACKGROUND
      | _ \<Rightarrow> if value \<le> 3 then P_INTERACTIVE else if value \<le> 10 then P_NORMAL else P_BACKGROUND)"

definition priority_envelope :: "pyval \<Rightarrow> pyval \<Rightarrow> pyval \<Rightarrow> PriorityEnvelope priority_result" where
  "priority_envelope value priority_class convention =
     (case convention_of convention of
        None \<Rightarrow> Inl Bad_convention
      | Some conv \<Rightarrow>
          if priority_class \<noteq> PNone
          then (case class_of priority_class of
                  None \<Rightarrow> Inl Unknown_priority_class
                | Some cls \<Rightarrow>
                    map_sum id (\<lambda>raw. \<lparr>pe_raw = raw, pe_class = cls, pe_broker_priority = broker_value cls, pe_convention = conv\<rparr>)
                      (if value = PNone then Inr (broker_value cls) else coerce_int value))
          else
            map_sum id (\<lambda>raw. let cls = class_for_numeric raw conv in
                \<lparr>pe_raw = raw, pe_class = cls, pe_broker_priority = broker_value cls, pe_convention = conv\<rparr>)
              (if value = PNone then Inr (if conv = GENERATION_HIGHER_IS_URGENT then 50 else 10) else coerce_int value))"

text \<open>The envelope the fields of a payload describe.\<close>

definition payload_envelope :: "pydict \<Rightarrow> PriorityConvention \<Rightarrow> PriorityEnvelope priority_result" where
  "payload_envelope d convention =
     priority_envelope (dget d ''priority'') (dget d ''priority_class'')
       (dget_or d ''priority_convention'' (PStr (convention_text convention)))"

definition dict_update :: "pydict \<Rightarrow> pydict \<Rightarrow> pydict" where
  "dict_update d upd = foldl (\<lambda>acc (k, v). set_key acc k v) d upd"

definition apply_priority_contract ::
  "pydict \<Rightarrow> pydict \<Rightarrow> PriorityConvention \<Rightarrow> bool \<Rightarrow> pydict priority_result" where
  "apply_priority_contract payload parent convention allow_elevation =
     (case (if parent = [] then Inr None else map_sum id Some (payload_envelope parent convention)) of
        Inl e \<Rightarrow> Inl e
      | Inr parent_env \<Rightarrow>
          let has_child = has_key payload ''priority'' \<or> has_key payload ''priority_class'' in
          (case (has_child, parent_env) of
             (False, Some pe) \<Rightarrow>
               Inr (set_key (dict_update payload (to_priority_fields pe)) ''priority_source'' (PStr ''parent''))
           | _ \<Rightarrow>
               (case payload_envelope payload convention of
                  Inl e \<Rightarrow> Inl e
                | Inr env \<Rightarrow>
                    if (case parent_env of None \<Rightarrow> False | Some pe \<Rightarrow> envelope_rank env < envelope_rank pe) \<and> \<not> allow_elevation
                    then Inl Elevation_not_authorized
                    else let result = dict_update payload (to_priority_fields env) in
                      Inr (if has_key result ''priority_source'' then result
                           else set_key result ''priority_source'' (PStr ''request'')))))"

section \<open>The contract\<close>

lemma map_of_set_key [simp]: "map_of (set_key d k v) = (map_of d)(k \<mapsto> v)"
proof (cases "k \<in> fst ` set d")
  case True
  moreover have "map_of (map (\<lambda>(a, b). if a = k then (a, v) else (a, b)) d)
      = (\<lambda>x. if x = k then (if k \<in> fst ` set d then Some v else None) else map_of d x)"
    by (induction d) auto
  ultimately show ?thesis by (auto simp: set_key_def)
next
  case False
  then have "map_of d k = None" by (simp add: map_of_eq_None_iff)
  with False show ?thesis by (auto simp: set_key_def map_add_def split: option.splits)
qed

text \<open>A key whose every entry holds \<open>v\<close> is not changed by storing \<open>v\<close> again.\<close>

definition holds_at :: "pydict \<Rightarrow> string \<Rightarrow> pyval \<Rightarrow> bool" where
  "holds_at d k v \<longleftrightarrow> (\<exists>b. (k, b) \<in> set d) \<and> (\<forall>b. (k, b) \<in> set d \<longrightarrow> b = v)"

lemma in_set_key: "(a, b) \<in> set (set_key d k v) \<longleftrightarrow> (if a = k then b = v else (a, b) \<in> set d)"
proof (cases "k \<in> fst ` set d")
  case True
  moreover have "(a, b) \<in> set (map (\<lambda>(x, y). if x = k then (x, v) else (x, y)) xs) \<longleftrightarrow>
      (if a = k then k \<in> fst ` set xs \<and> b = v else (a, b) \<in> set xs)" for xs
    by (induction xs) (auto split: prod.splits if_split_asm)
  ultimately show ?thesis unfolding set_key_def by simp
qed (auto simp: set_key_def image_iff)

lemma holds_at_set_key: "holds_at (set_key d k v) k' v' \<longleftrightarrow> (if k = k' then v = v' else holds_at d k' v')"
  by (auto simp: holds_at_def in_set_key)

lemma set_key_holds: "holds_at d k v \<Longrightarrow> set_key d k v = d"
  by (force simp: holds_at_def set_key_def intro!: map_idI)

lemma dict_update_fields:
  "dict_update d (to_priority_fields e) =
     set_key (set_key (set_key (set_key d ''priority'' (PInt (pe_raw e))) ''priority_class'' (PStr (class_text (pe_class e))))
       ''broker_priority'' (PInt (pe_broker_priority e))) ''priority_convention'' (PStr (convention_text (pe_convention e)))"
  by (simp add: dict_update_def to_priority_fields_def)

lemma class_of_text [simp]: "class_of (PStr (class_text c)) = Some c"
  by (cases c) (simp_all add: class_of_def priority_names_def lower_def lower_char_def)

lemma convention_of_text [simp]: "convention_of (PStr (convention_text c)) = Some c"
  by (cases c) (simp_all add: convention_of_def)

lemma envelope_broker: "payload_envelope d c = Inr e \<Longrightarrow> pe_broker_priority e = broker_value (pe_class e)"
  by (auto simp: payload_envelope_def priority_envelope_def Let_def map_sum_Inr split: option.splits if_splits)

text \<open>The fields an envelope is written to describe the same envelope.\<close>

lemma envelope_round_trip:
  assumes "map_of d ''priority'' = Some (PInt (pe_raw e))" and "map_of d ''priority_class'' = Some (PStr (class_text (pe_class e)))"
    and "map_of d ''priority_convention'' = Some (PStr (convention_text (pe_convention e)))"
    and "pe_broker_priority e = broker_value (pe_class e)"
  shows "payload_envelope d c = Inr e"
  using assms by (simp add: payload_envelope_def priority_envelope_def dget_def dget_or_def coerce_int_def)

text \<open>The result of the contract: the fields of an envelope and a source.\<close>

definition dict_fields_of :: "pydict \<Rightarrow> PriorityEnvelope \<Rightarrow> pydict \<Rightarrow> bool" where
  "dict_fields_of payload e result \<longleftrightarrow>
     (let base = dict_update payload (to_priority_fields e) in
      result = base \<and> has_key base ''priority_source'' \<or> (\<exists>src. result = set_key base ''priority_source'' src))"

lemma map_of_holds: "holds_at d k v \<Longrightarrow> map_of d k = Some v"
  by (cases "map_of d k") (force simp: holds_at_def map_of_eq_None_iff dest: map_of_SomeD)+

text \<open>C39. A child never outranks its parent. Unless the elevation is authorized, the fields that the contract
  writes into a child's payload describe a priority that is at most as urgent as the parent's, carry the broker's lane of that class,
  and are stable: contracting the result again under the same parent changes nothing.\<close>

theorem child_never_outranks_parent:
  assumes "apply_priority_contract payload parent convention False = Inr result" and "parent \<noteq> []"
  shows "\<exists>pe e. payload_envelope parent convention = Inr pe \<and> payload_envelope result convention = Inr e
     \<and> envelope_rank pe \<le> envelope_rank e \<and> dget result ''broker_priority'' = PInt (broker_value (pe_class e))
     \<and> apply_priority_contract result parent convention False = Inr result"
proof -
  obtain pe where pe: "payload_envelope parent convention = Inr pe"
    using assms by (auto simp: apply_priority_contract_def map_sum_Inr split: sum.splits)
  obtain e where r: "dict_fields_of payload e result"
      and e: "envelope_rank pe \<le> envelope_rank e" "pe_broker_priority e = broker_value (pe_class e)"
  proof (cases "has_key payload ''priority'' \<or> has_key payload ''priority_class''")
    case True
    then obtain e where "payload_envelope payload convention = Inr e" "\<not> envelope_rank e < envelope_rank pe"
        "dict_fields_of payload e result"
      using assms pe by (auto simp: apply_priority_contract_def dict_fields_of_def Let_def split: sum.splits if_splits)
    with that envelope_broker [of payload convention e] show ?thesis by auto
  next
    case False
    then have "dict_fields_of payload pe result"
      using assms pe by (auto simp: apply_priority_contract_def dict_fields_of_def Let_def)
    with that [of pe] envelope_broker [OF pe] show ?thesis by simp
  qed
  have f: "holds_at result ''priority'' (PInt (pe_raw e))" "holds_at result ''priority_class'' (PStr (class_text (pe_class e)))"
      "holds_at result ''broker_priority'' (PInt (pe_broker_priority e))"
      "holds_at result ''priority_convention'' (PStr (convention_text (pe_convention e)))"
    using r by (auto simp: dict_fields_of_def dict_update_fields holds_at_set_key Let_def)
  have src: "has_key result ''priority_source''" using r by (auto simp: dict_fields_of_def has_key_def Let_def)
  note l = map_of_holds
  have env: "payload_envelope result convention = Inr e"
    by (rule envelope_round_trip) (use f e(2) l in auto)
  have upd: "dict_update result (to_priority_fields e) = result"
    using f by (simp add: dict_update_fields set_key_holds)
  have "apply_priority_contract result parent convention False = Inr result"
    using assms(2) pe env e(1) src upd l [OF f(1)] by (simp add: apply_priority_contract_def Let_def has_key_def)
  with pe env e l [OF f(3)] show ?thesis by (auto simp: dget_def)
qed

theorem child_never_outranks_parent_witness:
  "apply_priority_contract [(''prompt'', PStr ''x'')] [(''priority_class'', PStr ''low'')] GENERATION_HIGHER_IS_URGENT False =
     Inr [(''prompt'', PStr ''x''), (''priority'', PInt 20), (''priority_class'', PStr ''background''), (''broker_priority'', PInt 20),
          (''priority_convention'', PStr ''generation_higher_is_urgent''), (''priority_source'', PStr ''parent'')]
   \<and> (\<exists>e. payload_envelope [(''prompt'', PStr ''x''), (''priority'', PInt 20), (''priority_class'', PStr ''background''),
          (''broker_priority'', PInt 20), (''priority_convention'', PStr ''generation_higher_is_urgent''),
          (''priority_source'', PStr ''parent'')] GENERATION_HIGHER_IS_URGENT = Inr e \<and> 2 \<le> envelope_rank e)"
proof -
  let ?r = "[(''prompt'', PStr ''x''), (''priority'', PInt 20), (''priority_class'', PStr ''background''), (''broker_priority'', PInt 20),
          (''priority_convention'', PStr ''generation_higher_is_urgent''), (''priority_source'', PStr ''parent'')]"
  have pe: "payload_envelope [(''priority_class'', PStr ''low'')] GENERATION_HIGHER_IS_URGENT =
      Inr \<lparr>pe_raw = 20, pe_class = P_BACKGROUND, pe_broker_priority = 20, pe_convention = GENERATION_HIGHER_IS_URGENT\<rparr>"
    by (simp add: payload_envelope_def priority_envelope_def dget_def dget_or_def convention_of_def class_of_def
        priority_names_def lower_def lower_char_def)
  have run: "apply_priority_contract [(''prompt'', PStr ''x'')] [(''priority_class'', PStr ''low'')]
      GENERATION_HIGHER_IS_URGENT False = Inr ?r"
    by (simp add: apply_priority_contract_def pe has_key_def dict_update_fields set_key_def)
  from child_never_outranks_parent [OF run] pe run show ?thesis by (auto simp: envelope_rank_def)
qed

end
