(* ===== verification/Queue_Engine.thy ===== *)
theory Queue_Engine
  imports Redis_Model Priority_Contract "HOL-Library.AList" "HOL-Library.Sublist"
begin

text \<open>
  \<open>RedisQueue\<close> and \<open>AsyncRedisQueue\<close> of \<open>scripts/queue_engine.py\<close>: jobs are entries of Redis streams, one stream for each
  service or routing group, or three lanes by priority and the old stream. A worker claims entries through the
  consumer group, acknowledges or refuses them, and an entry refused too often goes to a dead letter stream.
  \<open>strf\<close> is \<open>str()\<close> of a value that is not a string, \<open>jsonf\<close> is \<open>json.dumps\<close>, \<open>stamp\<close> the text of the current time.
\<close>

section \<open>Names, lanes and handles\<close>

definition GROUP :: string where
  "GROUP = ''workers''"

definition EXACT_DEAD_LETTER_CAP :: nat where
  "EXACT_DEAD_LETTER_CAP = 100"

definition DEAD_LETTER_AUDIT_STREAM :: string where
  "DEAD_LETTER_AUDIT_STREAM = ''dead-letter:audit''"

definition DEAD_LETTER_METRICS_HASH :: string where
  "DEAD_LETTER_METRICS_HASH = ''dead-letter:metrics''"

definition dead_letter_stream :: "string \<Rightarrow> string" where
  "dead_letter_stream service_name = ''dead-letter:'' @ service_name"

definition PRIORITY_LANES :: "string list" where
  "PRIORITY_LANES = [''interactive'', ''normal'', ''background'']"

definition lane_rank :: "string \<Rightarrow> int option" where
  "lane_rank lane = map_of [(''interactive'', 0), (''normal'', 1), (''background'', 2)] lane"

definition priority_lane :: "(pyval \<Rightarrow> string) \<Rightarrow> pydict \<Rightarrow> string option" where
  "priority_lane strf contracted =
     (let v = dget contracted ''priority_class'';
          lane = lower (strip (if truthy v then py_str strf v else ''normal''))
      in if lane \<in> set PRIORITY_LANES then Some lane else None)"

definition authority :: "string \<Rightarrow> string option \<Rightarrow> string" where
  "authority service_name routing_group = (if opt_true routing_group then the routing_group else service_name)"

definition lane_stream_name :: "string \<Rightarrow> string option \<Rightarrow> string \<Rightarrow> string option" where
  "lane_stream_name service_name routing_group lane =
     (if authority service_name routing_group = [] then None
      else if lane \<notin> set PRIORITY_LANES then None
      else Some (''queue:'' @ authority service_name routing_group @ '':lane:'' @ lane))"

definition legacy_stream_name :: "string \<Rightarrow> string option \<Rightarrow> string option" where
  "legacy_stream_name service_name routing_group =
     (if authority service_name routing_group = [] then None else Some (''queue:'' @ authority service_name routing_group))"

definition entry_handle :: "string \<Rightarrow> string \<Rightarrow> string" where
  "entry_handle lane entry_id = ''lane:'' @ lane @ '':'' @ entry_id"

text \<open>\<open>_parse_entry_handle\<close>: stream, raw id and lane; \<open>None\<close> is the \<open>ValueError\<close>.\<close>

definition parse_entry_handle :: "string \<Rightarrow> string \<Rightarrow> string option \<Rightarrow> (string \<times> string \<times> string option) option" where
  "parse_entry_handle text service_name routing_group =
     (if prefix ''lane:'' text
      then let rest = drop 5 text; lane = takeWhile (\<lambda>c. c \<noteq> CHR '':'') rest; raw = dropWhile (\<lambda>c. c \<noteq> CHR '':'') rest in
        if raw = [] \<or> lane \<notin> set PRIORITY_LANES \<or> tl raw = [] then None
        else map_option (\<lambda>st. (st, tl raw, Some lane)) (lane_stream_name service_name routing_group lane)
      else map_option (\<lambda>st. (st, text, None)) (legacy_stream_name service_name routing_group))"

text \<open>\<open>_priority_age_score\<close> of a Redis id, ordered lexicographically.\<close>

type_synonym score = "int \<times> real \<times> int"

definition entry_age :: "stream_id \<Rightarrow> time \<Rightarrow> real" where
  "entry_age i now = max 0 (now - real (fst i) / 1000)"

definition age_boost :: "stream_id \<Rightarrow> time \<Rightarrow> real \<Rightarrow> int \<Rightarrow> int" where
  "age_boost i now aging_interval aging_cap = min (max 0 aging_cap) \<lfloor>entry_age i now / max 1 aging_interval\<rfloor>"

definition lane_base :: "string option \<Rightarrow> int" where
  "lane_base lane = 2 - (case Option.bind lane lane_rank of Some r \<Rightarrow> r | None \<Rightarrow> 1)"

definition priority_age_score :: "string option \<Rightarrow> stream_id \<Rightarrow> time \<Rightarrow> real \<Rightarrow> int \<Rightarrow> score" where
  "priority_age_score lane i now aging_interval aging_cap =
     (lane_base lane + age_boost i now aging_interval aging_cap, entry_age i now, - int (fst i))"

section \<open>Configuration and streams of a service\<close>

record RedisQueue =
  rq_externally_owned :: "string list"
  rq_lanes_enabled :: bool
  rq_aging_interval :: real
  rq_aging_cap :: int

definition new_queue :: "string list \<Rightarrow> bool \<Rightarrow> real \<Rightarrow> int \<Rightarrow> RedisQueue" where
  "new_queue externally_owned lanes interval cap =
     \<lparr>rq_externally_owned = externally_owned, rq_lanes_enabled = lanes, rq_aging_interval = max 1 interval, rq_aging_cap = max 0 cap\<rparr>"

definition queue_stream :: "string \<Rightarrow> string option \<Rightarrow> string option" where
  "queue_stream service_name routing_group =
     (if opt_true routing_group then Some (''queue:'' @ the routing_group)
      else if service_name \<noteq> [] then Some (''queue:'' @ service_name) else None)"

definition stream_specs :: "RedisQueue \<Rightarrow> string \<Rightarrow> string option \<Rightarrow> (string \<times> string option) list option" where
  "stream_specs q service_name routing_group =
     (case queue_stream service_name routing_group of
        None \<Rightarrow> None
      | Some legacy \<Rightarrow>
          if \<not> rq_lanes_enabled q then Some [(legacy, None)]
          else Some (map (\<lambda>lane. (the (lane_stream_name service_name routing_group lane), Some lane)) PRIORITY_LANES @ [(legacy, None)]))"

definition create_group :: "string \<Rightarrow> unit rcomp" where
  "create_group stream = make_stream stream (\<lambda>ms st. ((), stream_group GROUP st))"

definition ensure_group :: "string \<Rightarrow> string option \<Rightarrow> unit rcomp" where
  "ensure_group service_name routing_group = rbind (lift_value (queue_stream service_name routing_group)) create_group"

section \<open>Enqueue\<close>

definition field_text :: "(pyval \<Rightarrow> string) \<Rightarrow> (pyval \<Rightarrow> string) \<Rightarrow> pyval \<Rightarrow> string" where
  "field_text strf jsonf v = (case v of PDict _ \<Rightarrow> jsonf v | PList _ \<Rightarrow> jsonf v | _ \<Rightarrow> py_str strf v)"

definition default_convention :: "pydict \<Rightarrow> PriorityConvention" where
  "default_convention job_data =
     (if dget job_data ''routing_group_type'' = PStr ''generation'' then GENERATION_HIGHER_IS_URGENT else LEGACY_LOWER_IS_URGENT)"

text \<open>The payload of a job and the stream it goes to. A convention in \<open>job_data\<close> is read from there by the contract itself.\<close>

definition job_payload ::
  "(pyval \<Rightarrow> string) \<Rightarrow> (pyval \<Rightarrow> string) \<Rightarrow> string \<Rightarrow> RedisQueue \<Rightarrow> string \<Rightarrow> string option \<Rightarrow> pydict
     \<Rightarrow> (string \<times> string option \<times> sfields) option" where
  "job_payload strf jsonf stamp q service_name routing_group job_data =
     (case apply_priority_contract job_data [] (default_convention job_data) False of
        Inl _ \<Rightarrow> None
      | Inr contracted \<Rightarrow>
          (case (priority_lane strf contracted, queue_stream service_name routing_group) of
             (Some lane, Some legacy) \<Rightarrow>
               if rq_lanes_enabled q
               then let dated = (if has_key contracted ''enqueued_at'' then contracted else set_key contracted ''enqueued_at'' (PStr stamp));
                        laned = set_key dated ''priority_lane'' (PStr lane) in
                 map_option (\<lambda>stream. (stream, Some lane, map (map_prod id (field_text strf jsonf)) laned))
                   (lane_stream_name service_name routing_group lane)
               else Some (legacy, None, map (map_prod id (field_text strf jsonf)) contracted)
           | _ \<Rightarrow> None))"

definition handle_of :: "string option \<Rightarrow> stream_id \<Rightarrow> string" where
  "handle_of lane i = (case lane of None \<Rightarrow> id_text i | Some l \<Rightarrow> entry_handle l (id_text i))"

definition tracker_key :: "string \<Rightarrow> string" where
  "tracker_key job_id = ''job:'' @ job_id"

text \<open>The script of a tracked child job: identity and stream entry are written together, once.\<close>

definition tracked_effect :: "string \<Rightarrow> string \<Rightarrow> sfields \<Rightarrow> sfields \<Rightarrow> string \<Rightarrow> string option \<Rightarrow> string rcomp" where
  "tracked_effect key stream payload tracked sha lane s =
     (case (lookup s key, stream_at s stream) of
       (Some (RHash h), Some _) \<Rightarrow>
         if h ''request_sha256'' \<noteq> Some sha then (RedisError, s)
         else (case h ''entry_id'' of None \<Rightarrow> (RedisError, s) | Some prior \<Rightarrow> (Value prior, s))
     | (None, Some st) \<Rightarrow>
         let handle = handle_of lane (next_id (clock_ms s) st);
             s1 = put stream (RStream (stream_add (clock_ms s) payload st)) s
         in (Value handle, put key (RHash ((map_of tracked)(''entry_id'' \<mapsto> handle))) s1)
     | _ \<Rightarrow> (RedisError, s))"

definition tracked_script :: "string \<Rightarrow> string \<Rightarrow> sfields \<Rightarrow> sfields \<Rightarrow> string \<Rightarrow> string option \<Rightarrow> string rcomp" where
  "tracked_script key stream payload tracked sha lane = command (tracked_effect key stream payload tracked sha lane)"

definition tracked_record :: "(pyval \<Rightarrow> string) \<Rightarrow> pydict \<Rightarrow> sfields" where
  "tracked_record strf tracked_job = map (map_prod id (py_str strf)) (filter (\<lambda>p. snd p \<noteq> PNone) tracked_job)"

definition enqueue ::
  "(pyval \<Rightarrow> string) \<Rightarrow> (pyval \<Rightarrow> string) \<Rightarrow> string \<Rightarrow> RedisQueue \<Rightarrow> string \<Rightarrow> pydict \<Rightarrow> string option \<Rightarrow> pydict option \<Rightarrow> string option rcomp" where
  "enqueue strf jsonf stamp q service_name job_data routing_group tracked_job =
     on_redis_error None
       (rbind (ensure_group service_name routing_group) (\<lambda>_.
        rbind (lift_value (job_payload strf jsonf stamp q service_name routing_group job_data)) (\<lambda>(stream, lane, payload).
        case tracked_job of
          Some tracked \<Rightarrow>
            let tr = tracked_record strf tracked in
            (case (map_of tr ''job_id'', map_of tr ''request_sha256'') of
               (Some job_id, Some sha) \<Rightarrow> rbind (tracked_script (tracker_key job_id) stream payload tr sha lane) (\<lambda>h. ret (Some h))
             | _ \<Rightarrow> raise_key)
        | None \<Rightarrow>
            rbind (make_stream stream (\<lambda>ms st. (next_id ms st, stream_add ms payload st))) (\<lambda>i. ret (Some (handle_of lane i))))))"

section \<open>Dequeue\<close>

text \<open>\<open>stream_text.rsplit(":lane:", 1)[-1]\<close> where it occurs.\<close>

primrec lane_suffix :: "string \<Rightarrow> string option" where
  "lane_suffix [] = None"
| "lane_suffix (c # cs) =
     (case lane_suffix cs of Some l \<Rightarrow> Some l | None \<Rightarrow> if prefix '':lane:'' (c # cs) then Some (drop 5 cs) else None)"

definition decode_claimed_entries :: "(string \<times> entry list) list \<Rightarrow> string option \<Rightarrow> sfields list" where
  "decode_claimed_entries streams selected_lane =
     concat (map (\<lambda>(stream, es).
       let lane = (if selected_lane = None then lane_suffix stream else selected_lane) in
       map (\<lambda>(i, fs). AList.update ''_entry_id''
         (case lane of Some l \<Rightarrow> if l \<in> set PRIORITY_LANES then entry_handle l (id_text i) else id_text i | None \<Rightarrow> id_text i) fs) es) streams)"

fun claim_streams :: "string \<Rightarrow> nat \<Rightarrow> string list \<Rightarrow> redis \<Rightarrow> ((string \<times> entry list) list \<times> redis) option" where
  "claim_streams consumer n [] s = Some ([], s)"
| "claim_streams consumer n (k # ks) s =
     (case lookup s k of
        Some (RStream st) \<Rightarrow>
          (case stream_claim GROUP consumer n st of
             None \<Rightarrow> None
           | Some (es, st') \<Rightarrow>
               (case claim_streams consumer n ks (if es = [] then s else put k (RStream st') s) of
                  None \<Rightarrow> None
                | Some (rest, s') \<Rightarrow> Some (if es = [] then rest else (k, es) # rest, s')))
      | _ \<Rightarrow> None)"

definition xreadgroup :: "string \<Rightarrow> nat \<Rightarrow> string list \<Rightarrow> (string \<times> entry list) list rcomp" where
  "xreadgroup consumer n ks = (if n = 0 then raise_redis else command (\<lambda>s.
     case claim_streams consumer n ks s of None \<Rightarrow> (RedisError, s) | Some (r, s') \<Rightarrow> (Value r, s')))"

definition group_position :: "string \<Rightarrow> stream_id rcomp" where
  "group_position stream = command (\<lambda>s. case lookup s stream of
     Some (RStream st) \<Rightarrow> (Value (case st_groups st GROUP of None \<Rightarrow> (0, 0) | Some g \<Rightarrow> gr_last g), s) | _ \<Rightarrow> (RedisError, s))"

definition peek_head :: "string \<Rightarrow> stream_id option rcomp" where
  "peek_head stream = rbind (group_position stream) (\<lambda>i.
     read_stream stream (\<lambda>st. case after i st of [] \<Rightarrow> None | e # _ \<Rightarrow> Some (fst e)))"

fun ready_heads ::
  "(string \<Rightarrow> stream_id option rcomp) \<Rightarrow> RedisQueue \<Rightarrow> time \<Rightarrow> (string \<times> string option) list \<Rightarrow> (score \<times> string \<times> string option) list rcomp" where
  "ready_heads peek q now [] = ret []"
| "ready_heads peek q now ((stream, lane) # specs) =
     rbind (peek stream) (\<lambda>h. rbind (ready_heads peek q now specs) (\<lambda>cs.
       ret (case h of None \<Rightarrow> cs | Some i \<Rightarrow> (priority_age_score lane i now (rq_aging_interval q) (rq_aging_cap q), stream, lane) # cs)))"

text \<open>\<open>max(candidates, key=...)\<close>: the first candidate with the largest score.\<close>

fun best_candidate :: "(score \<times> 'a) list \<Rightarrow> score \<times> 'a" where
  "best_candidate [c] = c"
| "best_candidate (c # d # cs) = best_candidate ((if fst d > fst c then d else c) # cs)"

fun create_groups :: "string list \<Rightarrow> unit rcomp" where
  "create_groups [] = ret ()"
| "create_groups (k # ks) = rbind (create_group k) (\<lambda>_. create_groups ks)"

text \<open>The body both queues share; they differ in what a failed look at a stream does.\<close>

definition dequeue_body ::
  "(string \<Rightarrow> stream_id option rcomp) \<Rightarrow> RedisQueue \<Rightarrow> string \<Rightarrow> string \<Rightarrow> nat \<Rightarrow> string option \<Rightarrow> time \<Rightarrow> sfields list rcomp" where
  "dequeue_body peek q service_name consumer n routing_group now =
     rbind (lift_value (stream_specs q service_name routing_group)) (\<lambda>specs.
     rbind (create_groups (map fst specs)) (\<lambda>_.
     rbind (if rq_lanes_enabled q then ready_heads peek q now specs else ret []) (\<lambda>candidates.
     if candidates \<noteq> []
     then let (_, stream, lane) = best_candidate candidates in
       rbind (xreadgroup consumer n [stream]) (\<lambda>r. ret (decode_claimed_entries r lane))
     else rbind (xreadgroup consumer n (map fst specs)) (\<lambda>r. ret (decode_claimed_entries r None)))))"

definition dequeue :: "RedisQueue \<Rightarrow> string \<Rightarrow> string \<Rightarrow> nat \<Rightarrow> string option \<Rightarrow> time \<Rightarrow> sfields list rcomp" where
  "dequeue q service_name consumer n routing_group now =
     on_redis_error [] (dequeue_body (\<lambda>k. on_redis_error None (peek_head k)) q service_name consumer n routing_group now)"

section \<open>Acknowledge, refuse, dead letters\<close>

text \<open>The transaction of \<open>ack\<close>. On a malformed id \<open>XACK\<close> and \<open>XDEL\<close> fail inside the transaction, which then reports the error, while \<open>XTRIM\<close> runs.\<close>

definition settle_entry :: "stream_id \<Rightarrow> rstream \<Rightarrow> rstream" where
  "settle_entry i st = stream_del i (stream_ack GROUP i st)"

definition ack_body :: "string \<Rightarrow> string \<Rightarrow> string option \<Rightarrow> bool rcomp" where
  "ack_body service_name entry_id routing_group =
     rbind (lift_value (parse_entry_handle entry_id service_name routing_group)) (\<lambda>(stream, raw, _).
     case read_id raw of
       Some i \<Rightarrow> rbind (change_stream stream (\<lambda>st. stream_trim 500 (settle_entry i st))) (\<lambda>_. ret True)
     | None \<Rightarrow> rbind (change_stream stream (stream_trim 500)) (\<lambda>_. raise_redis))"

definition ack :: "string \<Rightarrow> string \<Rightarrow> string option \<Rightarrow> bool rcomp" where
  "ack service_name entry_id routing_group = on_redis_error False (ack_body service_name entry_id routing_group)"

text \<open>\<open>int(original_data.get("_nack_count", 0) or 0)\<close>.\<close>

definition nacks_of :: "sfields \<Rightarrow> int option" where
  "nacks_of fs = (case map_of fs ''_nack_count'' of None \<Rightarrow> Some 0 | Some t \<Rightarrow> if t = [] then Some 0 else int_text t)"

definition metric_of :: "(string \<rightharpoonup> string) \<Rightarrow> string \<Rightarrow> int option" where
  "metric_of h service = (case h service of None \<Rightarrow> Some 0 | Some t \<Rightarrow> int_text t)"

text \<open>The script \<open>dead_letter_transfer_v1\<close>: the payload goes to the capped dead letter stream, what the trim removes is counted,
  and the entry leaves its stream.\<close>

definition transfer_effect :: "string \<Rightarrow> string \<Rightarrow> stream_id \<Rightarrow> string \<Rightarrow> sfields \<Rightarrow> unit rcomp" where
  "transfer_effect source dlq i service payload s =
     (case (lookup s source, stream_at s dlq, hash_at s DEAD_LETTER_METRICS_HASH) of
       (Some (RStream st), Some dl, Some h) \<Rightarrow>
         let added = stream_add (clock_ms s) payload dl;
             removed = length (st_entries added) - EXACT_DEAD_LETTER_CAP;
             s1 = put dlq (RStream (stream_trim EXACT_DEAD_LETTER_CAP added)) s
         in (case metric_of h service of
               None \<Rightarrow> if removed > 0 then (RedisError, s1) else (ValueError, put source (RStream (settle_entry i st)) s1)
             | Some n \<Rightarrow>
                 let s2 = (if removed > 0
                           then put DEAD_LETTER_METRICS_HASH (RHash (h(service \<mapsto> show_int (n + int removed)))) s1 else s1)
                 in (Value (), put source (RStream (settle_entry i st)) s2))
     | _ \<Rightarrow> (RedisError, s))"

definition dead_letter_transfer :: "string \<Rightarrow> string \<Rightarrow> stream_id \<Rightarrow> string \<Rightarrow> sfields \<Rightarrow> unit rcomp" where
  "dead_letter_transfer source dlq i service payload = command (transfer_effect source dlq i service payload)"

definition nacked_fields :: "int \<Rightarrow> sfields \<Rightarrow> sfields" where
  "nacked_fields n fs = AList.update ''_nack_count'' (show_int n) fs"

definition dead_fields :: "string \<Rightarrow> int \<Rightarrow> sfields \<Rightarrow> sfields" where
  "dead_fields stamp n fs = AList.update ''_dead_letter_ts'' stamp
     (AList.update ''_dead_letter_cap'' (show_int (int EXACT_DEAD_LETTER_CAP)) (nacked_fields n fs))"

text \<open>\<open>nack\<close> reads the entry first and then commits; another client may act in between.\<close>

definition nack_commit :: "string \<Rightarrow> string \<Rightarrow> string \<Rightarrow> stream_id \<Rightarrow> int \<Rightarrow> sfields option \<Rightarrow> bool rcomp" where
  "nack_commit stamp service_name stream i max_retries found =
     (case found of
        None \<Rightarrow> rbind (change_stream stream (stream_ack GROUP i)) (\<lambda>_. ret True)
      | Some fs \<Rightarrow>
          rbind (lift_value (nacks_of fs)) (\<lambda>n.
          if n + 1 \<ge> max_retries
          then rbind (dead_letter_transfer stream (dead_letter_stream service_name) i service_name (dead_fields stamp (n + 1) fs)) (\<lambda>_. ret True)
          else rbind (make_stream stream (\<lambda>ms st. ((), stream_trim 500 (stream_add ms (nacked_fields (n + 1) fs) (settle_entry i st))))) (\<lambda>_. ret True)))"

definition nack_body :: "string \<Rightarrow> string \<Rightarrow> string \<Rightarrow> int \<Rightarrow> string option \<Rightarrow> bool rcomp" where
  "nack_body stamp service_name entry_id max_retries routing_group =
     rbind (lift_value (parse_entry_handle entry_id service_name routing_group)) (\<lambda>(stream, raw, _).
     case read_id raw of
       None \<Rightarrow> rbind (command (\<lambda>s. (RedisError, s))) ret
     | Some i \<Rightarrow> rbind (read_stream stream (find_entry i)) (nack_commit stamp service_name stream i max_retries))"

definition nack :: "string \<Rightarrow> string \<Rightarrow> string \<Rightarrow> int \<Rightarrow> string option \<Rightarrow> bool rcomp" where
  "nack stamp service_name entry_id max_retries routing_group =
     on_redis_error False (nack_body stamp service_name entry_id max_retries routing_group)"

datatype dead_letters = Dead_letters "entry list" nat int | Dead_letters_outage

definition get_dead_letters :: "string \<Rightarrow> nat \<Rightarrow> dead_letters rcomp" where
  "get_dead_letters service_name n =
     on_redis_error Dead_letters_outage
       (if n = 0 then raise_redis
        else rbind (read_stream (dead_letter_stream service_name) (\<lambda>st. take n (st_entries st))) (\<lambda>es.
             rbind (read_stream (dead_letter_stream service_name) (\<lambda>st. length (st_entries st))) (\<lambda>total_len.
             rbind (read_hash DEAD_LETTER_METRICS_HASH (\<lambda>h. h service_name)) (\<lambda>t.
             rbind (lift_value (case t of None \<Rightarrow> Some 0 | Some x \<Rightarrow> if x = [] then Some 0 else int_text x)) (\<lambda>dropped.
             ret (Dead_letters es total_len dropped))))))"

datatype purge_result = Purge_unauthorized string | Purged nat stream_id | Purge_error

definition audit_fields :: "string \<Rightarrow> string \<Rightarrow> string \<Rightarrow> nat \<Rightarrow> string \<Rightarrow> sfields" where
  "audit_fields actor reason stamp n service = [(''actor'', actor), (''reason'', reason), (''timestamp'', stamp),
     (''count'', show_nat n), (''service'', service), (''cap'', show_nat EXACT_DEAD_LETTER_CAP)]"

definition purge_script :: "string \<Rightarrow> string \<Rightarrow> string \<Rightarrow> string \<Rightarrow> purge_result rcomp" where
  "purge_script service_name actor reason stamp = command (\<lambda>s.
     case (stream_at s (dead_letter_stream service_name), stream_at s DEAD_LETTER_AUDIT_STREAM) of
       (Some dl, Some audit) \<Rightarrow>
         let n = length (st_entries dl);
             s1 = put DEAD_LETTER_AUDIT_STREAM (RStream (stream_add (clock_ms s) (audit_fields actor reason stamp n service_name) audit)) s
         in (Value (Purged n (next_id (clock_ms s) audit)), remove (dead_letter_stream service_name) s1)
     | _ \<Rightarrow> (RedisError, s))"

definition purge_dead_letters :: "string \<Rightarrow> string \<Rightarrow> string \<Rightarrow> string \<Rightarrow> purge_result rcomp" where
  "purge_dead_letters stamp service_name actor reason =
     (if blank actor then ret (Purge_unauthorized ''actor_required'')
      else if blank reason then ret (Purge_unauthorized ''reason_required'')
      else on_redis_error Purge_error (purge_script service_name (strip actor) (strip reason) stamp))"

text \<open>\<open>XINFO STREAM\<close> for its length; \<open>None\<close> is the error of a missing stream, which the callers look for.\<close>

definition stream_length :: "string \<Rightarrow> nat option rcomp" where
  "stream_length k = command (\<lambda>s. case lookup s k of
     None \<Rightarrow> (Value None, s) | Some (RStream st) \<Rightarrow> (Value (Some (length (st_entries st))), s) | _ \<Rightarrow> (RedisError, s))"

text \<open>\<open>purge\<close> empties every stream of the service.\<close>

fun purge_streams :: "string list \<Rightarrow> nat \<Rightarrow> nat rcomp" where
  "purge_streams [] removed = ret removed"
| "purge_streams (k # ks) removed =
     rbind (stream_length k) (\<lambda>len. case len of
       None \<Rightarrow> purge_streams ks removed
     | Some n \<Rightarrow>
         if n = 0 then purge_streams ks removed
         else rbind (change_stream k (stream_trim 0)) (\<lambda>_. purge_streams ks (removed + n)))"

definition purge :: "RedisQueue \<Rightarrow> string \<Rightarrow> string option \<Rightarrow> nat rcomp" where
  "purge q service_name routing_group =
     on_redis_error 0 (rbind (lift_value (stream_specs q service_name routing_group)) (\<lambda>specs. purge_streams (map fst specs) 0))"

text \<open>\<open>cleanup\<close> trims with \<open>approximate=True\<close>: how many entries the server keeps, at least \<open>max_entries\<close>, is its choice \<open>keep\<close>.\<close>

fun cleanup_streams :: "(nat \<Rightarrow> rstream \<Rightarrow> nat) \<Rightarrow> nat \<Rightarrow> string list \<Rightarrow> nat \<Rightarrow> nat rcomp" where
  "cleanup_streams keep max_entries [] trimmed = ret trimmed"
| "cleanup_streams keep max_entries (k # ks) trimmed =
     rbind (stream_length k) (\<lambda>len. case len of
       None \<Rightarrow> cleanup_streams keep max_entries ks trimmed
     | Some n1 \<Rightarrow>
         rbind (change_stream k (\<lambda>st. stream_trim (keep max_entries st) st)) (\<lambda>_.
         rbind (stream_length k) (\<lambda>len'. case len' of
           None \<Rightarrow> raise_redis
         | Some n2 \<Rightarrow> cleanup_streams keep max_entries ks (trimmed + (n1 - n2)))))"

definition cleanup :: "(nat \<Rightarrow> rstream \<Rightarrow> nat) \<Rightarrow> RedisQueue \<Rightarrow> string \<Rightarrow> nat \<Rightarrow> string option \<Rightarrow> nat rcomp" where
  "cleanup keep q service_name max_entries routing_group =
     on_redis_error 0 (rbind (lift_value (stream_specs q service_name routing_group)) (\<lambda>specs.
       cleanup_streams keep max_entries (map fst specs) 0))"

section \<open>Cancelling a queued job\<close>

datatype cancel_outcome =
    Removed_and_terminalized
  | No_entry
  | Entry_job_mismatch string
  | Already_terminal string
  | Not_queued string
  | Cancel_error

definition terminal_status :: "string \<Rightarrow> bool" where
  "terminal_status st = (st \<in> set [''completed'', ''failed'', ''cancelled''])"

definition cancelled_hash :: "(string \<rightharpoonup> string) \<Rightarrow> string \<Rightarrow> string \<Rightarrow> string \<Rightarrow> string \<Rightarrow> (string \<rightharpoonup> string)" where
  "cancelled_hash h stamp err audit_source cancelled_by =
     h(''status'' \<mapsto> ''cancelled'', ''completed_at'' \<mapsto> stamp, ''error'' \<mapsto> err, ''cancelled_by'' \<mapsto> cancelled_by,
       ''cancellation_audit_source'' \<mapsto> audit_source, ''cancellation_at'' \<mapsto> stamp)"

definition cancel_effect ::
  "string \<Rightarrow> stream_id \<Rightarrow> string \<Rightarrow> string \<Rightarrow> string \<Rightarrow> string \<Rightarrow> string \<Rightarrow> int \<Rightarrow> cancel_outcome rcomp" where
  "cancel_effect stream i job_id stamp err audit_source cancelled_by terminal_ttl s =
     (case lookup s stream of
       None \<Rightarrow> (Value No_entry, s)
     | Some (RStream st) \<Rightarrow>
         (case find_entry i st of
            None \<Rightarrow> (Value No_entry, s)
          | Some fs \<Rightarrow>
              if map_of fs ''job_id'' \<noteq> Some job_id
              then (Value (Entry_job_mismatch (case map_of fs ''job_id'' of None \<Rightarrow> [] | Some j \<Rightarrow> j)), s)
              else (case hash_at s (tracker_key job_id) of
                      None \<Rightarrow> (RedisError, s)
                    | Some h \<Rightarrow>
                        let removed = set_expiry (tracker_key job_id) (Some (kv_clock s + of_int terminal_ttl))
                              (put (tracker_key job_id) (RHash (cancelled_hash h stamp err audit_source cancelled_by))
                                (put stream (RStream (settle_entry i st)) s)) in
                        (case h ''status'' of
                           None \<Rightarrow> (Value Removed_and_terminalized, removed)
                         | Some cur \<Rightarrow>
                             if terminal_status cur then (Value (Already_terminal cur), s)
                             else if cur \<noteq> ''queued'' then (Value (Not_queued cur), s)
                             else (Value Removed_and_terminalized, removed))))
     | _ \<Rightarrow> (RedisError, s))"

definition cancel_script ::
  "string \<Rightarrow> stream_id \<Rightarrow> string \<Rightarrow> string \<Rightarrow> string \<Rightarrow> string \<Rightarrow> string \<Rightarrow> int \<Rightarrow> cancel_outcome rcomp" where
  "cancel_script stream i job_id stamp err audit_source cancelled_by terminal_ttl =
     command (cancel_effect stream i job_id stamp err audit_source cancelled_by terminal_ttl)"

definition cancel_queued_atomically ::
  "string \<Rightarrow> string \<Rightarrow> string option \<Rightarrow> string \<Rightarrow> string \<Rightarrow> string \<Rightarrow> string \<Rightarrow> string \<Rightarrow> int \<Rightarrow> cancel_outcome rcomp" where
  "cancel_queued_atomically stamp service_name routing_group entry_id job_id err audit_source cancelled_by terminal_ttl =
     (if entry_id = [] \<or> job_id = [] then ret Cancel_error
      else case parse_entry_handle entry_id service_name routing_group of
        None \<Rightarrow> ret Cancel_error
      | Some (stream, raw, _) \<Rightarrow>
          on_redis_error Cancel_error
            (case read_id raw of
               None \<Rightarrow> command (\<lambda>s. (RedisError, s))
             | Some i \<Rightarrow> cancel_script stream i job_id stamp err audit_source cancelled_by terminal_ttl))"

section \<open>The asynchronous queue\<close>

text \<open>\<open>AsyncRedisQueue\<close> runs the same commands; it turns every exception into the failure value, and an error while it looks at a
  stream ends the call.\<close>

definition async_enqueue ::
  "(pyval \<Rightarrow> string) \<Rightarrow> (pyval \<Rightarrow> string) \<Rightarrow> string \<Rightarrow> RedisQueue \<Rightarrow> string \<Rightarrow> pydict \<Rightarrow> string option \<Rightarrow> string option rcomp" where
  "async_enqueue strf jsonf stamp q service_name job_data routing_group =
     on_exception None (enqueue strf jsonf stamp q service_name job_data routing_group None)"

definition async_dequeue :: "RedisQueue \<Rightarrow> string \<Rightarrow> string \<Rightarrow> nat \<Rightarrow> string option \<Rightarrow> time \<Rightarrow> sfields list rcomp" where
  "async_dequeue q service_name consumer n routing_group now =
     on_exception [] (dequeue_body peek_head q service_name consumer n routing_group now)"

definition async_ack :: "string \<Rightarrow> string \<Rightarrow> string option \<Rightarrow> bool rcomp" where
  "async_ack service_name entry_id routing_group = on_exception False (ack_body service_name entry_id routing_group)"

text \<open>\<open>XCLAIM ... JUSTID\<close> with no minimal idle time hands a pending entry to the caller. The server drops a pending id whose entry is gone.\<close>

definition stream_reclaim :: "string \<Rightarrow> stream_id \<Rightarrow> rgroup \<Rightarrow> rgroup" where
  "stream_reclaim consumer i g = g\<lparr>gr_pel := map (\<lambda>p. if fst p = i then (i, consumer) else p) (gr_pel g)\<rparr>"

definition renew_pending :: "string \<Rightarrow> string \<Rightarrow> string \<Rightarrow> string option \<Rightarrow> bool rcomp" where
  "renew_pending service_name consumer entry_id routing_group =
     on_exception False
       (rbind (lift_value (parse_entry_handle entry_id service_name routing_group)) (\<lambda>(stream, raw, _).
        command (\<lambda>s. case (lookup s stream, read_id raw) of
          (Some (RStream st), Some i) \<Rightarrow>
            (case st_groups st GROUP of
               None \<Rightarrow> (RedisError, s)
             | Some g \<Rightarrow>
                 if i \<notin> fst ` set (gr_pel g) then (Value False, s)
                 else if find_entry i st = None then (Value False, put stream (RStream (stream_ack GROUP i st)) s)
                 else (Value True, put stream (RStream (st\<lparr>st_groups := (st_groups st)(GROUP \<mapsto> stream_reclaim consumer i g)\<rparr>)) s))
        | _ \<Rightarrow> (RedisError, s))))"

definition async_nack :: "string \<Rightarrow> string \<Rightarrow> string \<Rightarrow> int \<Rightarrow> string option \<Rightarrow> bool rcomp" where
  "async_nack stamp service_name entry_id max_retries routing_group =
     on_exception False (nack_body stamp service_name entry_id max_retries routing_group)"

text \<open>\<open>yield_pending\<close> puts a job back without counting a failure.\<close>

definition yields_of :: "sfields \<Rightarrow> int option" where
  "yields_of fs = (case map_of fs ''_yield_count'' of None \<Rightarrow> Some 0 | Some t \<Rightarrow> if t = [] then Some 0 else int_text t)"

definition yield_commit :: "string \<Rightarrow> stream_id \<Rightarrow> sfields option \<Rightarrow> bool rcomp" where
  "yield_commit stream i found =
     (case found of
        None \<Rightarrow> rbind (change_stream stream (stream_ack GROUP i)) (\<lambda>_. ret True)
      | Some fs \<Rightarrow>
          rbind (lift_value (yields_of fs)) (\<lambda>n.
          rbind (make_stream stream (\<lambda>ms st. ((), stream_trim 500
            (stream_add ms (AList.update ''_yield_count'' (show_int (n + 1)) fs) (settle_entry i st))))) (\<lambda>_. ret True)))"

definition yield_pending :: "string \<Rightarrow> string \<Rightarrow> string option \<Rightarrow> bool rcomp" where
  "yield_pending service_name entry_id routing_group =
     on_exception False
       (rbind (lift_value (parse_entry_handle entry_id service_name routing_group)) (\<lambda>(stream, raw, _).
        case read_id raw of
          None \<Rightarrow> rbind (command (\<lambda>s. (RedisError, s))) ret
        | Some i \<Rightarrow> rbind (read_stream stream (find_entry i)) (yield_commit stream i)))"

definition async_get_dead_letters :: "string \<Rightarrow> nat \<Rightarrow> dead_letters rcomp" where
  "async_get_dead_letters service_name n = on_exception Dead_letters_outage (get_dead_letters service_name n)"

definition async_purge_dead_letters :: "string \<Rightarrow> string \<Rightarrow> string \<Rightarrow> string \<Rightarrow> purge_result rcomp" where
  "async_purge_dead_letters stamp service_name actor reason = on_exception Purge_error (purge_dead_letters stamp service_name actor reason)"

definition async_purge :: "RedisQueue \<Rightarrow> string \<Rightarrow> string option \<Rightarrow> nat rcomp" where
  "async_purge q service_name routing_group = on_exception 0 (purge q service_name routing_group)"

definition async_cleanup :: "(nat \<Rightarrow> rstream \<Rightarrow> nat) \<Rightarrow> RedisQueue \<Rightarrow> string \<Rightarrow> nat \<Rightarrow> string option \<Rightarrow> nat rcomp" where
  "async_cleanup keep q service_name max_entries routing_group =
     on_exception 0 (cleanup keep q service_name max_entries routing_group)"

end
