(* ===== verification/Queue_Delivery.thy ===== *)
theory Queue_Delivery
  imports Queue_Engine
begin

text \<open>
  What the queue guarantees under concurrent clients and lost replies. Every operation is a sequence of atomic
  commands, each of which changes a stream by one of a few steps (\<open>stream_step\<close>); whatever the interleaving, a
  stream stays well formed and the position of its consumer group only moves forward.
\<close>

section \<open>Steps of a stream\<close>

inductive stream_step :: "rstream \<Rightarrow> rstream \<Rightarrow> bool" where
  ss_add: "stream_step st (stream_add ms fs st)"
| ss_group: "stream_step st (stream_group GROUP st)"
| ss_settle: "stream_step st (settle_entry i st)"
| ss_ack_gone: "find_entry i st = None \<Longrightarrow> stream_step st (stream_ack GROUP i st)"
| ss_trim: "stream_step st (stream_trim n st)"
| ss_claim: "stream_claim GROUP consumer n st = Some (es, st') \<Longrightarrow> stream_step st st'"
| ss_reclaim: "st_groups st GROUP = Some g \<Longrightarrow>
     stream_step st (st\<lparr>st_groups := (st_groups st)(GROUP \<mapsto> stream_reclaim consumer i g)\<rparr>)"

definition pending :: "rgroup \<Rightarrow> stream_id set" where
  "pending g = set (map fst (gr_pel g))"

definition group_ok :: "rstream \<Rightarrow> bool" where
  "group_ok st \<longleftrightarrow> (\<forall>g. st_groups st GROUP = Some g \<longrightarrow> gr_last g \<le> st_last st \<and> (\<forall>i\<in>pending g. i \<le> gr_last g)
     \<and> (\<forall>e\<in>set (st_entries st). fst e \<le> gr_last g \<longrightarrow> fst e \<in> pending g))"

definition stream_ok :: "rstream \<Rightarrow> bool" where
  "stream_ok st \<longleftrightarrow> sorted_wrt (<) (map fst (st_entries st)) \<and> (\<forall>e\<in>set (st_entries st). (0, 0) < fst e \<and> fst e \<le> st_last st) \<and> group_ok st"

definition position :: "rstream \<Rightarrow> stream_id" where
  "position st = (case st_groups st GROUP of None \<Rightarrow> (0, 0) | Some g \<Rightarrow> gr_last g)"

lemma pending_simps [simp]:
  "pending \<lparr>gr_last = i, gr_pel = []\<rparr> = {}"
  "pending (gr_pel_update (filter (\<lambda>p. fst p \<noteq> j)) g) = pending g - {j}"
  "pending \<lparr>gr_last = i, gr_pel = gr_pel g @ map (\<lambda>e. (fst e, c)) es\<rparr> = pending g \<union> fst ` set es"
  "pending (stream_reclaim c j g) = pending g"
proof -
  have "map fst (gr_pel (stream_reclaim c j g)) = map fst (gr_pel g)" by (auto simp: stream_reclaim_def)
  then show "pending (stream_reclaim c j g) = pending g" by (simp only: pending_def)
qed (auto simp: pending_def image_image)

lemma stream_ok_empty [simp]: "stream_ok empty_stream"
  by (simp add: stream_ok_def group_ok_def empty_stream_def)

lemma zero_id_least [simp]: "((0::nat), (0::nat)) \<le> i"
  by (cases i) (auto simp: less_eq_prod_def)

lemma stream_ok_distinct: "stream_ok st \<Longrightarrow> distinct (map fst (st_entries st))"
  by (simp add: stream_ok_def strict_sorted_iff)

lemma sorted_fst_filter: "sorted_wrt (<) (map fst xs) \<Longrightarrow> sorted_wrt (<) (map fst (filter P xs))"
  by (induction xs) auto

lemma stream_ok_sub:
  assumes "stream_ok st" and "sorted_wrt (<) (map fst es)" and "set es \<subseteq> set (st_entries st)"
  shows "stream_ok (st\<lparr>st_entries := es\<rparr>)"
  unfolding stream_ok_def group_ok_def using assms
  by (auto simp: stream_ok_def group_ok_def subset_iff simp del: split_paired_All)

lemma stream_ok_trim: "stream_ok st \<Longrightarrow> stream_ok (stream_trim n st)"
  unfolding stream_trim_def
  by (rule stream_ok_sub) (auto simp: stream_ok_def drop_map [symmetric] sorted_wrt_drop dest: in_set_dropD)

lemma stream_ok_add:
  assumes "stream_ok st" shows "stream_ok (stream_add ms fs st)"
proof -
  have n: "st_last st < next_id ms st" by (rule next_id_greater)
  then have "(0, 0) < next_id ms st" by (rule le_less_trans [OF zero_id_least])
  moreover have "\<forall>e\<in>set (st_entries st). fst e < next_id ms st" using assms n by (auto simp: stream_ok_def)
  moreover have "gr_last g < next_id ms st" if "st_groups st GROUP = Some g" for g
    using assms that n by (auto simp: stream_ok_def group_ok_def)
  ultimately show ?thesis
    using assms n by (fastforce simp: stream_ok_def group_ok_def stream_add_def sorted_wrt_append)
qed

lemma stream_ok_group: "stream_ok st \<Longrightarrow> stream_ok (stream_group GROUP st)"
  by (fastforce simp: stream_group_def stream_ok_def group_ok_def)

lemma stream_ok_ack_gone: "stream_ok st \<Longrightarrow> find_entry i st = None \<Longrightarrow> stream_ok (stream_ack GROUP i st)"
  by (fastforce simp: stream_ok_def group_ok_def stream_ack_def find_entry_def map_of_eq_None_iff image_iff)

lemma settle_as_ack: "settle_entry i st = stream_ack GROUP i (stream_del i st)"
  by (cases st) (auto simp: settle_entry_def stream_ack_def stream_del_def)

lemma stream_ok_del: "stream_ok st \<Longrightarrow> stream_ok (stream_del i st)"
  unfolding stream_del_def by (rule stream_ok_sub) (auto simp: stream_ok_def sorted_fst_filter)

lemma find_deleted [simp]: "find_entry i (stream_del i st) = None"
  by (auto simp: find_entry_def stream_del_def map_of_eq_None_iff)

lemma stream_ok_settle: "stream_ok st \<Longrightarrow> stream_ok (settle_entry i st)"
  unfolding settle_as_ack by (intro stream_ok_ack_gone stream_ok_del) simp_all

lemma sorted_take_upto:
  assumes "sorted_wrt (<) (map fst xs)" and "x \<in> set xs" and "take n xs \<noteq> []" and "fst x \<le> (fst (last (take n xs)) :: stream_id)"
  shows "x \<in> set (take n xs)"
proof (rule ccontr)
  assume "x \<notin> set (take n xs)"
  with assms(2) have "x \<in> set (drop n xs)" by (metis Un_iff append_take_drop_id set_append)
  moreover have "sorted_wrt (<) (map fst (take n xs) @ map fst (drop n xs))"
    using assms(1) by (simp flip: map_append)
  ultimately have "fst (last (take n xs)) < fst x"
    using assms(3) by (auto simp: sorted_wrt_append)
  then show False using assms(4) by simp
qed

lemma sorted_last_max:
  assumes "sorted_wrt (<) (map fst xs)" and "x \<in> set (take n xs)"
  shows "fst x \<le> (fst (last (take n xs)) :: stream_id)"
proof -
  have "sorted_wrt (<) (map fst (take n xs))" using assms(1) by (simp flip: take_map add: sorted_wrt_take)
  then have "sorted (map fst (take n xs))" by (simp add: strict_sorted_iff)
  then show ?thesis using assms(2)
    by (cases "take n xs" rule: rev_cases) (auto simp: sorted_append)
qed

lemma after_sorted: "stream_ok st \<Longrightarrow> sorted_wrt (<) (map fst (after i st))"
  by (simp add: stream_ok_def after_def sorted_fst_filter)

lemma stream_ok_claim:
  assumes ok: "stream_ok st" and c: "stream_claim GROUP consumer n st = Some (es, st')"
  shows "stream_ok st'" and "\<And>e. e \<in> set es \<Longrightarrow> e \<in> set (st_entries st) \<and> position st < fst e \<and> fst e \<le> position st'"
    and "position st \<le> position st'"
proof -
  obtain g where g: "st_groups st GROUP = Some g" and es: "es = take n (after (gr_last g) st)"
      and st': "st' = (if es = [] then st else st\<lparr>st_groups := (st_groups st)(GROUP \<mapsto>
              \<lparr>gr_last = fst (last es), gr_pel = gr_pel g @ map (\<lambda>e. (fst e, consumer)) es\<rparr>)\<rparr>)"
    using c by (auto simp: stream_claim_def Let_def split: option.splits)
  note srt = after_sorted [OF ok, of "gr_last g"]
  have sub: "e \<in> set (st_entries st) \<and> gr_last g < fst e" if "e \<in> set es" for e
    using that unfolding es after_def by (auto dest!: in_set_takeD)
  have le: "fst e \<le> fst (last es)" if "e \<in> set es" for e
    using sorted_last_max [OF srt] that unfolding es by blast
  show m: "position st \<le> position st'" using sub le g by (cases es) (fastforce simp: position_def st')+
  show "e \<in> set (st_entries st) \<and> position st < fst e \<and> fst e \<le> position st'" if "e \<in> set es" for e
    using sub [OF that] le [OF that] that g by (auto simp: position_def st')
  show "stream_ok st'"
  proof (cases "es = []")
    case False
    have "fst (last es) \<le> st_last st" using sub [of "last es"] False ok by (auto simp: stream_ok_def)
    moreover have "fst e \<in> pending g \<union> fst ` set es" if e: "e \<in> set (st_entries st)" "fst e \<le> fst (last es)" for e
    proof (cases "fst e \<le> gr_last g")
      case True
      then show ?thesis using ok g e(1) by (auto simp: stream_ok_def group_ok_def)
    next
      case f: False
      then have "e \<in> set es" using sorted_take_upto [OF srt, of e n] e False
        unfolding es by (simp add: after_def)
      then show ?thesis by blast
    qed
    moreover have "i \<le> fst (last es)" if "i \<in> pending g \<union> fst ` set es" for i
      using that
    proof
      assume "i \<in> pending g"
      then have "i \<le> gr_last g" using ok g by (auto simp: stream_ok_def group_ok_def)
      also have "\<dots> \<le> fst (last es)" using sub [of "last es"] False by (simp add: less_imp_le)
      finally show ?thesis .
    qed (use le in auto)
    ultimately show ?thesis
      using ok False unfolding st' stream_ok_def group_ok_def by (simp add: image_Un image_image)
  qed (use ok st' in simp)
qed

lemma stream_ok_reclaim:
  assumes "stream_ok st" and "st_groups st GROUP = Some g"
  shows "stream_ok (st\<lparr>st_groups := (st_groups st)(GROUP \<mapsto> stream_reclaim consumer i g)\<rparr>)"
proof -
  have "gr_last (stream_reclaim consumer i g) = gr_last g" by (simp add: stream_reclaim_def)
  then show ?thesis using assms by (simp add: stream_ok_def group_ok_def)
qed

lemma stream_step_ok: "stream_step st st' \<Longrightarrow> stream_ok st \<Longrightarrow> stream_ok st'"
  by (induction rule: stream_step.induct)
    (simp_all add: stream_ok_add stream_ok_group stream_ok_settle stream_ok_ack_gone stream_ok_trim stream_ok_claim(1) stream_ok_reclaim)

lemma position_simps [simp]:
  "position (stream_add ms fs st) = position st" "position (stream_group GROUP st) = position st"
  "position (stream_ack GROUP i st) = position st" "position (stream_trim n st) = position st"
  "position (stream_del i st) = position st" "position (settle_entry i st) = position st"
  by (auto simp: position_def stream_add_def stream_group_def stream_ack_def stream_trim_def stream_del_def settle_entry_def
      split: option.splits)

lemma stream_step_position: "stream_step st st' \<Longrightarrow> stream_ok st \<Longrightarrow> position st \<le> position st'"
  by (induction rule: stream_step.induct) (simp_all add: stream_ok_claim(3), simp add: position_def stream_reclaim_def)

lemma stream_steps_ok: "stream_step\<^sup>*\<^sup>* st st' \<Longrightarrow> stream_ok st \<Longrightarrow> stream_ok st' \<and> position st \<le> position st'"
  by (induction rule: rtranclp_induct) (auto intro: stream_step_ok dest: stream_step_position order_trans)

section \<open>Every operation is a sequence of stream steps\<close>

definition queue_key :: "string \<Rightarrow> bool" where
  "queue_key k \<longleftrightarrow> prefix ''queue:'' k"

text \<open>No stream of the queue carries an expiry.\<close>

definition lasting :: "redis \<Rightarrow> string \<Rightarrow> bool" where
  "lasting s k \<longleftrightarrow> (\<forall>v e. kv_keys s k = Some (v, e) \<longrightarrow> e = None)"

definition evolves :: "redis \<Rightarrow> redis \<Rightarrow> bool" where
  "evolves s s' \<longleftrightarrow> (\<forall>k. queue_key k \<longrightarrow> (lasting s k \<longrightarrow> lasting s' k)
     \<and> (\<forall>st. stream_at s k = Some st \<longrightarrow> (\<exists>st'. stream_at s' k = Some st' \<and> stream_step\<^sup>*\<^sup>* st st')))"

definition safe :: "'a rcomp \<Rightarrow> bool" where
  "safe m \<longleftrightarrow> (\<forall>s. evolves s (snd (m s)))"

lemma evolves_refl [simp, intro]: "evolves s s"
  by (simp add: evolves_def)

lemma evolves_trans [trans]: "evolves s t \<Longrightarrow> evolves t u \<Longrightarrow> evolves s u"
  unfolding evolves_def by (meson rtranclp_trans)

lemma lasting_faults [simp]: "lasting (s\<lparr>kv_faults := x\<rparr>) k \<longleftrightarrow> lasting s k"
  by (simp add: lasting_def)

lemma evolves_faults [simp]: "evolves (s\<lparr>kv_faults := x\<rparr>) t \<longleftrightarrow> evolves s t" "evolves s (t\<lparr>kv_faults := x\<rparr>) \<longleftrightarrow> evolves s t"
  by (simp_all add: evolves_def)

lemma stream_at_put [simp]: "stream_at (put k v s) k' = (if k' = k then (case v of RStream st \<Rightarrow> Some st | _ \<Rightarrow> None) else stream_at s k')"
  by (simp add: stream_at_def split: rvalue.splits)

lemma lasting_put: "lasting s k \<Longrightarrow> lasting (put k' v s) k"
  by (auto simp: lasting_def put_def expiry_def lookup_def split: option.splits if_splits)

lemma evolves_put: "stream_at s k = Some st \<Longrightarrow> stream_step\<^sup>*\<^sup>* st st' \<Longrightarrow> evolves s (put k (RStream st') s)"
  by (auto simp: evolves_def lasting_put)

lemma evolves_same: "(\<And>k. queue_key k \<Longrightarrow> kv_keys s' k = kv_keys s k) \<Longrightarrow> kv_clock s' = kv_clock s \<Longrightarrow> evolves s s'"
proof -
  assume a: "\<And>k. queue_key k \<Longrightarrow> kv_keys s' k = kv_keys s k" "kv_clock s' = kv_clock s"
  then have "stream_at s' k = stream_at s k" if "queue_key k" for k using that by (intro stream_at_cong)
  with a show ?thesis by (simp add: evolves_def lasting_def)
qed

lemma kv_keys_put [simp]: "queue_key k' \<Longrightarrow> \<not> queue_key k \<Longrightarrow> kv_keys (put k v s) k' = kv_keys s k'"
  by (auto simp: put_def)

lemma evolves_other [intro]:
  "\<not> queue_key k \<Longrightarrow> evolves s (put k v s)" "\<not> queue_key k \<Longrightarrow> evolves s (set_expiry k e s)" "\<not> queue_key k \<Longrightarrow> evolves s (remove k s)"
  by (rule evolves_same; auto simp: put_def set_expiry_def remove_def split: option.splits)+

lemma other_keys [simp]:
  "\<not> queue_key (tracker_key j)" "\<not> queue_key (dead_letter_stream sv)"
  "\<not> queue_key DEAD_LETTER_METRICS_HASH" "\<not> queue_key DEAD_LETTER_AUDIT_STREAM"
  by (simp_all add: queue_key_def tracker_key_def dead_letter_stream_def DEAD_LETTER_METRICS_HASH_def DEAD_LETTER_AUDIT_STREAM_def)

lemma evolves_command: "(\<And>t. kv_keys t = kv_keys s \<Longrightarrow> kv_clock t = kv_clock s \<Longrightarrow> evolves t (snd (f t))) \<Longrightarrow> evolves s (snd (command f s))"
proof -
  assume f: "\<And>t. kv_keys t = kv_keys s \<Longrightarrow> kv_clock t = kv_clock s \<Longrightarrow> evolves t (snd (f t))"
  have "evolves (s\<lparr>kv_faults := tl (kv_faults s)\<rparr>) (snd (f (s\<lparr>kv_faults := tl (kv_faults s)\<rparr>)))" "evolves s (snd (f s))"
    by (rule f; simp)+
  then show ?thesis by (auto simp: command_def Let_def split: list.splits fault.splits)
qed

lemma safe_command: "(\<And>s. evolves s (snd (f s))) \<Longrightarrow> safe (command f)"
  by (simp add: safe_def evolves_command)

lemma evolves_rbind: "evolves s (snd (m s)) \<Longrightarrow> (\<And>x s'. m s = (Value x, s') \<Longrightarrow> evolves s' (snd (k x s'))) \<Longrightarrow> evolves s (snd (rbind m k s))"
  by (cases "m s"; cases "fst (m s)") (auto simp: rbind_def intro: evolves_trans)

lemma safe_combinators:
  "safe m \<Longrightarrow> (\<And>x. safe (k x)) \<Longrightarrow> safe (rbind m k)"
  "safe (ret x)" "safe raise_value" "safe raise_redis" "safe raise_key" "safe (lift_value v)"
  "safe m \<Longrightarrow> safe (on_redis_error x m)" "safe m \<Longrightarrow> safe (on_exception x m)"
proof -
  show "safe m \<Longrightarrow> (\<And>x. safe (k x)) \<Longrightarrow> safe (rbind m k)" by (auto simp: safe_def intro: evolves_rbind)
  have catch: "snd (on_redis_error x m s) = snd (m s)" "snd (on_exception x m s) = snd (m s)" for s
    by (auto simp: on_redis_error_def on_exception_def split: prod.splits outcome.splits)
  show "safe m \<Longrightarrow> safe (on_redis_error x m)" "safe m \<Longrightarrow> safe (on_exception x m)" by (simp_all add: safe_def catch)
qed (auto simp: safe_def ret_def raise_value_def raise_redis_def raise_key_def lift_value_def split: option.splits)

lemma safe_streams:
  "(\<And>st. stream_step\<^sup>*\<^sup>* st (f st)) \<Longrightarrow> safe (change_stream k f)"
  "(\<And>ms st. stream_step\<^sup>*\<^sup>* st (snd (g ms st))) \<Longrightarrow> safe (make_stream k g)"
  "safe (read_stream k h)" "safe (read_hash k r)"
  unfolding change_stream_def make_stream_def read_stream_def read_hash_def
  by (rule safe_command; auto split: option.splits rvalue.splits prod.splits intro!: evolves_put simp: stream_at_def; metis snd_conv)+

lemma steps_intro:
  "stream_step\<^sup>*\<^sup>* st (stream_add ms fs st)" "stream_step\<^sup>*\<^sup>* st (stream_group GROUP st)"
  "stream_step\<^sup>*\<^sup>* st (settle_entry i st)" "stream_step\<^sup>*\<^sup>* st (stream_trim n st)"
  using ss_add ss_group ss_settle ss_trim by blast+

lemma steps_then_trim: "stream_step\<^sup>*\<^sup>* st st' \<Longrightarrow> stream_step\<^sup>*\<^sup>* st (stream_trim n st')"
  by (erule rtranclp.rtrancl_into_rtrancl) (rule ss_trim)

lemma steps_then_add: "stream_step\<^sup>*\<^sup>* st st' \<Longrightarrow> stream_step\<^sup>*\<^sup>* st (stream_add ms fs st')"
  by (erule rtranclp.rtrancl_into_rtrancl) (rule ss_add)

lemma safe_create_group: "safe (create_group k)"
  unfolding create_group_def by (rule safe_streams) (simp add: steps_intro)

lemma safe_ensure_group: "safe (ensure_group sv rg)"
  unfolding ensure_group_def by (intro safe_combinators safe_create_group)

lemma safe_create_groups: "safe (create_groups ks)"
  by (induction ks) (auto intro!: safe_combinators safe_create_group)

lemma safe_tracked: "safe (tracked_script (tracker_key j) stream payload tr sha lane)"
  unfolding tracked_script_def
proof (rule safe_command)
  fix s
  show "evolves s (snd (tracked_effect (tracker_key j) stream payload tr sha lane s))"
    by (auto simp: tracked_effect_def Let_def split: option.splits rvalue.splits
        intro!: evolves_trans [OF evolves_put evolves_other(1)] steps_intro)
qed

lemma safe_enqueue: "safe (enqueue strf jsonf stamp q sv job rg tracked)"
  unfolding enqueue_def
  by (auto intro!: safe_combinators safe_ensure_group safe_tracked safe_streams steps_intro
      split: option.splits prod.splits simp: Let_def)

lemma claim_step: "stream_claim GROUP c n st = Some (es, st') \<Longrightarrow> stream_step\<^sup>*\<^sup>* st st'"
  using ss_claim by blast

lemma claim_streams_evolves: "claim_streams c n ks s = Some (r, s') \<Longrightarrow> evolves s s'"
proof (induction ks arbitrary: s r)
  case (Cons k ks)
  obtain st es st' rest where l: "lookup s k = Some (RStream st)" "stream_claim GROUP c n st = Some (es, st')"
      "claim_streams c n ks (if es = [] then s else put k (RStream st') s) = Some (rest, s')"
    using Cons.prems by (auto split: option.splits rvalue.splits)
  have "evolves s (if es = [] then s else put k (RStream st') s)"
    using l(1) claim_step [OF l(2)] by (auto intro: evolves_put simp: stream_at_def)
  then show ?case using Cons.IH [OF l(3)] by (rule evolves_trans)
qed simp

lemma safe_xreadgroup: "safe (xreadgroup c n ks)"
  unfolding xreadgroup_def
  by (auto intro!: safe_combinators safe_command split: option.splits dest: claim_streams_evolves)

lemma safe_peek: "safe (peek_head k)"
  unfolding peek_head_def group_position_def
  by (intro safe_combinators safe_streams safe_command) (auto split: option.splits rvalue.splits)

lemma safe_ready_heads: "(\<And>k. safe (peek k)) \<Longrightarrow> safe (ready_heads peek q now specs)"
  by (induction specs) (auto intro!: safe_combinators)

lemma safe_dequeue_body: "(\<And>k. safe (peek k)) \<Longrightarrow> safe (dequeue_body peek q sv c n rg now)"
  unfolding dequeue_body_def
  by (auto intro!: safe_combinators safe_create_groups safe_ready_heads safe_xreadgroup split: prod.splits)

lemma safe_dequeue: "safe (dequeue q sv c n rg now)"
  unfolding dequeue_def by (intro safe_combinators safe_dequeue_body safe_peek)

lemma safe_ack_body: "safe (ack_body sv i rg)"
  unfolding ack_body_def
  by (auto intro!: safe_combinators safe_streams steps_then_trim steps_intro split: option.splits prod.splits)

lemma safe_transfer: "safe (dead_letter_transfer source (dead_letter_stream sv) i service payload)"
proof -
  have fin: "evolves s (put source (RStream (settle_entry i st)) t)"
    if "lookup s source = Some (RStream st)" "\<And>k. queue_key k \<Longrightarrow> kv_keys t k = kv_keys s k" "kv_clock t = kv_clock s" for s t st
  proof (cases "queue_key source")
    case True
    then have "stream_at t source = Some st" using that(1) stream_at_cong [OF that(2,3)] by (simp add: stream_at_def)
    then have "evolves t (put source (RStream (settle_entry i st)) t)" by (rule evolves_put) (rule steps_intro)
    moreover have "evolves s t" by (rule evolves_same) (use that in auto)
    ultimately show ?thesis using evolves_trans by blast
  qed (auto intro!: evolves_same simp: that put_def)
  show ?thesis
    unfolding dead_letter_transfer_def
    by (rule safe_command) (auto simp: transfer_effect_def Let_def split: option.splits rvalue.splits intro!: fin evolves_other)
qed

lemma safe_purge_script: "safe (purge_script sv actor reason stamp)"
  unfolding purge_script_def
  by (rule safe_command) (auto simp: Let_def split: option.splits intro!: evolves_trans [OF evolves_other(1) evolves_other(3)])

lemma safe_length: "safe (stream_length k)"
  unfolding stream_length_def by (rule safe_command) (auto split: option.splits rvalue.splits)

lemma safe_purges: "safe (purge_streams ks n)" "safe (cleanup_streams keep m ks n)"
  by (induction ks arbitrary: n) (auto intro!: safe_combinators safe_streams safe_length steps_intro split: option.splits)

lemma safe_cancel_script: "safe (cancel_script stream i j stamp err src who ttl)"
proof -
  have fin: "evolves s (set_expiry (tracker_key j) e (put (tracker_key j) v (put stream (RStream (settle_entry i st)) s)))"
    if "lookup s stream = Some (RStream st)" for s st e v
  proof -
    have "evolves s (put stream (RStream (settle_entry i st)) s)"
      by (rule evolves_put [of _ _ st]) (simp_all add: that stream_at_def steps_intro)
    also have "evolves \<dots> (put (tracker_key j) v \<dots>)" by (rule evolves_other) simp
    also have "evolves \<dots> (set_expiry (tracker_key j) e \<dots>)" by (rule evolves_other) simp
    finally show ?thesis .
  qed
  show ?thesis
    unfolding cancel_script_def
    by (rule safe_command) (auto simp: cancel_effect_def Let_def split: option.splits rvalue.splits intro!: fin)
qed

lemma evolves_ack_gone:
  assumes "\<And>st. stream_at s k = Some st \<Longrightarrow> find_entry i st = None"
  shows "evolves s (snd (change_stream k (stream_ack GROUP i) s))"
  unfolding change_stream_def
proof (rule evolves_command)
  fix t :: redis assume t: "kv_keys t = kv_keys s" "kv_clock t = kv_clock s"
  have "evolves t (put k (RStream (stream_ack GROUP i st)) t)" if "lookup t k = Some (RStream st)" for st
  proof -
    have st: "stream_at t k = Some st" using that by (simp add: stream_at_def)
    then have "find_entry i st = None" using assms stream_at_cong [of t k s] t by simp
    then have "stream_step\<^sup>*\<^sup>* st (stream_ack GROUP i st)" using ss_ack_gone by blast
    with st show ?thesis by (rule evolves_put)
  qed
  then show "evolves t (snd (case lookup t k of None \<Rightarrow> (Value (), t)
      | Some (RStream st) \<Rightarrow> (Value (), put k (RStream (stream_ack GROUP i st)) t) | _ \<Rightarrow> (RedisError, t)))"
    by (auto split: option.splits rvalue.splits)
qed

lemma read_streamD: "read_stream k f s = (Value x, s') \<Longrightarrow> \<exists>st. stream_at s k = Some st \<and> x = f st \<and> stream_at s' k = Some st"
  by (auto simp: read_stream_def command_def Let_def split: list.splits fault.splits option.splits)

lemma evolves_commit:
  assumes "\<And>st. found = None \<Longrightarrow> stream_at s k = Some st \<Longrightarrow> find_entry i st = None"
  shows "evolves s (snd (nack_commit stamp sv k i m found s))" "evolves s (snd (yield_commit k i found s))"
proof -
  have "evolves s (snd (rbind (change_stream k (stream_ack GROUP i)) (\<lambda>_. ret True) s))" if "found = None"
    using that assms by (intro evolves_rbind evolves_ack_gone) (auto simp: ret_def)
  moreover have "safe (nack_commit stamp sv k i m found)" "safe (yield_commit k i found)" if "found \<noteq> None"
    using that unfolding nack_commit_def yield_commit_def
    by (auto intro!: safe_combinators safe_streams safe_transfer steps_then_trim steps_then_add steps_intro)
  ultimately show "evolves s (snd (nack_commit stamp sv k i m found s))" "evolves s (snd (yield_commit k i found s))"
    by (cases found; simp add: safe_def nack_commit_def yield_commit_def)+
qed

lemma safe_read_then: "(\<And>s x. (\<And>st. stream_at s k = Some st \<Longrightarrow> x = f st) \<Longrightarrow> evolves s (snd (g x s))) \<Longrightarrow> safe (rbind (read_stream k f) g)"
  unfolding safe_def
proof (intro allI evolves_rbind)
  fix s show "evolves s (snd (read_stream k f s))" using safe_streams(3) [of k f] by (simp add: safe_def)
next
  fix s x s' assume g: "\<And>s x. (\<And>st. stream_at s k = Some st \<Longrightarrow> x = f st) \<Longrightarrow> evolves s (snd (g x s))"
    and "read_stream k f s = (Value x, s')"
  then show "evolves s' (snd (g x s'))" by (intro g) (auto dest!: read_streamD)
qed

lemma safe_nack_body: "safe (nack_body stamp sv i m rg)"
  unfolding nack_body_def
  by (auto intro!: safe_combinators safe_command safe_read_then evolves_commit split: option.splits prod.splits)

lemma safe_yield: "safe (yield_pending sv i rg)"
  unfolding yield_pending_def
  by (auto intro!: safe_combinators safe_command safe_read_then evolves_commit split: option.splits prod.splits)

lemma safe_renew: "safe (renew_pending sv c i rg)"
proof -
  have p: "evolves s (put k (RStream st') s)" if "lookup s k = Some (RStream st)" "stream_step st st'" for s k st st'
    using that by (intro evolves_put [of _ _ st]) (auto simp: stream_at_def)
  have "evolves s (put k (RStream (stream_ack GROUP j st)) s)"
    if "lookup s k = Some (RStream st)" "find_entry j st = None" for s k st j
    using that(1) by (rule p) (rule ss_ack_gone, rule that(2))
  moreover have "evolves s (put k (RStream (st\<lparr>st_groups := (st_groups st)(GROUP \<mapsto> stream_reclaim c j g)\<rparr>)) s)"
    if "lookup s k = Some (RStream st)" "st_groups st GROUP = Some g" for s k st j g
    using that(1) by (rule p) (rule ss_reclaim, rule that(2))
  ultimately show ?thesis
    unfolding renew_pending_def
    by (auto intro!: safe_combinators safe_command split: option.splits rvalue.splits prod.splits)
qed

lemma safe_purge: "safe (purge q sv rg)" "safe (cleanup keep q sv m rg)" "safe (purge_dead_letters stamp sv actor reason)"
  "safe (cancel_queued_atomically stamp sv rg i j err src who ttl)"
  unfolding purge_def cleanup_def purge_dead_letters_def cancel_queued_atomically_def
  by (auto intro!: safe_combinators safe_purges safe_purge_script safe_cancel_script safe_command split: option.splits)

section \<open>All clients together\<close>

text \<open>One client's next call, or half of a \<open>nack\<close> that read the entry earlier (an entry that was gone then is still gone),
  or the time passing, or other faults ahead.\<close>

inductive client_step :: "redis \<Rightarrow> redis \<Rightarrow> bool" where
  cl_enqueue: "client_step s (snd (enqueue strf jsonf stamp q sv job rg tracked s))"
| cl_dequeue: "client_step s (snd (dequeue q sv c n rg now s))"
| cl_async_dequeue: "client_step s (snd (async_dequeue q sv c n rg now s))"
| cl_ack: "client_step s (snd (ack sv h rg s))"
| cl_nack: "client_step s (snd (nack stamp sv h m rg s))"
| cl_nack_commit: "(\<And>st. found = None \<Longrightarrow> stream_at s k = Some st \<Longrightarrow> find_entry i st = None) \<Longrightarrow>
     client_step s (snd (nack_commit stamp sv k i m found s))"
| cl_yield: "client_step s (snd (yield_pending sv h rg s))"
| cl_yield_commit: "(\<And>st. found = None \<Longrightarrow> stream_at s k = Some st \<Longrightarrow> find_entry i st = None) \<Longrightarrow>
     client_step s (snd (yield_commit k i found s))"
| cl_renew: "client_step s (snd (renew_pending sv c h rg s))"
| cl_cancel: "client_step s (snd (cancel_queued_atomically stamp sv rg h j err src who ttl s))"
| cl_purge: "client_step s (snd (purge q sv rg s))"
| cl_cleanup: "client_step s (snd (cleanup keep q sv mx rg s))"
| cl_purge_dead: "client_step s (snd (purge_dead_letters stamp sv actor reason s))"
| cl_time: "client_step s (s\<lparr>kv_clock := t\<rparr>)"
| cl_faults: "client_step s (s\<lparr>kv_faults := fs\<rparr>)"

definition all_ok :: "redis \<Rightarrow> bool" where
  "all_ok s \<longleftrightarrow> (\<forall>k. queue_key k \<longrightarrow> lasting s k \<and> (\<exists>st. stream_at s k = Some st \<and> stream_ok st))"

definition pos :: "redis \<Rightarrow> string \<Rightarrow> stream_id" where
  "pos s k = (case stream_at s k of None \<Rightarrow> (0, 0) | Some st \<Rightarrow> position st)"

definition empty_redis :: redis where
  "empty_redis = \<lparr>kv_keys = Map.empty, kv_clock = 0, kv_faults = []\<rparr>"

lemma all_ok_empty: "all_ok empty_redis"
  by (simp add: all_ok_def empty_redis_def lasting_def stream_at_def lookup_def)

lemma evolves_ok:
  assumes "evolves s s'" and "all_ok s" shows "all_ok s'" and "queue_key k \<Longrightarrow> pos s k \<le> pos s' k"
  using assms stream_steps_ok unfolding all_ok_def evolves_def pos_def by (metis, force)

lemma time_ok:
  assumes "all_ok s" shows "evolves s (s\<lparr>kv_clock := t\<rparr>)"
proof -
  have "stream_at (s\<lparr>kv_clock := t\<rparr>) k = stream_at s k" if "queue_key k" for k
  proof -
    have "lasting s k" using assms that by (simp add: all_ok_def)
    then have "lookup (s\<lparr>kv_clock := t\<rparr>) k = lookup s k" by (auto simp: lasting_def lookup_def split: option.splits)
    then show ?thesis by (simp add: stream_at_def)
  qed
  then show ?thesis by (auto simp: evolves_def lasting_def)
qed

lemmas safe_operations = safe_enqueue safe_dequeue safe_dequeue_body safe_peek safe_ack_body safe_nack_body safe_yield safe_renew
  safe_purge

lemma client_evolves: "client_step s s' \<Longrightarrow> all_ok s \<Longrightarrow> evolves s s'"
proof (induction rule: client_step.induct)
  case (cl_async_dequeue s q sv c n rg now)
  have "safe (async_dequeue q sv c n rg now)" unfolding async_dequeue_def by (intro safe_combinators safe_operations)
  then show ?case by (simp add: safe_def)
next
  case (cl_ack s sv h rg)
  have "safe (ack sv h rg)" unfolding ack_def by (intro safe_combinators safe_operations)
  then show ?case by (simp add: safe_def)
next
  case (cl_nack s stamp sv h m rg)
  have "safe (nack stamp sv h m rg)" unfolding nack_def by (intro safe_combinators safe_operations)
  then show ?case by (simp add: safe_def)
qed (use safe_operations in \<open>auto simp: safe_def intro: evolves_commit time_ok\<close>)

lemma clients_ok:
  assumes "client_step\<^sup>*\<^sup>* s s'" and "all_ok s" shows "all_ok s'" and "queue_key k \<Longrightarrow> pos s k \<le> pos s' k"
proof -
  have "all_ok s' \<and> (queue_key k \<longrightarrow> pos s k \<le> pos s' k)" using assms
  proof (induction rule: rtranclp_induct)
    case (step t u)
    then have "evolves t u" by (intro client_evolves) auto
    then show ?case using step evolves_ok [of t u] by (auto intro: order_trans)
  qed simp
  then show "all_ok s'" "queue_key k \<Longrightarrow> pos s k \<le> pos s' k" by auto
qed

section \<open>Handles\<close>

text \<open>The streams of a service, with lanes or without, and what a handle resolves to.\<close>

definition all_specs :: "string \<Rightarrow> string option \<Rightarrow> (string \<times> string option) set" where
  "all_specs sv rg = {(k, lane). (case lane of None \<Rightarrow> legacy_stream_name sv rg = Some k | Some l \<Rightarrow> lane_stream_name sv rg l = Some k)}"

lemma id_text_not_lane: "\<not> prefix ''lane:'' (id_text i)"
proof
  assume "prefix ''lane:'' (id_text i)"
  then have "hd (id_text i) = CHR ''l''" by (auto simp: prefix_def)
  moreover have "hd (id_text i) \<in> set (show_nat (fst i))" using show_nat_digits [of "fst i"] by (simp add: id_text_def)
  ultimately have "CHR ''l'' \<in> set (show_nat (fst i))" by simp
  then show False using show_nat_digits [of "fst i"] by (auto simp: list_all_iff is_digit_def)
qed

lemma id_text_nonempty [simp]: "id_text i \<noteq> []"
  by (simp add: id_text_def)

lemma lane_stream_nameD: "lane_stream_name sv rg l = Some k \<Longrightarrow> l \<in> set PRIORITY_LANES \<and> k = ''queue:'' @ authority sv rg @ '':lane:'' @ l
    \<and> authority sv rg \<noteq> []"
  by (auto simp: lane_stream_name_def split: if_splits)

lemma handle_round_trip:
  assumes "(k, lane) \<in> all_specs sv rg"
  shows "parse_entry_handle (handle_of lane i) sv rg = Some (k, id_text i, lane)"
proof (cases lane)
  case None
  then show ?thesis using assms by (simp add: all_specs_def handle_of_def parse_entry_handle_def id_text_not_lane)
next
  case (Some l)
  then have k: "lane_stream_name sv rg l = Some k" using assms by (simp add: all_specs_def)
  then have l: "l \<in> set PRIORITY_LANES" by (simp add: lane_stream_nameD)
  then have "list_all (\<lambda>c. c \<noteq> CHR '':'') l" by (auto simp: PRIORITY_LANES_def)
  then have "takeWhile (\<lambda>c. c \<noteq> CHR '':'') (l @ CHR '':'' # id_text i) = l"
      "dropWhile (\<lambda>c. c \<noteq> CHR '':'') (l @ CHR '':'' # id_text i) = CHR '':'' # id_text i"
    by (simp_all add: takeWhile_append2 dropWhile_append2 list_all_iff)
  then show ?thesis using k l Some by (simp add: handle_of_def entry_handle_def parse_entry_handle_def)
qed

lemma handle_inject:
  assumes "(k, lane) \<in> all_specs sv rg" and "(k', lane') \<in> all_specs sv rg" and "handle_of lane i = handle_of lane' i'"
  shows "k = k' \<and> i = i'"
  using handle_round_trip [OF assms(1), of i] handle_round_trip [OF assms(2), of i'] unfolding assms(3) by simp

lemma queue_stream_legacy: "queue_stream sv rg = legacy_stream_name sv rg"
  by (auto simp: queue_stream_def legacy_stream_name_def authority_def)

lemma stream_specs_all:
  assumes "stream_specs q sv rg = Some specs" shows "set specs \<subseteq> all_specs sv rg"
proof -
  obtain legacy where legacy: "legacy_stream_name sv rg = Some legacy"
    using assms by (cases "legacy_stream_name sv rg") (simp_all add: stream_specs_def queue_stream_legacy)
  then have lanes: "lane_stream_name sv rg l = Some (the (lane_stream_name sv rg l))" if "l \<in> set PRIORITY_LANES" for l
    using that by (auto simp: legacy_stream_name_def lane_stream_name_def split: if_splits)
  show ?thesis
  proof (cases "rq_lanes_enabled q")
    case True
    then have "specs = map (\<lambda>lane. (the (lane_stream_name sv rg lane), Some lane)) PRIORITY_LANES @ [(legacy, None)]"
      using assms legacy by (simp add: stream_specs_def queue_stream_legacy)
    then show ?thesis using legacy lanes by (auto simp: all_specs_def)
  next
    case False
    then show ?thesis using assms legacy by (auto simp: stream_specs_def queue_stream_legacy all_specs_def)
  qed
qed

lemma all_specs_key: "(k, lane) \<in> all_specs sv rg \<Longrightarrow> queue_key k"
  by (auto simp: all_specs_def queue_key_def legacy_stream_name_def lane_stream_name_def split: option.splits if_splits)

lemma lane_suffix_append: "lane_suffix ys = Some l \<Longrightarrow> lane_suffix (xs @ ys) = Some l"
  by (induction xs) auto

lemma lane_suffix_lane: "l \<in> set PRIORITY_LANES \<Longrightarrow> lane_suffix ('':lane:'' @ l) = Some l"
  by (auto simp: PRIORITY_LANES_def)

text \<open>The lane a claimed entry is decoded with is the lane of its stream.\<close>

lemma decoded_lane:
  assumes "(k, lane) \<in> all_specs sv rg" and "lane_suffix (''queue:'' @ authority sv rg) = None" and "sel = None \<or> sel = lane"
  shows "(if sel = None then lane_suffix k else sel) = lane" and "\<And>l. lane = Some l \<Longrightarrow> l \<in> set PRIORITY_LANES"
proof -
  show l: "l \<in> set PRIORITY_LANES" if "lane = Some l" for l using assms(1) that by (auto simp: all_specs_def lane_stream_nameD)
  show "(if sel = None then lane_suffix k else sel) = lane"
  proof (cases lane)
    case None
    then show ?thesis using assms by (auto simp: all_specs_def legacy_stream_name_def split: if_splits)
  next
    case (Some l)
    then have "k = ''queue:'' @ authority sv rg @ '':lane:'' @ l" using assms(1) lane_stream_nameD [of sv rg l k] unfolding all_specs_def by simp
    then have "lane_suffix k = Some l" using lane_suffix_append [OF lane_suffix_lane [OF l [OF Some]], of "''queue:'' @ authority sv rg"] by simp
    then show ?thesis using assms(3) Some by auto
  qed
qed

section \<open>What a dequeue returns\<close>

definition delivered_between :: "redis \<Rightarrow> redis \<Rightarrow> string \<Rightarrow> stream_id \<Rightarrow> bool" where
  "delivered_between s s' k i \<longleftrightarrow> (\<exists>t. evolves s t \<and> pos t k < i) \<and> i \<le> pos s' k"

lemma claim_streams_pos:
  assumes "claim_streams c n ks s = Some (r, s')" and "all_ok s" and "\<forall>k\<in>set ks. queue_key k" and "(k, es) \<in> set r" and "e \<in> set es"
  shows "k \<in> set ks \<and> pos s k < fst e \<and> fst e \<le> pos s' k"
  using assms
proof (induction ks arbitrary: s r)
  case (Cons k0 ks)
  obtain st es0 st' rest where l: "lookup s k0 = Some (RStream st)" "stream_claim GROUP c n st = Some (es0, st')"
      "claim_streams c n ks (if es0 = [] then s else put k0 (RStream st') s) = Some (rest, s')"
      "r = (if es0 = [] then rest else (k0, es0) # rest)"
    using Cons.prems(1) by (auto split: option.splits rvalue.splits)
  let ?t = "if es0 = [] then s else put k0 (RStream st') s"
  have st: "stream_at s k0 = Some st" using l(1) by (simp add: stream_at_def)
  then have ok: "stream_ok st" using Cons.prems(2,3) by (auto simp: all_ok_def)
  have t: "evolves s ?t" using st claim_step [OF l(2)] by (auto intro: evolves_put)
  note t' = evolves_ok [OF t Cons.prems(2)]
  show ?case
  proof (cases "(k, es) \<in> set rest")
    case True
    have "\<forall>k\<in>set ks. queue_key k" using Cons.prems(3) by simp
    note ih = Cons.IH [OF l(3) t'(1) this True Cons.prems(5)]
    then have "queue_key k" using Cons.prems(3) by simp
    then have "pos s k \<le> pos ?t k" by (rule t'(2))
    then show ?thesis using ih by auto
  next
    case False
    then have k: "k = k0" "es = es0" "es0 \<noteq> []" using Cons.prems(4) l(4) by (auto split: if_splits)
    note cl = stream_ok_claim(2) [OF ok l(2)]
    have "pos s k < fst e" "fst e \<le> pos ?t k" using cl [of e] Cons.prems(5) k st by (simp_all add: pos_def)
    moreover have "pos ?t k \<le> pos s' k"
      using evolves_ok(2) [OF claim_streams_evolves [OF l(3)] t'(1)] Cons.prems(3) k by simp
    ultimately show ?thesis using k by auto
  qed
qed simp

lemma rbind_Value: "rbind m k s = (Value y, s2) \<longleftrightarrow> (\<exists>x s1. m s = (Value x, s1) \<and> k x s1 = (Value y, s2))"
  by (auto simp: rbind_def split: prod.splits outcome.splits)

lemma on_error_Value:
  "on_redis_error v m s = (Value y, s2) \<longleftrightarrow> m s = (Value y, s2) \<or> y = v \<and> m s = (RedisError, s2)"
  "on_exception v m s = (Value y, s2) \<longleftrightarrow> m s = (Value y, s2) \<or> y = v \<and> (\<exists>e. m s = (e, s2) \<and> (\<forall>x. e \<noteq> Value x))"
  by (auto simp: on_redis_error_def on_exception_def split: prod.splits outcome.splits)

lemma lift_Value [simp]: "lift_value v s = (Value x, s') \<longleftrightarrow> v = Some x \<and> s' = s"
  by (auto simp: lift_value_def raise_value_def ret_def split: option.splits)

lemma ret_Value [simp]: "ret v s = (Value x, s') \<longleftrightarrow> v = x \<and> s' = s"
  by (auto simp: ret_def)

lemma command_Value: "command f s = (Value x, s') \<Longrightarrow> \<exists>fs. f (s\<lparr>kv_faults := fs\<rparr>) = (Value x, s')"
proof (cases "kv_faults s")
  case Nil
  then have e: "s\<lparr>kv_faults := []\<rparr> = s" by (cases s) simp
  assume "command f s = (Value x, s')"
  then have "f s = (Value x, s')" using Nil by (simp add: command_def)
  then show ?thesis by (intro exI [of _ "[]"], unfold e)
qed (auto simp: command_def Let_def split: fault.splits)

lemma pos_faults [simp]: "pos (s\<lparr>kv_faults := fs\<rparr>) k = pos s k" "all_ok (s\<lparr>kv_faults := fs\<rparr>) \<longleftrightarrow> all_ok s"
  by (simp_all add: pos_def all_ok_def)

lemma xreadgroup_claim:
  assumes "xreadgroup c n ks s = (Value r, s')" obtains fs where "claim_streams c n ks (s\<lparr>kv_faults := fs\<rparr>) = Some (r, s')"
proof -
  have "command (\<lambda>s. case claim_streams c n ks s of None \<Rightarrow> (RedisError, s) | Some (r, s') \<Rightarrow> (Value r, s')) s = (Value r, s')"
    using assms(1) by (auto simp: xreadgroup_def raise_redis_def split: if_splits)
  from command_Value [OF this] show ?thesis by (auto split: option.splits prod.splits intro: that)
qed

lemma xreadgroup_delivers:
  assumes "xreadgroup c n ks s = (Value r, s')" and "all_ok s" and "\<forall>k\<in>set ks. queue_key k" and "(k, es) \<in> set r" and "e \<in> set es"
  shows "k \<in> set ks \<and> pos s k < fst e \<and> fst e \<le> pos s' k"
proof -
  obtain fs where c: "claim_streams c n ks (s\<lparr>kv_faults := fs\<rparr>) = Some (r, s')" using assms(1) by (rule xreadgroup_claim)
  show ?thesis using claim_streams_pos [OF c _ assms(3-5)] assms(2) by simp
qed

lemma xreadgroup_keys: "xreadgroup c n ks s = (Value r, s') \<Longrightarrow> (k, es) \<in> set r \<Longrightarrow> k \<in> set ks"
proof -
  have c: "k \<in> set ks" if "claim_streams c n ks t = Some (r, s')" "(k, es) \<in> set r" for t r s'
    using that by (induction ks arbitrary: t r) (auto split: option.splits rvalue.splits if_splits, blast+)
  assume "xreadgroup c n ks s = (Value r, s')" "(k, es) \<in> set r"
  then show ?thesis using c by (metis xreadgroup_claim)
qed

lemma decodeD:
  assumes "j \<in> set (decode_claimed_entries r sel)" and "lane_suffix (''queue:'' @ authority sv rg) = None"
    and "\<forall>p\<in>set r. \<exists>lane. (fst p, lane) \<in> all_specs sv rg \<and> (sel = None \<or> sel = lane)"
  shows "\<exists>k es e lane. (k, es) \<in> set r \<and> e \<in> set es \<and> (k, lane) \<in> all_specs sv rg \<and> map_of j ''_entry_id'' = Some (handle_of lane (fst e))"
proof -
  obtain k es e where k: "(k, es) \<in> set r" "e \<in> set es"
      "j = AList.update ''_entry_id'' (case (if sel = None then lane_suffix k else sel) of
         Some l \<Rightarrow> if l \<in> set PRIORITY_LANES then entry_handle l (id_text (fst e)) else id_text (fst e) | None \<Rightarrow> id_text (fst e)) (snd e)"
    using assms(1) by (auto simp: decode_claimed_entries_def Let_def split_beta)
  obtain lane where lane: "(k, lane) \<in> all_specs sv rg" "sel = None \<or> sel = lane" using assms(3) k(1) by fastforce
  have "map_of j ''_entry_id'' = Some (handle_of lane (fst e))"
    unfolding k(3) decoded_lane(1) [OF lane(1) assms(2) lane(2)]
    using decoded_lane(2) [OF lane(1) assms(2) lane(2)] by (auto simp: update_conv handle_of_def split: option.splits)
  then show ?thesis using k lane by blast
qed

lemma best_in: "cs \<noteq> [] \<Longrightarrow> best_candidate cs \<in> set cs"
  by (induction cs rule: best_candidate.induct) auto

lemma ready_heads_specs:
  "ready_heads peek q now specs s = (Value cs, s') \<Longrightarrow> (sc, k, lane) \<in> set cs \<Longrightarrow> (k, lane) \<in> set specs"
proof (induction specs arbitrary: cs s s')
  case (Cons p specs)
  obtain a b where p: "p = (a, b)" by (cases p)
  obtain h s1 ds where "ready_heads peek q now specs s1 = (Value ds, s')"
      "cs = (case h of None \<Rightarrow> ds | Some i \<Rightarrow> (priority_age_score b i now (rq_aging_interval q) (rq_aging_cap q), a, b) # ds)"
    using Cons.prems(1) unfolding p by (auto simp: rbind_Value)
  then show ?case using Cons.IH [of s1 ds s'] Cons.prems(2) p by (auto split: option.splits)
qed simp

lemma dequeue_delivers:
  assumes run: "dequeue_body peek q sv c n rg now s = (Value jobs, s')" and ok: "all_ok s" and peek: "\<And>k. safe (peek k)"
    and name: "lane_suffix (''queue:'' @ authority sv rg) = None" and j: "j \<in> set jobs"
  shows "\<exists>k lane i. (k, lane) \<in> all_specs sv rg \<and> map_of j ''_entry_id'' = Some (handle_of lane i) \<and> delivered_between s s' k i"
proof -
  obtain specs s1 cs s2 where specs: "stream_specs q sv rg = Some specs" and groups: "create_groups (map fst specs) s = (Value (), s1)"
      and heads: "(if rq_lanes_enabled q then ready_heads peek q now specs else ret []) s1 = (Value cs, s2)"
      and rest: "(if cs \<noteq> [] then let (_, stream, lane) = best_candidate cs in
           rbind (xreadgroup c n [stream]) (\<lambda>r. ret (decode_claimed_entries r lane))
         else rbind (xreadgroup c n (map fst specs)) (\<lambda>r. ret (decode_claimed_entries r None))) s2 = (Value jobs, s')"
    using run unfolding dequeue_body_def rbind_Value by auto
  note all = stream_specs_all [OF specs]
  have "evolves s s1" using safe_create_groups [of "map fst specs"] groups unfolding safe_def by (metis snd_conv)
  also have "safe (if rq_lanes_enabled q then ready_heads peek q now specs else ret [])"
    by (auto intro!: safe_ready_heads peek safe_combinators)
  then have "evolves s1 s2" using heads unfolding safe_def by (metis snd_conv)
  finally have e: "evolves s s2" .
  note ok2 = evolves_ok(1) [OF e ok]
  obtain ks sel r where r: "xreadgroup c n ks s2 = (Value r, s')" "jobs = decode_claimed_entries r sel"
      and ks: "\<And>k. k \<in> set ks \<Longrightarrow> \<exists>lane. (k, lane) \<in> all_specs sv rg \<and> (sel = None \<or> sel = lane)"
  proof (cases "cs = []")
    case True
    then have "\<exists>r. xreadgroup c n (map fst specs) s2 = (Value r, s') \<and> jobs = decode_claimed_entries r None"
      using rest by (auto simp: rbind_Value)
    then show ?thesis using that [of "map fst specs" _ None] all by fastforce
  next
    case False
    obtain sc k lane where b: "best_candidate cs = (sc, k, lane)" by (cases "best_candidate cs") auto
    then have "(k, lane) \<in> set specs"
      using best_in [OF False] heads False by (auto split: if_splits dest: ready_heads_specs)
    then have "(k, lane) \<in> all_specs sv rg" using all by blast
    moreover have "\<exists>r. xreadgroup c n [k] s2 = (Value r, s') \<and> jobs = decode_claimed_entries r lane"
      using rest False b by (auto simp: rbind_Value)
    ultimately show ?thesis using that [of "[k]" _ lane] by auto
  qed
  then have qk: "\<forall>k\<in>set ks. queue_key k" using all_specs_key by blast
  note d = xreadgroup_delivers [OF r(1) ok2 qk]
  have "\<forall>p\<in>set r. \<exists>lane. (fst p, lane) \<in> all_specs sv rg \<and> (sel = None \<or> sel = lane)"
  proof
    fix p assume "p \<in> set r"
    then have "fst p \<in> set ks" by (intro xreadgroup_keys [OF r(1), of _ "snd p"]) simp
    then show "\<exists>lane. (fst p, lane) \<in> all_specs sv rg \<and> (sel = None \<or> sel = lane)" by (rule ks)
  qed
  note D = decodeD [OF _ name this, of j]
  have "j \<in> set (decode_claimed_entries r sel)" using j r(2) by simp
  from D [OF this] obtain k es x lane where "(k, es) \<in> set r" "x \<in> set es" "(k, lane) \<in> all_specs sv rg"
      "map_of j ''_entry_id'' = Some (handle_of lane (fst x))" by blast
  then show ?thesis using d [of k es x] e unfolding delivered_between_def by blast
qed

section \<open>Properties\<close>

text \<open>The queue of the witnesses: two jobs of a service, enqueued and then claimed one after the other.\<close>

definition sample_queue :: RedisQueue where
  "sample_queue = new_queue [] False 60 3"

definition sample_enqueue :: "string \<Rightarrow> redis \<Rightarrow> redis" where
  "sample_enqueue name s = snd (enqueue (\<lambda>v. ''5'') (\<lambda>v. []) ''now'' sample_queue ''llm'' [(''job_id'', PStr name)] None None s)"

definition sample_waiting :: redis where
  "sample_waiting = sample_enqueue ''b'' (sample_enqueue ''a'' (empty_redis\<lparr>kv_clock := 1\<rparr>))"

definition sample_dequeue :: "redis \<Rightarrow> sfields list outcome \<times> redis" where
  "sample_dequeue s = dequeue sample_queue ''llm'' ''w'' 1 None 2 s"

lemma sample_waiting_reached: "client_step\<^sup>*\<^sup>* empty_redis sample_waiting"
proof -
  have e: "client_step s (sample_enqueue name s)" for name s unfolding sample_enqueue_def by (rule cl_enqueue)
  have "client_step\<^sup>*\<^sup>* empty_redis (empty_redis\<lparr>kv_clock := 1\<rparr>)" using cl_time by blast
  then show ?thesis unfolding sample_waiting_def using e by (meson rtranclp.rtrancl_into_rtrancl)
qed

lemma sample_dequeues:
  "case sample_dequeue sample_waiting of
     (Value (j # js), s1) \<Rightarrow>
       map_of j ''_entry_id'' = Some ''1000-0''
       \<and> (case sample_dequeue s1 of (Value (j' # js'), s3) \<Rightarrow> True | _ \<Rightarrow> False)
       \<and> (case lookup s1 ''queue:llm'' of
            Some (RStream st) \<Rightarrow> (case st_groups st GROUP of Some g \<Rightarrow> length (st_entries st) = 2 | None \<Rightarrow> False) | _ \<Rightarrow> False)
   | _ \<Rightarrow> False"
  by code_simp

text \<open>C11. No entry is handed to two workers. Take any state clients can reach from an empty server, with every interleaving, failure and
  delay of their commands, and two claims, one some time after the other, of any workers: the entries they return
  carry different handles. (The name of the service or group must not itself contain \<open>:lane:\<close>.)\<close>

theorem entry_delivered_once:
  assumes "client_step\<^sup>*\<^sup>* empty_redis s0" and "dequeue q sv c n rg now s0 = (Value jobs, s1)"
    and "client_step\<^sup>*\<^sup>* s1 s2" and "dequeue q' sv c' n' rg now' s2 = (Value jobs', s3)"
    and "lane_suffix (''queue:'' @ authority sv rg) = None" and "j \<in> set jobs" and "j' \<in> set jobs'"
  shows "map_of j ''_entry_id'' \<noteq> map_of j' ''_entry_id''"
proof
  assume same: "map_of j ''_entry_id'' = map_of j' ''_entry_id''"
  have run: "dequeue_body (\<lambda>k. on_redis_error None (peek_head k)) q sv c n rg now s = (Value js, s')"
    if "dequeue q sv c n rg now s = (Value js, s')" "x \<in> set js" for q sv c n rg now s js s' x
    using that by (auto simp: dequeue_def on_error_Value)
  have peek: "safe (on_redis_error None (peek_head k))" for k by (intro safe_combinators safe_peek)
  note ok0 = clients_ok(1) [OF assms(1) all_ok_empty]
  have "client_step s0 s1" using cl_dequeue [of s0 q sv c n rg now] assms(2) by simp
  then have ok1: "all_ok s1" using clients_ok(1) [OF r_into_rtranclp] ok0 by blast
  note ok2 = clients_ok(1) [OF assms(3) ok1]
  obtain k lane i where d: "(k, lane) \<in> all_specs sv rg" "map_of j ''_entry_id'' = Some (handle_of lane i)" "i \<le> pos s1 k"
    using dequeue_delivers [OF run [OF assms(2,6)] ok0 peek assms(5,6)] unfolding delivered_between_def by blast
  obtain k' lane' i' t where d': "(k', lane') \<in> all_specs sv rg" "map_of j' ''_entry_id'' = Some (handle_of lane' i')"
      "evolves s2 t" "pos t k' < i'"
    using dequeue_delivers [OF run [OF assms(4,7)] ok2 peek assms(5,7)] unfolding delivered_between_def by blast
  have eq: "k = k' \<and> i = i'" using handle_inject [OF d(1) d'(1)] same d(2) d'(2) by simp
  note key = all_specs_key [OF d(1)]
  have "i \<le> pos s1 k" by (rule d)
  also have "\<dots> \<le> pos s2 k" using clients_ok(2) [OF assms(3) ok1] key by blast
  also have "\<dots> \<le> pos t k" using evolves_ok(2) [OF d'(3) ok2] key by blast
  also have "\<dots> < i" using d'(4) eq by simp
  finally show False by simp
qed


theorem entry_delivered_once_witness:
  "\<exists>j s1 js j' js' s3. sample_dequeue sample_waiting = (Value (j # js), s1) \<and> sample_dequeue s1 = (Value (j' # js'), s3)
     \<and> map_of j ''_entry_id'' = Some ''1000-0'' \<and> map_of j ''_entry_id'' \<noteq> map_of j' ''_entry_id''"
proof -
  obtain j js s1 j' js' s3 where d: "sample_dequeue sample_waiting = (Value (j # js), s1)" "sample_dequeue s1 = (Value (j' # js'), s3)"
      and h: "map_of j ''_entry_id'' = Some ''1000-0''"
    using sample_dequeues by (auto split: prod.splits outcome.splits list.splits)
  have "lane_suffix (''queue:'' @ authority ''llm'' None) = None" by code_simp
  then have "map_of j ''_entry_id'' \<noteq> map_of j' ''_entry_id''"
    using entry_delivered_once [OF sample_waiting_reached d(1) [unfolded sample_dequeue_def] _ d(2) [unfolded sample_dequeue_def]] by simp
  then show ?thesis using d h by blast
qed


end
