(* ===== verification/Queue_Outcomes.thy ===== *)
theory Queue_Outcomes
  imports Queue_Delivery
begin

text \<open>
  What single queue operations do to a job: cancellation, retried submission, refusal, acknowledgement and the
  choice of the next lane.
\<close>

section \<open>An entry that is gone stays gone\<close>

definition gone :: "stream_id \<Rightarrow> rstream \<Rightarrow> bool" where
  "gone i st \<longleftrightarrow> find_entry i st = None \<and> i \<le> st_last st"

lemma gone_iff: "gone i st \<longleftrightarrow> i \<notin> fst ` set (st_entries st) \<and> i \<le> st_last st"
  by (auto simp: gone_def find_entry_def map_of_eq_None_iff)



definition gone_at :: "redis \<Rightarrow> string \<Rightarrow> stream_id \<Rightarrow> bool" where
  "gone_at s k i \<longleftrightarrow> (\<exists>st. stream_at s k = Some st \<and> gone i st)"



lemma settled_gone: "stream_ok st \<Longrightarrow> find_entry i st = Some fs \<Longrightarrow> gone i (settle_entry i st)"
  by (auto simp: gone_iff settle_entry_def stream_del_def stream_ack_def stream_ok_def find_entry_def dest!: map_of_SomeD)

lemma settled_not_pending: "st_groups (settle_entry i st) GROUP = Some g \<Longrightarrow> i \<notin> set (map fst (gr_pel g))"
  by (auto simp: settle_entry_def stream_del_def stream_ack_def)

lemma parse_handle_key: "parse_entry_handle h sv rg = Some (k, raw, lane) \<Longrightarrow> queue_key k"
  by (auto simp: parse_entry_handle_def legacy_stream_name_def lane_stream_name_def queue_key_def Let_def split: if_splits)

section \<open>Cancellation\<close>

lemma cancel_effect_cases:
  assumes "cancel_effect k i j stamp err src who ttl s = (v, s')"
  obtains (nothing) "v \<noteq> Value Removed_and_terminalized" "s' = s"
  | (removed) st fs h where "v = Value Removed_and_terminalized" "lookup s k = Some (RStream st)" "find_entry i st = Some fs"
      "map_of fs ''job_id'' = Some j" "hash_at s (tracker_key j) = Some h" "h ''status'' \<in> {None, Some ''queued''}"
      "s' = set_expiry (tracker_key j) (Some (kv_clock s + of_int ttl))
         (put (tracker_key j) (RHash (cancelled_hash h stamp err src who)) (put k (RStream (settle_entry i st)) s))"
proof -
  have "v \<noteq> Value Removed_and_terminalized \<and> s' = s
    \<or> (\<exists>st fs h. v = Value Removed_and_terminalized \<and> lookup s k = Some (RStream st) \<and> find_entry i st = Some fs
      \<and> map_of fs ''job_id'' = Some j \<and> hash_at s (tracker_key j) = Some h \<and> h ''status'' \<in> {None, Some ''queued''}
      \<and> s' = set_expiry (tracker_key j) (Some (kv_clock s + of_int ttl))
         (put (tracker_key j) (RHash (cancelled_hash h stamp err src who)) (put k (RStream (settle_entry i st)) s)))"
    using assms by (auto simp: cancel_effect_def Let_def split: option.splits rvalue.splits if_splits)
  then show ?thesis by (elim disjE exE conjE) ((rule nothing; assumption) | (rule removed; assumption))+
qed

lemma command_cases:
  assumes "command f s = (v, s')"
  obtains (answered) fs where "f (s\<lparr>kv_faults := fs\<rparr>) = (v, s')"
  | (not_sent) fs where "v = RedisError" "s' = s\<lparr>kv_faults := fs\<rparr>"
  | (reply_lost) fs w where "v = RedisError" "f (s\<lparr>kv_faults := fs\<rparr>) = (w, s')"
proof (cases "kv_faults s")
  case Nil
  then have e: "s\<lparr>kv_faults := []\<rparr> = s" by (cases s) simp
  have "f s = (v, s')" using assms Nil by (simp add: command_def)
  then show ?thesis by (intro answered [of "[]"], unfold e)
next
  case (Cons x xs)
  then show ?thesis
    using assms answered [of xs] not_sent [of xs] reply_lost [of xs "fst (f (s\<lparr>kv_faults := xs\<rparr>))"]
    by (cases x) (auto simp: command_def Let_def)
qed

lemma cancel_removedE:
  assumes "cancel_queued_atomically stamp sv rg h j err src who ttl s = (Value Removed_and_terminalized, s')"
  obtains k raw lane i fs st es hsh where "parse_entry_handle h sv rg = Some (k, raw, lane)" "read_id raw = Some i"
    "lookup s k = Some (RStream st)" "find_entry i st = Some es" "map_of es ''job_id'' = Some j"
    "s' = set_expiry (tracker_key j) (Some (kv_clock s + of_int ttl))
       (put (tracker_key j) (RHash (cancelled_hash hsh stamp err src who)) (put k (RStream (settle_entry i st)) (s\<lparr>kv_faults := fs\<rparr>)))"
proof -
  obtain k raw lane where p: "parse_entry_handle h sv rg = Some (k, raw, lane)"
    using assms by (auto simp: cancel_queued_atomically_def split: option.splits if_splits)
  obtain i where i: "read_id raw = Some i" and c: "cancel_script k i j stamp err src who ttl s = (Value Removed_and_terminalized, s')"
  proof (cases "read_id raw")
    case None
    then have "command (\<lambda>s. (RedisError, s)) s = (Value Removed_and_terminalized, s')"
      using assms p by (auto simp: cancel_queued_atomically_def on_error_Value split: if_splits)
    then show ?thesis using command_Value by fastforce
  qed (use assms p that in \<open>auto simp: cancel_queued_atomically_def on_error_Value split: if_splits\<close>)
  obtain fs where "cancel_effect k i j stamp err src who ttl (s\<lparr>kv_faults := fs\<rparr>) = (Value Removed_and_terminalized, s')"
    using command_Value [OF c [unfolded cancel_script_def]] by blast
  then show ?thesis
  proof (cases rule: cancel_effect_cases)
    case (removed st es hsh)
    then show ?thesis using p i by (intro that) (auto simp: )
  qed simp
qed

lemma job_key_not_queue: "queue_key k \<Longrightarrow> k \<noteq> tracker_key j"
  by (auto simp: queue_key_def tracker_key_def)

lemma cancelled_gone:
  assumes "all_ok s" and "queue_key k" and "lookup s k = Some (RStream st)" and "find_entry i st = Some es"
    and "s' = set_expiry (tracker_key j) e (put (tracker_key j) v (put k (RStream (settle_entry i st)) (s\<lparr>kv_faults := fs\<rparr>)))"
  shows "lookup s' k = Some (RStream (settle_entry i st))" and "gone_at s' k i"
proof -
  show l: "lookup s' k = Some (RStream (settle_entry i st))"
    using job_key_not_queue [OF assms(2), of j] by (simp add: assms(5) lookup_set_expiry)
  have "stream_ok st" using assms(1-3) by (auto simp: all_ok_def stream_at_def)
  then show "gone_at s' k i" using settled_gone [OF _ assms(4)] l by (auto simp: gone_at_def stream_at_def)
qed


lemma sample_cancel:
  "fst (cancel_queued_atomically ''t'' ''llm'' None ''1000-0'' ''a'' ''user_cancel'' ''api'' ''api'' 60 sample_waiting) = Value Removed_and_terminalized
   \<and> kv_faults sample_waiting = []"
  by code_simp


text \<open>A lost reply loses the release. When the cancellation script runs but its reply is lost, the caller is told \<open>error\<close>, which the
  documentation explains as nothing happened, and the retry it asks for finds no entry: neither call permits the release of the slot.\<close>

theorem cancel_reply_lost:
  assumes "client_step\<^sup>*\<^sup>* empty_redis s" and "kv_faults s = []"
    and "cancel_queued_atomically stamp sv rg h j err src who ttl s = (Value Removed_and_terminalized, s1)"
  shows "cancel_queued_atomically stamp sv rg h j err src who ttl (s\<lparr>kv_faults := [Reply_lost]\<rparr>) = (Value Cancel_error, s1)
     \<and> cancel_queued_atomically stamp sv rg h j err src who ttl s1 = (Value No_entry, s1)"
proof -
  obtain k raw lane i fs st es hsh where p: "parse_entry_handle h sv rg = Some (k, raw, lane)" "read_id raw = Some i"
    and st: "lookup s k = Some (RStream st)" "find_entry i st = Some es"
    and s1: "s1 = set_expiry (tracker_key j) (Some (kv_clock s + of_int ttl))
       (put (tracker_key j) (RHash (cancelled_hash hsh stamp err src who)) (put k (RStream (settle_entry i st)) (s\<lparr>kv_faults := fs\<rparr>)))"
    using assms(3) by (rule cancel_removedE)
  have args: "h \<noteq> []" "j \<noteq> []" using assms(3) by (auto simp: cancel_queued_atomically_def ret_def)
  have same: "s\<lparr>kv_faults := []\<rparr> = s" using assms(2) by (cases s) simp
  have direct: "cancel_effect k i j stamp err src who ttl s = (Value Removed_and_terminalized, s1)"
    using assms(2,3) args p by (simp add: cancel_queued_atomically_def cancel_script_def command_def on_error_Value)
  have "command (cancel_effect k i j stamp err src who ttl) (s\<lparr>kv_faults := [Reply_lost]\<rparr>) = (RedisError, s1)"
    using direct same by (simp add: command_def Let_def)
  then have "cancel_queued_atomically stamp sv rg h j err src who ttl (s\<lparr>kv_faults := [Reply_lost]\<rparr>) = (Value Cancel_error, s1)"
    using args p by (simp add: cancel_queued_atomically_def cancel_script_def on_error_Value)
  moreover have "lookup s1 k = Some (RStream (settle_entry i st))"
    by (rule cancelled_gone [OF clients_ok(1) [OF assms(1) all_ok_empty] parse_handle_key [OF p(1)] st s1])
  then have "cancel_effect k i j stamp err src who ttl s1 = (Value No_entry, s1)"
    by (simp add: cancel_effect_def settle_entry_def)
  moreover have "kv_faults s1 = []"
    using direct assms(2) by (cases rule: cancel_effect_cases) (auto simp: set_expiry_def split: option.splits)
  then have "command (cancel_effect k i j stamp err src who ttl) s1 = cancel_effect k i j stamp err src who ttl s1"
    by (simp add: command_def)
  ultimately show ?thesis using args p by (simp add: cancel_queued_atomically_def cancel_script_def on_redis_error_def)
qed

theorem cancel_reply_lost_witness:
  "\<exists>s1. cancel_queued_atomically ''t'' ''llm'' None ''1000-0'' ''a'' ''user_cancel'' ''api'' ''api'' 60 (sample_waiting\<lparr>kv_faults := [Reply_lost]\<rparr>)
       = (Value Cancel_error, s1)
     \<and> cancel_queued_atomically ''t'' ''llm'' None ''1000-0'' ''a'' ''user_cancel'' ''api'' ''api'' 60 s1 = (Value No_entry, s1)"
proof -
  obtain s1 where "cancel_queued_atomically ''t'' ''llm'' None ''1000-0'' ''a'' ''user_cancel'' ''api'' ''api'' 60 sample_waiting
       = (Value Removed_and_terminalized, s1)"
    using sample_cancel by (metis prod.collapse)
  from cancel_reply_lost [OF sample_waiting_reached _ this] sample_cancel show ?thesis by blast
qed

section \<open>Acknowledgement\<close>

lemma filter_other_length:
  "distinct (map fst xs) \<Longrightarrow> i \<in> fst ` set xs \<Longrightarrow> Suc (length (filter (\<lambda>e. fst e \<noteq> i) xs)) = length xs"
proof (induction xs)
  case (Cons x xs)
  show ?case
  proof (cases "fst x = i")
    case True
    then have "filter (\<lambda>e. fst e \<noteq> i) xs = xs" using Cons.prems(1) by (auto simp: filter_id_conv intro: rev_image_eqI)
    then show ?thesis using True by simp
  qed (use Cons in auto)
qed simp

text \<open>An acknowledgement drops waiting jobs. \<open>ack\<close> ends with an exact trim to 500 entries, the newest ones. When a stream holds
  more than 501 entries, an answered acknowledgement of any of them deletes the oldest others, whether or not a worker has ever seen them.\<close>

theorem ack_drops_waiting_jobs:
  assumes "parse_entry_handle h sv rg = Some (k, raw, lane)" and "read_id raw = Some i" and "kv_faults s = []"
    and "lookup s k = Some (RStream st)" and "stream_ok st"
    and "st_entries st = early @ late" and "length late = 501" and "i \<in> fst ` set late"
  shows "\<exists>s' st'. ack sv h rg s = (Value True, s') \<and> lookup s' k = Some (RStream st')
     \<and> length (st_entries st') = 500 \<and> (\<forall>e\<in>set early. find_entry (fst e) st' = None)"
proof -
  let ?st' = "stream_trim 500 (settle_entry i st)"
  have d: "distinct (map fst early @ map fst late)" using stream_ok_distinct [OF assms(5)] assms(6) by simp
  then have "i \<notin> fst ` set early" using assms(8) by auto
  then have early: "filter (\<lambda>e. fst e \<noteq> i) early = early" by (force intro: filter_True)
  have late: "length (filter (\<lambda>e. fst e \<noteq> i) late) = 500" using filter_other_length [of late i] d assms(7,8) by simp
  have entries: "st_entries ?st' = filter (\<lambda>e. fst e \<noteq> i) late"
    by (simp add: stream_trim_def settle_entry_def stream_del_def stream_ack_def assms(6) early late)
  have "ack sv h rg s = (Value True, put k (RStream ?st') s)"
    using assms(1-4) by (simp add: ack_def ack_body_def on_redis_error_def rbind_def lift_value_def ret_def change_stream_def command_def)
  moreover have "find_entry (fst e) ?st' = None" if "e \<in> set early" for e
    using d that by (auto simp: find_entry_def entries map_of_eq_None_iff)
  ultimately show ?thesis using late entries by (intro exI [of _ "put k (RStream ?st') s"] exI [of _ ?st']) auto
qed

definition sample_entries :: "nat \<Rightarrow> nat \<Rightarrow> entry list" where
  "sample_entries a b = map (\<lambda>m. ((m, 0), [(''job_id'', show_nat m)])) [a..<b]"

definition sample_long :: rstream where
  "sample_long = empty_stream\<lparr>st_entries := sample_entries 1 503, st_last := (502, 0)\<rparr>"

lemma sample_entries_facts:
  "length (sample_entries a b) = b - a" "sorted_wrt (<) (map fst (sample_entries a b))"
  "a \<le> b \<Longrightarrow> b \<le> c \<Longrightarrow> sample_entries a c = sample_entries a b @ sample_entries b c"
  "e \<in> set (sample_entries a b) \<longleftrightarrow> (\<exists>m. a \<le> m \<and> m < b \<and> e = ((m, 0), [(''job_id'', show_nat m)]))"
proof -
  show "a \<le> b \<Longrightarrow> b \<le> c \<Longrightarrow> sample_entries a c = sample_entries a b @ sample_entries b c"
    using upt_add_eq_append [of a b "c - b"] by (simp add: sample_entries_def flip: map_append)
qed (auto simp: sample_entries_def comp_def sorted_wrt_map less_prod_def less_eq_prod_def)

theorem ack_drops_waiting_jobs_witness:
  "\<exists>s' st'. ack ''llm'' ''2-0'' None (put ''queue:llm'' (RStream sample_long) empty_redis) = (Value True, s')
     \<and> lookup s' ''queue:llm'' = Some (RStream st') \<and> length (st_entries st') = 500
     \<and> (\<forall>e\<in>set (sample_entries 1 2). find_entry (fst e) st' = None)"
proof (rule ack_drops_waiting_jobs [where st = sample_long and late = "sample_entries 2 503"])
  show "parse_entry_handle ''2-0'' ''llm'' None = Some (''queue:llm'', ''2-0'', None)" "read_id ''2-0'' = Some (2, 0)" by code_simp+
  show "stream_ok sample_long"
    by (auto simp: stream_ok_def group_ok_def sample_long_def empty_stream_def sample_entries_facts less_prod_def less_eq_prod_def)
  show "(2, 0) \<in> fst ` set (sample_entries 2 503)"
    by (rule image_eqI [of _ _ "((2, 0), [(''job_id'', show_nat 2)])"]) (auto simp: sample_entries_facts)
  show "st_entries sample_long = sample_entries 1 2 @ sample_entries 2 503"
    using sample_entries_facts(3) [of 1 2 503] by (simp add: sample_long_def)
qed (simp_all add: empty_redis_def sample_entries_facts(1))

section \<open>Refusal\<close>

lemma read_stream_run:
  assumes "stream_at s k = Some st"
  obtains fs where "read_stream k f s = (Value (f st), s\<lparr>kv_faults := fs\<rparr>)" | fs where "read_stream k f s = (RedisError, s\<lparr>kv_faults := fs\<rparr>)"
proof -
  obtain v s' where v: "read_stream k f s = (v, s')" by (cases "read_stream k f s")
  from v [unfolded read_stream_def] show ?thesis
    by (cases rule: command_cases) (use assms v that in auto)
qed

lemma make_stream_run:
  assumes "stream_at s k = Some st" and "g (clock_ms s) st = (x, st')"
  obtains (same) fs where "make_stream k g s = (RedisError, s\<lparr>kv_faults := fs\<rparr>)"
  | (made) fs v where "make_stream k g s = (v, put k (RStream st') (s\<lparr>kv_faults := fs\<rparr>))" "v = Value x \<or> v = RedisError"
proof -
  obtain v s' where v: "make_stream k g s = (v, s')" by (cases "make_stream k g s")
  from v [unfolded make_stream_def] show ?thesis
    by (cases rule: command_cases) (use assms v same made in auto)
qed

lemma transfer_run:
  assumes "lookup s k = Some (RStream st)" and "stream_at s dlq = Some dl" and "hash_at s DEAD_LETTER_METRICS_HASH = Some m" and "metric_of m sv = Some x"
    and "k \<noteq> dlq" and "k \<noteq> DEAD_LETTER_METRICS_HASH" and "dlq \<noteq> DEAD_LETTER_METRICS_HASH"
  obtains (same) fs where "dead_letter_transfer k dlq i sv p s = (RedisError, s\<lparr>kv_faults := fs\<rparr>)"
  | (moved) v s' where "dead_letter_transfer k dlq i sv p s = (v, s')" "v = Value () \<or> v = RedisError"
      "lookup s' k = Some (RStream (settle_entry i st))"
      "stream_at s' dlq = Some (stream_trim EXACT_DEAD_LETTER_CAP (stream_add (clock_ms s) p dl))"
proof -
  have eff: "transfer_effect k dlq i sv p (s\<lparr>kv_faults := fs\<rparr>) = (v, s') \<Longrightarrow> v = Value () \<and> lookup s' k = Some (RStream (settle_entry i st))
      \<and> stream_at s' dlq = Some (stream_trim EXACT_DEAD_LETTER_CAP (stream_add (clock_ms s) p dl))" for fs v s'
    using assms by (auto simp: transfer_effect_def Let_def stream_at_def)
  obtain v s' where v: "dead_letter_transfer k dlq i sv p s = (v, s')" by (cases "dead_letter_transfer k dlq i sv p s")
  from v [unfolded dead_letter_transfer_def] show ?thesis
    by (cases rule: command_cases) (use v same moved eff in blast)+
qed

lemma settle_entries: "st_entries (settle_entry i st) = filter (\<lambda>e. fst e \<noteq> i) (st_entries st)" "st_last (settle_entry i st) = st_last st"
  by (simp_all add: settle_entry_def stream_del_def stream_ack_def)

lemma position_le_last: "stream_ok st \<Longrightarrow> position st \<le> st_last st"
  by (auto simp: position_def stream_ok_def group_ok_def split: option.splits)

lemma requeued_entries:
  assumes "stream_ok st" and "find_entry i st = Some fs" and "length (st_entries st) \<le> 500"
  shows "st_entries (stream_trim 500 (stream_add ms p (settle_entry i st))) = filter (\<lambda>e. fst e \<noteq> i) (st_entries st) @ [(next_id ms (settle_entry i st), p)]"
proof -
  have "(i, fs) \<in> set (st_entries st)" using assms(2) by (simp add: find_entry_def map_of_SomeD)
  then have "i \<in> fst ` set (st_entries st)" by (rule rev_image_eqI) simp
  then have "Suc (length (filter (\<lambda>e. fst e \<noteq> i) (st_entries st))) = length (st_entries st)"
    by (rule filter_other_length [OF stream_ok_distinct [OF assms(1)]])
  then show ?thesis using assms(3) by (simp add: stream_trim_def stream_add_def settle_entries)
qed

lemma requeue_run:
  assumes st: "stream_at s k = Some st" "stream_ok st" "find_entry i st = Some fs" "length (st_entries st) \<le> 500"
    and run: "on_redis_error False (rbind (make_stream k (\<lambda>ms st. ((), stream_trim 500 (stream_add ms p (settle_entry i st))))) (\<lambda>_. ret True)) s
      = (Value b, s')"
  obtains (same) f where "s' = s\<lparr>kv_faults := f\<rparr>" "\<not> b"
  | (requeued) st' j where "lookup s' k = Some (RStream st')" "st_entries st' = filter (\<lambda>e. fst e \<noteq> i) (st_entries st) @ [(j, p)]"
      "position st' < j" "\<forall>g. st_groups st' GROUP = Some g \<longrightarrow> i \<notin> set (map fst (gr_pel g))"
proof -
  let ?g = "\<lambda>ms st. ((), stream_trim 500 (stream_add ms p (settle_entry i st)))"
  let ?st' = "snd (?g (clock_ms s) st)"
  have "?g (clock_ms s) st = ((), ?st')" by simp
  with st(1) show ?thesis
  proof (cases rule: make_stream_run)
    case (same f)
    then have "s' = s\<lparr>kv_faults := f\<rparr>" "\<not> b" using run by (auto simp: on_redis_error_def rbind_def)
    then show ?thesis by (rule that(1))
  next
    case (made f v)
    then have "lookup s' k = Some (RStream ?st')" using run by (auto simp: on_redis_error_def rbind_def ret_def)
    moreover have "position ?st' < next_id (clock_ms s) (settle_entry i st)"
      using next_id_greater [of "settle_entry i st" "clock_ms s"] position_le_last [OF st(2)] by (simp add: settle_entries)
    moreover have "\<forall>g. st_groups ?st' GROUP = Some g \<longrightarrow> i \<notin> set (map fst (gr_pel g))"
      using settled_not_pending [of i st] by (simp add: stream_trim_def stream_add_def)
    ultimately show ?thesis using that(2) requeued_entries [OF st(2-4), of "clock_ms s" p] by simp
  qed
qed

lemma dead_letter_run:
  assumes st: "lookup s k = Some (RStream st)" "stream_at s dlq = Some dl" "hash_at s DEAD_LETTER_METRICS_HASH = Some m" "metric_of m sv = Some x"
    and keys: "k \<noteq> dlq" "k \<noteq> DEAD_LETTER_METRICS_HASH" "dlq \<noteq> DEAD_LETTER_METRICS_HASH"
    and run: "on_redis_error False (rbind (dead_letter_transfer k dlq i sv p) (\<lambda>_. ret True)) s = (Value b, s')"
  obtains (same) f where "s' = s\<lparr>kv_faults := f\<rparr>" "\<not> b"
  | (dead) st' dl' j where "lookup s' k = Some (RStream st')" "st_entries st' = filter (\<lambda>e. fst e \<noteq> i) (st_entries st)"
      "\<forall>g. st_groups st' GROUP = Some g \<longrightarrow> i \<notin> set (map fst (gr_pel g))"
      "stream_at s' dlq = Some dl'" "st_entries dl' \<noteq> []" "length (st_entries dl') \<le> 100" "last (st_entries dl') = (j, p)"
  using st keys
proof (cases rule: transfer_run [where i = i and p = p])
  case (same f)
  then have "s' = s\<lparr>kv_faults := f\<rparr>" "\<not> b" using run by (auto simp: on_redis_error_def rbind_def)
  then show ?thesis by (rule that(1))
next
  case (moved v s'')
  let ?dl = "stream_trim EXACT_DEAD_LETTER_CAP (stream_add (clock_ms s) p dl)"
  have "s'' = s'" using moved(1,2) run by (auto simp: on_redis_error_def rbind_def ret_def)
  moreover have "st_entries ?dl \<noteq> []" "length (st_entries ?dl) \<le> 100" "last (st_entries ?dl) = (next_id (clock_ms s) dl, p)"
    by (simp_all add: stream_trim_def stream_add_def EXACT_DEAD_LETTER_CAP_def)
  ultimately show ?thesis using moved(3,4) that(2) settled_not_pending [of i st] settle_entries(1) by metis
qed

text \<open>A refused job is never lost. Under every fault of the two commands, a \<open>nack\<close> of an entry of a stream with at most 500 entries either changes nothing
  and reports failure; or, below the retry limit, replaces the entry by one at the end of the stream that waits for delivery, with the same
  payload and the count raised by one; or, at the limit, moves it to the end of the dead letter stream, which holds at most
  100 entries. In the last two cases the old entry is gone and no longer pending. A reported success is one of the last two.\<close>

theorem nack_keeps_the_job:
  assumes "parse_entry_handle h sv rg = Some (k, raw, lane)" and "read_id raw = Some i" and "lookup s k = Some (RStream st)" and "stream_ok st"
    and "find_entry i st = Some fs" and "nacks_of fs = Some n" and "length (st_entries st) \<le> 500"
    and "stream_at s (dead_letter_stream sv) = Some dl" and "hash_at s DEAD_LETTER_METRICS_HASH = Some m" and "metric_of m sv \<noteq> None"
    and "sv \<noteq> ''metrics''" and "nack stamp sv h max_retries rg s = (Value b, s')"
  shows "\<not> b \<and> lookup s' k = Some (RStream st) \<and> stream_at s' (dead_letter_stream sv) = Some dl
     \<or> (\<exists>st'. lookup s' k = Some (RStream st') \<and> (\<forall>g. st_groups st' GROUP = Some g \<longrightarrow> i \<notin> set (map fst (gr_pel g)))
         \<and> (n + 1 < max_retries \<and> (\<exists>j. st_entries st' = filter (\<lambda>e. fst e \<noteq> i) (st_entries st) @ [(j, nacked_fields (n + 1) fs)] \<and> position st' < j)
            \<or> max_retries \<le> n + 1 \<and> st_entries st' = filter (\<lambda>e. fst e \<noteq> i) (st_entries st)
               \<and> (\<exists>dl' j. stream_at s' (dead_letter_stream sv) = Some dl' \<and> st_entries dl' \<noteq> [] \<and> length (st_entries dl') \<le> 100
                    \<and> last (st_entries dl') = (j, dead_fields stamp (n + 1) fs))))"
proof -
  have keys: "k \<noteq> dead_letter_stream sv" "k \<noteq> DEAD_LETTER_METRICS_HASH" "dead_letter_stream sv \<noteq> DEAD_LETTER_METRICS_HASH"
    using parse_handle_key [OF assms(1)] assms(11) by (auto simp: queue_key_def dead_letter_stream_def DEAD_LETTER_METRICS_HASH_def)
  have st: "stream_at s k = Some st" using assms(3) by (simp add: stream_at_def)
  have unchanged: "\<not> b \<and> lookup s' k = Some (RStream st) \<and> stream_at s' (dead_letter_stream sv) = Some dl"
    if "s' = s\<lparr>kv_faults := fs\<rparr>" "\<not> b" for fs using that assms(3,8) by simp
  have run: "on_redis_error False (rbind (read_stream k (find_entry i)) (nack_commit stamp sv k i max_retries)) s = (Value b, s')"
    using assms(1,2,12) by (simp add: nack_def nack_body_def on_redis_error_def rbind_def lift_value_def ret_def)
  from st show ?thesis
  proof (cases rule: read_stream_run [where f = "find_entry i"])
    case (2 fs')
    then have "s' = s\<lparr>kv_faults := fs'\<rparr>" "\<not> b" using run by (auto simp: on_redis_error_def rbind_def)
    then show ?thesis by (intro disjI1 unchanged)
  next
    case (1 fs')
    let ?t = "s\<lparr>kv_faults := fs'\<rparr>"
    have commit: "on_redis_error False (nack_commit stamp sv k i max_retries (Some fs)) ?t = (Value b, s')"
      using run 1 assms(5) by (simp add: on_redis_error_def rbind_def)
    show ?thesis
    proof (cases "n + 1 < max_retries")
      case True
      let ?p = "nacked_fields (n + 1) fs"
      have c: "on_redis_error False (rbind (make_stream k (\<lambda>ms st. ((), stream_trim 500 (stream_add ms ?p (settle_entry i st))))) (\<lambda>_. ret True)) ?t
          = (Value b, s')"
        using commit True assms(6) by (simp add: nack_commit_def on_redis_error_def rbind_def lift_value_def ret_def)
      have "stream_at ?t k = Some st" using st by simp
      from this assms(4,5,7) c show ?thesis
      proof (cases rule: requeue_run)
        case (same f)
        then have "s' = s\<lparr>kv_faults := f\<rparr>" "\<not> b" by simp_all
        then show ?thesis by (intro disjI1 unchanged)
      qed (use True in blast)
    next
      case False
      obtain x where x: "metric_of m sv = Some x" using assms(10) by auto
      let ?p = "dead_fields stamp (n + 1) fs"
      have c: "on_redis_error False (rbind (dead_letter_transfer k (dead_letter_stream sv) i sv ?p) (\<lambda>_. ret True)) ?t = (Value b, s')"
        using commit False assms(6) by (simp add: nack_commit_def on_redis_error_def rbind_def lift_value_def ret_def)
      have "lookup ?t k = Some (RStream st)" "stream_at ?t (dead_letter_stream sv) = Some dl" "hash_at ?t DEAD_LETTER_METRICS_HASH = Some m"
        using assms(3,8,9) by simp_all
      from this x keys c show ?thesis
      proof (cases rule: dead_letter_run)
        case (same f)
        then have "s' = s\<lparr>kv_faults := f\<rparr>" "\<not> b" by simp_all
        then show ?thesis by (intro disjI1 unchanged)
      qed (use False not_less in blast)
    qed
  qed
qed

lemma sample_nack:
  "(case lookup sample_waiting ''queue:llm'' of
      Some (RStream st) \<Rightarrow> (case find_entry (1000, 0) st of Some fs \<Rightarrow> nacks_of fs = Some 0 | None \<Rightarrow> False) \<and> length (st_entries st) \<le> 500
    | _ \<Rightarrow> False)
   \<and> (case stream_at sample_waiting (dead_letter_stream ''llm'') of Some dl \<Rightarrow> True | None \<Rightarrow> False)
   \<and> (case hash_at sample_waiting DEAD_LETTER_METRICS_HASH of Some m \<Rightarrow> metric_of m ''llm'' = Some 0 | None \<Rightarrow> False)
   \<and> fst (nack ''t'' ''llm'' ''1000-0'' 3 None sample_waiting) = Value True"
  by code_simp

theorem nack_keeps_the_job_witness:
  "\<exists>s' st st' fs j. nack ''t'' ''llm'' ''1000-0'' 3 None sample_waiting = (Value True, s')
     \<and> lookup sample_waiting ''queue:llm'' = Some (RStream st) \<and> lookup s' ''queue:llm'' = Some (RStream st')
     \<and> st_entries st' = filter (\<lambda>e. fst e \<noteq> (1000, 0)) (st_entries st) @ [(j, nacked_fields 1 fs)]"
proof -
  obtain st fs where h: "lookup sample_waiting ''queue:llm'' = Some (RStream st)" "find_entry (1000, 0) st = Some fs" "nacks_of fs = Some 0"
      "length (st_entries st) \<le> 500"
    using conjunct1 [OF sample_nack] by (auto split: option.splits rvalue.splits)
  obtain dl where dl: "stream_at sample_waiting (dead_letter_stream ''llm'') = Some dl"
    using sample_nack [THEN conjunct2, THEN conjunct1] by (cases "stream_at sample_waiting (dead_letter_stream ''llm'')") simp_all
  obtain m where m: "hash_at sample_waiting DEAD_LETTER_METRICS_HASH = Some m" "metric_of m ''llm'' \<noteq> None"
    using sample_nack [THEN conjunct2, THEN conjunct2, THEN conjunct1]
    by (cases "hash_at sample_waiting DEAD_LETTER_METRICS_HASH") simp_all
  obtain s' where n: "nack ''t'' ''llm'' ''1000-0'' 3 None sample_waiting = (Value True, s')"
    using sample_nack [THEN conjunct2, THEN conjunct2, THEN conjunct2] by (auto simp: prod_eq_iff)
  have "queue_key ''queue:llm''" by (simp add: queue_key_def)
  then have ok: "stream_ok st" using clients_ok(1) [OF sample_waiting_reached all_ok_empty] h(1) by (auto simp: all_ok_def stream_at_def)
  have p: "parse_entry_handle ''1000-0'' ''llm'' None = Some (''queue:llm'', ''1000-0'', None)" "read_id ''1000-0'' = Some (1000, 0)" by code_simp+
  have "''llm'' \<noteq> ''metrics''" by simp
  from nack_keeps_the_job [OF p h(1) ok h(2-4) dl m this n] show ?thesis using n h(1) by auto
qed

section \<open>Submitting a tracked job again\<close>

definition same_jobs :: "redis \<Rightarrow> redis \<Rightarrow> bool" where
  "same_jobs s s' \<longleftrightarrow> (\<forall>j. lookup s' (tracker_key j) = lookup s (tracker_key j))
     \<and> (\<forall>k st. queue_key k \<longrightarrow> stream_at s k = Some st \<longrightarrow> (\<exists>st'. stream_at s' k = Some st' \<and> st_entries st' = st_entries st))"

lemma same_jobs_refl [simp]: "same_jobs s s" "same_jobs s (s\<lparr>kv_faults := f\<rparr>)"
  by (simp_all add: same_jobs_def)

lemma same_jobs_trans: "same_jobs s t \<Longrightarrow> same_jobs t u \<Longrightarrow> same_jobs s u"
  unfolding same_jobs_def by metis

lemma ensure_group_run:
  assumes "queue_stream sv rg = Some k" and "stream_at s k = Some st"
  shows "same_jobs s (snd (ensure_group sv rg s))" and "kv_faults s = [] \<Longrightarrow> fst (ensure_group sv rg s) = Value () \<and> kv_faults (snd (ensure_group sv rg s)) = []"
    and "fst (ensure_group sv rg s) \<in> {Value (), RedisError}"
proof -
  have key: "queue_key k" using assms(1) by (auto simp: queue_stream_def queue_key_def split: if_splits)
  have e: "ensure_group sv rg s = create_group k s" using assms(1) by (simp add: ensure_group_def rbind_def lift_value_def ret_def)
  have put: "same_jobs s (put k (RStream (stream_group GROUP st)) (s\<lparr>kv_faults := f\<rparr>))" for f
    using job_key_not_queue [OF key] assms(2) by (auto simp: same_jobs_def stream_group_def)
  show "same_jobs s (snd (ensure_group sv rg s))"
    unfolding e create_group_def by (rule make_stream_run [OF assms(2), where g = "\<lambda>ms st. ((), stream_group GROUP st)"], rule refl) (auto simp: put)
  show "fst (ensure_group sv rg s) \<in> {Value (), RedisError}"
    unfolding e create_group_def by (rule make_stream_run [OF assms(2), where g = "\<lambda>ms st. ((), stream_group GROUP st)"], rule refl) auto
  show "kv_faults s = [] \<Longrightarrow> fst (ensure_group sv rg s) = Value () \<and> kv_faults (snd (ensure_group sv rg s)) = []"
    using assms(2) by (simp add: e create_group_def make_stream_def command_def)
qed

text \<open>What one call did: nothing to jobs, or one new entry and the receipt that names it.\<close>

definition submitted :: "redis \<Rightarrow> redis \<Rightarrow> string \<Rightarrow> string \<Rightarrow> string \<Rightarrow> string option \<Rightarrow> sfields \<Rightarrow> string \<Rightarrow> bool" where
  "submitted s s' j sha k lane p handle \<longleftrightarrow>
     (\<exists>h. lookup s' (tracker_key j) = Some (RHash h) \<and> h ''request_sha256'' = Some sha \<and> h ''entry_id'' = Some handle)
     \<and> (\<exists>st st' i. stream_at s k = Some st \<and> stream_at s' k = Some st' \<and> st_entries st' = st_entries st @ [(i, p)] \<and> handle = handle_of lane i)"

lemma tracked_effect_new:
  assumes "lookup s (tracker_key j) = None" and "stream_at s k = Some st" and "queue_key k" and "map_of tr ''request_sha256'' = Some sha"
  shows "\<exists>handle s'. tracked_effect (tracker_key j) k p tr sha lane s = (Value handle, s') \<and> submitted s s' j sha k lane p handle"
  using assms job_key_not_queue [OF assms(3)]
  by (auto simp: tracked_effect_def submitted_def Let_def stream_add_def simp del: split_paired_Ex)

lemma tracked_effect_again:
  assumes "lookup s (tracker_key j) = Some (RHash h)" and "stream_at s k = Some st" and "h ''request_sha256'' = Some sha" and "h ''entry_id'' = Some handle"
  shows "tracked_effect (tracker_key j) k p tr sha lane s = (Value handle, s)"
  using assms by (simp add: tracked_effect_def)

lemma submitted_after_same: "same_jobs s t \<Longrightarrow> queue_key k \<Longrightarrow> stream_at s k = Some st \<Longrightarrow> submitted t s' j sha k lane p handle \<Longrightarrow> submitted s s' j sha k lane p handle"
  unfolding same_jobs_def submitted_def by fastforce

lemma submitted_then_same: "submitted s s' j sha k lane p handle \<Longrightarrow> same_jobs s' u \<Longrightarrow> queue_key k \<Longrightarrow> submitted s u j sha k lane p handle"
  unfolding same_jobs_def submitted_def by (metis (no_types, lifting))

text \<open>One call of \<open>enqueue\<close> for a tracked job: the group, then the script.\<close>

lemma enqueue_tracked_eq:
  assumes "job_payload strf jsonf stamp q sv rg job = Some (k, lane, p)" and "tr = tracked_record strf tracked"
    and "map_of tr ''job_id'' = Some j" and "map_of tr ''request_sha256'' = Some sha"
  shows "enqueue strf jsonf stamp q sv job rg (Some tracked) s =
     on_redis_error None (rbind (ensure_group sv rg) (\<lambda>_. rbind (tracked_script (tracker_key j) k p tr sha lane) (\<lambda>h. ret (Some h)))) s"
  using assms by (simp add: enqueue_def on_redis_error_def rbind_def lift_value_def ret_def Let_def split: prod.splits outcome.splits)

lemma enqueue_tracked_new:
  assumes pay: "job_payload strf jsonf stamp q sv rg job = Some (k, lane, p)" and tr: "tr = tracked_record strf tracked"
    "map_of tr ''job_id'' = Some j" "map_of tr ''request_sha256'' = Some sha"
    and st: "queue_stream sv rg = Some lg" "stream_at s lg = Some st0" "queue_key k" "stream_at s k = Some st"
    and new: "lookup s (tracker_key j) = None" and run: "enqueue strf jsonf stamp q sv job rg (Some tracked) s = (v, s')"
  obtains (nothing) "same_jobs s s'" "kv_faults s \<noteq> []" | (submit) handle where "submitted s s' j sha k lane p handle" "v = Value None \<or> v = Value (Some handle)"
      "kv_faults s = [] \<Longrightarrow> v = Value (Some handle)"
proof -
  obtain w t where g: "ensure_group sv rg s = (w, t)" by (cases "ensure_group sv rg s")
  note E = ensure_group_run [OF st(1,2), unfolded g fst_conv snd_conv]
  note eq = run [unfolded enqueue_tracked_eq [OF pay tr]]
  show ?thesis
  proof (cases "w = Value ()")
    case False
    then have "same_jobs s s'" "kv_faults s \<noteq> []" using eq g E by (auto simp: on_redis_error_def rbind_def)
    then show ?thesis by (rule nothing)
  next
    case True
    obtain st1 where st1: "stream_at t k = Some st1" using E(1) st(3,4) unfolding same_jobs_def by blast
    have none: "lookup t (tracker_key j) = None" using E(1) new by (simp add: same_jobs_def)
    have eff: "\<exists>h. x = Value h \<and> submitted s u j sha k lane p h" if x: "tracked_effect (tracker_key j) k p tr sha lane (t\<lparr>kv_faults := f\<rparr>) = (x, u)" for f x u
    proof -
      obtain h where h: "x = Value h" "submitted (t\<lparr>kv_faults := f\<rparr>) u j sha k lane p h"
        using tracked_effect_new [of "t\<lparr>kv_faults := f\<rparr>" j k st1 tr sha p lane] none st1 st(3) tr(3) x by auto
      have "same_jobs s (t\<lparr>kv_faults := f\<rparr>)" by (rule same_jobs_trans [OF E(1) same_jobs_refl(2)])
      from submitted_after_same [OF this st(3,4) h(2)] show ?thesis using h(1) by blast
    qed
    obtain y u where y: "tracked_script (tracker_key j) k p tr sha lane t = (y, u)" by (cases "tracked_script (tracker_key j) k p tr sha lane t")
    have r: "s' = u" "v = (case y of Value h \<Rightarrow> Value (Some h) | RedisError \<Rightarrow> Value None | ValueError \<Rightarrow> ValueError | KeyError \<Rightarrow> KeyError)"
      using eq g True y by (auto simp: on_redis_error_def rbind_def ret_def split: outcome.splits)
    from y [unfolded tracked_script_def] show ?thesis
    proof (cases rule: command_cases)
      case (answered f)
      then show ?thesis using eff [OF answered] r submit by auto
    next
      case (not_sent f)
      then have "same_jobs s s'" using r(1) same_jobs_trans [OF E(1) same_jobs_refl(2)] by simp
      moreover have "kv_faults s \<noteq> []"
        using not_sent(1) y E(2) tracked_effect_new [OF none st1 st(3) tr(3), of p lane]
        by (auto simp: tracked_script_def command_def)
      ultimately show ?thesis by (rule nothing)
    next
      case (reply_lost f w')
      have "kv_faults s \<noteq> []"
        using reply_lost(1) y E(2) tracked_effect_new [OF none st1 st(3) tr(3), of p lane]
        by (auto simp: tracked_script_def command_def)
      then show ?thesis using eff [OF reply_lost(2)] r reply_lost(1) submit by auto
    qed
  qed
qed

text \<open>A tracked submission may be repeated. Submit a job under a new identity, with any fault of the two commands, and submit it again, this time answered:
  together the two calls put exactly one entry into the stream, and the second returns the handle of that entry.\<close>

theorem tracked_submission_repeatable:
  assumes "all_ok s" and "queue_stream sv rg = Some lg" and "lookup s (tracker_key j) = None"
    and "job_payload strf jsonf stamp q sv rg job = Some (k, lane, p)" and "job_payload strf jsonf stamp' q sv rg job = Some (k, lane, p')"
    and "map_of (tracked_record strf tracked) ''job_id'' = Some j" and "map_of (tracked_record strf tracked) ''request_sha256'' = Some sha"
    and "enqueue strf jsonf stamp q sv job rg (Some tracked) s = (v, s1)"
    and "enqueue strf jsonf stamp' q sv job rg (Some tracked) (s1\<lparr>kv_faults := []\<rparr>) = (v', s2)"
  shows "\<exists>i st st2 fs. v' = Value (Some (handle_of lane i)) \<and> stream_at s k = Some st \<and> stream_at s2 k = Some st2
     \<and> st_entries st2 = st_entries st @ [(i, fs)] \<and> fs \<in> {p, p'}"
proof -
  have lgkey: "queue_key lg" using assms(2) by (auto simp: queue_stream_def queue_key_def split: if_splits)
  have kkey: "queue_key k" using assms(4)
    by (auto simp: job_payload_def queue_key_def queue_stream_def lane_stream_name_def Let_def split: sum.splits option.splits if_splits)
  obtain st0 st where st: "stream_at s lg = Some st0" "stream_at s k = Some st" using assms(1) lgkey kkey unfolding all_ok_def by blast
  let ?t = "s1\<lparr>kv_faults := []\<rparr>"
  have evo: "evolves s s1" using safe_enqueue [of strf jsonf stamp q sv job rg "Some tracked"] assms(8) unfolding safe_def by (metis snd_conv)
  have "\<exists>t0. stream_at s1 lg = Some t0" "\<exists>t1. stream_at s1 k = Some t1"
    using evolves_ok(1) [OF evo assms(1)] lgkey kkey unfolding all_ok_def by blast+
  then obtain t0 t1 where t: "stream_at ?t lg = Some t0" "stream_at ?t k = Some t1" by auto
  have final: "\<exists>i st st2 fs. v' = Value (Some (handle_of lane i)) \<and> stream_at s k = Some st \<and> stream_at s2 k = Some st2
     \<and> st_entries st2 = st_entries st @ [(i, fs)] \<and> fs \<in> {p, p'}"
    if "submitted s s2 j sha k lane fs handle" "v' = Value (Some handle)" "fs \<in> {p, p'}" for fs handle
    using that unfolding submitted_def by blast
  have "same_jobs s s1 \<or> (\<exists>handle. submitted s s1 j sha k lane p handle)"
    by (rule enqueue_tracked_new [OF assms(4) refl assms(6,7,2) st(1) kkey st(2) assms(3,8)]) blast+
  then show ?thesis
  proof (elim disjE exE)
    assume same: "same_jobs s s1"
    have none: "lookup ?t (tracker_key j) = None" using same assms(3) by (simp add: same_jobs_def)
    have "\<exists>handle. submitted ?t s2 j sha k lane p' handle \<and> v' = Value (Some handle)"
      by (rule enqueue_tracked_new [OF assms(5) refl assms(6,7,2) t(1) kkey t(2) none assms(9)]) auto
    then obtain handle where h: "submitted ?t s2 j sha k lane p' handle" "v' = Value (Some handle)" by blast
    have "same_jobs s ?t" by (rule same_jobs_trans [OF same same_jobs_refl(2)])
    from submitted_after_same [OF this kkey st(2) h(1)] h(2) show ?thesis by (intro final) auto
  next
    fix handle assume submit: "submitted s s1 j sha k lane p handle"
    then obtain h where h: "lookup s1 (tracker_key j) = Some (RHash h)" "h ''request_sha256'' = Some sha" "h ''entry_id'' = Some handle"
      unfolding submitted_def by blast
    note eq = assms(9) [unfolded enqueue_tracked_eq [OF assms(5) refl assms(6,7)]]
    obtain w u where g: "ensure_group sv rg ?t = (w, u)" by (cases "ensure_group sv rg ?t")
    note E = ensure_group_run [OF assms(2) t(1), unfolded g fst_conv snd_conv]
    have "lookup u (tracker_key j) = Some (RHash h)" using E(1) h(1) by (simp add: same_jobs_def)
    moreover obtain u1 where "stream_at u k = Some u1" using E(1) kkey t(2) unfolding same_jobs_def by blast
    ultimately have "tracked_script (tracker_key j) k p' (tracked_record strf tracked) sha lane u = (Value handle, u)"
      using tracked_effect_again h(2,3) E(2) by (simp add: tracked_script_def command_def)
    then have "v' = Value (Some handle)" "s2 = u" using eq g E(2) by (auto simp: on_redis_error_def rbind_def ret_def)
    moreover have "same_jobs s1 u" using E(1) unfolding same_jobs_def by simp
    ultimately show ?thesis using final submitted_then_same [OF submit _ kkey] by blast
  qed
qed

definition sample_tracked :: pydict where
  "sample_tracked = [(''job_id'', PStr ''a''), (''request_sha256'', PStr ''x'')]"

definition sample_faulty :: redis where
  "sample_faulty = empty_redis\<lparr>kv_clock := 1, kv_faults := [Answered, Reply_lost]\<rparr>"

definition sample_submit :: "redis \<Rightarrow> string option outcome \<times> redis" where
  "sample_submit s = enqueue (\<lambda>v. ''5'') (\<lambda>v. []) ''now'' sample_queue ''llm'' [(''job_id'', PStr ''a'')] None (Some sample_tracked) s"

lemma sample_submission:
  "(case job_payload (\<lambda>v. ''5'') (\<lambda>v. []) ''now'' sample_queue ''llm'' None [(''job_id'', PStr ''a'')] of
      Some (k, lane, p) \<Rightarrow> k = ''queue:llm'' \<and> lane = None | None \<Rightarrow> False)
   \<and> queue_stream ''llm'' None = Some ''queue:llm''
   \<and> map_of (tracked_record (\<lambda>v. ''5'') sample_tracked) ''job_id'' = Some ''a''
   \<and> map_of (tracked_record (\<lambda>v. ''5'') sample_tracked) ''request_sha256'' = Some ''x''"
  by code_simp

lemma sample_first_lost: "fst (sample_submit sample_faulty) = Value None"
  by code_simp

theorem tracked_submission_repeatable_witness:
  "\<exists>s1 s2 i st2 fs. sample_submit sample_faulty = (Value None, s1) \<and> sample_submit (s1\<lparr>kv_faults := []\<rparr>) = (Value (Some (handle_of None i)), s2)
     \<and> stream_at s2 ''queue:llm'' = Some st2 \<and> st_entries st2 = [(i, fs)]"
proof -
  obtain p where p: "job_payload (\<lambda>v. ''5'') (\<lambda>v. []) ''now'' sample_queue ''llm'' None [(''job_id'', PStr ''a'')] = Some (''queue:llm'', None, p)"
    using conjunct1 [OF sample_submission] by (auto split: option.splits)
  note f = sample_submission [THEN conjunct2]
  have ok: "all_ok sample_faulty" "lookup sample_faulty (tracker_key ''a'') = None" "stream_at sample_faulty ''queue:llm'' = Some empty_stream"
    by (simp_all add: all_ok_def sample_faulty_def empty_redis_def lasting_def stream_at_def lookup_def)
  obtain s1 where s1: "sample_submit sample_faulty = (Value None, s1)" using sample_first_lost by (auto simp: prod_eq_iff)
  obtain v' s2 where s2: "sample_submit (s1\<lparr>kv_faults := []\<rparr>) = (v', s2)" by (cases "sample_submit (s1\<lparr>kv_faults := []\<rparr>)")
  from tracked_submission_repeatable [OF ok(1) conjunct1 [OF f] ok(2) p p conjunct1 [OF conjunct2 [OF f]] conjunct2 [OF conjunct2 [OF f]]
      s1 [unfolded sample_submit_def] s2 [unfolded sample_submit_def]]
  obtain i st st2 fs where "v' = Value (Some (handle_of None i))" "stream_at sample_faulty ''queue:llm'' = Some st"
      "stream_at s2 ''queue:llm'' = Some st2" "st_entries st2 = st_entries st @ [(i, fs)]" by blast
  then show ?thesis using s1 s2 ok(3) by (auto simp: empty_stream_def simp del: split_paired_Ex)
qed

section \<open>Ageing\<close>

definition waiting :: "redis \<Rightarrow> string \<Rightarrow> entry list" where
  "waiting s k = (case stream_at s k of Some st \<Rightarrow> after (position st) st | None \<Rightarrow> [])"

definition head_of :: "redis \<Rightarrow> string \<Rightarrow> stream_id option" where
  "head_of s k = (case waiting s k of [] \<Rightarrow> None | e # _ \<Rightarrow> Some (fst e))"

definition has_group :: "redis \<Rightarrow> string \<Rightarrow> bool" where
  "has_group s k \<longleftrightarrow> (\<exists>st g. lookup s k = Some (RStream st) \<and> st_groups st GROUP = Some g)"

lemma create_group_run:
  assumes "kv_faults s = []" and "stream_at s k = Some st"
  shows "create_group k s = (Value (), put k (RStream (stream_group GROUP st)) s)"
  using assms by (simp add: create_group_def make_stream_def command_def)

lemma after_group [simp]: "after i (stream_group GROUP st) = after i st"
  by (simp add: after_def stream_group_def)

lemma create_groups_run:
  assumes "kv_faults s = []" and "all_ok s" and "\<forall>k\<in>set ks. queue_key k"
  shows "\<exists>s'. create_groups ks s = (Value (), s') \<and> kv_faults s' = [] \<and> all_ok s' \<and> (\<forall>k. waiting s' k = waiting s k)
     \<and> (\<forall>k\<in>set ks. has_group s' k) \<and> (\<forall>k. has_group s k \<longrightarrow> has_group s' k)"
  using assms
proof (induction ks arbitrary: s)
  case (Cons k ks)
  obtain st where st: "stream_at s k = Some st" using Cons.prems(2,3) unfolding all_ok_def by auto
  let ?t = "put k (RStream (stream_group GROUP st)) s"
  have e: "evolves s ?t" by (rule evolves_put [OF st]) (rule steps_intro)
  have w: "waiting ?t j = waiting s j" for j using st by (simp add: waiting_def)
  have g: "has_group ?t k" "has_group s j \<Longrightarrow> has_group ?t j" for j
    using st by (auto simp: has_group_def stream_group_def stream_at_def)
  have "\<exists>s'. create_groups ks ?t = (Value (), s') \<and> kv_faults s' = [] \<and> all_ok s' \<and> (\<forall>k. waiting s' k = waiting ?t k)
     \<and> (\<forall>k\<in>set ks. has_group s' k) \<and> (\<forall>k. has_group ?t k \<longrightarrow> has_group s' k)"
    by (rule Cons.IH) (use Cons.prems evolves_ok(1) [OF e Cons.prems(2)] in auto)
  then show ?case using w g create_group_run [OF Cons.prems(1) st] by (auto simp: rbind_def)
qed (simp add: ret_def)

lemma peek_run:
  assumes "kv_faults s = []" and "has_group s k"
  shows "on_redis_error None (peek_head k) s = (Value (head_of s k), s)"
  using assms
  by (auto simp: has_group_def peek_head_def group_position_def read_stream_def command_def rbind_def on_redis_error_def head_of_def waiting_def
      stream_at_def position_def split: list.splits)

lemma ready_heads_run:
  assumes "kv_faults s = []" and "\<forall>p\<in>set specs. has_group s (fst p)"
  shows "\<exists>cs. ready_heads (\<lambda>k. on_redis_error None (peek_head k)) q now specs s = (Value cs, s)
     \<and> set cs = {(priority_age_score lane i now (rq_aging_interval q) (rq_aging_cap q), k, lane) |k lane i. (k, lane) \<in> set specs \<and> head_of s k = Some i}"
  using assms
proof (induction specs)
  case (Cons p specs)
  obtain k lane where p: "p = (k, lane)" by (cases p)
  obtain cs where "ready_heads (\<lambda>k. on_redis_error None (peek_head k)) q now specs s = (Value cs, s)"
     "set cs = {(priority_age_score lane i now (rq_aging_interval q) (rq_aging_cap q), k, lane) |k lane i. (k, lane) \<in> set specs \<and> head_of s k = Some i}"
    using Cons by auto
  then show ?case
    using peek_run [OF Cons.prems(1), of k] Cons.prems(2) p by (cases "head_of s k") (auto simp: rbind_def ret_def)
qed (simp add: ret_def)

lemma best_is_max: "c \<in> set cs \<Longrightarrow> fst c \<le> fst (best_candidate cs)"
proof (induction cs arbitrary: c rule: best_candidate.induct)
  case (2 x y ys)
  let ?m = "if fst y > fst x then y else x"
  have m: "fst x \<le> fst ?m" "fst y \<le> fst ?m" by (simp_all add: less_imp_le not_less)
  show ?case
  proof (cases "c \<in> set ys")
    case True
    then show ?thesis using 2 by simp
  next
    case False
    then have "fst c \<le> fst ?m" using 2(2) m by (auto simp del: split_paired_All)
    also have "\<dots> \<le> fst (best_candidate (?m # ys))"
      by (rule "2.IH") simp
    finally show ?thesis by simp
  qed
qed simp_all

lemma claim_head:
  assumes "kv_faults s = []" and "has_group s k" and "head_of s k = Some i" and "0 < n"
  shows "\<exists>es s' fs. xreadgroup c n [k] s = (Value [(k, (i, fs) # es)], s')"
proof -
  obtain st g where st: "lookup s k = Some (RStream st)" "st_groups st GROUP = Some g" using assms(2) by (auto simp: has_group_def)
  obtain fs es where w: "after (gr_last g) st = (i, fs) # es"
    using assms(3) st by (auto simp: head_of_def waiting_def stream_at_def position_def split: list.splits)
  obtain m where "n = Suc m" using assms(4) by (cases n) auto
  then have "\<exists>st'. stream_claim GROUP c n st = Some ((i, fs) # take m es, st')" using st(2) w by (simp add: stream_claim_def Let_def)
  then show ?thesis using assms(1,4) st(1) by (auto simp: xreadgroup_def command_def split: option.splits)
qed

lemma lane_rank_bounds: "lane_rank l = Some r \<Longrightarrow> 0 \<le> r \<and> r \<le> 2"
  by (auto simp: lane_rank_def split: if_splits)

lemma lane_base_bounds: "0 \<le> lane_base lane" "lane_base lane \<le> 2"
  by (auto simp: lane_base_def bind_eq_Some_conv dest: lane_rank_bounds split: option.splits)

text \<open>A head of an old entry beats every young one: at full age the lowest lane scores 3, a young entry of the highest lane 2.\<close>

lemma aged_score_wins:
  assumes "3 \<le> aging_cap" and "3 * max 1 aging_interval \<le> entry_age i now" and "entry_age i' now < max 1 aging_interval"
  shows "priority_age_score lane' i' now aging_interval aging_cap < priority_age_score lane i now aging_interval aging_cap"
proof -
  let ?I = "max 1 aging_interval"
  have "3 \<le> entry_age i now / ?I" using assms(2) by (simp add: le_divide_eq)
  then have "3 \<le> \<lfloor>entry_age i now / ?I\<rfloor>" by linarith
  then have b: "3 \<le> age_boost i now aging_interval aging_cap" using assms(1) by (simp add: age_boost_def)
  have "entry_age i' now / ?I < 1" using assms(3) by (simp add: divide_less_eq)
  then have "\<lfloor>entry_age i' now / ?I\<rfloor> \<le> 0" by linarith
  then have b': "age_boost i' now aging_interval aging_cap \<le> 0" unfolding age_boost_def by (rule order_trans [OF min.cobounded2])
  have "lane_base lane' + age_boost i' now aging_interval aging_cap < lane_base lane + age_boost i now aging_interval aging_cap"
    using b b' lane_base_bounds(1) [of lane] lane_base_bounds(2) [of lane'] by linarith
  then show ?thesis by (simp add: priority_age_score_def less_prod_def less_eq_prod_def)
qed

text \<open>Low priority work does not starve behind fresh work. With lanes and a cap of at least three, a head that has waited three ageing intervals, in whatever lane, is the next
  job an answered dequeue hands out, when the heads of the other lanes are younger than one interval.\<close>

theorem aged_head_is_next:
  assumes "all_ok s" and "kv_faults s = []" and "rq_lanes_enabled q" and "3 \<le> rq_aging_cap q" and "0 < n"
    and "stream_specs q sv rg = Some specs" and "lane_suffix (''queue:'' @ authority sv rg) = None"
    and "(k, lane) \<in> set specs" and "head_of s k = Some i" and "3 * max 1 (rq_aging_interval q) \<le> entry_age i now"
    and "\<forall>(k', lane') \<in> set specs. \<forall>i'. k' \<noteq> k \<longrightarrow> head_of s k' = Some i' \<longrightarrow> entry_age i' now < max 1 (rq_aging_interval q)"
  shows "\<exists>j js s'. dequeue q sv c n rg now s = (Value (j # js), s') \<and> map_of j ''_entry_id'' = Some (handle_of lane i)"
proof -
  note all = stream_specs_all [OF assms(6)]
  have keys: "\<forall>k\<in>set (map fst specs). queue_key k" using all all_specs_key by fastforce
  obtain t where t: "create_groups (map fst specs) s = (Value (), t)" "kv_faults t = []" "\<forall>k. waiting t k = waiting s k" "\<forall>k\<in>set (map fst specs). has_group t k"
    using create_groups_run [OF assms(2,1) keys] by blast
  then have head: "head_of t k = head_of s k" for k by (simp add: head_of_def)
  let ?score = "\<lambda>lane i. priority_age_score lane i now (rq_aging_interval q) (rq_aging_cap q)"
  obtain cs where cs: "ready_heads (\<lambda>k. on_redis_error None (peek_head k)) q now specs t = (Value cs, t)"
      "set cs = {(?score lane i, k, lane) |k lane i. (k, lane) \<in> set specs \<and> head_of s k = Some i}"
    using ready_heads_run [OF t(2), of specs q now] t(4) head by auto
  have mem: "(?score lane i, k, lane) \<in> set cs" using cs(2) assms(8,9) by blast
  then have ne: "cs \<noteq> []" by auto
  obtain k' lane' i' where b: "best_candidate cs = (?score lane' i', k', lane')" "(k', lane') \<in> set specs" "head_of s k' = Some i'"
    using best_in [OF ne] cs(2) by auto
  have "k' = k"
  proof (rule ccontr)
    assume "k' \<noteq> k"
    then have "entry_age i' now < max 1 (rq_aging_interval q)" using assms(11) b(2,3) by blast
    then have "?score lane' i' < ?score lane i" by (rule aged_score_wins [OF assms(4,10)])
    then show False using best_is_max [OF mem] b(1) by (simp add: not_le [symmetric])
  qed
  then have i': "i' = i" using b(3) assms(9) by simp
  have "(k, lane) \<in> all_specs sv rg" "(k, lane') \<in> all_specs sv rg" using all assms(8) b(2) \<open>k' = k\<close> by auto
  note L = decoded_lane(1) [OF this(1) assms(7), of None] decoded_lane(1) [OF this(2) assms(7), of None] decoded_lane [OF this(1) assms(7), of lane]
  then have lane': "lane' = lane" by simp
  obtain es s' fs where x: "xreadgroup c n [k] t = (Value [(k, (i, fs) # es)], s')"
    using claim_head [OF t(2) _ _ assms(5)] t(4) head assms(8,9) by (metis (no_types, lifting) fst_conv imageI list.set_map)
  have "dequeue q sv c n rg now s = (Value (decode_claimed_entries [(k, (i, fs) # es)] lane), s')"
    using assms(3,6) t(1) cs(1) ne b(1) x \<open>k' = k\<close> lane'
    by (simp add: dequeue_def dequeue_body_def on_redis_error_def rbind_def lift_value_def ret_def)
  moreover have "\<exists>j js. decode_claimed_entries [(k, (i, fs) # es)] lane = j # js \<and> map_of j ''_entry_id'' = Some (handle_of lane i)"
    using L by (auto simp: decode_claimed_entries_def Let_def handle_of_def update_conv split: option.splits)
  ultimately show ?thesis by auto
qed

definition sample_lanes :: RedisQueue where
  "sample_lanes = new_queue [] True 60 3"

definition sample_aged :: redis where
  "sample_aged = snd (enqueue (\<lambda>v. ''5'') (\<lambda>v. []) ''now'' sample_lanes ''llm'' [(''priority_class'', PStr ''background'')] None None (empty_redis\<lparr>kv_clock := 1\<rparr>))"

lemma sample_aged_facts:
  "(case stream_specs sample_lanes ''llm'' None of Some specs \<Rightarrow>
      list_all (\<lambda>(k, l). if k = ''queue:llm:lane:background'' then head_of sample_aged k = Some (1000, 0) else head_of sample_aged k = None) specs
      \<and> list_ex (\<lambda>p. p = (''queue:llm:lane:background'', Some ''background'')) specs
    | None \<Rightarrow> False)
   \<and> kv_faults sample_aged = [] \<and> lane_suffix (''queue:'' @ authority ''llm'' None) = None"
  by code_simp

theorem aged_head_is_next_witness:
  "\<exists>j js s'. dequeue sample_lanes ''llm'' ''w'' 1 None 200 sample_aged = (Value (j # js), s')
     \<and> map_of j ''_entry_id'' = Some (handle_of (Some ''background'') (1000, 0))"
proof -
  obtain specs where specs: "stream_specs sample_lanes ''llm'' None = Some specs"
      "list_all (\<lambda>(k, l). if k = ''queue:llm:lane:background'' then head_of sample_aged k = Some (1000, 0) else head_of sample_aged k = None) specs"
      "(''queue:llm:lane:background'', Some ''background'') \<in> set specs"
    using conjunct1 [OF sample_aged_facts] by (auto simp: list_ex_iff split: option.splits)
  note f = conjunct2 [OF sample_aged_facts]
  have "client_step\<^sup>*\<^sup>* empty_redis (empty_redis\<lparr>kv_clock := 1\<rparr>)" using cl_time by blast
  then have "client_step\<^sup>*\<^sup>* empty_redis sample_aged"
    unfolding sample_aged_def using cl_enqueue by (meson rtranclp.rtrancl_into_rtrancl)
  note ok = clients_ok(1) [OF this all_ok_empty]
  have head: "head_of sample_aged ''queue:llm:lane:background'' = Some (1000, 0)" using specs(2,3) by (auto simp: list_all_iff)
  have young: "\<forall>(k', lane') \<in> set specs. \<forall>i'. k' \<noteq> ''queue:llm:lane:background'' \<longrightarrow> head_of sample_aged k' = Some i' \<longrightarrow>
      entry_age i' 200 < max 1 (rq_aging_interval sample_lanes)"
    using specs(2) by (auto simp: list_all_iff)
  have q: "rq_lanes_enabled sample_lanes" "3 \<le> rq_aging_cap sample_lanes" "3 * max 1 (rq_aging_interval sample_lanes) \<le> entry_age (1000, 0) 200"
    by (simp_all add: sample_lanes_def new_queue_def entry_age_def)
  show ?thesis
    by (rule aged_head_is_next [OF ok conjunct1 [OF f] q(1,2) _ specs(1) conjunct2 [OF f] specs(3) head q(3) young]) simp
qed

end
