(* ===== verification/Job_Tracker.thy ===== *)
theory Job_Tracker
  imports Queue_Delivery
begin

text \<open>
  \<open>JobTracker\<close> and \<open>terminalize_if_impossible\<close> of \<open>scripts/queue_engine.py\<close>: the record of a job is the Redis hash \<open>job:<id>\<close>, its admission
  marker the string \<open>job-idempotency:<digest>\<close>. A method is a sequence of commands; \<open>others\<close> says what the other clients
  do between two of them, and a \<open>WATCH\<close> reports whether they touched the key. \<open>sha\<close> is the hex SHA-256 of a
  text, \<open>dumps\<close> and \<open>loads\<close> are \<open>json.dumps\<close> and \<open>json.loads\<close> (\<open>None\<close> on text that is not JSON), \<open>strf\<close> is \<open>str()\<close> of a value that is not a string.
\<close>

section \<open>Commands on hashes, strings and counters\<close>

definition interfere :: "(redis \<Rightarrow> redis) \<Rightarrow> unit rcomp" where
  "interfere f s = (Value (), f s)"

definition hset :: "string \<Rightarrow> sfields \<Rightarrow> unit rcomp" where
  "hset k fs = command (\<lambda>s. case hash_at s k of None \<Rightarrow> (RedisError, s) | Some h \<Rightarrow> (Value (), put k (RHash (h ++ map_of fs)) s))"

definition persist_key :: "string \<Rightarrow> unit rcomp" where
  "persist_key k = command (\<lambda>s. (Value (), set_expiry k None s))"

definition exists_key :: "string \<Rightarrow> bool rcomp" where
  "exists_key k = command (\<lambda>s. (Value (lookup s k \<noteq> None), s))"

definition get_text :: "string \<Rightarrow> string option rcomp" where
  "get_text k = command (\<lambda>s. case lookup s k of None \<Rightarrow> (Value None, s) | Some (RText t) \<Rightarrow> (Value (Some t), s) | _ \<Rightarrow> (RedisError, s))"

definition set_nx :: "string \<Rightarrow> string \<Rightarrow> bool rcomp" where
  "set_nx k v = command (\<lambda>s. if lookup s k = None then (Value True, put k (RText v) s) else (Value False, s))"

section \<open>Job ids\<close>

definition COUNTER_KEY :: string where
  "COUNTER_KEY = ''job_counter''"

definition counter_value :: "redis \<Rightarrow> int option" where
  "counter_value s = (case lookup s COUNTER_KEY of None \<Rightarrow> Some 0 | Some (RText t) \<Rightarrow> int_text t | _ \<Rightarrow> None)"

definition incr_counter :: "int rcomp" where
  "incr_counter = command (\<lambda>s. case counter_value s of
     None \<Rightarrow> (RedisError, s) | Some v \<Rightarrow> (Value (v + 1), put COUNTER_KEY (RText (show_int (v + 1))) s))"

definition read_counter :: "int rcomp" where
  "read_counter = command (\<lambda>s. case counter_value s of None \<Rightarrow> (RedisError, s) | Some v \<Rightarrow> (Value v, s))"

text \<open>\<open>MULTI; SET counter 1; EXEC\<close> under a \<open>WATCH\<close>: a touched key is a \<open>WatchError\<close>, which is a \<open>RedisError\<close>. \<open>SET\<close> drops an expiry.\<close>

definition reset_counter :: "bool \<Rightarrow> unit rcomp" where
  "reset_counter touched = command (\<lambda>s.
     if touched then (RedisError, s) else (Value (), set_expiry COUNTER_KEY None (put COUNTER_KEY (RText (show_int 1)) s)))"

text \<open>The format \<open>{val:04d}\<close>.\<close>

definition pad4 :: "int \<Rightarrow> string" where
  "pad4 v = (let t = show_int v in
     if v < 0 then CHR ''-'' # replicate (4 - length t) CHR ''0'' @ tl t else replicate (4 - length t) CHR ''0'' @ t)"

definition job_id_text :: "int \<Rightarrow> string" where
  "job_id_text v = ''J-'' @ pad4 v"

text \<open>What follows the \<open>INCR\<close>: beyond 9999 the counter is set back, unless another caller did so.\<close>

definition finish_job_id :: "(redis \<Rightarrow> redis) \<Rightarrow> (redis \<Rightarrow> bool \<times> redis) \<Rightarrow> int \<Rightarrow> string option rcomp" where
  "finish_job_id others watched val =
     (if val \<le> 9999 then ret (Some (job_id_text val))
      else rbind (interfere others) (\<lambda>_.
           rbind read_counter (\<lambda>current.
           if current > 9999
           then rbind (\<lambda>s. (Value (fst (watched s)), snd (watched s))) (\<lambda>touched.
                rbind (reset_counter touched) (\<lambda>_. ret (Some (job_id_text 1))))
           else ret (Some (job_id_text current)))))"

definition next_job_id :: "(redis \<Rightarrow> redis) \<Rightarrow> (redis \<Rightarrow> bool \<times> redis) \<Rightarrow> string option rcomp" where
  "next_job_id others watched = on_redis_error None (rbind incr_counter (finish_job_id others watched))"

section \<open>Admission markers\<close>

definition IDEMPOTENCY_PREFIX :: string where
  "IDEMPOTENCY_PREFIX = ''job-idempotency:''"

definition idempotency_key :: "(string \<Rightarrow> string) \<Rightarrow> string \<Rightarrow> string" where
  "idempotency_key sha key = IDEMPOTENCY_PREFIX @ sha key"

datatype claim_result =
    Claimed string
  | Replay string string string
  | Claim_conflict
  | Claim_unavailable string

definition claim_marker :: "string \<Rightarrow> string \<Rightarrow> string \<Rightarrow> string \<Rightarrow> pydict" where
  "claim_marker job_id request_sha256 service_name routing_group =
     [(''job_id'', PStr job_id), (''request_sha256'', PStr request_sha256), (''service_name'', PStr service_name), (''routing_group'', PStr routing_group)]"

definition str_or_empty :: "(pyval \<Rightarrow> string) \<Rightarrow> pyval \<Rightarrow> string" where
  "str_or_empty strf v = (if truthy v then py_str strf v else [])"

text \<open>The judgement of a marker that was there before.\<close>

definition judge_marker :: "(pyval \<Rightarrow> string) \<Rightarrow> (string \<Rightarrow> pyval option) \<Rightarrow> string \<Rightarrow> string option \<Rightarrow> claim_result" where
  "judge_marker strf loads request_sha256 existing =
     (case existing of
        None \<Rightarrow> Claim_unavailable ''idempotency marker disappeared''
      | Some t \<Rightarrow>
          (case loads t of
             Some (PDict prior) \<Rightarrow>
               if \<not> py_eq (dget prior ''request_sha256'') (PStr request_sha256) then Claim_conflict
               else (case dget prior ''job_id'' of
                       PStr j \<Rightarrow> if j = [] then Claim_unavailable ''idempotency marker missing job''
                                 else Replay j (str_or_empty strf (dget prior ''service_name'')) (str_or_empty strf (dget prior ''routing_group''))
                     | _ \<Rightarrow> Claim_unavailable ''idempotency marker missing job'')
           | _ \<Rightarrow> Claim_unavailable ''idempotency marker invalid''))"

definition claim_idempotency ::
  "(pyval \<Rightarrow> string) \<Rightarrow> (string \<Rightarrow> string) \<Rightarrow> (pydict \<Rightarrow> string) \<Rightarrow> (string \<Rightarrow> pyval option) \<Rightarrow> (redis \<Rightarrow> redis)
     \<Rightarrow> string \<Rightarrow> string \<Rightarrow> string \<Rightarrow> string \<Rightarrow> string \<Rightarrow> int \<Rightarrow> claim_result rcomp" where
  "claim_idempotency strf sha dumps loads others key request_sha256 job_id service_name routing_group ttl_seconds =
     (if blank key \<or> length key > 256 \<or> length request_sha256 \<noteq> 64 \<or> blank job_id \<or> ttl_seconds \<le> 0 then raise_value
      else on_redis_error (Claim_unavailable ''idempotency store unavailable'')
        (rbind (set_nx (idempotency_key sha key) (dumps (claim_marker job_id request_sha256 service_name routing_group))) (\<lambda>fresh.
         if fresh then ret (Claimed job_id)
         else rbind (interfere others) (\<lambda>_.
              rbind (get_text (idempotency_key sha key)) (\<lambda>existing. ret (judge_marker strf loads request_sha256 existing))))))"

section \<open>Job records\<close>

record job_options =
  jo_priority :: "int option"
  jo_priority_class :: "string option"
  jo_broker_priority :: "int option"
  jo_priority_convention :: "string option"
  jo_priority_source :: "string option"
  jo_idempotency_key_sha256 :: "string option"
  jo_request_sha256 :: "string option"
  jo_parent_job_id :: string
  jo_service_revision :: pyval
  jo_service_revision_fingerprint :: "string option"
  jo_workflow_revision :: pyval
  jo_workflow_fingerprint :: "string option"

definition opt_field :: "string \<Rightarrow> string option \<Rightarrow> sfields" where
  "opt_field k v = (if opt_true v then [(k, the v)] else [])"

definition int_opt_field :: "string \<Rightarrow> int option \<Rightarrow> sfields" where
  "int_opt_field k v = (case v of None \<Rightarrow> [] | Some i \<Rightarrow> [(k, show_int i)])"

definition revision_field :: "(pyval \<Rightarrow> string) \<Rightarrow> string \<Rightarrow> pyval \<Rightarrow> sfields" where
  "revision_field strf k v = (if v = PNone \<or> v = PStr [] then [] else [(k, py_str strf v)])"

definition job_fields ::
  "(pyval \<Rightarrow> string) \<Rightarrow> string \<Rightarrow> string \<Rightarrow> string \<Rightarrow> string \<Rightarrow> string \<Rightarrow> int \<Rightarrow> string \<Rightarrow> job_options \<Rightarrow> sfields" where
  "job_fields strf stamp job_id service_name source_name prompt max_tokens routing_group opts =
     [(''job_id'', job_id), (''service_name'', service_name), (''routing_group'', routing_group), (''status'', ''queued''),
      (''source'', source_name), (''submitted_at'', stamp), (''started_at'', []), (''completed_at'', []), (''assigned_slot'', []),
      (''prompt_preview'', take 200 prompt), (''max_tokens'', show_int max_tokens), (''result'', []), (''error'', []), (''position'', [])]
     @ int_opt_field ''priority'' (jo_priority opts)
     @ opt_field ''priority_class'' (jo_priority_class opts)
     @ int_opt_field ''broker_priority'' (jo_broker_priority opts)
     @ opt_field ''priority_convention'' (jo_priority_convention opts)
     @ opt_field ''priority_source'' (jo_priority_source opts)
     @ opt_field ''idempotency_key_sha256'' (jo_idempotency_key_sha256 opts)
     @ opt_field ''request_sha256'' (jo_request_sha256 opts)
     @ opt_field ''parent_job_id'' (Some (jo_parent_job_id opts))
     @ revision_field strf ''service_revision'' (jo_service_revision opts)
     @ opt_field ''service_revision_fingerprint'' (jo_service_revision_fingerprint opts)
     @ revision_field strf ''workflow_revision'' (jo_workflow_revision opts)
     @ opt_field ''workflow_fingerprint'' (jo_workflow_fingerprint opts)"

definition create_job ::
  "(pyval \<Rightarrow> string) \<Rightarrow> (redis \<Rightarrow> redis) \<Rightarrow> string \<Rightarrow> string \<Rightarrow> string \<Rightarrow> string \<Rightarrow> string \<Rightarrow> int \<Rightarrow> string \<Rightarrow> job_options \<Rightarrow> sfields option rcomp" where
  "create_job strf others stamp job_id service_name source_name prompt max_tokens routing_group opts =
     (let job = job_fields strf stamp job_id service_name source_name prompt max_tokens routing_group opts in
      on_redis_error None
        (rbind (hset (tracker_key job_id) job) (\<lambda>_.
         rbind (interfere others) (\<lambda>_.
         rbind (persist_key (tracker_key job_id)) (\<lambda>_. ret (Some job))))))"

text \<open>\<open>{k: str(v) for ... if v is not None}\<close>.\<close>

definition kwarg_fields :: "(pyval \<Rightarrow> string) \<Rightarrow> pydict \<Rightarrow> sfields" where
  "kwarg_fields strf kwargs = map (map_prod id (py_str strf)) (filter (\<lambda>p. snd p \<noteq> PNone) kwargs)"

definition status_fields :: "string \<Rightarrow> string \<Rightarrow> sfields" where
  "status_fields stamp status =
     (''status'', status) #
     (if terminal_status status then [(''completed_at'', stamp)]
      else if status = ''in_flight'' then [(''started_at'', stamp), (''completed_at'', []), (''error'', []), (''result'', [])]
      else [])"

definition TERMINAL_TTL :: time where
  "TERMINAL_TTL = 2592000"

text \<open>The expiry of what belongs to a finished job, thirty days ahead, and to any other, none.\<close>

definition retention :: "time \<Rightarrow> bool \<Rightarrow> time option" where
  "retention now finished = (if finished then Some (now + TERMINAL_TTL) else None)"

definition finished_record :: "(string \<rightharpoonup> string) \<Rightarrow> bool" where
  "finished_record h = (case h ''status'' of None \<Rightarrow> False | Some st \<Rightarrow> terminal_status st)"

text \<open>The transaction of \<open>update_status\<close>: on a key of another type \<open>HSET\<close> fails and the second command still runs.\<close>

definition status_effect :: "string \<Rightarrow> string \<Rightarrow> sfields \<Rightarrow> unit rcomp" where
  "status_effect key status updates s =
     (let e = retention (kv_clock s) (terminal_status status) in
      case hash_at s key of
        None \<Rightarrow> (RedisError, set_expiry key e s)
      | Some h \<Rightarrow> (Value (), set_expiry key e (put key (RHash (h ++ map_of updates)) s)))"

text \<open>The script that gives the marker of a finished job an expiry and keeps the marker of any other. A JSON value without fields is a Lua error.\<close>

definition marker_effect :: "(string \<Rightarrow> pyval option) \<Rightarrow> string \<Rightarrow> string \<Rightarrow> string \<Rightarrow> unit rcomp" where
  "marker_effect loads key marker job_id s =
     (case lookup s marker of
        None \<Rightarrow> (Value (), s)
      | Some (RText raw) \<Rightarrow>
          (case loads raw of
             None \<Rightarrow> (Value (), s)
           | Some (PDict d) \<Rightarrow>
               if dget d ''job_id'' \<noteq> PStr job_id then (Value (), s)
               else (case hash_at s key of
                       None \<Rightarrow> (RedisError, s)
                     | Some h \<Rightarrow>
                         (Value (), set_expiry marker (retention (kv_clock s) (finished_record h)) s))
           | Some (PList _) \<Rightarrow> (Value (), s)
           | Some (PStr _) \<Rightarrow> (Value (), s)
           | Some _ \<Rightarrow> (RedisError, s))
      | _ \<Rightarrow> (RedisError, s))"

definition update_status ::
  "(pyval \<Rightarrow> string) \<Rightarrow> (string \<Rightarrow> pyval option) \<Rightarrow> (nat \<Rightarrow> redis \<Rightarrow> redis) \<Rightarrow> string \<Rightarrow> string \<Rightarrow> string \<Rightarrow> pydict \<Rightarrow> bool rcomp" where
  "update_status strf loads others stamp job_id status kwargs =
     (let key = tracker_key job_id; updates = kwarg_fields strf kwargs @ status_fields stamp status in
      on_redis_error False
        (rbind (command (status_effect key status updates)) (\<lambda>_.
         rbind (interfere (others 0)) (\<lambda>_.
         rbind (read_hash key (\<lambda>h. h ''idempotency_key_sha256'')) (\<lambda>digest.
         if \<not> opt_true digest then ret True
         else rbind (interfere (others 1)) (\<lambda>_.
              rbind (command (marker_effect loads key (IDEMPOTENCY_PREFIX @ the digest) job_id)) (\<lambda>_. ret True)))))))"

definition update_fields :: "(pyval \<Rightarrow> string) \<Rightarrow> (redis \<Rightarrow> redis) \<Rightarrow> string \<Rightarrow> pydict \<Rightarrow> bool rcomp" where
  "update_fields strf others job_id kwargs =
     (let updates = kwarg_fields strf kwargs in
      if updates = [] then ret True
      else on_redis_error False
        (rbind (exists_key (tracker_key job_id)) (\<lambda>found.
         if \<not> found then ret False
         else rbind (interfere others) (\<lambda>_. rbind (hset (tracker_key job_id) updates) (\<lambda>_. ret True)))))"

definition heartbeat_effect :: "string \<Rightarrow> sfields \<Rightarrow> bool rcomp" where
  "heartbeat_effect key updates s =
     (case lookup s key of
        None \<Rightarrow> (Value False, s)
      | Some (RHash h) \<Rightarrow>
          let h' = h ++ map_of updates in
          (Value True, set_expiry key (retention (kv_clock s) (finished_record h')) (put key (RHash h') s))
      | _ \<Rightarrow> (RedisError, s))"

definition update_heartbeat :: "(pyval \<Rightarrow> string) \<Rightarrow> string \<Rightarrow> pydict \<Rightarrow> bool rcomp" where
  "update_heartbeat strf job_id kwargs =
     (let updates = kwarg_fields strf kwargs in
      if updates = [] then ret True
      else on_redis_error False (command (heartbeat_effect (tracker_key job_id) updates)))"

text \<open>The compare-and-set loop: \<open>watched n\<close> is what the other clients do in the n-th attempt between the read and the \<open>EXEC\<close>.\<close>

datatype intent_result = Intent_marked | Intent_status string | Intent_missing | Intent_error | Intent_conflict

definition intent_effect :: "string \<Rightarrow> bool \<Rightarrow> bool rcomp" where
  "intent_effect key touched s =
     (if touched then (Value False, s)
      else case hash_at s key of
        None \<Rightarrow> (RedisError, s)
      | Some h \<Rightarrow> (Value True, put key (RHash (h(''cancellation_intent'' \<mapsto> ''1''))) s))"

primrec mark_intent :: "(nat \<Rightarrow> redis \<Rightarrow> bool \<times> redis) \<Rightarrow> string \<Rightarrow> nat \<Rightarrow> intent_result rcomp" where
  "mark_intent watched key 0 = ret Intent_conflict"
| "mark_intent watched key (Suc n) =
     rbind (read_hash key (\<lambda>h. h ''status'')) (\<lambda>status.
     if \<not> opt_true status then ret Intent_missing
     else if status \<noteq> Some ''in_flight'' then ret (Intent_status (the status))
     else rbind (\<lambda>s. (Value (fst (watched n s)), snd (watched n s))) (\<lambda>touched.
          rbind (command (intent_effect key touched)) (\<lambda>written.
          if written then ret Intent_marked else mark_intent watched key n)))"

definition mark_cancellation_intent_if_in_flight :: "(nat \<Rightarrow> redis \<Rightarrow> bool \<times> redis) \<Rightarrow> string \<Rightarrow> intent_result rcomp" where
  "mark_cancellation_intent_if_in_flight watched job_id = on_redis_error Intent_error (mark_intent watched (tracker_key job_id) 3)"

definition tracker_get_job :: "string \<Rightarrow> (string \<rightharpoonup> string) option rcomp" where
  "tracker_get_job job_id = on_redis_error None (read_hash (tracker_key job_id) (\<lambda>h. if h = Map.empty then None else Some h))"

definition delete_job :: "string \<Rightarrow> bool rcomp" where
  "delete_job job_id = on_redis_error False (rbind (command (\<lambda>s. (Value (), remove (tracker_key job_id) s))) (\<lambda>_. ret True))"

text \<open>\<open>preserve_unfinished_receipts\<close>: \<open>keys\<close> are those the scan of \<open>job:*\<close> yields. An error ends the call.\<close>

definition preserve_effect :: "string \<Rightarrow> nat rcomp" where
  "preserve_effect key s =
     (case lookup s key of
        Some (RHash h) \<Rightarrow>
          (case h ''status'' of
             None \<Rightarrow> (Value 0, s)
           | Some st \<Rightarrow>
               if terminal_status st then (Value 0, s)
               else let s1 = set_expiry key None s in
                 (Value (if expiry s key = None then 0 else 1),
                  case h ''idempotency_key_sha256'' of None \<Rightarrow> s1 | Some digest \<Rightarrow> set_expiry (IDEMPOTENCY_PREFIX @ digest) None s1))
      | _ \<Rightarrow> (Value 0, s))"

fun preserve_unfinished_receipts :: "string list \<Rightarrow> nat \<Rightarrow> nat rcomp" where
  "preserve_unfinished_receipts [] limit = ret 0"
| "preserve_unfinished_receipts (k # ks) limit =
     (if limit = 0 then ret 0
      else rbind (command (preserve_effect k)) (\<lambda>n. rbind (preserve_unfinished_receipts ks (limit - 1)) (\<lambda>m. ret (n + m))))"

section \<open>Jobs that cannot go on\<close>

datatype terminalize_result = Noop string | Terminalize_error | Terminalized

definition terminalize_if_impossible ::
  "(pyval \<Rightarrow> string) \<Rightarrow> (string \<Rightarrow> pyval option) \<Rightarrow> (nat \<Rightarrow> redis \<Rightarrow> redis) \<Rightarrow> string \<Rightarrow> string \<Rightarrow> bool \<Rightarrow> bool \<Rightarrow> bool \<Rightarrow> bool \<Rightarrow> terminalize_result rcomp" where
  "terminalize_if_impossible strf loads others stamp job_id stream_has_pel stream_has_entry service_running force =
     rbind (tracker_get_job job_id) (\<lambda>job. case job of
       None \<Rightarrow> ret (Noop ''job_not_found'')
     | Some h \<Rightarrow>
         if h ''status'' \<noteq> Some ''in_flight'' then ret (Noop ''status'')
         else if \<not> force then ret (Noop ''force flag not set'')
         else if service_running then ret (Noop ''service_running'')
         else if stream_has_pel then ret (Noop ''stream_has_pel'')
         else if stream_has_entry then ret (Noop ''stream_has_entry'')
         else rbind (interfere (others 2)) (\<lambda>_.
              rbind (update_status strf loads others stamp job_id ''cancelled''
                [(''error'', PStr ''terminalize_if_impossible: no PEL, no stream entry, service stopped'')]) (\<lambda>updated.
              ret (if updated then Terminalized else Terminalize_error))))"

end
