(* ===== verification/Job_Receipts.thy ===== *)
theory Job_Receipts
  imports Job_Tracker
begin

text \<open>
  What survives in Redis: the record of a job that is not finished, and the marker that makes its admission unique. Both have no expiry,
  and no call of any client gives them one, except the calls that finish or delete the job.
\<close>

section \<open>The invariant\<close>

abbreviation unfinished :: "(string \<rightharpoonup> string) \<Rightarrow> bool" where
  "unfinished h \<equiv> \<not> finished_record h"

definition marker_owner :: "(string \<Rightarrow> pyval option) \<Rightarrow> string \<Rightarrow> string option" where
  "marker_owner loads t = (case loads t of Some (PDict d) \<Rightarrow> (case dget d ''job_id'' of PStr j \<Rightarrow> Some j | _ \<Rightarrow> None) | _ \<Rightarrow> None)"

text \<open>The record of \<open>j\<close> is there, unfinished and without expiry, and so are the markers \<open>M\<close> (key and text) of \<open>j\<close>.\<close>

definition held :: "(string \<Rightarrow> pyval option) \<Rightarrow> string \<Rightarrow> (string \<times> string) set \<Rightarrow> redis \<Rightarrow> bool" where
  "held loads j M s \<longleftrightarrow> (\<exists>h. lookup s (tracker_key j) = Some (RHash h) \<and> unfinished h) \<and> expiry s (tracker_key j) = None
     \<and> (\<forall>(mk, t) \<in> M. prefix IDEMPOTENCY_PREFIX mk \<and> lookup s mk = Some (RText t) \<and> expiry s mk = None \<and> marker_owner loads t = Some j)"

lemma retention_False [simp]: "retention now False = None"
  by (simp add: retention_def)

interpretation held: redis_invariant "held loads j M" for loads j M
  by unfold_locales (simp add: held_def)

lemma key_simps [simp]:
  "tracker_key i = tracker_key j \<longleftrightarrow> i = j" "\<not> prefix IDEMPOTENCY_PREFIX (tracker_key j)" "\<not> prefix IDEMPOTENCY_PREFIX COUNTER_KEY"
  "\<not> prefix IDEMPOTENCY_PREFIX DEAD_LETTER_METRICS_HASH" "tracker_key j \<noteq> COUNTER_KEY" "tracker_key j \<noteq> DEAD_LETTER_METRICS_HASH"
  "tracker_key j \<noteq> IDEMPOTENCY_PREFIX @ d" "IDEMPOTENCY_PREFIX @ d \<noteq> tracker_key j" "COUNTER_KEY \<noteq> tracker_key j" "DEAD_LETTER_METRICS_HASH \<noteq> tracker_key j"
  by (simp_all add: tracker_key_def IDEMPOTENCY_PREFIX_def COUNTER_KEY_def DEAD_LETTER_METRICS_HASH_def)

lemma held_put:
  assumes "held loads j M s" and "k = tracker_key j \<Longrightarrow> \<exists>h. v = RHash h \<and> unfinished h" and "\<And>t. (k, t) \<in> M \<Longrightarrow> v = RText t"
  shows "held loads j M (put k v s)"
  using assms unfolding held_def by (auto split: prod.splits)

lemma held_mono:
  assumes "held loads j M s" and "\<And>k. k = tracker_key j \<or> k \<in> fst ` M \<Longrightarrow> lookup s' k = lookup s k \<and> (expiry s' k = expiry s k \<or> expiry s' k = None)"
  shows "held loads j M s'"
proof -
  have m: "lookup s' mk = lookup s mk \<and> (expiry s' mk = expiry s mk \<or> expiry s' mk = None)" if "(mk, t) \<in> M" for mk t
    using assms(2) that by (metis fst_conv imageI)
  show ?thesis using assms(1) assms(2) [of "tracker_key j"] m unfolding held_def by (fastforce split: prod.splits)
qed

lemma held_expiry: "held loads j M s \<Longrightarrow> e = None \<or> k \<noteq> tracker_key j \<and> k \<notin> fst ` M \<Longrightarrow> held loads j M (set_expiry k e s)"
  by (erule held_mono) (auto simp: lookup_set_expiry expiry_set_expiry)

lemma held_remove: "held loads j M s \<Longrightarrow> k \<noteq> tracker_key j \<Longrightarrow> k \<notin> fst ` M \<Longrightarrow> held loads j M (remove k s)"
  by (erule held_mono) (auto simp: expiry_remove)

text \<open>A key that is missing, a stream or a hash of another job is none of those held.\<close>

lemma held_marker: "held loads j M s \<Longrightarrow> (k, t) \<in> M \<Longrightarrow> lookup s k = Some (RText t) \<and> prefix IDEMPOTENCY_PREFIX k \<and> marker_owner loads t = Some j"
  unfolding held_def by blast

lemma held_other:
  assumes "held loads j M s" and "lookup s k = None \<or> (\<exists>st. lookup s k = Some (RStream st))"
  shows "k \<noteq> tracker_key j" and "(k, t) \<notin> M" and "k \<notin> fst ` M"
proof -
  show "k \<noteq> tracker_key j" using assms by (auto simp: held_def)
  show M: "(k, t) \<notin> M" for t using assms(2) held_marker [OF assms(1), of k t] by auto
  show "k \<notin> fst ` M" using M by auto
qed

lemma stream_at_other: "stream_at s k = Some st \<Longrightarrow> lookup s k = None \<or> (\<exists>st. lookup s k = Some (RStream st))"
  by (auto simp: stream_at_def split: option.splits rvalue.splits)

lemma held_put_stream: "held loads j M s \<Longrightarrow> stream_at s k = Some st \<Longrightarrow> held loads j M (put k v s)"
  using held_other [of loads j M s k] stream_at_other [of s k st] by (intro held_put) auto

lemma held_put_found: "held loads j M s \<Longrightarrow> lookup s k = Some (RStream st) \<Longrightarrow> held loads j M (put k v s)"
  by (rule held_put_stream [of _ _ _ _ _ st]) (simp_all add: stream_at_def)

lemma held_put_constant: "held loads j M s \<Longrightarrow> k \<noteq> tracker_key j \<Longrightarrow> \<not> prefix IDEMPOTENCY_PREFIX k \<Longrightarrow> held loads j M (put k v s)"
  by (intro held_put) (auto dest: held_marker)

lemma held_put_tracker: "held loads j M s \<Longrightarrow> (i = j \<Longrightarrow> unfinished h) \<Longrightarrow> held loads j M (put (tracker_key i) (RHash h) s)"
  by (intro held_put) (auto dest: held_marker)

lemma held_put_apart: "held loads j M s \<Longrightarrow> k \<noteq> tracker_key j \<Longrightarrow> k \<notin> fst ` M \<Longrightarrow> held loads j M (put k v s)"
  by (intro held_put) force+

lemma held_tracker_apart: "held loads j M s \<Longrightarrow> tracker_key i \<notin> fst ` M"
  using held_marker [of loads j M s "tracker_key i"] by fastforce

lemma held_hash: "held loads j M s \<Longrightarrow> hash_at s (tracker_key j) = Some h \<Longrightarrow> unfinished h"
  by (auto simp: held_def hash_at_def)

section \<open>Every call keeps it\<close>

abbreviation keeps_held :: "(string \<Rightarrow> pyval option) \<Rightarrow> string \<Rightarrow> (string \<times> string) set \<Rightarrow> 'a rcomp \<Rightarrow> bool" where
  "keeps_held loads j M \<equiv> keeps (held loads j M)"

lemma keeps_interfere: "(\<And>s. held loads j M s \<Longrightarrow> held loads j M (f s)) \<Longrightarrow> keeps_held loads j M (interfere f)"
  by (simp add: keeps_def interfere_def)

lemma keeps_watched: "(\<And>s. held loads j M s \<Longrightarrow> held loads j M (snd (w s))) \<Longrightarrow> keeps_held loads j M (\<lambda>s. (Value (fst (w s)), snd (w s)))"
  by (simp add: keeps_def)

lemma keeps_commands:
  "(i = j \<Longrightarrow> map_of fs ''status'' \<noteq> None \<Longrightarrow> \<not> terminal_status (the (map_of fs ''status''))) \<Longrightarrow> keeps_held loads j M (hset (tracker_key i) fs)"
  "keeps_held loads j M (persist_key k)" "keeps_held loads j M (exists_key k)" "keeps_held loads j M (get_text k)"
  "keeps_held loads j M (set_nx k v)" "keeps_held loads j M incr_counter" "keeps_held loads j M read_counter"
  "keeps_held loads j M (reset_counter b)"
proof -
  assume fs: "i = j \<Longrightarrow> map_of fs ''status'' \<noteq> None \<Longrightarrow> \<not> terminal_status (the (map_of fs ''status''))"
  have "unfinished (h ++ map_of fs)" if "unfinished h" "i = j" for h
    using that fs by (auto simp: finished_record_def map_add_def split: option.splits)
  then show "keeps_held loads j M (hset (tracker_key i) fs)"
    unfolding hset_def by (intro held.keeps_command) (auto split: option.splits intro!: held_put_tracker dest: held_hash)
next
  show "keeps_held loads j M (set_nx k v)"
    unfolding set_nx_def by (intro held.keeps_command) (auto intro!: held_put dest: held_other)
qed (auto simp: persist_key_def exists_key_def get_text_def incr_counter_def read_counter_def reset_counter_def
      intro!: held.keeps_command held_expiry held_put_constant split: option.splits rvalue.splits)

lemma keeps_status:
  assumes "i \<noteq> j \<or> \<not> terminal_status status" and "i = j \<Longrightarrow> map_of fs ''status'' \<noteq> None \<Longrightarrow> \<not> terminal_status (the (map_of fs ''status''))"
  shows "keeps_held loads j M (command (status_effect (tracker_key i) status fs))"
proof (rule held.keeps_command)
  fix s assume s: "held loads j M s"
  have u: "unfinished (h ++ map_of fs)" if "unfinished h" "i = j" for h
    using that assms(2) by (auto simp: finished_record_def map_add_def split: option.splits)
  have "tracker_key i \<notin> fst ` M" using held_marker [OF s] by fastforce
  then show "held loads j M (snd (status_effect (tracker_key i) status fs s))"
    using assms(1) s u by (auto simp: status_effect_def Let_def split: option.splits intro!: held_expiry held_put_tracker dest: held_hash)
qed

lemma keeps_marker: "keeps_held loads j M (command (marker_effect loads (tracker_key i) mk i))"
proof (rule held.keeps_command)
  fix s assume s: "held loads j M s"
  have other: "mk \<notin> fst ` M" if "lookup s mk = Some (RText t)" "loads t = Some (PDict d)" "dget d ''job_id'' = PStr i" "i \<noteq> j" for t d
    using that held_marker [OF s, of mk] by (fastforce simp: marker_owner_def)
  have "mk \<noteq> tracker_key j" if "lookup s mk = Some (RText t)" for t using s that by (auto simp: held_def)
  then show "held loads j M (snd (marker_effect loads (tracker_key i) mk i s))"
    using s other held_hash [OF s]
    by (cases "i = j") (auto simp: marker_effect_def finished_record_def split: option.splits rvalue.splits pyval.splits intro!: held_expiry)
qed

lemma keeps_heartbeat:
  assumes "i = j \<Longrightarrow> map_of fs ''status'' \<noteq> None \<Longrightarrow> \<not> terminal_status (the (map_of fs ''status''))"
  shows "keeps_held loads j M (command (heartbeat_effect (tracker_key i) fs))"
proof (rule held.keeps_command)
  fix s assume s: "held loads j M s"
  have u: "unfinished (h ++ map_of fs)" if "unfinished h" "i = j" for h
    using that assms by (auto simp: finished_record_def map_add_def split: option.splits)
  have "tracker_key i \<notin> fst ` M" using held_marker [OF s] by fastforce
  moreover have "unfinished h" if "lookup s (tracker_key i) = Some (RHash h)" "i = j" for h using s that by (auto simp: held_def)
  ultimately show "held loads j M (snd (heartbeat_effect (tracker_key i) fs s))"
    using s u assms unfolding heartbeat_effect_def Let_def
    by (cases "i = j") (auto split: option.splits rvalue.splits intro!: held_expiry held_put_tracker simp: finished_record_def)
qed

lemma keeps_intent: "keeps_held loads j M (command (intent_effect (tracker_key i) b))"
  unfolding intent_effect_def
  by (rule held.keeps_command) (auto split: option.splits intro!: held_put_tracker dest: held_hash simp: finished_record_def)

lemma keeps_preserve: "keeps_held loads j M (command (preserve_effect k))"
  unfolding preserve_effect_def
  by (rule held.keeps_command) (auto simp: Let_def split: option.splits rvalue.splits intro!: held_expiry)

text \<open>The methods of the tracker.\<close>

lemma job_fields_status: "map_of (job_fields strf stamp i sv src prompt n rg opts) ''status'' = Some ''queued''"
  by (simp add: job_fields_def)

lemma status_fields_status: "map_of (status_fields stamp status) ''status'' = Some status"
  by (simp add: status_fields_def)

lemma kwarg_fields_status: "map_of kwargs ''status'' = None \<Longrightarrow> map_of (kwarg_fields strf kwargs) ''status'' = None"
  by (induction kwargs) (auto simp: kwarg_fields_def split: if_splits)

lemma keeps_methods:
  assumes "\<And>n s. held loads j M s \<Longrightarrow> held loads j M (others n s)" and "\<And>n s. held loads j M s \<Longrightarrow> held loads j M (snd (watched n s))"
  shows "keeps_held loads j M (next_job_id (others 0) (watched 0))"
    and "keeps_held loads j M (claim_idempotency strf sha dumps loads' (others 0) key rs i sv rg ttl)"
    and "keeps_held loads j M (create_job strf (others 0) stamp i sv src prompt n rg opts)"
    and "i \<noteq> j \<or> \<not> terminal_status status \<Longrightarrow> map_of kwargs ''status'' = None \<Longrightarrow>
          keeps_held loads j M (update_status strf loads others stamp i status kwargs)"
    and "i \<noteq> j \<or> map_of kwargs ''status'' = None \<Longrightarrow> keeps_held loads j M (update_fields strf (others 0) i kwargs)"
    and "i \<noteq> j \<or> map_of kwargs ''status'' = None \<Longrightarrow> keeps_held loads j M (update_heartbeat strf i kwargs)"
    and "keeps_held loads j M (mark_cancellation_intent_if_in_flight watched i)"
    and "keeps_held loads j M (preserve_unfinished_receipts ks limit)"
    and "i \<noteq> j \<Longrightarrow> keeps_held loads j M (delete_job i)"
proof -
  note intros = held.keeps_intros keeps_commands keeps_interfere [OF assms(1)] keeps_watched [OF assms(2)] keeps_marker keeps_intent keeps_preserve
  show "keeps_held loads j M (next_job_id (others 0) (watched 0))"
    unfolding next_job_id_def finish_job_id_def by (auto intro!: intros)
  show "keeps_held loads j M (claim_idempotency strf sha dumps loads' (others 0) key rs i sv rg ttl)"
    unfolding claim_idempotency_def by (auto intro!: intros)
  show "keeps_held loads j M (create_job strf (others 0) stamp i sv src prompt n rg opts)"
    unfolding create_job_def Let_def by (auto intro!: intros simp: job_fields_status terminal_status_def)
  show "keeps_held loads j M (mark_cancellation_intent_if_in_flight watched i)"
  proof -
    have "keeps_held loads j M (mark_intent watched (tracker_key i) m)" for m by (induction m) (auto intro!: intros)
    then show ?thesis unfolding mark_cancellation_intent_if_in_flight_def by (intro intros)
  qed
  show "keeps_held loads j M (preserve_unfinished_receipts ks limit)"
    by (induction ks arbitrary: limit) (auto intro!: intros)
  show "keeps_held loads j M (delete_job i)" if "i \<noteq> j"
  proof -
    have "keeps_held loads j M (command (\<lambda>s. (Value (), remove (tracker_key i) s)))"
      by (rule held.keeps_command) (simp add: held_remove held_tracker_apart \<open>i \<noteq> j\<close>)
    then show ?thesis unfolding delete_job_def by (intro intros)
  qed
  show "keeps_held loads j M (update_status strf loads others stamp i status kwargs)"
    if "i \<noteq> j \<or> \<not> terminal_status status" "map_of kwargs ''status'' = None"
  proof -
    have "map_of (kwarg_fields strf kwargs @ status_fields stamp status) ''status'' = Some status"
      using kwarg_fields_status [OF that(2), of strf] by (simp add: map_add_def status_fields_status)
    with that(1) show ?thesis unfolding update_status_def Let_def by (auto intro!: intros keeps_status)
  qed
  have kw: "i = j \<Longrightarrow> map_of (kwarg_fields strf kwargs) ''status'' = None" if "i \<noteq> j \<or> map_of kwargs ''status'' = None"
    using that kwarg_fields_status by blast
  show "keeps_held loads j M (update_fields strf (others 0) i kwargs)" "keeps_held loads j M (update_heartbeat strf i kwargs)"
    if "i \<noteq> j \<or> map_of kwargs ''status'' = None"
    using kw [OF that] unfolding update_fields_def update_heartbeat_def Let_def by (auto intro!: intros keeps_heartbeat)
qed

lemma keeps_get_job: "keeps_held loads j M (tracker_get_job i)"
  unfolding tracker_get_job_def by (intro held.keeps_intros)

lemma keeps_terminalize:
  assumes "\<And>n s. held loads j M s \<Longrightarrow> held loads j M (others n s)" and "i \<noteq> j"
  shows "keeps_held loads j M (terminalize_if_impossible strf loads others stamp i pel entry running force)"
  unfolding terminalize_if_impossible_def
  using keeps_methods(4) [of loads j M others "\<lambda>n t. (False, t)"] assms
  by (auto intro!: held.keeps_intros keeps_get_job keeps_interfere split: option.splits)

text \<open>The operations of the queue write records only when they admit or cancel a job.\<close>

lemma keeps_stream_commands:
  "keeps_held loads j M (change_stream k f)" "keeps_held loads j M (make_stream k g)" "keeps_held loads j M (create_group k)"
  "keeps_held loads j M (stream_length k)"
  unfolding change_stream_def make_stream_def create_group_def stream_length_def
  by (rule held.keeps_command; auto split: option.splits rvalue.splits prod.splits intro: held_put_found held_put_stream)+

lemma keeps_tracked: "keeps_held loads j M (tracked_script key stream payload tracked sha lane)"
  unfolding tracked_script_def
proof (rule held.keeps_command)
  fix s assume s: "held loads j M s"
  have "held loads j M (put key v (put stream w s))" if "lookup s key = None" "stream_at s stream = Some st" for v w st
  proof -
    have "key \<noteq> tracker_key j" "key \<notin> fst ` M" using held_other [OF s, of key] that(1) by auto
    then show ?thesis by (intro held_put_apart [OF held_put_stream [OF s that(2)]])
  qed
  then show "held loads j M (snd (tracked_effect key stream payload tracked sha lane s))"
    using s by (auto simp: tracked_effect_def Let_def split: option.splits rvalue.splits)
qed

lemma held_claim: "claim_streams c n ks s = Some (r, s') \<Longrightarrow> held loads j M s \<Longrightarrow> held loads j M s'"
proof (induction ks arbitrary: s r s')
  case (Cons k ks)
  obtain st es st' where k: "lookup s k = Some (RStream st)" "stream_claim GROUP c n st = Some (es, st')"
    using Cons.prems(1) by (auto split: option.splits rvalue.splits)
  let ?t = "if es = [] then s else put k (RStream st') s"
  obtain r' where "claim_streams c n ks ?t = Some (r', s')" using Cons.prems(1) k by (auto split: option.splits)
  moreover have "held loads j M ?t" using held_put_found [OF Cons.prems(2) k(1)] Cons.prems(2) by simp
  ultimately show ?case by (rule Cons.IH)
qed simp

lemma keeps_reading:
  "keeps_held loads j M (xreadgroup c n ks)" "keeps_held loads j M (peek_head k)" "keeps_held loads j M (create_groups ks)"
  "(\<And>k. keeps_held loads j M (peek k)) \<Longrightarrow> keeps_held loads j M (ready_heads peek q now specs)"
proof -
  show "keeps_held loads j M (xreadgroup c n ks)"
  proof (cases "n = 0")
    case False
    have "keeps_held loads j M (command (\<lambda>s. case claim_streams c n ks s of None \<Rightarrow> (RedisError, s) | Some (r, s') \<Rightarrow> (Value r, s')))"
      by (rule held.keeps_command) (simp split: option.splits add: held_claim)
    then show ?thesis using False by (simp add: xreadgroup_def)
  qed (simp add: xreadgroup_def held.keeps_intros)
  show "keeps_held loads j M (peek_head k)"
    unfolding peek_head_def group_position_def by (auto intro!: held.keeps_intros held.keeps_command split: option.splits rvalue.splits)
  show "keeps_held loads j M (create_groups ks)" by (induction ks) (auto intro!: held.keeps_intros keeps_stream_commands)
  show "(\<And>k. keeps_held loads j M (peek k)) \<Longrightarrow> keeps_held loads j M (ready_heads peek q now specs)"
    by (induction specs) (auto intro!: held.keeps_intros)
qed

lemma keeps_transfer: "keeps_held loads j M (dead_letter_transfer source dlq i service payload)"
  unfolding dead_letter_transfer_def
proof (rule held.keeps_command)
  fix s assume s: "held loads j M s"
  have "held loads j M (put source w (put dlq v s))" "held loads j M (put source w (put DEAD_LETTER_METRICS_HASH m (put dlq v s)))" "held loads j M (put dlq v s)"
    if "lookup s source = Some (RStream st)" "stream_at s dlq = Some dl" for st dl v w m
  proof -
    show d: "held loads j M (put dlq v s)" using held_put_stream [OF s that(2)] .
    have src: "source \<noteq> tracker_key j" "source \<notin> fst ` M" using held_other [OF s, of source] that(1) by auto
    show "held loads j M (put source w (put dlq v s))" using d src by (rule held_put_apart)
    show "held loads j M (put source w (put DEAD_LETTER_METRICS_HASH m (put dlq v s)))"
      using held_put_constant [OF d, of DEAD_LETTER_METRICS_HASH m] src by (simp add: held_put_apart)
  qed
  then show "held loads j M (snd (transfer_effect source dlq i service payload s))"
    using s by (auto simp: transfer_effect_def Let_def split: option.splits rvalue.splits)
qed

lemma keeps_commits: "keeps_held loads j M (nack_commit stamp sv k i m found)" "keeps_held loads j M (yield_commit k i found)"
  unfolding nack_commit_def yield_commit_def
  by (auto intro!: held.keeps_intros keeps_stream_commands keeps_transfer split: option.splits)

lemma keeps_fail: "keeps_held loads j M (command (\<lambda>s. (RedisError, s)))"
  by (rule held.keeps_command) simp

lemma keeps_ends_of_entries:
  "keeps_held loads j M (ack_body sv h rg)" "keeps_held loads j M (nack_body stamp sv h m rg)" "keeps_held loads j M (yield_pending sv h rg)"
  unfolding ack_body_def nack_body_def yield_pending_def
  by (auto intro!: held.keeps_intros keeps_stream_commands keeps_commits keeps_fail split: option.splits prod.splits)

lemma keeps_renew_pending: "keeps_held loads j M (renew_pending sv c h rg)"
proof -
  have "keeps_held loads j M (command (\<lambda>s. case (lookup s k, read_id raw) of
      (Some (RStream st), Some i) \<Rightarrow>
        (case st_groups st GROUP of
           None \<Rightarrow> (RedisError, s)
         | Some g \<Rightarrow>
             if i \<notin> fst ` set (gr_pel g) then (Value False, s)
             else if find_entry i st = None then (Value False, put k (RStream (stream_ack GROUP i st)) s)
             else (Value True, put k (RStream (st\<lparr>st_groups := (st_groups st)(GROUP \<mapsto> stream_reclaim c i g)\<rparr>)) s))
    | _ \<Rightarrow> (RedisError, s)))" for k raw
    by (rule held.keeps_command) (auto split: option.splits rvalue.splits if_splits intro: held_put_found)
  then show ?thesis unfolding renew_pending_def by (auto intro!: held.keeps_intros split: prod.splits)
qed

lemma keeps_dequeue: "(\<And>k. keeps_held loads j M (peek k)) \<Longrightarrow> keeps_held loads j M (dequeue_body peek q sv c n rg now)"
  unfolding dequeue_body_def by (auto intro!: held.keeps_intros keeps_reading split: prod.splits)

lemma keeps_enqueue: "keeps_held loads j M (enqueue strf jsonf stamp q sv job rg tracked)"
  unfolding enqueue_def ensure_group_def Let_def
  by (auto intro!: held.keeps_intros keeps_stream_commands keeps_tracked split: option.splits prod.splits)

lemma keeps_purges: "keeps_held loads j M (purge_streams ks n)" "keeps_held loads j M (cleanup_streams keep m ks n)"
  by (induction ks arbitrary: n) (auto intro!: held.keeps_intros keeps_stream_commands split: option.splits)

lemma keeps_purge_script: "keeps_held loads j M (purge_script sv actor reason stamp)"
  unfolding purge_script_def
proof (rule held.keeps_command)
  fix s assume s: "held loads j M s"
  have "held loads j M (remove (dead_letter_stream sv) (put DEAD_LETTER_AUDIT_STREAM v s))"
    if "stream_at s (dead_letter_stream sv) = Some dl" "stream_at s DEAD_LETTER_AUDIT_STREAM = Some audit" for v dl audit
    using held_put_stream [OF s that(2)] held_other [OF s, of "dead_letter_stream sv"] stream_at_other [OF that(1)] by (intro held_remove)
  then show "held loads j M (snd (case (stream_at s (dead_letter_stream sv), stream_at s DEAD_LETTER_AUDIT_STREAM) of
       (Some dl, Some audit) \<Rightarrow>
         let n = length (st_entries dl);
             s1 = put DEAD_LETTER_AUDIT_STREAM (RStream (stream_add (clock_ms s) (audit_fields actor reason stamp n sv) audit)) s
         in (Value (Purged n (next_id (clock_ms s) audit)), remove (dead_letter_stream sv) s1)
     | _ \<Rightarrow> (RedisError, s)))"
    using s by (auto simp: Let_def split: option.splits)
qed

lemma keeps_cancel:
  assumes "i \<noteq> j" shows "keeps_held loads j M (cancel_queued_atomically stamp sv rg h i err src who ttl)"
proof -
  have "keeps_held loads j M (cancel_script k e i stamp err src who ttl)" for k e
    unfolding cancel_script_def
  proof (rule held.keeps_command)
    fix s assume s: "held loads j M s"
    have "held loads j M (set_expiry (tracker_key i) x (put (tracker_key i) (RHash h) (put k v s)))" if "lookup s k = Some (RStream st)" for x h v st
      using held_put_found [OF s that, of v] assms by (intro held_expiry held_put_tracker disjI2 conjI) (auto simp: held_tracker_apart [OF s] key_simps)
    then show "held loads j M (snd (cancel_effect k e i stamp err src who ttl s))"
      using s by (auto simp: cancel_effect_def Let_def split: option.splits rvalue.splits)
  qed
  then show ?thesis unfolding cancel_queued_atomically_def
    by (auto intro!: held.keeps_intros keeps_fail split: option.splits prod.splits)
qed

lemma keeps_queue:
  "keeps_held loads j M (dequeue q sv c n rg now)" "keeps_held loads j M (async_dequeue q sv c n rg now)" "keeps_held loads j M (ack sv h rg)"
  "keeps_held loads j M (nack stamp sv h m rg)" "keeps_held loads j M (purge q sv rg)" "keeps_held loads j M (cleanup keep q sv m' rg)"
  "keeps_held loads j M (purge_dead_letters stamp sv actor reason)"
  unfolding dequeue_def async_dequeue_def ack_def nack_def purge_def cleanup_def purge_dead_letters_def
  by (auto intro!: held.keeps_intros keeps_dequeue keeps_reading keeps_ends_of_entries keeps_purges keeps_purge_script)

section \<open>All clients together\<close>

text \<open>One call of any client that neither finishes nor deletes job \<open>j\<close>. Between two commands of the call the other clients
  make such calls themselves; time passes, and any faults may lie ahead.\<close>

inductive job_call :: "(string \<Rightarrow> pyval option) \<Rightarrow> string \<Rightarrow> redis \<Rightarrow> redis \<Rightarrow> bool" for loads j where
  jc_next_id: "(\<And>t. (job_call loads j)\<^sup>*\<^sup>* t (others t)) \<Longrightarrow> (\<And>t. (job_call loads j)\<^sup>*\<^sup>* t (snd (watched t))) \<Longrightarrow>
     job_call loads j s (snd (next_job_id others watched s))"
| jc_claim: "(\<And>t. (job_call loads j)\<^sup>*\<^sup>* t (others t)) \<Longrightarrow>
     job_call loads j s (snd (claim_idempotency strf sha dumps loads' others key rs i sv rg ttl s))"
| jc_create: "(\<And>t. (job_call loads j)\<^sup>*\<^sup>* t (others t)) \<Longrightarrow>
     job_call loads j s (snd (create_job strf others stamp i sv src prompt n rg opts s))"
| jc_status: "(\<And>n t. (job_call loads j)\<^sup>*\<^sup>* t (others' n t)) \<Longrightarrow> i \<noteq> j \<or> \<not> terminal_status status \<Longrightarrow> map_of kwargs ''status'' = None \<Longrightarrow>
     job_call loads j s (snd (update_status strf loads others' stamp i status kwargs s))"
| jc_fields: "(\<And>t. (job_call loads j)\<^sup>*\<^sup>* t (others t)) \<Longrightarrow> i \<noteq> j \<or> map_of kwargs ''status'' = None \<Longrightarrow>
     job_call loads j s (snd (update_fields strf others i kwargs s))"
| jc_heartbeat: "i \<noteq> j \<or> map_of kwargs ''status'' = None \<Longrightarrow> job_call loads j s (snd (update_heartbeat strf i kwargs s))"
| jc_intent: "(\<And>n t. (job_call loads j)\<^sup>*\<^sup>* t (snd (watched' n t))) \<Longrightarrow>
     job_call loads j s (snd (mark_cancellation_intent_if_in_flight watched' i s))"
| jc_terminalize: "(\<And>n t. (job_call loads j)\<^sup>*\<^sup>* t (others' n t)) \<Longrightarrow> i \<noteq> j \<Longrightarrow>
     job_call loads j s (snd (terminalize_if_impossible strf loads others' stamp i pel entry running force s))"
| jc_preserve: "job_call loads j s (snd (preserve_unfinished_receipts ks limit s))"
| jc_delete: "i \<noteq> j \<Longrightarrow> job_call loads j s (snd (delete_job i s))"
| jc_cancel: "i \<noteq> j \<Longrightarrow> job_call loads j s (snd (cancel_queued_atomically stamp sv rg' h i err src who ttl' s))"
| jc_enqueue: "job_call loads j s (snd (enqueue strf jsonf stamp q sv job rg' tracked s))"
| jc_dequeue: "job_call loads j s (snd (dequeue q sv c m rg' now s))"
| jc_async_dequeue: "job_call loads j s (snd (async_dequeue q sv c m rg' now s))"
| jc_ack: "job_call loads j s (snd (ack sv h rg' s))"
| jc_nack: "job_call loads j s (snd (nack stamp sv h mx rg' s))"
| jc_nack_commit: "job_call loads j s (snd (nack_commit stamp sv k e mx found s))"
| jc_yield: "job_call loads j s (snd (yield_pending sv h rg' s))"
| jc_yield_commit: "job_call loads j s (snd (yield_commit k e found s))"
| jc_renew: "job_call loads j s (snd (renew_pending sv c h rg' s))"
| jc_purge: "job_call loads j s (snd (purge q sv rg' s))"
| jc_cleanup: "job_call loads j s (snd (cleanup keep q sv m rg' s))"
| jc_purge_dead: "job_call loads j s (snd (purge_dead_letters stamp sv actor reason s))"
| jc_time: "job_call loads j s (s\<lparr>kv_clock := t\<rparr>)"
| jc_faults: "job_call loads j s (s\<lparr>kv_faults := fs\<rparr>)"

lemma held_time:
  assumes s: "held loads j M s" shows "held loads j M (s\<lparr>kv_clock := t\<rparr>)"
  using s
proof (rule held_mono)
  fix k assume k: "k = tracker_key j \<or> k \<in> fst ` M"
  have "expiry s k = None" "lookup s k \<noteq> None" using s k by (auto simp: held_def)
  then show "lookup (s\<lparr>kv_clock := t\<rparr>) k = lookup s k \<and> (expiry (s\<lparr>kv_clock := t\<rparr>) k = expiry s k \<or> expiry (s\<lparr>kv_clock := t\<rparr>) k = None)"
    by (auto simp: expiry_def lookup_def split: option.splits if_splits)
qed

lemma held_steps: "(\<lambda>x y. r x y \<and> (held loads j M x \<longrightarrow> held loads j M y))\<^sup>*\<^sup>* s s' \<Longrightarrow> held loads j M s \<Longrightarrow> held loads j M s'"
  by (induction rule: rtranclp_induct) auto

lemma held_call: "job_call loads j s s' \<Longrightarrow> held loads j M s \<longrightarrow> held loads j M s'"
proof (induction rule: job_call.induct)
  case (jc_next_id others watched s)
  show ?case using keeps_goodD [OF keeps_methods(1) [of loads j M "\<lambda>_. others" "\<lambda>_. watched"]] held_steps [OF jc_next_id(1)] held_steps [OF jc_next_id(2)] by blast
next
  case (jc_claim others s strf sha dumps loads' key rs i sv rg ttl)
  show ?case using keeps_goodD [OF keeps_methods(2) [of loads j M "\<lambda>_. others" "\<lambda>_ t. (False, t)"]] held_steps [OF jc_claim(1)] by auto
next
  case (jc_create others s strf stamp i sv src prompt n rg opts)
  show ?case using keeps_goodD [OF keeps_methods(3) [of loads j M "\<lambda>_. others" "\<lambda>_ t. (False, t)"]] held_steps [OF jc_create(1)] by auto
next
  case (jc_status others' i status kwargs s strf stamp)
  show ?case using keeps_goodD [OF keeps_methods(4) [of loads j M others' "\<lambda>_ t. (False, t)"]] held_steps [OF jc_status(1)] jc_status(2,3) by auto
next
  case (jc_fields others i kwargs s strf)
  show ?case using keeps_goodD [OF keeps_methods(5) [of loads j M "\<lambda>_. others" "\<lambda>_ t. (False, t)"]] held_steps [OF jc_fields(1)] jc_fields(2) by auto
next
  case (jc_heartbeat i kwargs s strf)
  show ?case using keeps_goodD [OF keeps_methods(6) [of loads j M "\<lambda>_. id" "\<lambda>_ t. (False, t)"]] jc_heartbeat by auto
next
  case (jc_intent watched' s i)
  show ?case using keeps_goodD [OF keeps_methods(7) [of loads j M "\<lambda>_. id" watched']] held_steps [OF jc_intent(1)] by auto
next
  case (jc_terminalize others' i s strf stamp pel entry running force)
  show ?case using keeps_goodD [OF keeps_terminalize [of loads j M others']] held_steps [OF jc_terminalize(1)] jc_terminalize(2) by auto
next
  case (jc_preserve s ks limit)
  show ?case using keeps_goodD [OF keeps_methods(8) [of loads j M "\<lambda>_. id" "\<lambda>_ t. (False, t)"]] by auto
next
  case (jc_delete i s)
  then show ?case using keeps_goodD [OF keeps_methods(9) [of loads j M "\<lambda>_. id" "\<lambda>_ t. (False, t)"]] by auto
qed (auto intro!: held_time simp: keeps_goodD [OF keeps_cancel] keeps_goodD [OF keeps_enqueue] keeps_goodD [OF keeps_commits(1)] keeps_goodD [OF keeps_commits(2)]
      keeps_goodD [OF keeps_ends_of_entries(3)] keeps_goodD [OF keeps_renew_pending] keeps_goodD [OF keeps_queue(1)] keeps_goodD [OF keeps_queue(2)] keeps_goodD [OF keeps_queue(3)]
      keeps_goodD [OF keeps_queue(4)] keeps_goodD [OF keeps_queue(5)] keeps_goodD [OF keeps_queue(6)] keeps_goodD [OF keeps_queue(7)])

lemma held_run: "(job_call loads j)\<^sup>*\<^sup>* s s' \<Longrightarrow> held loads j M s \<Longrightarrow> held loads j M s'"
  by (induction rule: rtranclp_induct) (auto dest: held_call)

text \<open>C14. The record of an unfinished job does not disappear. A job record that is not finished and has no expiry is still there, not finished and without
  expiry, after any calls of any clients that neither finish nor delete this job, however they interleave, whatever replies are lost and however long it takes.\<close>

theorem unfinished_receipt_survives:
  assumes "lookup s (tracker_key j) = Some (RHash h)" and "unfinished h" and "expiry s (tracker_key j) = None" and "(job_call loads j)\<^sup>*\<^sup>* s s'"
  shows "\<exists>h'. lookup s' (tracker_key j) = Some (RHash h') \<and> unfinished h' \<and> expiry s' (tracker_key j) = None"
proof -
  have "held loads j {} s" using assms(1-3) by (simp add: held_def)
  from held_run [OF assms(4) this] show ?thesis by (auto simp: held_def)
qed

section \<open>Creating and claiming\<close>

lemma hset_Value: "hset k fs s = (Value x, s') \<Longrightarrow> \<exists>h fl. hash_at s k = Some h \<and> s' = put k (RHash (h ++ map_of fs)) (s\<lparr>kv_faults := fl\<rparr>)"
  unfolding hset_def by (drule command_Value) (auto split: option.splits)

lemma persist_Value: "persist_key k s = (Value x, s') \<Longrightarrow> \<exists>fl. s' = set_expiry k None (s\<lparr>kv_faults := fl\<rparr>)"
  unfolding persist_key_def by (drule command_Value) auto

lemma create_job_Value:
  assumes "create_job strf id stamp i sv src prompt n rg opts s = (Value (Some job), s')"
  shows "\<exists>h fl fl'. job = job_fields strf stamp i sv src prompt n rg opts \<and> hash_at s (tracker_key i) = Some h
     \<and> s' = set_expiry (tracker_key i) None ((put (tracker_key i) (RHash (h ++ map_of job)) (s\<lparr>kv_faults := fl\<rparr>))\<lparr>kv_faults := fl'\<rparr>)"
proof -
  obtain s1 where s1: "hset (tracker_key i) (job_fields strf stamp i sv src prompt n rg opts) s = (Value (), s1)"
      "persist_key (tracker_key i) s1 = (Value (), s')" "job = job_fields strf stamp i sv src prompt n rg opts"
    using assms by (auto simp: create_job_def Let_def on_error_Value rbind_Value interfere_def ret_def)
  show ?thesis using hset_Value [OF s1(1)] persist_Value [OF s1(2)] s1(3) by auto
qed

lemma set_nx_Value: "set_nx k v s = (Value b, s') \<Longrightarrow> \<exists>fl. (b \<longleftrightarrow> lookup s k = None) \<and> s' = (if b then put k (RText v) (s\<lparr>kv_faults := fl\<rparr>) else s\<lparr>kv_faults := fl\<rparr>)"
  unfolding set_nx_def by (drule command_Value) (auto split: if_splits)

lemma get_text_Value: "get_text k s = (Value x, s') \<Longrightarrow> (case lookup s k of None \<Rightarrow> x = None | Some (RText t) \<Rightarrow> x = Some t | _ \<Rightarrow> False)"
  unfolding get_text_def by (drule command_Value) (auto split: option.splits rvalue.splits)

lemma claimed_marker:
  assumes "claim_idempotency strf sha dumps loads others key rs i sv rg ttl s = (Value (Claimed i'), s')"
  shows "\<exists>fl. s' = put (idempotency_key sha key) (RText (dumps (claim_marker i rs sv rg))) (s\<lparr>kv_faults := fl\<rparr>)
     \<and> lookup s (idempotency_key sha key) = None \<and> i' = i \<and> i \<noteq> []"
proof -
  have nj: "judge_marker strf loads rs x \<noteq> Claimed i'" for x by (auto simp: judge_marker_def split: option.splits pyval.splits)
  have args: "\<not> blank i" and run: "rbind (set_nx (idempotency_key sha key) (dumps (claim_marker i rs sv rg))) (\<lambda>fresh.
         if fresh then ret (Claimed i)
         else rbind (interfere others) (\<lambda>_.
              rbind (get_text (idempotency_key sha key)) (\<lambda>existing. ret (judge_marker strf loads rs existing)))) s = (Value (Claimed i'), s')"
    using assms unfolding claim_idempotency_def by (simp_all add: raise_value_def on_error_Value split: if_splits)
  obtain b s1 where b: "set_nx (idempotency_key sha key) (dumps (claim_marker i rs sv rg)) s = (Value b, s1)"
      and k: "(if b then ret (Claimed i)
         else rbind (interfere others) (\<lambda>_.
              rbind (get_text (idempotency_key sha key)) (\<lambda>existing. ret (judge_marker strf loads rs existing)))) s1 = (Value (Claimed i'), s')"
    using run unfolding rbind_Value [of "set_nx _ _"] by blast
  have "b" using k nj by (auto simp: rbind_Value ret_def split: if_splits)
  then show ?thesis using set_nx_Value [OF b] k args by (auto simp: ret_def blank_def)
qed

lemma held_admitted:
  assumes "claim_idempotency strf sha dumps loads others key rs j sv rg ttl s0 = (Value (Claimed j'), s1)"
    and "create_job strf' id stamp j sv' src prompt n rg' opts s1 = (Value (Some job), s2)"
    and "loads (dumps (claim_marker j rs sv rg)) = Some (PDict (claim_marker j rs sv rg))"
  shows "held loads j {(idempotency_key sha key, dumps (claim_marker j rs sv rg))} s2"
proof -
  obtain h where h: "lookup s2 (tracker_key j) = Some (RHash (h ++ map_of job))" "expiry s2 (tracker_key j) = None"
      "lookup s2 (idempotency_key sha key) = lookup s1 (idempotency_key sha key)" "expiry s2 (idempotency_key sha key) = expiry s1 (idempotency_key sha key)"
      and job: "job = job_fields strf' stamp j sv' src prompt n rg' opts"
    using create_job_Value [OF assms(2)] by (auto simp: lookup_set_expiry expiry_set_expiry idempotency_key_def)
  have m: "lookup s1 (idempotency_key sha key) = Some (RText (dumps (claim_marker j rs sv rg)))" "expiry s1 (idempotency_key sha key) = None"
    using claimed_marker [OF assms(1)] expiry_put by (auto simp: expiry_def [of s0])
  have "unfinished (h ++ map_of job)" by (simp add: finished_record_def job map_add_def job_fields_status terminal_status_def)
  moreover have "marker_owner loads (dumps (claim_marker j rs sv rg)) = Some j"
    using assms(3) by (simp add: marker_owner_def claim_marker_def dget_def)
  ultimately show ?thesis using h m by (simp add: held_def idempotency_key_def)
qed

text \<open>C15. One admission for one idempotency key. After a caller claimed a key and created its job, every later answered claim of the key, as long as the job is not
  finished or deleted, is a replay of that job when the request is the same and a conflict when it is another one; a call that
  reports the store as unavailable apart, no second job is admitted. This holds under every interleaving and with every lost reply.
  (JSON reads back the marker that was written.)\<close>

theorem idempotency_key_admits_once:
  assumes "claim_idempotency strf sha dumps loads others key rs j sv rg ttl s0 = (Value (Claimed j'), s1)"
    and "create_job strf id stamp j sv' src prompt n rg' opts s1 = (Value (Some job), s2)"
    and "loads (dumps (claim_marker j rs sv rg)) = Some (PDict (claim_marker j rs sv rg))"
    and "(job_call loads j)\<^sup>*\<^sup>* s2 s3" and "\<And>t. (job_call loads j)\<^sup>*\<^sup>* t (others' t)"
    and "claim_idempotency strf sha dumps loads others' key rs2 j2 sv2 rg2 ttl2 s3 = (Value r, s4)"
  shows "r = (if rs2 = rs then Replay j sv rg else Claim_conflict) \<or> r = Claim_unavailable ''idempotency store unavailable''"
proof -
  let ?mk = "idempotency_key sha key" and ?t = "dumps (claim_marker j rs sv rg)"
  have h3: "held loads j {(?mk, ?t)} s3" by (rule held_run [OF assms(4) held_admitted [OF assms(1,2,3)]])
  have j: "j \<noteq> []" using claimed_marker [OF assms(1)] by blast
  have "r = (if rs2 = rs then Replay j sv rg else Claim_conflict)" if ne: "r \<noteq> Claim_unavailable ''idempotency store unavailable''"
  proof -
    obtain b t1 where b: "set_nx ?mk (dumps (claim_marker j2 rs2 sv2 rg2)) s3 = (Value b, t1)"
        and rest: "\<not> b \<Longrightarrow> \<exists>x. get_text ?mk (others' t1) = (Value x, s4) \<and> r = judge_marker strf loads rs2 x"
      using assms(6) ne by (auto simp: claim_idempotency_def on_error_Value rbind_Value interfere_def ret_def raise_value_def split: if_splits)
    have "\<not> b" using set_nx_Value [OF b] h3 by (auto simp: held_def)
    then obtain x where x: "get_text ?mk (others' t1) = (Value x, s4)" "r = judge_marker strf loads rs2 x" using rest by blast
    have "held loads j {(?mk, ?t)} t1" using set_nx_Value [OF b] h3 \<open>\<not> b\<close> by auto
    then have "held loads j {(?mk, ?t)} (others' t1)" by (rule held_run [OF assms(5)])
    then have "x = Some ?t" using get_text_Value [OF x(1)] by (simp add: held_def)
    then show ?thesis using x(2) assms(3) j
      by (auto simp: judge_marker_def claim_marker_def dget_def str_or_empty_def py_str_def)
  qed
  then show ?thesis by blast
qed

section \<open>Status changes\<close>

lemma retention_lives: "\<not> (case retention now b of None \<Rightarrow> False | Some x \<Rightarrow> x \<le> now)"
  by (simp add: retention_def TERMINAL_TTL_def)

lemma lookup_retention [simp]: "lookup (set_expiry k (retention (kv_clock s) b) s) k' = lookup s k'"
  using retention_lives [of "kv_clock s" b] by (simp add: lookup_set_expiry)

lemma expiry_retention [simp]: "expiry (set_expiry k (retention (kv_clock s) b) s) k' = (if k' = k \<and> lookup s k \<noteq> None then retention (kv_clock s) b else expiry s k')"
  using retention_lives [of "kv_clock s" b] by (auto simp: expiry_set_expiry split: option.splits)

lemma status_effect_Value:
  assumes "command (status_effect key status fs) s = (Value x, s')"
  shows "\<exists>h. hash_at s key = Some h \<and> lookup s' key = Some (RHash (h ++ map_of fs)) \<and> expiry s' key = retention (kv_clock s) (terminal_status status)
     \<and> kv_clock s' = kv_clock s \<and> (\<forall>k. k \<noteq> key \<longrightarrow> lookup s' k = lookup s k \<and> expiry s' k = expiry s k)"
proof -
  obtain fl h where h: "hash_at s key = Some h" "s' = set_expiry key (retention (kv_clock s) (terminal_status status)) (put key (RHash (h ++ map_of fs)) (s\<lparr>kv_faults := fl\<rparr>))"
    using command_Value [OF assms] by (auto simp: status_effect_def Let_def split: option.splits)
  show ?thesis unfolding h(2) using h(1) retention_lives [of "kv_clock s" "terminal_status status"]
    by (auto simp: lookup_set_expiry expiry_set_expiry split: option.splits)
qed

lemma marker_effect_Value:
  assumes "command (marker_effect loads key mk j) s = (Value x, s')" and "lookup s key = Some (RHash h)" and "h ''status'' = Some status"
  shows "\<And>k. lookup s' k = lookup s k" and "\<And>k. k \<noteq> mk \<Longrightarrow> expiry s' k = expiry s k"
    and "lookup s mk = Some (RText t) \<Longrightarrow> marker_owner loads t = Some j \<Longrightarrow> expiry s' mk = retention (kv_clock s) (terminal_status status)"
proof -
  obtain fl where f: "marker_effect loads key mk j (s\<lparr>kv_faults := fl\<rparr>) = (Value x, s')" using command_Value [OF assms(1)] by blast
  have hs: "hash_at s key = Some h" using assms(2) by (simp add: hash_at_def)
  have "s' = s\<lparr>kv_faults := fl\<rparr> \<or> s' = set_expiry mk (retention (kv_clock s) (terminal_status status)) (s\<lparr>kv_faults := fl\<rparr>)"
    using f hs assms(3) by (auto simp: marker_effect_def finished_record_def split: option.splits rvalue.splits pyval.splits if_splits)
  then show "\<And>k. lookup s' k = lookup s k" "\<And>k. k \<noteq> mk \<Longrightarrow> expiry s' k = expiry s k"
    using retention_lives [of "kv_clock s" "terminal_status status"] by (auto simp: lookup_set_expiry expiry_set_expiry split: option.splits)
  assume "lookup s mk = Some (RText t)" "marker_owner loads t = Some j"
  then have "s' = set_expiry mk (retention (kv_clock s) (terminal_status status)) (s\<lparr>kv_faults := fl\<rparr>)" "lookup s mk \<noteq> None"
    using f hs assms(3) by (auto simp: marker_effect_def marker_owner_def finished_record_def split: option.splits pyval.splits)
  then show "expiry s' mk = retention (kv_clock s) (terminal_status status)"
    using retention_lives [of "kv_clock s" "terminal_status status"] by (auto simp: expiry_set_expiry split: option.splits)
qed

lemma update_status_Value:
  assumes "update_status strf loads (\<lambda>_. id) stamp j status kwargs s = (Value True, s')" and "map_of kwargs ''status'' = None"
  shows "\<exists>h h'. hash_at s (tracker_key j) = Some h \<and> h' = h ++ map_of (kwarg_fields strf kwargs @ status_fields stamp status)
     \<and> lookup s' (tracker_key j) = Some (RHash h') \<and> h' ''status'' = Some status \<and> expiry s' (tracker_key j) = retention (kv_clock s) (terminal_status status)
     \<and> (\<forall>d t. h' ''idempotency_key_sha256'' = Some d \<and> d \<noteq> [] \<and> lookup s (IDEMPOTENCY_PREFIX @ d) = Some (RText t) \<and> marker_owner loads t = Some j
          \<longrightarrow> expiry s' (IDEMPOTENCY_PREFIX @ d) = retention (kv_clock s) (terminal_status status))"
proof -
  let ?key = "tracker_key j" and ?fs = "kwarg_fields strf kwargs @ status_fields stamp status"
  obtain s1 s2 d where s1: "command (status_effect ?key status ?fs) s = (Value (), s1)"
      and s2: "read_hash ?key (\<lambda>h. h ''idempotency_key_sha256'') s1 = (Value d, s2)"
      and s': "(if \<not> opt_true d then ret True else rbind (interfere id) (\<lambda>_. rbind (command (marker_effect loads ?key (IDEMPOTENCY_PREFIX @ the d) j)) (\<lambda>_. ret True))) s2 = (Value True, s')"
    using assms(1) by (auto simp: update_status_def Let_def on_error_Value rbind_Value interfere_def)
  obtain h h' where h': "h' = h ++ map_of ?fs" "hash_at s ?key = Some h" and h: "lookup s1 ?key = Some (RHash h')" "expiry s1 ?key = retention (kv_clock s) (terminal_status status)"
      "kv_clock s1 = kv_clock s" "\<And>k. k \<noteq> ?key \<Longrightarrow> lookup s1 k = lookup s k \<and> expiry s1 k = expiry s k"
    using status_effect_Value [OF s1] by blast
  have st: "h' ''status'' = Some status"
    unfolding h'(1) using kwarg_fields_status [OF assms(2), of strf] by (simp add: map_add_def status_fields_status)
  obtain fl where d: "d = h' ''idempotency_key_sha256''" "s2 = s1\<lparr>kv_faults := fl\<rparr>"
    using command_Value [OF s2 [unfolded read_hash_def]] h(1) by (auto simp: hash_at_def)
  have "lookup s' ?key = Some (RHash h') \<and> expiry s' ?key = retention (kv_clock s) (terminal_status status)
     \<and> (\<forall>x t. h' ''idempotency_key_sha256'' = Some x \<and> x \<noteq> [] \<and> lookup s (IDEMPOTENCY_PREFIX @ x) = Some (RText t) \<and> marker_owner loads t = Some j
          \<longrightarrow> expiry s' (IDEMPOTENCY_PREFIX @ x) = retention (kv_clock s) (terminal_status status))"
  proof (cases "opt_true d")
    case False
    then have "s' = s2" using s' by (simp add: ret_def)
    then show ?thesis using h(1,2) d False by (auto simp: opt_true_iff)
  next
    case True
    then have m: "command (marker_effect loads ?key (IDEMPOTENCY_PREFIX @ the d) j) s2 = (Value (), s')"
      using s' by (auto simp: rbind_Value interfere_def ret_def)
    have l2: "lookup s2 ?key = Some (RHash h')" using h(1) d(2) by simp
    note E = marker_effect_Value [OF m l2 st]
    have "lookup s' ?key = Some (RHash h')" "expiry s' ?key = retention (kv_clock s) (terminal_status status)" using E(1,2) l2 h(2) d(2) by simp_all
    moreover have "expiry s' (IDEMPOTENCY_PREFIX @ x) = retention (kv_clock s) (terminal_status status)"
      if "h' ''idempotency_key_sha256'' = Some x" "lookup s (IDEMPOTENCY_PREFIX @ x) = Some (RText t)" "marker_owner loads t = Some j" for x t
      using E(3) [of t] that d h(3,4) by simp
    ultimately show ?thesis by blast
  qed
  then show ?thesis using h' st by (intro exI [of _ h] exI [of _ h']) simp
qed

text \<open>How long a record is kept. An answered and undisturbed status change leaves the record with the new status and, for a finished status, with the retention
  of thirty days, otherwise with no expiry; the marker of the job, when the record names it, gets the same.\<close>

theorem status_decides_retention:
  assumes "update_status strf loads (\<lambda>_. id) stamp j status kwargs s = (Value True, s')" and "map_of kwargs ''status'' = None"
  shows "\<exists>h'. lookup s' (tracker_key j) = Some (RHash h') \<and> h' ''status'' = Some status \<and> expiry s' (tracker_key j) = retention (kv_clock s) (terminal_status status)
     \<and> (\<forall>d t. h' ''idempotency_key_sha256'' = Some d \<and> d \<noteq> [] \<and> lookup s (IDEMPOTENCY_PREFIX @ d) = Some (RText t) \<and> marker_owner loads t = Some j
          \<longrightarrow> expiry s' (IDEMPOTENCY_PREFIX @ d) = retention (kv_clock s) (terminal_status status))"
  using update_status_Value [OF assms] by (elim exE conjE) (intro exI conjI; assumption)

text \<open>A recycled id inherits the cancellation of its predecessor. When an id comes back while the record of the earlier job is still kept, creating the new job and
  starting it leave the earlier \<open>cancellation_intent\<close> in place, on which the worker cancels the new job.\<close>

theorem recycled_id_is_born_cancelled:
  assumes "lookup s (tracker_key j) = Some (RHash h)" and "h ''cancellation_intent'' = Some c"
    and "create_job strf id stamp j sv src prompt n rg opts s = (Value (Some job), s1)"
    and "update_status strf loads (\<lambda>_. id) stamp' j ''in_flight'' [] s1 = (Value True, s2)"
  shows "\<exists>h2. lookup s2 (tracker_key j) = Some (RHash h2) \<and> h2 ''status'' = Some ''in_flight'' \<and> h2 ''job_id'' = Some j
     \<and> h2 ''cancellation_intent'' = Some c"
proof -
  have "hash_at s (tracker_key j) = Some h" using assms(1) by (simp add: hash_at_def)
  then have s1: "hash_at s1 (tracker_key j) = Some (h ++ map_of job)" and job: "job = job_fields strf stamp j sv src prompt n rg opts"
    using create_job_Value [OF assms(3)] by (auto simp: hash_at_def lookup_set_expiry)
  have "map_of job ''cancellation_intent'' = None" "map_of job ''job_id'' = Some j"
    by (simp_all add: job job_fields_def opt_field_def int_opt_field_def revision_field_def split: option.splits)
  moreover have "kwarg_fields strf [] = []" by (simp add: kwarg_fields_def)
  ultimately show ?thesis using update_status_Value [OF assms(4)] s1 assms(2)
    by (auto simp: status_fields_def terminal_status_def map_add_def)
qed

text \<open>Only a forced call on an \<open>in_flight\<close> job without any sign of life cancels it.\<close>

lemma terminalize_only_impossible:
  assumes "terminalize_if_impossible strf loads (\<lambda>_. id) stamp j pel entry running force s = (Value r, s')"
  shows "r = Terminalized \<Longrightarrow> force \<and> \<not> running \<and> \<not> pel \<and> \<not> entry
       \<and> (\<exists>h. lookup s (tracker_key j) = Some (RHash h) \<and> h ''status'' = Some ''in_flight'')
       \<and> (\<exists>h'. lookup s' (tracker_key j) = Some (RHash h') \<and> h' ''status'' = Some ''cancelled'')"
    and "r = Noop why \<Longrightarrow> same_data s s'"
proof -
  obtain job s1 where g: "tracker_get_job j s = (Value job, s1)" and rest: "(case job of None \<Rightarrow> ret (Noop ''job_not_found'')
     | Some h \<Rightarrow>
         if h ''status'' \<noteq> Some ''in_flight'' then ret (Noop ''status'')
         else if \<not> force then ret (Noop ''force flag not set'')
         else if running then ret (Noop ''service_running'')
         else if pel then ret (Noop ''stream_has_pel'')
         else if entry then ret (Noop ''stream_has_entry'')
         else rbind (interfere id) (\<lambda>_.
              rbind (update_status strf loads (\<lambda>_. id) stamp j ''cancelled''
                [(''error'', PStr ''terminalize_if_impossible: no PEL, no stream entry, service stopped'')]) (\<lambda>updated.
              ret (if updated then Terminalized else Terminalize_error)))) s1 = (Value r, s')"
    using assms unfolding terminalize_if_impossible_def rbind_Value [of "tracker_get_job j"] by blast
  have same: "same_data s s1" using g
    by (auto simp: tracker_get_job_def on_redis_error_def read_hash_def command_def same_data_def Let_def split: list.splits fault.splits option.splits outcome.splits prod.splits)
  have job: "hash_at s (tracker_key j) = Some h" if "job = Some h" for h
    using g that by (auto simp: tracker_get_job_def on_error_Value read_hash_def dest!: command_Value split: option.splits if_splits)
  show "r = Noop why \<Longrightarrow> same_data s s'"
    using rest same by (auto simp: ret_def rbind_Value interfere_def split: option.splits if_splits)
  assume "r = Terminalized"
  then obtain h where h: "job = Some h" "h ''status'' = Some ''in_flight''" "force" "\<not> running" "\<not> pel" "\<not> entry"
    and up: "update_status strf loads (\<lambda>_. id) stamp j ''cancelled'' [(''error'', PStr ''terminalize_if_impossible: no PEL, no stream entry, service stopped'')] s1 = (Value True, s')"
    using rest by (auto simp: ret_def rbind_Value interfere_def split: option.splits if_splits)
  have K: "map_of [(''error'', PStr ''terminalize_if_impossible: no PEL, no stream entry, service stopped'')] ''status'' = None" by simp
  obtain h' where "lookup s' (tracker_key j) = Some (RHash h')" "h' ''status'' = Some ''cancelled''"
    using update_status_Value [OF up K] by (elim exE conjE) (rule that; assumption)
  moreover have "lookup s (tracker_key j) = Some (RHash h)" using job [OF h(1)] h(2) by (auto simp: hash_at_def split: option.splits rvalue.splits)
  ultimately show "force \<and> \<not> running \<and> \<not> pel \<and> \<not> entry \<and> (\<exists>h. lookup s (tracker_key j) = Some (RHash h) \<and> h ''status'' = Some ''in_flight'')
       \<and> (\<exists>h'. lookup s' (tracker_key j) = Some (RHash h') \<and> h' ''status'' = Some ''cancelled'')"
    using h by blast
qed

section \<open>Sample calls\<close>

definition sample_options :: job_options where
  "sample_options = \<lparr>jo_priority = None, jo_priority_class = None, jo_broker_priority = None, jo_priority_convention = None, jo_priority_source = None,
     jo_idempotency_key_sha256 = Some ''5f'', jo_request_sha256 = None, jo_parent_job_id = [], jo_service_revision = PNone,
     jo_service_revision_fingerprint = None, jo_workflow_revision = PNone, jo_workflow_fingerprint = None\<rparr>"

definition sample_create :: "redis \<Rightarrow> sfields option outcome \<times> redis" where
  "sample_create s = create_job (\<lambda>_. []) id ''t0'' ''J-0001'' ''llm'' ''api'' ''hi'' 16 [] sample_options s"

definition sample_created :: redis where
  "sample_created = snd (sample_create empty_redis)"

definition sample_start :: "redis \<Rightarrow> bool outcome \<times> redis" where
  "sample_start s = update_status (\<lambda>_. []) (\<lambda>_. None) (\<lambda>_. id) ''t1'' ''J-0001'' ''in_flight'' [] s"

text \<open>A job that was cancelled while it ran and finished before the worker noticed.\<close>

definition sample_recycled :: redis where
  "sample_recycled = put (tracker_key ''J-0001'') (RHash [''status'' \<mapsto> ''completed'', ''cancellation_intent'' \<mapsto> ''1'']) empty_redis"

lemma sample_runs:
  "case fst (sample_create empty_redis) of Value (Some _) \<Rightarrow> True | _ \<Rightarrow> False"
  "fst (sample_start sample_created) = Value True"
  "case fst (sample_create sample_recycled) of Value (Some _) \<Rightarrow> True | _ \<Rightarrow> False"
  "fst (sample_start (snd (sample_create sample_recycled))) = Value True"
  by code_simp+

lemma case_Value: "case fst x of Value (Some _) \<Rightarrow> True | _ \<Rightarrow> False \<Longrightarrow> \<exists>v. x = (Value (Some v), snd x)"
  by (cases x) (auto split: outcome.splits option.splits)

lemma created_record:
  assumes "create_job strf id stamp i sv src prompt n rg opts s = (Value (Some job), s')"
  shows "\<exists>h. lookup s' (tracker_key i) = Some (RHash h) \<and> unfinished h \<and> expiry s' (tracker_key i) = None"
proof -
  obtain h where h: "lookup s' (tracker_key i) = Some (RHash (h ++ map_of job))" "expiry s' (tracker_key i) = None"
      and job: "job = job_fields strf stamp i sv src prompt n rg opts"
    using create_job_Value [OF assms] by (auto simp: lookup_set_expiry expiry_set_expiry)
  have "unfinished (h ++ map_of job)" by (simp add: finished_record_def job map_add_def job_fields_status terminal_status_def)
  with h show ?thesis by blast
qed

theorem unfinished_receipt_survives_witness:
  "\<exists>h'. lookup (sample_created\<lparr>kv_clock := 100000000\<rparr>) (tracker_key ''J-0001'') = Some (RHash h') \<and> unfinished h'
     \<and> expiry (sample_created\<lparr>kv_clock := 100000000\<rparr>) (tracker_key ''J-0001'') = None"
proof -
  obtain job where "sample_create empty_redis = (Value (Some job), sample_created)"
    using case_Value [OF sample_runs(1)] by (auto simp: sample_created_def)
  then obtain h where h: "lookup sample_created (tracker_key ''J-0001'') = Some (RHash h)" "unfinished h" "expiry sample_created (tracker_key ''J-0001'') = None"
    using created_record unfolding sample_create_def by blast
  have "(job_call (\<lambda>_. None) ''J-0001'')\<^sup>*\<^sup>* sample_created (sample_created\<lparr>kv_clock := 100000000\<rparr>)" by (rule r_into_rtranclp) (rule jc_time)
  from unfinished_receipt_survives [OF h this] show ?thesis .
qed

theorem status_decides_retention_witness:
  "\<exists>h'. lookup (snd (sample_start sample_created)) (tracker_key ''J-0001'') = Some (RHash h') \<and> h' ''status'' = Some ''in_flight''
     \<and> expiry (snd (sample_start sample_created)) (tracker_key ''J-0001'') = None"
proof -
  have "sample_start sample_created = (Value True, snd (sample_start sample_created))" using sample_runs(2) by (metis prod.collapse)
  from status_decides_retention [OF this [unfolded sample_start_def]] show ?thesis
    by (auto simp: sample_start_def terminal_status_def)
qed

theorem recycled_id_is_born_cancelled_witness:
  "\<exists>h2. lookup (snd (sample_start (snd (sample_create sample_recycled)))) (tracker_key ''J-0001'') = Some (RHash h2)
     \<and> h2 ''status'' = Some ''in_flight'' \<and> h2 ''cancellation_intent'' = Some ''1''"
proof -
  obtain job where c: "sample_create sample_recycled = (Value (Some job), snd (sample_create sample_recycled))" using case_Value [OF sample_runs(3)] by blast
  have "sample_start (snd (sample_create sample_recycled)) = (Value True, snd (sample_start (snd (sample_create sample_recycled))))"
    using sample_runs(4) by (metis prod.collapse)
  note step = recycled_id_is_born_cancelled [OF _ _ c [unfolded sample_create_def] this [unfolded sample_start_def sample_create_def]]
  have "lookup sample_recycled (tracker_key ''J-0001'') = Some (RHash [''status'' \<mapsto> ''completed'', ''cancellation_intent'' \<mapsto> ''1''])"
    by (simp add: sample_recycled_def)
  from step [OF this, of "''1''"] show ?thesis by (auto simp: sample_start_def sample_create_def)
qed

text \<open>A marker as text: its four values, each ended by a bar.\<close>

definition sample_dumps :: "pydict \<Rightarrow> string" where
  "sample_dumps d = concat (map (\<lambda>(k, v). (case v of PStr s \<Rightarrow> s | _ \<Rightarrow> []) @ ''|'') d)"

definition next_bar :: "string \<Rightarrow> string \<times> string" where
  "next_bar t = (takeWhile (\<lambda>c. c \<noteq> CHR ''|'') t, tl (dropWhile (\<lambda>c. c \<noteq> CHR ''|'') t))"

definition sample_loads :: "string \<Rightarrow> pyval option" where
  "sample_loads t = (let (a, t1) = next_bar t; (b, t2) = next_bar t1; (c, t3) = next_bar t2; (d, _) = next_bar t3 in Some (PDict (claim_marker a b c d)))"

definition sample_claim :: "string \<Rightarrow> redis \<Rightarrow> claim_result outcome \<times> redis" where
  "sample_claim j s = claim_idempotency (\<lambda>_. []) (\<lambda>_. ''5f'') sample_dumps sample_loads id ''order 1'' (replicate 64 CHR ''a'') j ''llm'' [] 86400 s"

lemma sample_claim_runs:
  "fst (sample_claim ''J-0001'' empty_redis) = Value (Claimed ''J-0001'')"
  "case fst (sample_create (snd (sample_claim ''J-0001'' empty_redis))) of Value (Some _) \<Rightarrow> True | _ \<Rightarrow> False"
  "fst (sample_claim ''J-0002'' ((snd (sample_create (snd (sample_claim ''J-0001'' empty_redis))))\<lparr>kv_clock := 1000000\<rparr>)) = Value (Replay ''J-0001'' ''llm'' [])"
  by code_simp+

theorem idempotency_key_admits_once_witness:
  "\<exists>r. fst (sample_claim ''J-0002'' ((snd (sample_create (snd (sample_claim ''J-0001'' empty_redis))))\<lparr>kv_clock := 1000000\<rparr>)) = Value r
     \<and> (r = Replay ''J-0001'' ''llm'' [] \<or> r = Claim_unavailable ''idempotency store unavailable'')"
proof -
  let ?s1 = "snd (sample_claim ''J-0001'' empty_redis)"
  let ?s2 = "snd (sample_create ?s1)"
  let ?s3 = "?s2\<lparr>kv_clock := 1000000\<rparr>"
  have c1: "sample_claim ''J-0001'' empty_redis = (Value (Claimed ''J-0001''), ?s1)" using sample_claim_runs(1) by (metis prod.collapse)
  obtain job where c2: "sample_create ?s1 = (Value (Some job), ?s2)" using case_Value [OF sample_claim_runs(2)] by blast
  have c3: "sample_claim ''J-0002'' ?s3 = (Value (Replay ''J-0001'' ''llm'' []), snd (sample_claim ''J-0002'' ?s3))"
    using sample_claim_runs(3) by (metis prod.collapse)
  have rt: "sample_loads (sample_dumps (claim_marker ''J-0001'' (replicate 64 CHR ''a'') ''llm'' [])) = Some (PDict (claim_marker ''J-0001'' (replicate 64 CHR ''a'') ''llm'' []))"
    by code_simp
  have run: "(job_call sample_loads ''J-0001'')\<^sup>*\<^sup>* ?s2 ?s3" by (rule r_into_rtranclp) (rule jc_time)
  have quiet: "(job_call sample_loads ''J-0001'')\<^sup>*\<^sup>* t (id t)" for t by simp
  from idempotency_key_admits_once [OF c1 [unfolded sample_claim_def] c2 [unfolded sample_create_def sample_claim_def] rt _ quiet
      c3 [unfolded sample_claim_def sample_create_def]] run sample_claim_runs(3)
  show ?thesis by (auto simp: sample_claim_def sample_create_def)
qed

end
