(* ===== verification/Job_Ids.thy ===== *)
theory Job_Ids
  imports Job_Tracker
begin

text \<open>
  The ids \<open>JobTracker.next_job_id\<close> hands out: a counter that starts again at 1 after 9999. One caller at a time gets the ids in a
  cycle; two callers that meet at the end of the cycle get the same id.
\<close>

section \<open>Numbers read back\<close>

lemma digits_value_foldl: "list_all is_digit ds \<Longrightarrow> digits_value ds acc = Some (foldl (\<lambda>a c. 10 * a + of_char c - 48) acc ds)"
  by (induction ds arbitrary: acc) auto

lemma foldl_digits_of_nat:
  "list_all is_digit ds \<Longrightarrow> foldl (\<lambda>a c. 10 * a + of_char c - 48) (int n) ds = int (foldl (\<lambda>n c. 10 * n + (of_char c - 48)) n ds)"
proof (induction ds arbitrary: n)
  case (Cons c ds)
  have "48 \<le> (of_char c :: nat)" using Cons.prems by (simp add: is_digit_def Let_def)
  then have e: "10 * int n + of_char c - 48 = int (10 * n + (of_char c - 48))" by (simp add: of_nat_diff of_nat_of_char)
  have "foldl (\<lambda>a c. 10 * a + of_char c - 48) (int n) (c # ds) = foldl (\<lambda>a c. 10 * a + of_char c - 48) (10 * int n + of_char c - 48) ds"
    by (simp only: foldl_Cons)
  also have "\<dots> = int (foldl (\<lambda>n c. 10 * n + (of_char c - 48)) (10 * n + (of_char c - 48)) ds)"
    unfolding e using Cons.prems by (intro Cons.IH) simp
  finally show ?case by (simp only: foldl_Cons)
qed simp

lemma show_nat_hd: "is_digit (hd (show_nat n))" "is_digit (last (show_nat n))"
  using show_nat_digits [of n] by (auto simp: list_all_iff)

lemma unsigned_show_nat [simp]: "unsigned_value (show_nat n) = Some (int n)"
  using show_nat_digits [of n] foldl_digits_of_nat [of "show_nat n" 0] show_nat_value [of n] show_nat_hd [of n]
  by (simp add: unsigned_value_def digits_value_foldl)

lemma digit_not_space: "is_digit c \<Longrightarrow> \<not> is_space c"
  by (auto simp: is_digit_def is_space_def Let_def)

lemma minus_not_space: "\<not> is_space CHR ''-''"
  by (simp add: is_space_def)

lemma int_text_show_int [simp]: "int_text (show_int i) = Some i"
proof (cases "i < 0")
  case True
  have "strip (CHR ''-'' # show_nat (nat (- i))) = CHR ''-'' # show_nat (nat (- i))"
    using show_nat_digits [of "nat (- i)"] digit_not_space [OF show_nat_hd(2), of "nat (- i)"]
    by (intro strip_fix) (simp_all add: minus_not_space)
  then show ?thesis using True by (simp add: int_text_def show_int_def)
next
  case False
  let ?t = "show_nat (nat i)"
  have t: "strip ?t = ?t" using show_nat_digits [of "nat i"] show_nat_hd [of "nat i"] by (intro strip_fix) (auto simp: digit_not_space)
  obtain c cs where c: "?t = c # cs" using show_nat_digits [of "nat i"] by (cases ?t) auto
  then have "is_digit c" using show_nat_hd(1) [of "nat i"] by simp
  then have "c \<noteq> CHR ''-''" "c \<noteq> CHR ''+''" by (auto simp: is_digit_def)
  then show ?thesis using False t c unsigned_show_nat [of "nat i"] by (simp add: int_text_def show_int_def)
qed

text \<open>Padding with zeros does not change the number, so ids of different numbers differ.\<close>

lemma foldl_zeros: "foldl (\<lambda>n c. 10 * n + (of_char c - 48)) 0 (replicate k CHR ''0'' @ ds) = foldl (\<lambda>n c. 10 * n + (of_char c - 48)) (0::nat) ds"
  by (induction k) simp_all

lemma job_id_text_inject: "0 \<le> v \<Longrightarrow> 0 \<le> w \<Longrightarrow> job_id_text v = job_id_text w \<longleftrightarrow> v = w"
proof
  assume nn: "0 \<le> v" "0 \<le> w" and "job_id_text v = job_id_text w"
  then have "pad4 v = pad4 w" by (simp add: job_id_text_def)
  then have "foldl (\<lambda>n c. 10 * n + (of_char c - 48)) (0::nat) (pad4 v) = foldl (\<lambda>n c. 10 * n + (of_char c - 48)) 0 (pad4 w)" by simp
  then have "nat v = nat w" using nn by (simp add: pad4_def Let_def show_int_def foldl_zeros show_nat_value del: foldl_append)
  then show "v = w" using nn by simp
qed simp

section \<open>One caller at a time\<close>

lemma counter_faults [simp]: "counter_value (s\<lparr>kv_faults := x\<rparr>) = counter_value s"
  by (simp add: counter_value_def)

text \<open>Calls that are answered and not disturbed.\<close>

primrec issue_ids :: "nat \<Rightarrow> redis \<Rightarrow> string option outcome list" where
  "issue_ids 0 s = []"
| "issue_ids (Suc n) s = (case next_job_id id (\<lambda>t. (False, t)) s of (r, s') \<Rightarrow> r # issue_ids n s')"

lemma next_job_id_step:
  assumes "kv_faults s = []" and "counter_value s = Some v" and "v \<le> 9999"
  shows "\<exists>s'. next_job_id id (\<lambda>t. (False, t)) s = (Value (Some (job_id_text (if v < 9999 then v + 1 else 1))), s')
     \<and> kv_faults s' = [] \<and> counter_value s' = Some (if v < 9999 then v + 1 else 1)"
proof -
  have "lookup (set_expiry k None t) k = lookup t k" for k t by (simp add: lookup_set_expiry)
  moreover have "kv_faults (set_expiry k e t) = kv_faults t" for k e t by (simp add: set_expiry_def split: option.splits)
  ultimately show ?thesis using assms
    by (simp add: next_job_id_def finish_job_id_def on_redis_error_def rbind_def incr_counter_def read_counter_def reset_counter_def
        interfere_def ret_def command_def counter_value_def)
qed

lemma issue_ids_cycle:
  assumes "kv_faults s = []" and "counter_value s = Some v" and "0 \<le> v" and "v \<le> 9999"
  shows "issue_ids n s = map (\<lambda>i. Value (Some (job_id_text ((v + int i) mod 9999 + 1)))) [0..<n]"
  using assms
proof (induction n arbitrary: s v)
  case (Suc n)
  let ?w = "if v < 9999 then v + 1 else 1"
  obtain s' where s': "next_job_id id (\<lambda>t. (False, t)) s = (Value (Some (job_id_text ?w)), s')" "kv_faults s' = []" "counter_value s' = Some ?w"
    using next_job_id_step [OF Suc.prems(1,2,4)] by blast
  have w: "?w = v mod 9999 + 1" using Suc.prems(3,4) by (cases "v = 9999") (auto simp: mod_pos_pos_trivial)
  have "(?w + int i) mod 9999 = (v + int (Suc i)) mod 9999" for i
    unfolding w using mod_add_left_eq [of v 9999 "1 + int i"] by (simp add: add.assoc)
  then have "issue_ids n s' = map (\<lambda>i. Value (Some (job_id_text ((v + int (Suc i)) mod 9999 + 1)))) [0..<n]"
    using Suc.IH [OF s'(2,3)] Suc.prems(3,4) by simp
  then show ?case using s'(1) w by (simp add: upt_conv_Cons map_Suc_upt [symmetric] o_def del: upt_Suc)
qed simp

text \<open>C16. Job ids form a cycle of 9999. As long as one caller at a time asks and is answered, every call returns an id, and two calls return the same
  id exactly when the number of calls between them is a multiple of 9999: ids of living jobs come back after that many submissions.\<close>

theorem job_ids_repeat:
  assumes "kv_faults s = []" and "counter_value s = Some v" and "0 \<le> v" and "v \<le> 9999" and "i < n" and "j < n"
  shows "(\<exists>x. issue_ids n s ! i = Value (Some x)) \<and> (issue_ids n s ! i = issue_ids n s ! j \<longleftrightarrow> i mod 9999 = j mod 9999)"
proof -
  have id_at: "issue_ids n s ! k = Value (Some (job_id_text ((v + int k) mod 9999 + 1)))" if "k < n" for k
    using issue_ids_cycle [OF assms(1-4), of n] that by simp
  have "(v + int i) mod 9999 = (v + int j) mod 9999 \<longleftrightarrow> int i mod 9999 = int j mod 9999"
    by (simp add: mod_eq_dvd_iff)
  also have "\<dots> \<longleftrightarrow> i mod 9999 = j mod 9999" by (simp add: zmod_int [symmetric, of _ 9999, simplified])
  finally show ?thesis
    using id_at [OF assms(5)] id_at [OF assms(6)] by (simp add: job_id_text_inject)
qed

theorem job_ids_repeat_witness: "issue_ids 2 empty_redis ! 0 \<noteq> issue_ids 2 empty_redis ! 1"
  using job_ids_repeat [of empty_redis 0 0 2 1] by (simp add: empty_redis_def counter_value_def lookup_def)

section \<open>Two callers at the end of the cycle\<close>

text \<open>Two callers can get the same id. When the counter stands at 9999 and two callers increment it before either looks at it again, the first
  to go on sets it back to 1 and returns \<open>J-0001\<close>; the second then finds 1, does not increment it, and returns \<open>J-0001\<close> too.\<close>

theorem wrap_race_same_id:
  assumes "kv_faults s = []" and "counter_value s = Some 9999"
  shows "\<exists>s1 s2 s3 s4. incr_counter s = (Value 10000, s1) \<and> incr_counter s1 = (Value 10001, s2)
     \<and> finish_job_id id (\<lambda>t. (False, t)) 10000 s2 = (Value (Some ''J-0001''), s3)
     \<and> finish_job_id id (\<lambda>t. (False, t)) 10001 s3 = (Value (Some ''J-0001''), s4)"
proof -
  have t: "job_id_text 1 = ''J-0001''" by code_simp
  have "lookup (set_expiry k None t) k = lookup t k" for k t by (simp add: lookup_set_expiry)
  moreover have "kv_faults (set_expiry k e t) = kv_faults t" for k e t by (simp add: set_expiry_def split: option.splits)
  ultimately show ?thesis using assms t
    by (simp add: finish_job_id_def rbind_def incr_counter_def read_counter_def reset_counter_def interfere_def ret_def command_def counter_value_def)
qed

theorem wrap_race_same_id_witness:
  "let s = put COUNTER_KEY (RText ''9999'') empty_redis in counter_value s = Some 9999
     \<and> (\<exists>s1 s2 s3 s4. incr_counter s = (Value 10000, s1) \<and> incr_counter s1 = (Value 10001, s2)
        \<and> finish_job_id id (\<lambda>t. (False, t)) 10000 s2 = (Value (Some ''J-0001''), s3)
        \<and> finish_job_id id (\<lambda>t. (False, t)) 10001 s3 = (Value (Some ''J-0001''), s4))"
proof -
  have "counter_value (put COUNTER_KEY (RText ''9999'') empty_redis) = Some 9999" by code_simp
  with wrap_race_same_id [of "put COUNTER_KEY (RText ''9999'') empty_redis"] show ?thesis by (simp add: Let_def empty_redis_def)
qed

end
