(* ===== verification/Slot_Manager.thy ===== *)
theory Slot_Manager
  imports Job_Ids
begin

text \<open>
  \<open>SlotManager\<close> and \<open>AsyncSlotManager\<close> of \<open>scripts/queue_engine.py\<close>: the worker slots of a service are the fields of the Redis hash
  \<open>slots:<machine>:<service>\<close>, each a JSON object. \<open>enc\<close> and \<open>dec\<close> are the JSON text of a slot and reading it (\<open>None\<close> on other
  text), \<open>order\<close> the order in which \<open>HGETALL\<close> lists the fields of a hash. \<open>others n\<close> is what the other clients do between two commands.
\<close>

section \<open>Slots\<close>

record slot =
  sl_job_id :: string
  sl_started_at :: string
  sl_status :: string

definition free_slot :: slot where
  "free_slot = \<lparr>sl_job_id = [], sl_started_at = [], sl_status = ''free''\<rparr>"

definition slots_key :: "string \<Rightarrow> string \<Rightarrow> string" where
  "slots_key machine service = ''slots:'' @ machine @ '':'' @ service"

definition slot_limit :: "(string \<rightharpoonup> nat) \<Rightarrow> string \<Rightarrow> nat" where
  "slot_limit service_slots service = (case service_slots service of None \<Rightarrow> 0 | Some n \<Rightarrow> n)"

text \<open>A hash without fields does not exist.\<close>

definition put_hash :: "string \<Rightarrow> (string \<rightharpoonup> string) \<Rightarrow> redis \<Rightarrow> redis" where
  "put_hash k h s = (if h = Map.empty then remove k s else put k (RHash h) s)"

text \<open>The free fields beyond the limit, in the order of the scan. \<open>None\<close> is the \<open>ValueError\<close> of \<open>int\<close> or \<open>json.loads\<close>.\<close>

fun surplus_fields :: "(string \<Rightarrow> slot option) \<Rightarrow> (string \<rightharpoonup> string) \<Rightarrow> nat \<Rightarrow> string list \<Rightarrow> string list option" where
  "surplus_fields dec h n [] = Some []"
| "surplus_fields dec h n (f # fs) =
     (case int_text f of
        None \<Rightarrow> None
      | Some i \<Rightarrow>
          if i < int n then surplus_fields dec h n fs
          else (case Option.bind (h f) dec of
                  None \<Rightarrow> None
                | Some sl \<Rightarrow> map_option (\<lambda>rest. if sl_status sl = ''free'' then f # rest else rest) (surplus_fields dec h n fs)))"

definition missing_fields :: "(string \<rightharpoonup> string) \<Rightarrow> nat \<Rightarrow> string list" where
  "missing_fields h n = filter (\<lambda>f. h f = None) (map show_nat [0..<n])"

text \<open>The transaction that adds and removes fields.\<close>

definition reconcile_effect :: "(slot \<Rightarrow> string) \<Rightarrow> string \<Rightarrow> string list \<Rightarrow> string list \<Rightarrow> unit rcomp" where
  "reconcile_effect enc key adds dels s =
     (case hash_at s key of
        None \<Rightarrow> (RedisError, s)
      | Some h \<Rightarrow> (Value (), put_hash key (del_all (upd_all h adds (enc free_slot)) dels) s))"

definition init_slots ::
  "(slot \<Rightarrow> string) \<Rightarrow> (string \<Rightarrow> slot option) \<Rightarrow> ((string \<rightharpoonup> string) \<Rightarrow> string list) \<Rightarrow> (nat \<Rightarrow> redis \<Rightarrow> redis) \<Rightarrow> string \<Rightarrow> nat \<Rightarrow> unit rcomp" where
  "init_slots enc dec order others key n =
     on_redis_error ()
       (rbind (exists_key key) (\<lambda>found.
        rbind (interfere (others 0)) (\<lambda>_.
        rbind (if found then read_hash key id else ret Map.empty) (\<lambda>existing.
        rbind (lift_value (surplus_fields dec existing n (order existing))) (\<lambda>dels.
        if missing_fields existing n = [] \<and> dels = [] then ret ()
        else rbind (interfere (others 1)) (\<lambda>_. command (reconcile_effect enc key (missing_fields existing n) dels)))))))"

text \<open>The script of \<open>acquire_slot\<close>: the first free slot in the order of \<open>HGETALL\<close> becomes busy. Text that is not JSON is an error of the script.\<close>

fun first_free :: "(string \<Rightarrow> slot option) \<Rightarrow> (string \<rightharpoonup> string) \<Rightarrow> string list \<Rightarrow> string option option" where
  "first_free dec h [] = Some None"
| "first_free dec h (f # fs) =
     (case Option.bind (h f) dec of
        None \<Rightarrow> None
      | Some sl \<Rightarrow> if sl_status sl = ''free'' then Some (Some f) else first_free dec h fs)"

definition busy_slot :: "string \<Rightarrow> string \<Rightarrow> slot" where
  "busy_slot job_id stamp = \<lparr>sl_job_id = job_id, sl_started_at = stamp, sl_status = ''busy''\<rparr>"

definition acquire_effect ::
  "(slot \<Rightarrow> string) \<Rightarrow> (string \<Rightarrow> slot option) \<Rightarrow> ((string \<rightharpoonup> string) \<Rightarrow> string list) \<Rightarrow> string \<Rightarrow> string \<Rightarrow> string \<Rightarrow> int option rcomp" where
  "acquire_effect enc dec order key job_id stamp s =
     (case hash_at s key of
        None \<Rightarrow> (RedisError, s)
      | Some h \<Rightarrow>
          (case first_free dec h (order h) of
             None \<Rightarrow> (RedisError, s)
           | Some None \<Rightarrow> (Value None, s)
           | Some (Some f) \<Rightarrow>
               (case int_text f of None \<Rightarrow> ValueError | Some i \<Rightarrow> Value (Some i),
                put key (RHash (h(f \<mapsto> enc (busy_slot job_id stamp)))) s)))"

definition acquire_slot ::
  "(slot \<Rightarrow> string) \<Rightarrow> (string \<Rightarrow> slot option) \<Rightarrow> ((string \<rightharpoonup> string) \<Rightarrow> string list) \<Rightarrow> (nat \<Rightarrow> redis \<Rightarrow> redis) \<Rightarrow> string \<Rightarrow> nat
     \<Rightarrow> string \<Rightarrow> string \<Rightarrow> int option rcomp" where
  "acquire_slot enc dec order others key n job_id stamp =
     on_redis_error None
       (rbind (init_slots enc dec order others key n) (\<lambda>_.
        rbind (interfere (others 2)) (\<lambda>_.
        command (acquire_effect enc dec order key job_id stamp))))"

definition release_slot :: "(slot \<Rightarrow> string) \<Rightarrow> (string \<Rightarrow> slot option) \<Rightarrow> (nat \<Rightarrow> redis \<Rightarrow> redis) \<Rightarrow> string \<Rightarrow> int \<Rightarrow> bool rcomp" where
  "release_slot enc dec others key i =
     on_redis_error False
       (rbind (read_hash key (\<lambda>h. h (show_int i))) (\<lambda>raw.
        case raw of
          None \<Rightarrow> ret False
        | Some t \<Rightarrow>
            rbind (lift_value (dec t)) (\<lambda>sl.
            rbind (interfere (others 0)) (\<lambda>_.
            rbind (hset key [(show_int i, enc (sl\<lparr>sl_status := ''free'', sl_job_id := [], sl_started_at := []\<rparr>))]) (\<lambda>_. ret True)))))"

definition get_slots ::
  "(slot \<Rightarrow> string) \<Rightarrow> (string \<Rightarrow> slot option) \<Rightarrow> ((string \<rightharpoonup> string) \<Rightarrow> string list) \<Rightarrow> (nat \<Rightarrow> redis \<Rightarrow> redis) \<Rightarrow> string \<Rightarrow> nat \<Rightarrow> (string \<times> slot) list rcomp" where
  "get_slots enc dec order others key n =
     on_redis_error []
       (rbind (init_slots enc dec order others key n) (\<lambda>_.
        rbind (interfere (others 2)) (\<lambda>_.
        rbind (read_hash key id) (\<lambda>h.
        lift_value (those (map (\<lambda>f. map_option (Pair f) (Option.bind (h f) dec)) (order h)))))))"

definition get_available_slots ::
  "(slot \<Rightarrow> string) \<Rightarrow> (string \<Rightarrow> slot option) \<Rightarrow> ((string \<rightharpoonup> string) \<Rightarrow> string list) \<Rightarrow> (nat \<Rightarrow> redis \<Rightarrow> redis) \<Rightarrow> string \<Rightarrow> nat \<Rightarrow> nat rcomp" where
  "get_available_slots enc dec order others key n =
     on_redis_error 0
       (rbind (init_slots enc dec order others key n) (\<lambda>_.
        rbind (interfere (others 2)) (\<lambda>_.
        rbind (read_hash key id) (\<lambda>h.
        rbind (lift_value (those (map (\<lambda>f. Option.bind (h f) dec) (order h)))) (\<lambda>sls.
        ret (length (filter (\<lambda>sl. sl_status sl = ''free'') sls)))))))"

text \<open>\<open>get_slot_for_job\<close>: the first slot that names the job.\<close>

fun slot_of_job :: "(string \<Rightarrow> slot option) \<Rightarrow> (string \<rightharpoonup> string) \<Rightarrow> string \<Rightarrow> string list \<Rightarrow> int option option" where
  "slot_of_job dec h job_id [] = Some None"
| "slot_of_job dec h job_id (f # fs) =
     (case Option.bind (h f) dec of
        None \<Rightarrow> None
      | Some sl \<Rightarrow> if sl_job_id sl = job_id then map_option Some (int_text f) else slot_of_job dec h job_id fs)"

definition get_slot_for_job :: "(string \<Rightarrow> slot option) \<Rightarrow> ((string \<rightharpoonup> string) \<Rightarrow> string list) \<Rightarrow> string \<Rightarrow> string \<Rightarrow> int option rcomp" where
  "get_slot_for_job dec order key job_id =
     on_redis_error None (rbind (read_hash key id) (\<lambda>h. lift_value (slot_of_job dec h job_id (order h))))"

text \<open>\<open>reap_stale_slots\<close>: the age of a start time is \<open>age\<close>, \<open>None\<close> when it is not a date (the age is then infinite). The scan works on the slots as read at
  its beginning; a \<open>RedisError\<close> can only come from this reading, when nothing is reaped yet.\<close>

definition is_stale :: "(string \<Rightarrow> real option) \<Rightarrow> real \<Rightarrow> slot \<Rightarrow> bool" where
  "is_stale age max_age sl =
     (sl_status sl = ''busy'' \<and> (sl_started_at sl = [] \<or> (case age (sl_started_at sl) of None \<Rightarrow> True | Some a \<Rightarrow> a > max_age)))"

fun reap_fields ::
  "(slot \<Rightarrow> string) \<Rightarrow> (string \<Rightarrow> slot option) \<Rightarrow> (string \<Rightarrow> redis \<Rightarrow> redis) \<Rightarrow> (string \<Rightarrow> real option) \<Rightarrow> real \<Rightarrow> string \<Rightarrow> (string \<rightharpoonup> string)
     \<Rightarrow> string list \<Rightarrow> (int \<times> slot) list rcomp" where
  "reap_fields enc dec others age max_age key h [] = ret []"
| "reap_fields enc dec others age max_age key h (f # fs) =
     rbind (lift_value (Option.bind (h f) dec)) (\<lambda>sl.
     if is_stale age max_age sl
     then rbind (lift_value (int_text f)) (\<lambda>i.
          rbind (release_slot enc dec (\<lambda>_. others f) key i) (\<lambda>_.
          rbind (reap_fields enc dec others age max_age key h fs) (\<lambda>rest. ret ((i, sl) # rest))))
     else reap_fields enc dec others age max_age key h fs)"

definition reap_stale_slots ::
  "(slot \<Rightarrow> string) \<Rightarrow> (string \<Rightarrow> slot option) \<Rightarrow> ((string \<rightharpoonup> string) \<Rightarrow> string list) \<Rightarrow> (nat \<Rightarrow> redis \<Rightarrow> redis) \<Rightarrow> (string \<Rightarrow> redis \<Rightarrow> redis)
     \<Rightarrow> (string \<Rightarrow> real option) \<Rightarrow> string \<Rightarrow> nat \<Rightarrow> real \<Rightarrow> (int \<times> slot) list rcomp" where
  "reap_stale_slots enc dec order others between age key n max_age =
     on_redis_error []
       (rbind (init_slots enc dec order others key n) (\<lambda>_.
        rbind (interfere (others 2)) (\<lambda>_.
        rbind (read_hash key id) (\<lambda>h. reap_fields enc dec between age max_age key h (order h)))))"

text \<open>\<open>flush_all\<close>: \<open>keys\<close> are those the scan of \<open>slots:<machine>:*\<close> yields. An error ends the scan, and the keys flushed before it count.\<close>

fun flush_all :: "string list \<Rightarrow> nat rcomp" where
  "flush_all [] = ret 0"
| "flush_all (k # ks) = on_redis_error 0 (rbind (command (\<lambda>s. (Value (), remove k s))) (\<lambda>_. rbind (flush_all ks) (\<lambda>n. ret (n + 1))))"

section \<open>The asynchronous manager\<close>

text \<open>It fills the hash only when there is none, and turns every exception into the failure value.\<close>

definition async_init_slots :: "(slot \<Rightarrow> string) \<Rightarrow> (nat \<Rightarrow> redis \<Rightarrow> redis) \<Rightarrow> string \<Rightarrow> nat \<Rightarrow> unit rcomp" where
  "async_init_slots enc others key n =
     on_exception ()
       (rbind (exists_key key) (\<lambda>found.
        if found \<or> n = 0 then ret ()
        else rbind (interfere (others 0)) (\<lambda>_. command (reconcile_effect enc key (map show_nat [0..<n]) []))))"

definition async_acquire_slot ::
  "(slot \<Rightarrow> string) \<Rightarrow> (string \<Rightarrow> slot option) \<Rightarrow> ((string \<rightharpoonup> string) \<Rightarrow> string list) \<Rightarrow> (nat \<Rightarrow> redis \<Rightarrow> redis) \<Rightarrow> string \<Rightarrow> nat
     \<Rightarrow> string \<Rightarrow> string \<Rightarrow> int option rcomp" where
  "async_acquire_slot enc dec order others key n job_id stamp =
     on_exception None
       (rbind (async_init_slots enc others key n) (\<lambda>_.
        rbind (interfere (others 2)) (\<lambda>_.
        command (acquire_effect enc dec order key job_id stamp))))"

definition async_release_slot :: "(slot \<Rightarrow> string) \<Rightarrow> (string \<Rightarrow> slot option) \<Rightarrow> (nat \<Rightarrow> redis \<Rightarrow> redis) \<Rightarrow> string \<Rightarrow> int \<Rightarrow> bool rcomp" where
  "async_release_slot enc dec others key i = on_exception False (release_slot enc dec others key i)"

definition async_get_available_slots ::
  "(slot \<Rightarrow> string) \<Rightarrow> (string \<Rightarrow> slot option) \<Rightarrow> ((string \<rightharpoonup> string) \<Rightarrow> string list) \<Rightarrow> (nat \<Rightarrow> redis \<Rightarrow> redis) \<Rightarrow> string \<Rightarrow> nat \<Rightarrow> nat rcomp" where
  "async_get_available_slots enc dec order others key n =
     on_exception 0
       (rbind (async_init_slots enc others key n) (\<lambda>_.
        rbind (interfere (others 2)) (\<lambda>_.
        rbind (read_hash key id) (\<lambda>h.
        rbind (lift_value (those (map (\<lambda>f. Option.bind (h f) dec) (order h)))) (\<lambda>sls.
        ret (length (filter (\<lambda>sl. sl_status sl = ''free'') sls)))))))"

end
