(* ===== verification/Slot_Facts.thy ===== *)
theory Slot_Facts
  imports Slot_Manager
begin

text \<open>
  The slots of a service as a set of taken indices: an undisturbed \<open>acquire_slot\<close> takes a free index below the limit or finds none, and
  \<open>release_slot\<close> gives one back. Two callers that initialise the slots at the same time can get the same slot, and a late release frees the slot of its next owner.
\<close>

section \<open>Taken slots\<close>

definition taken :: "(string \<Rightarrow> slot option) \<Rightarrow> (string \<rightharpoonup> string) \<Rightarrow> nat set" where
  "taken dec h = {k. \<exists>raw sl. h (show_nat k) = Some raw \<and> dec raw = Some sl \<and> sl_status sl \<noteq> ''free''}"

definition wf_slots :: "(string \<Rightarrow> slot option) \<Rightarrow> (string \<rightharpoonup> string) \<Rightarrow> bool" where
  "wf_slots dec h \<longleftrightarrow> finite (dom h) \<and> (\<forall>f raw. h f = Some raw \<longrightarrow> (\<exists>k. f = show_nat k) \<and> dec raw \<noteq> None)"

text \<open>What is relied on: JSON reads back a slot that was written, and \<open>HGETALL\<close> lists exactly the fields of a hash.\<close>

definition reads_back :: "(slot \<Rightarrow> string) \<Rightarrow> (string \<Rightarrow> slot option) \<Rightarrow> bool" where
  "reads_back enc dec \<longleftrightarrow> (\<forall>sl. dec (enc sl) = Some sl)"

definition lists_fields :: "((string \<rightharpoonup> string) \<Rightarrow> string list) \<Rightarrow> bool" where
  "lists_fields order \<longleftrightarrow> (\<forall>h. finite (dom h) \<longrightarrow> set (order h) = dom h)"

lemma reads_backD [simp]: "reads_back enc dec \<Longrightarrow> dec (enc sl) = Some sl"
  by (simp add: reads_back_def)

lemma lists_fieldsD: "lists_fields order \<Longrightarrow> wf_slots dec h \<Longrightarrow> set (order h) = dom h"
  by (simp add: lists_fields_def wf_slots_def)

lemma int_text_show_nat [simp]: "int_text (show_nat k) = Some (int k)"
  using int_text_show_int [of "int k"] by (simp add: show_int_def)

lemma show_nat_inject [simp]: "show_nat a = show_nat b \<longleftrightarrow> a = b"
  by (metis read_show_nat option.inject)

lemma show_int_of_nat [simp]: "show_int (int k) = show_nat k"
  by (simp add: show_int_def)

lemma surplus_run:
  assumes "wf_slots dec h" and "set fs \<subseteq> dom h"
  shows "\<exists>ds. surplus_fields dec h n fs = Some ds
     \<and> set ds = {f \<in> set fs. \<exists>k raw sl. f = show_nat k \<and> n \<le> k \<and> h f = Some raw \<and> dec raw = Some sl \<and> sl_status sl = ''free''}"
  using assms(2)
proof (induction fs)
  case (Cons f fs)
  then obtain ds where ds: "surplus_fields dec h n fs = Some ds"
      "set ds = {f \<in> set fs. \<exists>k raw sl. f = show_nat k \<and> n \<le> k \<and> h f = Some raw \<and> dec raw = Some sl \<and> sl_status sl = ''free''}" by auto
  obtain raw where "h f = Some raw" using Cons.prems by auto
  moreover obtain k sl where "f = show_nat k" "dec raw = Some sl" using assms(1) calculation unfolding wf_slots_def by blast
  ultimately show ?case using ds by auto
qed simp

lemma first_free_run:
  assumes "wf_slots dec h" and "set fs \<subseteq> dom h"
  shows "\<exists>r. first_free dec h fs = Some r \<and> (case r of
       None \<Rightarrow> \<forall>f \<in> set fs. \<exists>raw sl. h f = Some raw \<and> dec raw = Some sl \<and> sl_status sl \<noteq> ''free''
     | Some f \<Rightarrow> f \<in> set fs \<and> (\<exists>raw sl. h f = Some raw \<and> dec raw = Some sl \<and> sl_status sl = ''free''))"
  using assms(2)
proof (induction fs)
  case (Cons f fs)
  then obtain r where r: "first_free dec h fs = Some r" "case r of
       None \<Rightarrow> \<forall>f \<in> set fs. \<exists>raw sl. h f = Some raw \<and> dec raw = Some sl \<and> sl_status sl \<noteq> ''free''
     | Some f \<Rightarrow> f \<in> set fs \<and> (\<exists>raw sl. h f = Some raw \<and> dec raw = Some sl \<and> sl_status sl = ''free'')" by auto
  obtain raw where "h f = Some raw" using Cons.prems by auto
  moreover obtain sl where "dec raw = Some sl" using assms(1) calculation unfolding wf_slots_def by blast
  ultimately show ?case using r by (auto split: option.splits)
qed simp

text \<open>The hash after the reconciliation: every index below the limit has a field, those beyond it are taken.\<close>

definition reconciled :: "(slot \<Rightarrow> string) \<Rightarrow> (string \<Rightarrow> slot option) \<Rightarrow> nat \<Rightarrow> (string \<rightharpoonup> string) \<Rightarrow> (string \<rightharpoonup> string)" where
  "reconciled enc dec n h = (\<lambda>f.
     if \<exists>k<n. f = show_nat k then (case h f of None \<Rightarrow> Some (enc free_slot) | Some raw \<Rightarrow> Some raw)
     else if \<exists>raw sl. h f = Some raw \<and> dec raw = Some sl \<and> sl_status sl = ''free'' then None else h f)"

lemma hash_at_put_hash [simp]: "hash_at (put_hash k h s) k = Some h"
  by (simp add: put_hash_def hash_at_def)

lemma put_hash_fields [simp]: "kv_faults (put_hash k h s) = kv_faults s" "kv_clock (put_hash k h s) = kv_clock s"
  by (simp_all add: put_hash_def remove_def)

lemma missing_set: "set (missing_fields h n) = {f. h f = None \<and> (\<exists>k<n. f = show_nat k)}"
  by (auto simp: missing_fields_def)

lemma reconciled_fields:
  assumes "wf_slots dec h" and "set ds = {f \<in> dom h. \<exists>k raw sl. f = show_nat k \<and> n \<le> k \<and> h f = Some raw \<and> dec raw = Some sl \<and> sl_status sl = ''free''}"
  shows "del_all (upd_all h (missing_fields h n) (enc free_slot)) ds = reconciled enc dec n h"
proof
  fix f
  show "del_all (upd_all h (missing_fields h n) (enc free_slot)) ds f = reconciled enc dec n h f"
  proof (cases "h f")
    case None
    then have "f \<notin> set ds" using assms(2) by auto
    then show ?thesis using None by (simp add: missing_set reconciled_def)
  next
    case (Some raw)
    then obtain k sl where k: "f = show_nat k" "dec raw = Some sl" using assms(1) unfolding wf_slots_def by blast
    have "f \<in> set ds \<longleftrightarrow> n \<le> k \<and> sl_status sl = ''free''" using assms(2) k Some by auto
    moreover have "f \<notin> set (missing_fields h n)" using Some by (simp add: missing_set)
    ultimately show ?thesis using Some k by (auto simp: reconciled_def)
  qed
qed

lemma init_slots_run:
  assumes "kv_faults s = []" and "hash_at s key = Some h" and "wf_slots dec h" and "set (order h) = dom h"
  shows "\<exists>s1. init_slots enc dec order (\<lambda>_. id) key n s = (Value (), s1) \<and> kv_faults s1 = [] \<and> hash_at s1 key = Some (reconciled enc dec n h)"
proof -
  obtain ds where ds: "surplus_fields dec h n (order h) = Some ds"
      "set ds = {f \<in> dom h. \<exists>k raw sl. f = show_nat k \<and> n \<le> k \<and> h f = Some raw \<and> dec raw = Some sl \<and> sl_status sl = ''free''}"
    using surplus_run [OF assms(3), of "order h" n] assms(4) by auto
  have read: "(if lookup s key \<noteq> None then read_hash key id else ret Map.empty) s = (Value h, s)"
    using assms(1,2) by (auto simp: hash_at_def read_hash_def ret_def command_def split: option.splits rvalue.splits)
  note rec = reconciled_fields [OF assms(3) ds(2), of enc]
  have init: "init_slots enc dec order (\<lambda>_. id) key n s = (if missing_fields h n = [] \<and> ds = [] then (Value (), s)
     else (Value (), put_hash key (reconciled enc dec n h) s))"
    using assms(1,2) read ds(1) rec
    by (simp add: init_slots_def on_redis_error_def rbind_def exists_key_def interfere_def command_def lift_value_def ret_def reconcile_effect_def)
  show ?thesis
  proof (cases "missing_fields h n = [] \<and> ds = []")
    case True
    then have "reconciled enc dec n h = h" using rec by simp
    then show ?thesis using True init assms(1,2) by simp
  next
    case False
    then have "init_slots enc dec order (\<lambda>_. id) key n s = (Value (), put_hash key (reconciled enc dec n h) s)" using init by (simp only: if_False)
    then show ?thesis using assms(1) by simp
  qed
qed

lemma taken_reconciled: "wf_slots dec h \<Longrightarrow> reads_back enc dec \<Longrightarrow> taken dec (reconciled enc dec n h) = taken dec h"
  by (auto simp: taken_def reconciled_def free_slot_def split: option.splits if_splits)

lemma wf_reconciled: "wf_slots dec h \<Longrightarrow> reads_back enc dec \<Longrightarrow> wf_slots dec (reconciled enc dec n h)"
proof -
  assume a: "wf_slots dec h" "reads_back enc dec"
  have "dom (reconciled enc dec n h) \<subseteq> dom h \<union> show_nat ` {..<n}" by (auto simp: reconciled_def split: if_splits)
  moreover have "finite (dom h \<union> show_nat ` {..<n})" using a(1) by (simp add: wf_slots_def)
  ultimately have "finite (dom (reconciled enc dec n h))" by (rule finite_subset)
  then show ?thesis using a unfolding wf_slots_def reconciled_def by (auto split: option.splits if_splits)
qed

section \<open>Acquire and release\<close>

lemma acquire_effect_run:
  assumes "hash_at s key = Some h" and "wf_slots dec h" and "set (order h) = dom h" and "reads_back enc dec"
  shows "\<exists>r s' h'. acquire_effect enc dec order key job stamp s = (Value r, s') \<and> hash_at s' key = Some h' \<and> wf_slots dec h' \<and> kv_faults s' = kv_faults s
     \<and> (case r of None \<Rightarrow> h' = h \<and> (\<forall>f \<in> dom h. \<exists>k. f = show_nat k \<and> k \<in> taken dec h)
        | Some i \<Rightarrow> \<exists>k. i = int k \<and> show_nat k \<in> dom h \<and> k \<notin> taken dec h \<and> h' = h(show_nat k \<mapsto> enc (busy_slot job stamp)))"
proof -
  obtain r where r: "first_free dec h (order h) = Some r" "case r of
       None \<Rightarrow> \<forall>f \<in> dom h. \<exists>raw sl. h f = Some raw \<and> dec raw = Some sl \<and> sl_status sl \<noteq> ''free''
     | Some f \<Rightarrow> f \<in> dom h \<and> (\<exists>raw sl. h f = Some raw \<and> dec raw = Some sl \<and> sl_status sl = ''free'')"
    using first_free_run [OF assms(2), of "order h"] unfolding assms(3) by blast
  show ?thesis
  proof (cases r)
    case None
    have "\<exists>k. f = show_nat k \<and> k \<in> taken dec h" if "f \<in> dom h" for f
      using assms(2) that r(2) None unfolding wf_slots_def taken_def by fastforce
    then show ?thesis using None r(1) assms(1,2) by (simp add: acquire_effect_def)
  next
    case (Some f)
    then obtain raw sl where f: "h f = Some raw" "dec raw = Some sl" "sl_status sl = ''free''" using r(2) by auto
    then obtain k where k: "f = show_nat k" using assms(2) unfolding wf_slots_def by blast
    have "wf_slots dec (h(show_nat k \<mapsto> enc (busy_slot job stamp)))" using assms(2,4) unfolding wf_slots_def by auto
    moreover have "k \<notin> taken dec h" using f k by (auto simp: taken_def)
    ultimately show ?thesis using Some r(1) assms(1) k f(1) by (auto simp: acquire_effect_def hash_at_def)
  qed
qed

lemma taken_busy: "reads_back enc dec \<Longrightarrow> taken dec (h(show_nat k \<mapsto> enc (busy_slot job stamp))) = insert k (taken dec h)"
  by (auto simp: taken_def busy_slot_def)

lemma taken_free: "reads_back enc dec \<Longrightarrow> taken dec (h(show_nat k \<mapsto> enc free_slot)) = taken dec h - {k}"
  by (auto simp: taken_def free_slot_def)

lemma acquire_slot_run:
  assumes "kv_faults s = []" and "hash_at s key = Some h" and "wf_slots dec h" and "reads_back enc dec"
    and ord: "lists_fields order"
  shows "\<exists>r s' h'. acquire_slot enc dec order (\<lambda>_. id) key n job stamp s = (Value r, s') \<and> hash_at s' key = Some h' \<and> wf_slots dec h' \<and> kv_faults s' = []
     \<and> (case r of
          None \<Rightarrow> {..<n} \<subseteq> taken dec h \<and> taken dec h' = taken dec h
        | Some i \<Rightarrow> \<exists>k<n. i = int k \<and> k \<notin> taken dec h \<and> taken dec h' = insert k (taken dec h) \<and> h' (show_nat k) = Some (enc (busy_slot job stamp)))"
proof -
  let ?h1 = "reconciled enc dec n h"
  obtain s1 where s1: "init_slots enc dec order (\<lambda>_. id) key n s = (Value (), s1)" "kv_faults s1 = []" "hash_at s1 key = Some ?h1"
    using init_slots_run [where enc = enc and n = n and order = order, OF assms(1-3) lists_fieldsD [OF ord assms(3)]] by blast
  have wf1: "wf_slots dec ?h1" and t1: "taken dec ?h1 = taken dec h" using wf_reconciled taken_reconciled assms(3,4) by blast+
  have o1: "set (order ?h1) = dom ?h1" using ord wf1 by (rule lists_fieldsD)
  obtain r s' h' where a: "acquire_effect enc dec order key job stamp s1 = (Value r, s')" "hash_at s' key = Some h'" "wf_slots dec h'" "kv_faults s' = []"
      and r: "case r of None \<Rightarrow> h' = ?h1 \<and> (\<forall>f \<in> dom ?h1. \<exists>k. f = show_nat k \<and> k \<in> taken dec ?h1)
        | Some i \<Rightarrow> \<exists>k. i = int k \<and> show_nat k \<in> dom ?h1 \<and> k \<notin> taken dec ?h1 \<and> h' = ?h1(show_nat k \<mapsto> enc (busy_slot job stamp))"
    using acquire_effect_run [where enc = enc and order = order and job = job and stamp = stamp, OF s1(3) wf1 o1 assms(4)] s1(2)
    by (elim exE conjE) (rule that; simp)
  have run: "acquire_slot enc dec order (\<lambda>_. id) key n job stamp s = (Value r, s')"
    using s1 a(1) by (simp add: acquire_slot_def on_redis_error_def rbind_def interfere_def command_def)
  show ?thesis
  proof (cases r)
    case None
    have "k \<in> taken dec h" if "k < n" for k
    proof -
      have "show_nat k \<in> dom ?h1" using that by (auto simp: reconciled_def split: option.splits)
      moreover have "\<forall>f \<in> dom ?h1. \<exists>k. f = show_nat k \<and> k \<in> taken dec ?h1" using r None by simp
      ultimately obtain k' where "show_nat k = show_nat k'" "k' \<in> taken dec ?h1" by blast
      then show ?thesis using t1 by simp
    qed
    then show ?thesis using run a(2-4) None r t1 by (intro exI [of _ r] exI [of _ s'] exI [of _ h']) auto
  next
    case (Some i)
    then obtain k where k: "i = int k" "show_nat k \<in> dom ?h1" "k \<notin> taken dec ?h1" "h' = ?h1(show_nat k \<mapsto> enc (busy_slot job stamp))" using r by auto
    have "k < n" using k(2,3) wf1 by (fastforce simp: reconciled_def taken_def wf_slots_def split: if_splits)
    then show ?thesis using run a(2-4) Some k t1 assms(4) taken_busy [OF assms(4)]
      by (intro exI [of _ r] exI [of _ s'] exI [of _ h']) auto
  qed
qed

lemma release_slot_run:
  assumes "kv_faults s = []" and "hash_at s key = Some h" and "h (show_nat k) = Some (enc sl)" and "reads_back enc dec"
  shows "release_slot enc dec (\<lambda>_. id) key (int k) s = (Value True, put key (RHash (h(show_nat k \<mapsto> enc free_slot))) s)"
proof -
  have "sl\<lparr>sl_status := ''free'', sl_job_id := [], sl_started_at := []\<rparr> = free_slot" by (simp add: free_slot_def)
  then show ?thesis using assms
    by (simp add: release_slot_def on_redis_error_def rbind_def read_hash_def command_def lift_value_def interfere_def ret_def hset_def)
qed

lemma hash_at_put [simp]: "hash_at (put k (RHash h) s) k = Some h"
  by (simp add: hash_at_def)

text \<open>C17. Slots as a set of taken indices. On a server that answers and with no other client in between, \<open>acquire_slot\<close> with the limit \<open>n\<close> returns an index below \<open>n\<close> that was not taken
  and takes it for the job, or returns nothing exactly when all indices below \<open>n\<close> are taken; it leaves all other slots as they are, also taken ones beyond a lowered limit.
  Releasing the index afterwards gives back the set as it was. (JSON reads back the slots written; \<open>HGETALL\<close> lists exactly the fields of the hash.)\<close>

theorem slots_are_a_bounded_set:
  assumes "kv_faults s = []" and "hash_at s key = Some h" and "wf_slots dec h" and "reads_back enc dec"
    and "lists_fields order"
  shows "\<exists>r s' h'. acquire_slot enc dec order (\<lambda>_. id) key n job stamp s = (Value r, s') \<and> hash_at s' key = Some h' \<and> wf_slots dec h'
     \<and> (case r of
          None \<Rightarrow> {..<n} \<subseteq> taken dec h \<and> taken dec h' = taken dec h
        | Some i \<Rightarrow> \<exists>k<n. i = int k \<and> k \<notin> taken dec h \<and> taken dec h' = insert k (taken dec h) \<and> h' (show_nat k) = Some (enc (busy_slot job stamp))
            \<and> (\<exists>s'' h''. release_slot enc dec (\<lambda>_. id) key i s' = (Value True, s'') \<and> hash_at s'' key = Some h'' \<and> taken dec h'' = taken dec h))"
proof -
  obtain r s' h' where a: "acquire_slot enc dec order (\<lambda>_. id) key n job stamp s = (Value r, s')" "hash_at s' key = Some h'" "wf_slots dec h'" "kv_faults s' = []"
      and r: "case r of
          None \<Rightarrow> {..<n} \<subseteq> taken dec h \<and> taken dec h' = taken dec h
        | Some i \<Rightarrow> \<exists>k<n. i = int k \<and> k \<notin> taken dec h \<and> taken dec h' = insert k (taken dec h) \<and> h' (show_nat k) = Some (enc (busy_slot job stamp))"
    using acquire_slot_run [where enc = enc and order = order and n = n and job = job and stamp = stamp, OF assms] by (elim exE conjE) (rule that; simp)
  have "\<exists>s'' h''. release_slot enc dec (\<lambda>_. id) key (int k) s' = (Value True, s'') \<and> hash_at s'' key = Some h'' \<and> taken dec h'' = taken dec h"
    if "k \<notin> taken dec h" "taken dec h' = insert k (taken dec h)" "h' (show_nat k) = Some (enc (busy_slot job stamp))" for k
    using release_slot_run [OF a(4,2) that(3) assms(4)] that(1,2) assms(4) taken_free [OF assms(4)] by auto
  then show ?thesis using a(1-3) r by (intro exI [of _ r] exI [of _ s'] exI [of _ h']) (auto split: option.splits)
qed

text \<open>A late release frees the slot of another job. \<open>release_slot\<close> does not ask who holds the slot: when a job whose slot was reaped and given to job \<open>b\<close> releases it after all,
  the slot counts as free, and with every other slot taken the next caller gets it while \<open>b\<close> still runs.\<close>

theorem late_release_double_books:
  assumes "kv_faults s = []" and "hash_at s key = Some h" and "wf_slots dec h" and "reads_back enc dec"
    and "lists_fields order" and "k < n" and "h (show_nat k) = Some (enc (busy_slot b st))" and "{..<n} - {k} \<subseteq> taken dec h"
  shows "\<exists>s1 s2. release_slot enc dec (\<lambda>_. id) key (int k) s = (Value True, s1)
     \<and> acquire_slot enc dec order (\<lambda>_. id) key n c stamp s1 = (Value (Some (int k)), s2)"
proof -
  let ?h1 = "h(show_nat k \<mapsto> enc free_slot)"
  let ?s1 = "put key (RHash ?h1) s"
  have t: "taken dec ?h1 = taken dec h - {k}" using assms(4) by (simp add: taken_free)
  have wf: "wf_slots dec ?h1" using assms(3,4) unfolding wf_slots_def by auto
  obtain r s2 where a: "acquire_slot enc dec order (\<lambda>_. id) key n c stamp ?s1 = (Value r, s2)"
      and r: "case r of None \<Rightarrow> {..<n} \<subseteq> taken dec ?h1 | Some i \<Rightarrow> \<exists>j<n. i = int j \<and> j \<notin> taken dec ?h1"
    using acquire_slot_run [where enc = enc and order = order and n = n and job = c and stamp = stamp and s = ?s1 and key = key, OF _ _ wf assms(4,5)] assms(1)
    by (fastforce split: option.splits)
  have "r = Some (int k)" using r t assms(6,8) by (auto split: option.splits)
  then show ?thesis using a release_slot_run [OF assms(1,2,7,4)] by simp
qed

section \<open>Two callers at the first use\<close>

text \<open>The hash with all slots free.\<close>

abbreviation all_free :: "(slot \<Rightarrow> string) \<Rightarrow> (string \<Rightarrow> slot option) \<Rightarrow> nat \<Rightarrow> (string \<rightharpoonup> string)" where
  "all_free enc dec n \<equiv> reconciled enc dec n Map.empty"

lemma all_free_at: "all_free enc dec n f = (if \<exists>k<n. f = show_nat k then Some (enc free_slot) else None)"
  by (simp add: reconciled_def)

lemma first_free_all:
  assumes "reads_back enc dec" and "lists_fields order" and "0 < n"
  shows "\<exists>k<n. first_free dec (all_free enc dec n) (order (all_free enc dec n)) = Some (Some (show_nat k))"
proof -
  let ?h = "all_free enc dec n"
  have wf: "wf_slots dec ?h" using assms(1) by (intro wf_reconciled) (simp_all add: wf_slots_def)
  have o: "set (order ?h) = dom ?h" using assms(2) wf by (rule lists_fieldsD)
  have "show_nat 0 \<in> dom ?h" using assms(3) by (auto simp: all_free_at)
  then obtain f fs where f: "order ?h = f # fs" using o by (cases "order ?h") auto
  then have "f \<in> dom ?h" using o by auto
  then obtain k where "k < n" "f = show_nat k" by (auto simp: all_free_at split: if_splits)
  then show ?thesis using f assms(1) by (auto simp: all_free_at free_slot_def)
qed

text \<open>Two callers can get the same slot. When the slots of a service are not set up yet, and another caller sets them up and acquires a slot while this caller is between its reading
  of the hash and its writing, the write makes all slots free again and this caller acquires the very slot the other one has.\<close>

theorem first_use_double_books:
  assumes "kv_faults s = []" and "lookup s key = None" and "reads_back enc dec" and "lists_fields order" and "0 < n"
  shows "\<exists>i t s'. acquire_slot enc dec order (\<lambda>_. id) key n b st s = (Value (Some i), t)
     \<and> acquire_slot enc dec order (\<lambda>m s. if m = 1 then snd (acquire_slot enc dec order (\<lambda>_. id) key n b st s) else s) key n a st' s = (Value (Some i), s')"
proof -
  let ?h = "all_free enc dec n"
  have h0: "hash_at s key = Some Map.empty" using assms(2) by (simp add: hash_at_def)
  have wf0: "wf_slots dec Map.empty" by (simp add: wf_slots_def)
  have ord0: "order Map.empty = []" using lists_fieldsD [OF assms(4) wf0] by simp
  obtain k where k: "k < n" "first_free dec ?h (order ?h) = Some (Some (show_nat k))" using first_free_all [OF assms(3-5)] by blast
  obtain s1 where s1: "init_slots enc dec order (\<lambda>_. id) key n s = (Value (), s1)" "kv_faults s1 = []" "hash_at s1 key = Some ?h"
    using init_slots_run [where enc = enc and n = n and order = order, OF assms(1) h0 wf0] ord0 by auto
  let ?t = "put key (RHash (?h(show_nat k \<mapsto> enc (busy_slot b st)))) s1"
  have b: "acquire_slot enc dec order (\<lambda>_. id) key n b st s = (Value (Some (int k)), ?t)"
    using s1 k(2) by (simp add: acquire_slot_def on_redis_error_def rbind_def interfere_def command_def acquire_effect_def)
  have adds: "missing_fields Map.empty n = map show_nat [0..<n]" by (simp add: missing_fields_def)
  have again: "upd_all (?h(show_nat k \<mapsto> enc (busy_slot b st))) (map show_nat [0..<n]) (enc free_slot) = ?h"
    using k(1) by (auto simp: all_free_at fun_eq_iff)
  have ne: "map show_nat [0..<n] \<noteq> []" using assms(5) by simp
  let ?o = "\<lambda>m s. if m = (1::nat) then snd (acquire_slot enc dec order (\<lambda>_. id) key n b st s) else s"
  have "init_slots enc dec order ?o key n s = (Value (), put_hash key ?h ?t)"
    using assms(1,2) ord0 b s1(2) again ne
    by (simp add: init_slots_def on_redis_error_def rbind_def exists_key_def interfere_def command_def lift_value_def ret_def reconcile_effect_def adds)
  then have "\<exists>s'. acquire_slot enc dec order ?o key n a st' s = (Value (Some (int k)), s')"
    using k(2) s1(2) by (simp add: acquire_slot_def on_redis_error_def rbind_def interfere_def command_def acquire_effect_def)
  with b show ?thesis by blast
qed

section \<open>Sample slots\<close>

text \<open>A text of a slot that reads back, and a listing of fields.\<close>

definition write_text :: "string \<Rightarrow> string" where
  "write_text t = concat (map (\<lambda>c. [CHR ''+'', c]) t) @ ''.''"

fun read_text :: "string \<Rightarrow> string \<times> string" where
  "read_text (p # c # t) = (if p = CHR ''+'' then (let (a, r) = read_text t in (c # a, r)) else ([], c # t))"
| "read_text t = ([], [])"

lemma read_end: "read_text (CHR ''.'' # r) = ([], r)"
  by (cases r) simp_all

lemma read_write_text [simp]: "read_text (write_text a @ r) = (a, r)"
  by (induction a) (simp_all add: write_text_def read_end)

definition sample_enc :: "slot \<Rightarrow> string" where
  "sample_enc sl = write_text (sl_job_id sl) @ write_text (sl_started_at sl) @ write_text (sl_status sl) @ []"

definition sample_dec :: "string \<Rightarrow> slot option" where
  "sample_dec t = (let (a, t1) = read_text t; (b, t2) = read_text t1; (c, _) = read_text t2 in
     Some \<lparr>sl_job_id = a, sl_started_at = b, sl_status = c\<rparr>)"

definition sample_order :: "(string \<rightharpoonup> string) \<Rightarrow> string list" where
  "sample_order h = sorted_list_of_set (dom h)"

lemma sample_codec: "reads_back sample_enc sample_dec" "lists_fields sample_order"
  by (auto simp: reads_back_def lists_fields_def sample_enc_def sample_dec_def sample_order_def simp del: append_Nil2)

abbreviation sample_acquire :: "string \<Rightarrow> redis \<Rightarrow> int option outcome \<times> redis" where
  "sample_acquire job s \<equiv> acquire_slot sample_enc sample_dec sample_order (\<lambda>_. id) ''slots:m:llm'' 2 job ''t0'' s"

theorem slots_are_a_bounded_set_witness: "\<exists>i s'. sample_acquire ''J-0001'' empty_redis = (Value (Some i), s') \<and> 0 \<le> i \<and> i < 2"
proof -
  have e: "kv_faults empty_redis = []" "hash_at empty_redis ''slots:m:llm'' = Some Map.empty" "wf_slots sample_dec Map.empty" "taken sample_dec Map.empty = {}"
    by (simp_all add: empty_redis_def hash_at_def lookup_def wf_slots_def taken_def)
  have "(0::nat) \<in> {..<2}" by simp
  then have "\<not> {..<2::nat} \<subseteq> {}" by blast
  then show ?thesis
    using slots_are_a_bounded_set [where n = 2 and job = "''J-0001''" and stamp = "''t0''", OF e(1-3) sample_codec] e(4)
    by (auto split: option.splits)
qed

theorem late_release_double_books_witness:
  "\<exists>h s1 s2. (let s = put ''slots:m:llm'' (RHash [''0'' \<mapsto> sample_enc (busy_slot ''J-0002'' ''t0'')]) empty_redis in
       hash_at s ''slots:m:llm'' = Some h \<and> release_slot sample_enc sample_dec (\<lambda>_. id) ''slots:m:llm'' 0 s = (Value True, s1)
       \<and> acquire_slot sample_enc sample_dec sample_order (\<lambda>_. id) ''slots:m:llm'' 1 ''J-0003'' ''t1'' s1 = (Value (Some 0), s2))"
proof -
  let ?h = "[''0'' \<mapsto> sample_enc (busy_slot ''J-0002'' ''t0'')]"
  let ?s = "put ''slots:m:llm'' (RHash ?h) empty_redis"
  have z: "show_nat 0 = ''0''" by code_simp
  have wf: "wf_slots sample_dec ?h" using sample_codec(1) z unfolding wf_slots_def by (auto intro: exI [of _ 0])
  have s: "kv_faults ?s = []" "hash_at ?s ''slots:m:llm'' = Some ?h" "?h (show_nat 0) = Some (sample_enc (busy_slot ''J-0002'' ''t0''))" "{..<1::nat} - {0} \<subseteq> taken sample_dec ?h"
    using z by (simp_all add: empty_redis_def lessThan_Suc)
  from late_release_double_books [where n = 1 and k = 0 and c = "''J-0003''" and stamp = "''t1''", OF s(1,2) wf sample_codec _ s(3,4)]
  show ?thesis using s(2) by (simp add: Let_def)
qed

theorem first_use_double_books_witness:
  "\<exists>i t s'. sample_acquire ''J-0001'' empty_redis = (Value (Some i), t)
     \<and> acquire_slot sample_enc sample_dec sample_order (\<lambda>m s. if m = 1 then snd (sample_acquire ''J-0001'' s) else s) ''slots:m:llm'' 2 ''J-0002'' ''t1'' empty_redis
         = (Value (Some i), s')"
proof -
  have "kv_faults empty_redis = []" "lookup empty_redis ''slots:m:llm'' = None" by (simp_all add: empty_redis_def lookup_def)
  from first_use_double_books [OF this sample_codec, of 2] show ?thesis by simp
qed

end
