(* ===== verification/Routing_Engine.thy ===== *)
theory Routing_Engine
  imports Job_Tracker
begin

text \<open>
  \<open>CapacityTracker\<close> and \<open>RoutingEngine\<close> of \<open>scripts/queue_engine.py\<close>: counters of queued and running jobs, and the choice of a service within a routing group by
  lane, free capacity and speed, in turn among equals; with \<open>service_is_publicly_eligible\<close> of \<open>gpu_manager_contracts.py\<close>. \<open>readf\<close> is \<open>float()\<close> of a text. How many slots
  of a service are free and how long its queue is (read from Redis) are the arguments \<open>avail\<close> and \<open>depth\<close>.
\<close>

section \<open>Numbers of the configuration\<close>

definition safe_int :: "pyval \<Rightarrow> int \<Rightarrow> int option \<Rightarrow> int" where
  "safe_int v default_value minimum =
     (let result = (case v of PBool _ \<Rightarrow> default_value | _ \<Rightarrow> (case py_int v of None \<Rightarrow> default_value | Some i \<Rightarrow> i)) in
      case minimum of None \<Rightarrow> result | Some m \<Rightarrow> max m result)"

definition safe_float :: "(string \<Rightarrow> real option) \<Rightarrow> pyval \<Rightarrow> real \<Rightarrow> real option \<Rightarrow> real" where
  "safe_float readf v default_value minimum =
     (let result = (case v of PBool _ \<Rightarrow> default_value | _ \<Rightarrow> (case py_float readf v of None \<Rightarrow> default_value | Some x \<Rightarrow> x)) in
      case minimum of None \<Rightarrow> result | Some m \<Rightarrow> max m result)"

section \<open>Capacity tracker\<close>

record CapacityTracker =
  ct_active :: "string \<rightharpoonup> int"
  ct_pending :: "string \<rightharpoonup> int"

definition count_of :: "(string \<rightharpoonup> int) \<Rightarrow> string \<Rightarrow> int" where
  "count_of m k = (case m k of None \<Rightarrow> 0 | Some i \<Rightarrow> i)"

definition capacity_key :: "string \<Rightarrow> string" where
  "capacity_key service = ''capacity:track:'' @ service"

text \<open>\<open>_persist_to_redis\<close>: every exception is ignored. \<open>linked\<close> says whether the tracker has a connection.\<close>

definition persist_to_redis :: "bool \<Rightarrow> CapacityTracker \<Rightarrow> string \<Rightarrow> unit rcomp" where
  "persist_to_redis linked ct service =
     (if \<not> linked then ret ()
      else on_exception ()
        (rbind (hset (capacity_key service) [(''active'', show_int (count_of (ct_active ct) service)), (''pending'', show_int (count_of (ct_pending ct) service))]) (\<lambda>_.
         command (\<lambda>s. (Value (), set_expiry (capacity_key service) (Some (kv_clock s + 86400)) s)))))"

definition pending_key :: "string \<Rightarrow> string option \<Rightarrow> string" where
  "pending_key service routing_group = (if opt_true routing_group then the routing_group else service)"

definition on_submit :: "bool \<Rightarrow> CapacityTracker \<Rightarrow> string \<Rightarrow> string option \<Rightarrow> redis \<Rightarrow> CapacityTracker \<times> redis" where
  "on_submit linked ct service routing_group s =
     (let key = pending_key service routing_group;
          ct' = ct\<lparr>ct_pending := (ct_pending ct)(key \<mapsto> count_of (ct_pending ct) key + 1)\<rparr>
      in (ct', snd (persist_to_redis linked ct' key s)))"

definition on_start :: "bool \<Rightarrow> CapacityTracker \<Rightarrow> string \<Rightarrow> string option \<Rightarrow> redis \<Rightarrow> CapacityTracker \<times> redis" where
  "on_start linked ct service routing_group s =
     (let key = pending_key service routing_group;
          ct' = ct\<lparr>ct_pending := (ct_pending ct)(key \<mapsto> max 0 (count_of (ct_pending ct) key - 1)),
                   ct_active := (ct_active ct)(service \<mapsto> count_of (ct_active ct) service + 1)\<rparr>;
          s1 = snd (persist_to_redis linked ct' service s)
      in (ct', if key \<noteq> service then snd (persist_to_redis linked ct' key s1) else s1))"

definition on_complete :: "bool \<Rightarrow> CapacityTracker \<Rightarrow> string \<Rightarrow> redis \<Rightarrow> CapacityTracker \<times> redis" where
  "on_complete linked ct service s =
     (let ct' = ct\<lparr>ct_active := (ct_active ct)(service \<mapsto> max 0 (count_of (ct_active ct) service - 1))\<rparr>
      in (ct', snd (persist_to_redis linked ct' service s)))"

definition on_cancel :: "bool \<Rightarrow> CapacityTracker \<Rightarrow> string \<Rightarrow> string option \<Rightarrow> redis \<Rightarrow> CapacityTracker \<times> redis" where
  "on_cancel linked ct service routing_group s =
     (let key = pending_key service routing_group;
          ct' = ct\<lparr>ct_pending := (ct_pending ct)(key \<mapsto> max 0 (count_of (ct_pending ct) key - 1))\<rparr>
      in (ct', snd (persist_to_redis linked ct' key s)))"

definition get_capacity :: "CapacityTracker \<Rightarrow> string \<Rightarrow> int \<Rightarrow> string option \<Rightarrow> int" where
  "get_capacity ct service slots_total routing_group =
     (let key = pending_key service routing_group in
      if ct_active ct service = None \<and> ct_pending ct key = None then slots_total
      else max 0 (slots_total - count_of (ct_active ct) service - count_of (ct_pending ct) key))"

definition get_load :: "CapacityTracker \<Rightarrow> string \<Rightarrow> int" where
  "get_load ct service = count_of (ct_active ct) service + count_of (ct_pending ct) service"

text \<open>\<open>_restore_from_redis\<close>: the keys the scan yields, and the health of a service (\<open>None\<close> without a check or when the check raises). Any exception ends the loop.\<close>

definition last_part :: "string \<Rightarrow> string" where
  "last_part key = rev (takeWhile (\<lambda>c. c \<noteq> CHR '':'') (rev key))"

definition counter_field :: "(string \<rightharpoonup> string) \<Rightarrow> string \<Rightarrow> int option" where
  "counter_field h f = (case h f of None \<Rightarrow> Some 0 | Some t \<Rightarrow> int_text t)"

fun restore_from_redis :: "(string \<Rightarrow> bool option) \<Rightarrow> string list \<Rightarrow> CapacityTracker \<Rightarrow> redis \<Rightarrow> CapacityTracker \<times> redis" where
  "restore_from_redis health [] ct s = (ct, s)"
| "restore_from_redis health (key # keys) ct s =
     (case read_hash key id s of
        (Value h, s1) \<Rightarrow>
          (case (counter_field h ''active'', counter_field h ''pending'') of
             (Some a, Some p) \<Rightarrow>
               let service = last_part key in
               if health service = Some False \<and> (a > 0 \<or> p > 0)
               then let ct' = ct\<lparr>ct_active := (ct_active ct)(service \<mapsto> 0), ct_pending := (ct_pending ct)(service \<mapsto> 0)\<rparr>
                 in restore_from_redis health keys ct' (snd (persist_to_redis True ct' service s1))
               else restore_from_redis health keys (ct\<lparr>ct_active := (ct_active ct)(service \<mapsto> a), ct_pending := (ct_pending ct)(service \<mapsto> p)\<rparr>) s1
           | _ \<Rightarrow> (ct, s1))
      | (_, s1) \<Rightarrow> (ct, s1))"

section \<open>Members of a routing group\<close>

definition PUBLIC_ACTIVATION_STATUSES :: "string list" where
  "PUBLIC_ACTIVATION_STATUSES = [''enabled'', ''qualified'', ''ready'', ''active'', ''activated'', ''production-qualified'']"

definition status_values :: "pydict \<Rightarrow> string list" where
  "status_values entry =
     (let sources = entry # (case dget entry ''metadata'' of PDict d \<Rightarrow> [d] | _ \<Rightarrow> []) in
      concat (map (\<lambda>field. concat (map (\<lambda>src. case dget src field of PStr v \<Rightarrow> if blank v then [] else [lower (strip v)] | _ \<Rightarrow> []) sources))
        [''activation_status'', ''qualification_status'', ''status'']))"

definition service_is_publicly_eligible :: "pydict \<Rightarrow> bool" where
  "service_is_publicly_eligible entry =
     (if dget_or entry ''enabled'' (PBool True) = PBool False then False
      else case status_values entry of [] \<Rightarrow> True | v # _ \<Rightarrow> v \<in> set PUBLIC_ACTIVATION_STATUSES)"

record member =
  mb_service :: string
  mb_slots_total :: int
  mb_slots_free :: int
  mb_queue_depth :: int
  mb_speed :: real
  mb_priority :: real
  mb_lane :: int

definition schedulable :: "string \<Rightarrow> pydict \<Rightarrow> bool" where
  "schedulable routing_group cfg \<longleftrightarrow>
     dget cfg ''routing_group'' = PStr routing_group
     \<and> (dget cfg ''routing_group_type'' = PNone \<or> str_in (dget cfg ''routing_group_type'') [''llm'', ''generation''])
     \<and> \<not> str_in (dget cfg ''type'') [''cloud'', ''provider'', ''orchestrator'', ''control_plane'']
     \<and> service_is_publicly_eligible cfg"

definition member_of :: "(string \<Rightarrow> real option) \<Rightarrow> (string \<Rightarrow> int) \<Rightarrow> (string \<Rightarrow> int) \<Rightarrow> string \<Rightarrow> pydict \<Rightarrow> member" where
  "member_of readf avail depth svc cfg =
     (let total_slots = safe_int (dget_or cfg ''parallel'' (PInt 1)) 1 (Some 1) in
      \<lparr>mb_service = svc, mb_slots_total = total_slots, mb_slots_free = min total_slots (max 0 (avail svc)), mb_queue_depth = depth svc,
       mb_speed = safe_float readf (dget cfg ''speed'') 0 (Some 0), mb_priority = safe_float readf (dget cfg ''priority'') 0 (Some 0),
       mb_lane = safe_int (dget cfg ''lane'') 0 (Some 0)\<rparr>)"

definition get_group_members ::
  "(string \<Rightarrow> real option) \<Rightarrow> (string \<Rightarrow> int) \<Rightarrow> (string \<Rightarrow> int) \<Rightarrow> (string \<times> pydict) list \<Rightarrow> string \<Rightarrow> member list" where
  "get_group_members readf avail depth config routing_group =
     map (\<lambda>(svc, cfg). member_of readf avail depth svc cfg) (filter (\<lambda>(svc, cfg). schedulable routing_group cfg) config)"

definition get_group_status ::
  "(string \<Rightarrow> real option) \<Rightarrow> (string \<Rightarrow> int) \<Rightarrow> (string \<Rightarrow> int) \<Rightarrow> (string \<times> pydict) list \<Rightarrow> string \<Rightarrow> member list \<times> int \<times> int \<times> bool" where
  "get_group_status readf avail depth config routing_group =
     (let ms = get_group_members readf avail depth config routing_group; free = sum_list (map mb_slots_free ms) in
      if ms = [] then ([], 0, 0, False) else (ms, sum_list (map mb_slots_total ms), free, free > 0))"

section \<open>The choice\<close>

text \<open>\<open>_choose_fair\<close>: among the candidates that equal the first, the one whose turn it is.\<close>

definition tied :: "('a \<Rightarrow> 'k) \<Rightarrow> 'a list \<Rightarrow> 'a list" where
  "tied key candidates = filter (\<lambda>c. key c = key (hd candidates)) candidates"

definition choose_fair :: "(string \<rightharpoonup> nat) \<Rightarrow> string \<Rightarrow> ('a \<Rightarrow> 'k) \<Rightarrow> 'a list \<Rightarrow> 'a \<times> (string \<rightharpoonup> nat)" where
  "choose_fair cursors routing_group key candidates =
     (let ts = tied key candidates in
      if length ts = 1 then (hd ts, cursors)
      else let cursor = (case cursors routing_group of None \<Rightarrow> 0 | Some c \<Rightarrow> c) mod length ts
           in (ts ! cursor, cursors(routing_group \<mapsto> (cursor + 1) mod length ts)))"

definition live_capacity :: "CapacityTracker option \<Rightarrow> string \<Rightarrow> member \<Rightarrow> int" where
  "live_capacity tracker routing_group m =
     max 0 (case tracker of None \<Rightarrow> mb_slots_free m | Some ct \<Rightarrow> get_capacity ct (mb_service m) (mb_slots_total m) (Some routing_group))"

definition fill_rank :: "member \<Rightarrow> int \<times> real \<times> int" where
  "fill_rank m = (mb_lane m, - mb_speed m, - mb_slots_total m)"

definition spread_rank :: "(member \<Rightarrow> int) \<Rightarrow> member \<Rightarrow> int \<times> int \<times> real" where
  "spread_rank capacity m = (- capacity m, if mb_lane m \<ge> 1 then mb_lane m else 10 ^ 9, - mb_speed m)"

definition find_service_for_group ::
  "CapacityTracker option \<Rightarrow> (string \<rightharpoonup> nat) \<Rightarrow> member list \<Rightarrow> string \<Rightarrow> string set \<Rightarrow> bool \<Rightarrow> string option \<times> (string \<rightharpoonup> nat)" where
  "find_service_for_group tracker cursors members routing_group excluded prefer_priority =
     (let candidates = filter (\<lambda>m. mb_service m \<notin> excluded) members;
          capacity = live_capacity tracker routing_group;
          available = filter (\<lambda>m. capacity m > 0) candidates;
          lane_pool = filter (\<lambda>m. mb_lane m \<ge> 1) available
      in if available = [] then (None, cursors)
         else if prefer_priority \<and> lane_pool \<noteq> []
         then map_prod (Some \<circ> mb_service) id (choose_fair cursors routing_group fill_rank (sort_key fill_rank lane_pool))
         else let pool = (if lane_pool \<noteq> [] then lane_pool else available)
              in map_prod (Some \<circ> mb_service) id (choose_fair cursors routing_group (spread_rank capacity) (sort_key (spread_rank capacity) pool)))"

end
