(* ===== verification/Routing_Facts.thy ===== *)
theory Routing_Facts
  imports Routing_Engine Job_Ids
begin

text \<open>
  The routing engine picks a best available member, in turn among equals; the capacity it relies on stays between zero and the configured slots, and the
  counters are restored from Redis as they were saved.
\<close>

section \<open>The choice\<close>

lemma tied_facts:
  assumes "cs \<noteq> []" shows "tied key cs \<noteq> []" and "c \<in> set (tied key cs) \<Longrightarrow> c \<in> set cs \<and> key c = key (hd cs)"
proof -
  have "hd cs \<in> set (tied key cs)" using assms by (simp add: tied_def)
  then show "tied key cs \<noteq> []" by auto
qed (simp add: tied_def)

lemma choose_fair_tied: "cs \<noteq> [] \<Longrightarrow> fst (choose_fair cursors g key cs) \<in> set (tied key cs)"
  using tied_facts(1) [of cs key] by (auto simp: choose_fair_def Let_def)

lemma sorted_hd_least:
  fixes key :: "'a \<Rightarrow> 'k::linorder"
  assumes "cs \<noteq> []" and "c \<in> set (tied key (sort_key key cs))"
  shows "c \<in> set cs" and "d \<in> set cs \<Longrightarrow> key c \<le> key d"
proof -
  let ?s = "sort_key key cs"
  have ne: "?s \<noteq> []" using assms(1) by (metis set_empty set_sort)
  have c: "c \<in> set ?s" "key c = key (hd ?s)" using tied_facts(2) [OF ne assms(2)] by auto
  show "c \<in> set cs" using c(1) by simp
  assume "d \<in> set cs"
  then have "d \<in> set ?s" by simp
  moreover have "sorted (map key ?s)" by simp
  ultimately show "key c \<le> key d" using c(2) ne by (cases ?s) auto
qed

lemma choose_fair_best:
  fixes key :: "'a \<Rightarrow> 'k::linorder"
  assumes "cs \<noteq> []"
  shows "fst (choose_fair cursors g key (sort_key key cs)) \<in> set cs" and "\<forall>d \<in> set cs. key (fst (choose_fair cursors g key (sort_key key cs))) \<le> key d"
proof -
  have "sort_key key cs \<noteq> []" using assms by (metis set_empty set_sort)
  note pick = sorted_hd_least [OF assms choose_fair_tied [OF this, of cursors g key]]
  show "fst (choose_fair cursors g key (sort_key key cs)) \<in> set cs" by (rule pick(1))
  show "\<forall>d \<in> set cs. key (fst (choose_fair cursors g key (sort_key key cs))) \<le> key d" using pick(2) by blast
qed

text \<open>C18. The router picks a best service. It answers with a service exactly when some member that is not excluded has capacity. The service it
  names is such a member; when lanes are assigned it has one, and no other candidate of that kind is better: for priority work by lane, then speed, then size;
  otherwise by free capacity, then lane, then speed.\<close>

theorem routing_picks_best:
  assumes "find_service_for_group tracker cursors members g excluded prio = (r, cursors')"
    and "pool = (let av = filter (\<lambda>m. mb_service m \<notin> excluded \<and> live_capacity tracker g m > 0) members; lanes = filter (\<lambda>m. mb_lane m \<ge> 1) av in
           if lanes \<noteq> [] then lanes else av)"
  shows "(r = None \<longleftrightarrow> pool = [])
     \<and> (\<forall>svc. r = Some svc \<longrightarrow> (\<exists>m \<in> set pool. mb_service m = svc \<and> svc \<notin> excluded \<and> live_capacity tracker g m > 0
          \<and> (if prio \<and> mb_lane m \<ge> 1 then \<forall>m' \<in> set pool. fill_rank m \<le> fill_rank m'
             else \<forall>m' \<in> set pool. spread_rank (live_capacity tracker g) m \<le> spread_rank (live_capacity tracker g) m')))"
proof -
  let ?cap = "live_capacity tracker g"
  let ?best = "\<lambda>m. if prio \<and> mb_lane m \<ge> 1 then \<forall>m' \<in> set pool. fill_rank m \<le> fill_rank m' else \<forall>m' \<in> set pool. spread_rank ?cap m \<le> spread_rank ?cap m'"
  define av where "av = filter (\<lambda>m. mb_service m \<notin> excluded \<and> ?cap m > 0) members"
  define lanes where "lanes = filter (\<lambda>m. mb_lane m \<ge> 1) av"
  have av: "filter (\<lambda>m. ?cap m > 0) (filter (\<lambda>m. mb_service m \<notin> excluded) members) = av" by (simp add: av_def conj_commute)
  have pool: "pool = (if lanes \<noteq> [] then lanes else av)" using assms(2) unfolding Let_def lanes_def av_def .
  have in_av: "mb_service m \<notin> excluded \<and> ?cap m > 0" if "m \<in> set pool" for m using that unfolding pool lanes_def av_def by (auto split: if_splits)
  have laned: "mb_lane m \<ge> 1 \<longleftrightarrow> lanes \<noteq> []" if "m \<in> set pool" for m
    using that unfolding pool by (auto simp: lanes_def filter_empty_conv split: if_splits)
  have run: "r = (if av = [] then None else if prio \<and> lanes \<noteq> [] then Some (mb_service (fst (choose_fair cursors g fill_rank (sort_key fill_rank lanes))))
      else Some (mb_service (fst (choose_fair cursors g (spread_rank ?cap) (sort_key (spread_rank ?cap) pool)))))"
    using assms(1) [symmetric] unfolding find_service_for_group_def Let_def av lanes_def [symmetric] pool [symmetric] by (auto simp: prod_eq_iff split: if_splits)
  show ?thesis
  proof (cases "av = []")
    case True
    then have "pool = []" unfolding pool lanes_def by simp
    then show ?thesis using run True by simp
  next
    case False
    then have ne: "pool \<noteq> []" unfolding pool by simp
    have "\<exists>m \<in> set pool. r = Some (mb_service m) \<and> ?best m"
    proof (cases "prio \<and> lanes \<noteq> []")
      case True
      let ?m = "fst (choose_fair cursors g fill_rank (sort_key fill_rank pool))"
      have "r = Some (mb_service ?m)" using run True False by (simp add: pool)
      moreover note choose_fair_best [OF ne, where cursors = cursors and g = g and key = fill_rank]
      ultimately show ?thesis using laned [of ?m] True by (intro bexI [of _ ?m]) simp_all
    next
      case notprio: False
      let ?m = "fst (choose_fair cursors g (spread_rank ?cap) (sort_key (spread_rank ?cap) pool))"
      have "r = Some (mb_service ?m)" using run notprio False by auto
      moreover note choose_fair_best [OF ne, where cursors = cursors and g = g and key = "spread_rank ?cap"]
      ultimately show ?thesis using laned [of ?m] notprio by (intro bexI [of _ ?m]) auto
    qed
    then obtain m where m: "m \<in> set pool" "r = Some (mb_service m)" "?best m" by blast
    have "\<exists>m' \<in> set pool. mb_service m' = svc \<and> svc \<notin> excluded \<and> ?cap m' > 0 \<and> ?best m'" if "r = Some svc" for svc
      using that m in_av [OF m(1)] by (intro bexI [of _ m]) simp_all
    then show ?thesis using ne m(2) by simp
  qed
qed

definition sample_members :: "member list" where
  "sample_members = map (\<lambda>(n, sl, sp). \<lparr>mb_service = n, mb_slots_total = 4, mb_slots_free = sl, mb_queue_depth = 0, mb_speed = sp, mb_priority = 0, mb_lane = 0\<rparr>)
     [(''a'', 2, 10), (''b'', 2, 10), (''c'', 1, 99)]"

theorem routing_picks_best_witness:
  "fst (find_service_for_group None Map.empty sample_members ''g'' {} False) \<noteq> None"
  using routing_picks_best [of None Map.empty sample_members "''g''" "{}" False
      "fst (find_service_for_group None Map.empty sample_members ''g'' {} False)" "snd (find_service_for_group None Map.empty sample_members ''g'' {} False)", OF _ refl]
  by (simp add: sample_members_def live_capacity_def Let_def)

section \<open>Turns\<close>

text \<open>The candidates that share the best rank, and the answers of calls one after the other with nothing else changing.\<close>

definition front_runners :: "CapacityTracker option \<Rightarrow> member list \<Rightarrow> string \<Rightarrow> string set \<Rightarrow> bool \<Rightarrow> member list" where
  "front_runners tracker members g excluded prio =
     (let av = filter (\<lambda>m. mb_service m \<notin> excluded \<and> live_capacity tracker g m > 0) members; lanes = filter (\<lambda>m. mb_lane m \<ge> 1) av in
      if prio \<and> lanes \<noteq> [] then tied fill_rank (sort_key fill_rank lanes)
      else tied (spread_rank (live_capacity tracker g)) (sort_key (spread_rank (live_capacity tracker g)) (if lanes \<noteq> [] then lanes else av)))"

primrec routes :: "nat \<Rightarrow> CapacityTracker option \<Rightarrow> (string \<rightharpoonup> nat) \<Rightarrow> member list \<Rightarrow> string \<Rightarrow> string set \<Rightarrow> bool \<Rightarrow> string option list" where
  "routes 0 tracker cursors members g excluded prio = []"
| "routes (Suc n) tracker cursors members g excluded prio =
     (case find_service_for_group tracker cursors members g excluded prio of (r, cursors') \<Rightarrow> r # routes n tracker cursors' members g excluded prio)"

definition turn_at :: "(string \<rightharpoonup> nat) \<Rightarrow> string \<Rightarrow> nat" where
  "turn_at cursors g = (case cursors g of None \<Rightarrow> 0 | Some c \<Rightarrow> c)"

lemma choose_fair_turn:
  assumes "cs \<noteq> []"
  shows "\<exists>cursors'. choose_fair cursors g key cs = (tied key cs ! (turn_at cursors g mod length (tied key cs)), cursors')
     \<and> turn_at cursors' g mod length (tied key cs) = Suc (turn_at cursors g) mod length (tied key cs)"
proof -
  have "tied key cs \<noteq> []" using tied_facts(1) [OF assms] .
  then show ?thesis by (auto simp: choose_fair_def Let_def turn_at_def hd_conv_nth mod_Suc_eq split: option.splits)
qed

lemma find_service_turn:
  assumes "front_runners tracker members g excluded prio \<noteq> []"
  shows "\<exists>cursors'. find_service_for_group tracker cursors members g excluded prio =
       (Some (mb_service (front_runners tracker members g excluded prio ! (turn_at cursors g mod length (front_runners tracker members g excluded prio)))), cursors')
     \<and> turn_at cursors' g mod length (front_runners tracker members g excluded prio) = Suc (turn_at cursors g) mod length (front_runners tracker members g excluded prio)"
proof -
  let ?cap = "live_capacity tracker g"
  let ?av = "filter (\<lambda>m. mb_service m \<notin> excluded \<and> ?cap m > 0) members"
  let ?lanes = "filter (\<lambda>m. mb_lane m \<ge> 1) ?av"
  let ?pool = "if ?lanes \<noteq> [] then ?lanes else ?av"
  have av: "filter (\<lambda>m. ?cap m > 0) (filter (\<lambda>m. mb_service m \<notin> excluded) members) = ?av" by (simp add: conj_commute)
  have ne: "?av \<noteq> []" using assms by (auto simp: front_runners_def Let_def tied_def filter_empty_conv split: if_splits)
  have sne: "sort_key k xs \<noteq> []" if "xs \<noteq> []" for k :: "member \<Rightarrow> 'k::linorder" and xs using that by (metis set_empty set_sort)
  show ?thesis
  proof (cases "prio \<and> ?lanes \<noteq> []")
    case True
    then show ?thesis using choose_fair_turn [OF sne [of ?lanes fill_rank], of cursors g fill_rank] ne
      unfolding find_service_for_group_def Let_def av front_runners_def by auto
  next
    case False
    have "?pool \<noteq> []" using ne by simp
    then show ?thesis using choose_fair_turn [OF sne [of ?pool "spread_rank ?cap"], of cursors g "spread_rank ?cap"] ne False
      unfolding find_service_for_group_def Let_def av front_runners_def by auto
  qed
qed

lemma routes_nth:
  assumes "front_runners tracker members g excluded prio \<noteq> []"
  shows "routes n tracker cursors members g excluded prio =
     map (\<lambda>i. Some (mb_service (front_runners tracker members g excluded prio ! ((turn_at cursors g + i) mod length (front_runners tracker members g excluded prio))))) [0..<n]"
proof (induction n arbitrary: cursors)
  case (Suc n)
  let ?fr = "front_runners tracker members g excluded prio"
  obtain cursors' where c: "find_service_for_group tracker cursors members g excluded prio = (Some (mb_service (?fr ! (turn_at cursors g mod length ?fr))), cursors')"
      "turn_at cursors' g mod length ?fr = Suc (turn_at cursors g) mod length ?fr"
    using find_service_turn [OF assms] by blast
  have "(turn_at cursors' g + i) mod length ?fr = (turn_at cursors g + Suc i) mod length ?fr" for i
    using c(2) by (metis add_Suc_shift mod_add_left_eq)
  then show ?case using c(1) Suc.IH [of cursors'] by (simp add: upt_conv_Cons map_Suc_upt [symmetric] o_def del: upt_Suc)
qed simp

text \<open>C19. Equal services take turns. While nothing else changes, the answers of as many consecutive calls as there are best candidates name each of them exactly once, in the fixed order
  of the candidates started at the turn the group is at.\<close>

theorem routing_is_fair:
  assumes "front_runners tracker members g excluded prio = fr" and "fr \<noteq> []"
  shows "routes (length fr) tracker cursors members g excluded prio = map (Some \<circ> mb_service) (rotate (turn_at cursors g) fr)"
proof (rule nth_equalityI)
  fix i assume "i < length (routes (length fr) tracker cursors members g excluded prio)"
  then show "routes (length fr) tracker cursors members g excluded prio ! i = map (Some \<circ> mb_service) (rotate (turn_at cursors g) fr) ! i"
    using routes_nth [of tracker members g excluded prio "length fr" cursors] assms by (simp add: nth_rotate)
qed (use routes_nth [of tracker members g excluded prio "length fr" cursors] assms in simp)

theorem routing_is_fair_witness:
  "routes 2 None Map.empty sample_members ''g'' {} False = [Some ''a'', Some ''b'']"
proof -
  have "front_runners None sample_members ''g'' {} False = take 2 sample_members"
    by (simp add: sample_members_def front_runners_def live_capacity_def tied_def spread_rank_def sort_key_simps less_eq_prod_def less_prod_def)
  from routing_is_fair [OF this, of Map.empty] show ?thesis by (simp add: sample_members_def turn_at_def numeral_2_eq_2 del: routes.simps)
qed

section \<open>Capacity\<close>

datatype cap_event = Submit string "string option" | Start string "string option" | Complete string | Cancel string "string option"

fun apply_event :: "bool \<Rightarrow> CapacityTracker \<times> redis \<Rightarrow> cap_event \<Rightarrow> CapacityTracker \<times> redis" where
  "apply_event linked (ct, s) (Submit sv rg) = on_submit linked ct sv rg s"
| "apply_event linked (ct, s) (Start sv rg) = on_start linked ct sv rg s"
| "apply_event linked (ct, s) (Complete sv) = on_complete linked ct sv s"
| "apply_event linked (ct, s) (Cancel sv rg) = on_cancel linked ct sv rg s"

definition new_tracker :: CapacityTracker where
  "new_tracker = \<lparr>ct_active = Map.empty, ct_pending = Map.empty\<rparr>"

definition tracked :: "bool \<Rightarrow> redis \<Rightarrow> cap_event list \<Rightarrow> CapacityTracker" where
  "tracked linked s evs = fst (foldl (apply_event linked) (new_tracker, s) evs)"

text \<open>The jobs that wait under a key and those that run on a service, counted from the events.\<close>

fun waiting_change :: "string \<Rightarrow> cap_event \<Rightarrow> int" where
  "waiting_change k (Submit sv rg) = (if pending_key sv rg = k then 1 else 0)"
| "waiting_change k (Start sv rg) = (if pending_key sv rg = k then -1 else 0)"
| "waiting_change k (Cancel sv rg) = (if pending_key sv rg = k then -1 else 0)"
| "waiting_change k (Complete sv) = 0"

fun running_change :: "string \<Rightarrow> cap_event \<Rightarrow> int" where
  "running_change k (Start sv rg) = (if sv = k then 1 else 0)"
| "running_change k (Complete sv) = (if sv = k then -1 else 0)"
| "running_change k _ = 0"

definition jobs_waiting :: "cap_event list \<Rightarrow> string \<Rightarrow> int" where
  "jobs_waiting evs k = sum_list (map (waiting_change k) evs)"

definition jobs_running :: "cap_event list \<Rightarrow> string \<Rightarrow> int" where
  "jobs_running evs k = sum_list (map (running_change k) evs)"

text \<open>Only submitted jobs start or are cancelled, and only started ones complete.\<close>

definition orderly :: "cap_event list \<Rightarrow> bool" where
  "orderly evs \<longleftrightarrow> (\<forall>n k. 0 \<le> jobs_waiting (take n evs) k \<and> 0 \<le> jobs_running (take n evs) k)"

lemma count_upd [simp]: "count_of (m(k \<mapsto> v)) k' = (if k' = k then v else count_of m k')"
    "count_of (\<lambda>a. if a = k then Some v else m a) k' = (if k' = k then v else count_of m k')"
  by (simp_all add: count_of_def)

lemma tracked_snoc: "tracked linked s (evs @ [e]) = fst (apply_event linked (tracked linked s evs, snd (foldl (apply_event linked) (new_tracker, s) evs)) e)"
  by (simp add: tracked_def)

lemma counters_exact:
  assumes "orderly evs"
  shows "count_of (ct_pending (tracked linked s evs)) k = jobs_waiting evs k \<and> count_of (ct_active (tracked linked s evs)) k = jobs_running evs k"
  using assms
proof (induction evs arbitrary: k rule: rev_induct)
  case Nil
  then show ?case by (simp add: tracked_def new_tracker_def count_of_def jobs_waiting_def jobs_running_def)
next
  case (snoc e evs)
  have "orderly evs" unfolding orderly_def
  proof (intro allI)
    fix n k
    show "0 \<le> jobs_waiting (take n evs) k \<and> 0 \<le> jobs_running (take n evs) k"
      using snoc.prems [unfolded orderly_def, rule_format, of "min n (length evs)" k] by (simp add: min_def split: if_splits)
  qed
  note IH = snoc.IH [OF this]
  have nn: "0 \<le> jobs_waiting (evs @ [e]) k" "0 \<le> jobs_running (evs @ [e]) k" for k
    using snoc.prems [unfolded orderly_def, rule_format, of "length (evs @ [e])" k] by simp_all
  show ?case
  proof (cases e)
    case (Submit sv rg)
    then show ?thesis using IH by (auto simp: tracked_snoc on_submit_def Let_def jobs_waiting_def jobs_running_def)
  next
    case (Start sv rg)
    then show ?thesis using IH nn(1) [of "pending_key sv rg"] by (auto simp: tracked_snoc on_start_def Let_def jobs_waiting_def jobs_running_def)
  next
    case (Complete sv)
    then show ?thesis using IH nn(2) [of sv] by (auto simp: tracked_snoc on_complete_def Let_def jobs_waiting_def jobs_running_def)
  next
    case (Cancel sv rg)
    then show ?thesis using IH nn(1) [of "pending_key sv rg"] by (auto simp: tracked_snoc on_cancel_def Let_def jobs_waiting_def jobs_running_def)
  qed
qed

lemma counters_nonneg: "0 \<le> count_of (ct_pending (tracked linked s evs)) k \<and> 0 \<le> count_of (ct_active (tracked linked s evs)) k"
proof (induction evs arbitrary: k rule: rev_induct)
  case Nil
  then show ?case by (simp add: tracked_def new_tracker_def count_of_def)
next
  case (snoc e evs)
  then show ?case
    by (cases e) (auto simp: tracked_snoc on_submit_def on_start_def on_complete_def on_cancel_def Let_def add_nonneg_nonneg)
qed

text \<open>Capacity is bounded and exact. Whatever calls are made in whatever order, the reported capacity lies between zero and the slots of the service. When only submitted jobs start or are cancelled
  and only started jobs complete, it is the slots less the jobs that run on the service and those that wait for it or its group.\<close>

theorem capacity_bounded_and_exact:
  assumes "0 \<le> slots_total"
  shows "0 \<le> get_capacity (tracked linked s evs) sv slots_total rg \<and> get_capacity (tracked linked s evs) sv slots_total rg \<le> slots_total
     \<and> (orderly evs \<longrightarrow> get_capacity (tracked linked s evs) sv slots_total rg = max 0 (slots_total - jobs_running evs sv - jobs_waiting evs (pending_key sv rg)))"
proof (intro conjI impI)
  let ?ct = "tracked linked s evs"
  show "0 \<le> get_capacity ?ct sv slots_total rg" using assms by (simp add: get_capacity_def Let_def)
  show "get_capacity ?ct sv slots_total rg \<le> slots_total"
    using assms counters_nonneg [of linked s evs "pending_key sv rg"] counters_nonneg [of linked s evs sv] by (auto simp: get_capacity_def Let_def)
  assume "orderly evs"
  note E = counters_exact [OF this, of linked s]
  have "get_capacity ?ct sv slots_total rg = max 0 (slots_total - count_of (ct_active ?ct) sv - count_of (ct_pending ?ct) (pending_key sv rg))"
    using assms by (auto simp: get_capacity_def Let_def count_of_def)
  then show "get_capacity ?ct sv slots_total rg = max 0 (slots_total - jobs_running evs sv - jobs_waiting evs (pending_key sv rg))" using E by simp
qed

theorem capacity_bounded_and_exact_witness:
  "get_capacity (tracked True empty_redis [Submit ''a'' (Some ''g''), Submit ''a'' (Some ''g''), Start ''a'' (Some ''g'')]) ''a'' 4 (Some ''g'') \<le> 4"
  using capacity_bounded_and_exact [of 4 True empty_redis "[Submit ''a'' (Some ''g''), Submit ''a'' (Some ''g''), Start ''a'' (Some ''g'')]" "''a''" "Some ''g''"] by simp

end
