(* ===== verification/Bundle_Data.thy ===== *)
theory Bundle_Data
  imports Recovery
begin

text \<open>
  The durable bundle data of \<open>scripts/bundle_lifecycle.py\<close>: the record of a bundle, the leases, the
  outcomes of an attempt to start a transition, and the normalisation of resource identities and of
  group transitions. Both stores and the controller work on these types.
\<close>

section \<open>Data\<close>

record BundleLifecycleRecord =
  bl_bundle_name :: string
  bl_desired_state :: DesiredState
  bl_recovery :: RecoveryState
  bl_generation_fence :: int
  bl_transition_owner :: "string option"
  bl_transition_expires_at :: time
  bl_last_reason :: string
  bl_last_error :: "string option"
  bl_updated_at :: time

definition fresh_record :: "string \<Rightarrow> time \<Rightarrow> BundleLifecycleRecord" where
  "fresh_record bundle_name now = \<lparr>bl_bundle_name = bundle_name, bl_desired_state = Desired_IDLE,
     bl_recovery = initial_recovery, bl_generation_fence = 0, bl_transition_owner = None,
     bl_transition_expires_at = 0, bl_last_reason = [], bl_last_error = None,
     bl_updated_at = now\<rparr>"

abbreviation bl_transition_id :: "BundleLifecycleRecord \<Rightarrow> int" where
  "bl_transition_id r \<equiv> rs_transition_id (bl_recovery r)"

record BundleTransitionLease =
  tl_bundle_name :: string
  tl_owner :: string
  tl_generation_fence :: int
  tl_transition_id :: int
  tl_expires_at :: time

record TransitionAttempt =
  ta_acquired :: bool
  ta_lease :: "BundleTransitionLease option"
  ta_reason :: string
  ta_record :: "BundleLifecycleRecord option"

text \<open>\<open>BundleTransitionGroupLease\<close> is the tuple of its member leases.\<close>

type_synonym group_lease = "BundleTransitionLease list"

record TransitionGroupAttempt =
  tga_acquired :: bool
  tga_lease :: "group_lease option"
  tga_reason :: string

record ResourceLease =
  rl_resource_ids :: "string list"
  rl_owner :: string
  rl_fence :: int
  rl_expires_at :: time

text \<open>\<open>now + max(0.1, float(ttl_seconds))\<close>.\<close>

definition lease_expiry :: "time \<Rightarrow> time \<Rightarrow> time" where
  "lease_expiry now ttl_seconds = now + max (1/10) ttl_seconds"

section \<open>Normalisation of the arguments\<close>

text \<open>\<open>None\<close> is the \<open>ValueError\<close> for a blank identity.\<close>

definition canonical_resource_ids :: "string list \<Rightarrow> string list option" where
  "canonical_resource_ids resources =
     (if \<exists>r \<in> set resources. blank r then None
      else Some (sort_uniq (map strip resources)))"

text \<open>A later entry of the same bundle wins; blank names are dropped; the result is sorted by name.\<close>

definition normalize_group_transitions ::
  "(string \<times> DesiredState) list \<Rightarrow> (string \<times> DesiredState) list" where
  "normalize_group_transitions transitions =
     (let named = filter (\<lambda>(n, d). n \<noteq> []) (map (\<lambda>(n, d). (strip n, d)) transitions)
      in map (\<lambda>n. (n, the (map_of (rev named) n))) (sort_uniq (map fst named)))"

end
