(* ===== verification/Bundle_Controller.thy ===== *)
theory Bundle_Controller
  imports Bundle_Data
begin

text \<open>
  The lifecycle controller of \<open>scripts/bundle_lifecycle.py\<close>: it runs an operation under a transition
  lease, renews the lease while the operation runs, and publishes the outcome. The controller is
  a client of a store (\<open>BundleLifecycleStore\<close>), so its definitions take the store operations as
  arguments, and the contract they rely on is the locale \<open>transition_store\<close>. What happens during
  the operation is explicit: each tick of the keep-alive task comes with the effect other actors had
  on the store before it, the time of the renewal, and whether the renewal call raised.
\<close>

section \<open>Keep-alive\<close>

text \<open>The sleep between two renewals: \<open>max(0.05, min(ttl / 3, 5))\<close>.\<close>

definition keepalive_interval :: "time \<Rightarrow> time" where
  "keepalive_interval ttl_seconds = max (1/20) (min (ttl_seconds / 3) 5)"

type_synonym 's renewal = "'s \<Rightarrow> time \<Rightarrow> bool \<times> 's"

text \<open>One pass of the loop body. The resource renewal is tried even when the transition renewal was
  refused; its \<open>None\<close> is a \<open>ValueError\<close>, which counts as a lost renewal.\<close>

definition renew_leases ::
  "'s renewal option \<Rightarrow> ('s \<Rightarrow> time \<Rightarrow> (bool \<times> 's) option) option \<Rightarrow> 's renewal" where
  "renew_leases transition resource s now =
     (let (renewed, s1) = (case transition of None \<Rightarrow> (True, s) | Some f \<Rightarrow> f s now)
      in case resource of None \<Rightarrow> (renewed, s1)
         | Some g \<Rightarrow> (case g s1 now of None \<Rightarrow> (False, s1)
                     | Some (ok, s2) \<Rightarrow> (ok \<and> renewed, s2)))"

type_synonym 's tick = "('s \<Rightarrow> 's) \<times> time \<times> bool"

text \<open>The loop: it ends at the first refused or failed renewal (\<open>lost\<close>), or when the operation is over.\<close>

fun lease_keepalive :: "'s renewal \<Rightarrow> 's \<Rightarrow> 's tick list \<Rightarrow> bool \<times> 's" where
  "lease_keepalive renew s [] = (False, s)"
| "lease_keepalive renew s ((env, now, raised) # ticks) =
     (if raised then (True, fold (\<lambda>(e, _, _). e) ticks (env s))
      else let (renewed, s') = renew (env s) now
           in if renewed then lease_keepalive renew s' ticks
              else (True, fold (\<lambda>(e, _, _). e) ticks s'))"

section \<open>Running an operation under a lease\<close>

datatype op_outcome = Returned pyval | Cancelled | Raised string

datatype run_result =
    Refused string
  | Ran pyval string
  | Reraised_Cancelled
  | Reraised string

text \<open>
  What \<open>run_transition\<close> and \<open>run_group_transition\<close> do once the operation is over: \<open>lost\<close> is the
  event the keep-alive task sets, \<open>finish\<close> the finish operation of the store.
\<close>

definition publish_outcome ::
  "('s \<Rightarrow> 'l \<Rightarrow> bool \<Rightarrow> time \<Rightarrow> string \<Rightarrow> string option \<Rightarrow> bool \<times> 's)
   \<Rightarrow> string \<Rightarrow> string \<Rightarrow> string \<Rightarrow> bool \<Rightarrow> 's \<Rightarrow> 'l \<Rightarrow> op_outcome \<Rightarrow> time \<Rightarrow> run_result \<times> 's" where
  "publish_outcome finish msg_cancelled msg_false reason lost s lease outcome t_end =
     (case outcome of
        Cancelled \<Rightarrow> (Reraised_Cancelled, snd (finish s lease False t_end reason (Some msg_cancelled)))
      | Raised e \<Rightarrow> (Reraised e, snd (finish s lease False t_end reason (Some e)))
      | Returned v \<Rightarrow>
          if lost
          then (Ran v ''stale_transition'',
                snd (finish s lease False t_end reason (Some ''bundle lease renewal lost'')))
          else let success = truthy v;
                   (finished, s') = finish s lease success t_end reason
                      (if success then None else Some msg_false)
               in (Ran v (if \<not> finished then ''stale_transition''
                          else if success then ''completed'' else ''failed''), s'))"

text \<open>
  The body they share: \<open>attempt\<close> is the granted lease, or the reason of the refusal, with the store
  after the attempt.
\<close>

definition run_fenced ::
  "(string + 'l) \<times> 's \<Rightarrow> ('l \<Rightarrow> 's renewal)
   \<Rightarrow> ('s \<Rightarrow> 'l \<Rightarrow> bool \<Rightarrow> time \<Rightarrow> string \<Rightarrow> string option \<Rightarrow> bool \<times> 's)
   \<Rightarrow> string \<Rightarrow> string \<Rightarrow> string \<Rightarrow> 's tick list \<Rightarrow> ('s \<Rightarrow> 's) \<Rightarrow> op_outcome \<Rightarrow> time
   \<Rightarrow> run_result \<times> 's" where
  "run_fenced attempt renew finish msg_cancelled msg_false reason ticks env outcome t_end =
     (case attempt of
        (Inl why, s) \<Rightarrow> (Refused (if why \<noteq> [] then why else ''transition_in_progress''), s)
      | (Inr lease, s1) \<Rightarrow>
          let (lost, s2) = lease_keepalive (renew lease) s1 ticks
          in publish_outcome finish msg_cancelled msg_false reason lost (env s2) lease outcome t_end)"

definition transition_attempt :: "TransitionAttempt \<times> 's \<Rightarrow> (string + BundleTransitionLease) \<times> 's" where
  "transition_attempt r =
     (case ta_lease (fst r) of
        Some lease \<Rightarrow> (if ta_acquired (fst r) then Inr lease else Inl (ta_reason (fst r)), snd r)
      | None \<Rightarrow> (Inl (ta_reason (fst r)), snd r))"

definition group_attempt :: "TransitionGroupAttempt \<times> 's \<Rightarrow> (string + group_lease) \<times> 's" where
  "group_attempt r =
     (case tga_lease (fst r) of
        Some leases \<Rightarrow> (if tga_acquired (fst r) then Inr leases else Inl (tga_reason (fst r)), snd r)
      | None \<Rightarrow> (Inl (tga_reason (fst r)), snd r))"

type_synonym 's begin_op =
  "'s \<Rightarrow> string \<Rightarrow> DesiredState \<Rightarrow> string \<Rightarrow> time \<Rightarrow> time \<Rightarrow> string \<Rightarrow> TransitionAttempt \<times> 's"
type_synonym 's begin_group_op =
  "'s \<Rightarrow> (string \<times> DesiredState) list \<Rightarrow> string \<Rightarrow> time \<Rightarrow> time \<Rightarrow> string \<Rightarrow> TransitionGroupAttempt \<times> 's"
type_synonym ('s, 'l) renew_op = "'s \<Rightarrow> 'l \<Rightarrow> time \<Rightarrow> time \<Rightarrow> bool \<times> 's"
type_synonym ('s, 'l) finish_op =
  "'s \<Rightarrow> 'l \<Rightarrow> bool \<Rightarrow> time \<Rightarrow> string \<Rightarrow> string option \<Rightarrow> bool \<times> 's"

text \<open>\<open>resource\<close> renews the resource lease passed to the runner, if any.\<close>

definition run_transition ::
  "'s begin_op \<Rightarrow> ('s, BundleTransitionLease) renew_op \<Rightarrow> ('s, BundleTransitionLease) finish_op
   \<Rightarrow> ('s \<Rightarrow> time \<Rightarrow> (bool \<times> 's) option) option \<Rightarrow> 's \<Rightarrow> string \<Rightarrow> DesiredState \<Rightarrow> string \<Rightarrow> time \<Rightarrow> time
   \<Rightarrow> string \<Rightarrow> 's tick list \<Rightarrow> ('s \<Rightarrow> 's) \<Rightarrow> op_outcome \<Rightarrow> time \<Rightarrow> run_result \<times> 's" where
  "run_transition begin_op renew_op finish_op resource s bundle_name desired_state owner now ttl reason
     ticks env outcome t_end =
     run_fenced (transition_attempt (begin_op s bundle_name desired_state owner now ttl reason))
       (\<lambda>lease. renew_leases (Some (\<lambda>s' t. renew_op s' lease t ttl)) resource) finish_op
       ''bundle operation cancelled'' ''bundle operation returned false''
       reason ticks env outcome t_end"

definition run_group_transition ::
  "'s begin_group_op \<Rightarrow> ('s, group_lease) renew_op \<Rightarrow> ('s, group_lease) finish_op
   \<Rightarrow> ('s \<Rightarrow> time \<Rightarrow> (bool \<times> 's) option) option \<Rightarrow> 's \<Rightarrow> (string \<times> DesiredState) list \<Rightarrow> string
   \<Rightarrow> time \<Rightarrow> time \<Rightarrow> string \<Rightarrow> 's tick list \<Rightarrow> ('s \<Rightarrow> 's) \<Rightarrow> op_outcome \<Rightarrow> time \<Rightarrow> run_result \<times> 's" where
  "run_group_transition begin_op renew_op finish_op resource s transitions owner now ttl reason
     ticks env outcome t_end =
     run_fenced (group_attempt (begin_op s transitions owner now ttl reason))
       (\<lambda>lease. renew_leases (Some (\<lambda>s' t. renew_op s' lease t ttl)) resource) finish_op
       ''bundle transition group cancelled'' ''bundle transition group returned false''
       reason ticks env outcome t_end"

section \<open>The contract of a store\<close>

locale transition_store =
  fixes begin_op :: "'s begin_op"
    and renew_op :: "('s, BundleTransitionLease) renew_op"
    and finish_op :: "('s, BundleTransitionLease) finish_op"
    and current :: "'s \<Rightarrow> BundleTransitionLease \<Rightarrow> time \<Rightarrow> bool"
    and busy :: "'s \<Rightarrow> string \<Rightarrow> time \<Rightarrow> bool"
    and phase_of :: "'s \<Rightarrow> string \<Rightarrow> RecoveryPhase"
  assumes begin_refused: "busy s n now \<Longrightarrow>
      snd (begin_op s n d ow now ttl r) = s \<and> ta_lease (fst (begin_op s n d ow now ttl r)) = None"
    and begin_granted: "\<not> busy s n now \<Longrightarrow> ow \<noteq> [] \<Longrightarrow> 0 < ttl \<Longrightarrow>
      \<exists>l. ta_lease (fst (begin_op s n d ow now ttl r)) = Some l
        \<and> ta_acquired (fst (begin_op s n d ow now ttl r))
        \<and> tl_bundle_name l = n \<and> tl_owner l = ow \<and> current (snd (begin_op s n d ow now ttl r)) l now"
    and renew_stale: "\<not> current s l now \<Longrightarrow> renew_op s l now ttl = (False, s)"
    and renew_live: "current s l now \<Longrightarrow> fst (renew_op s l now ttl)
      \<and> (\<forall>t. t < lease_expiry now ttl \<longrightarrow> current (snd (renew_op s l now ttl)) l t)"
    and finish_stale: "\<not> current s l now \<Longrightarrow> finish_op s l ok now r e = (False, s)"
    and finish_live: "current s l now \<Longrightarrow> fst (finish_op s l ok now r e)
      \<and> (\<forall>t. \<not> busy (snd (finish_op s l ok now r e)) (tl_bundle_name l) t)
      \<and> phase_of (snd (finish_op s l ok now r e)) (tl_bundle_name l) = (if ok then READY else CRASHED)"
    and current_busy: "current s l t \<Longrightarrow> tl_owner l \<noteq> [] \<Longrightarrow> busy s (tl_bundle_name l) t"
begin

lemma finish_releases:
  assumes "tl_owner l \<noteq> []"
  shows "\<not> current (snd (finish_op s l ok now r e)) l now"
proof (cases "current s l now")
  case True
  then show ?thesis using finish_live [OF True, of ok r e] current_busy assms by blast
next
  case False
  then show ?thesis by (simp add: finish_stale)
qed

lemma finish_iff: "fst (finish_op s l ok now r e) \<longleftrightarrow> current s l now"
  using finish_live finish_stale by (metis fst_conv)

text \<open>A renewed lease survives as long as renewals come before it runs out and other actors respect it.\<close>

lemma keepalive_holds:
  assumes "\<forall>t. t < until \<longrightarrow> current s l t"
    and "\<forall>(env, t, raised) \<in> set ticks. \<not> raised \<and> (\<forall>s t'. current s l t' \<longrightarrow> current (env s) l t')"
    and "successively (\<lambda>(_, a, _) (_, b, _). b < lease_expiry a ttl) ticks"
    and "ticks \<noteq> [] \<longrightarrow> fst (snd (hd ticks)) < until"
  shows "\<not> fst (lease_keepalive (\<lambda>s t. renew_op s l t ttl) s ticks)
    \<and> (\<forall>t. t < (if ticks = [] then until else lease_expiry (fst (snd (last ticks))) ttl)
         \<longrightarrow> current (snd (lease_keepalive (\<lambda>s t. renew_op s l t ttl) s ticks)) l t)"
  using assms
proof (induction ticks arbitrary: s until)
  case Nil
  then show ?case by simp
next
  case (Cons tk ticks)
  obtain env t raised where tk: "tk = (env, t, raised)" by (cases tk)
  let ?s' = "snd (renew_op (env s) l t ttl)"
  have "current (env s) l t" using Cons.prems tk by simp
  note live = renew_live [OF this, of ttl]
  have step: "lease_keepalive (\<lambda>s t. renew_op s l t ttl) s (tk # ticks) =
      lease_keepalive (\<lambda>s t. renew_op s l t ttl) ?s' ticks"
    using Cons.prems(2) live by (simp add: tk split_beta)
  have "ticks \<noteq> [] \<longrightarrow> fst (snd (hd ticks)) < lease_expiry t ttl"
    using Cons.prems(3) by (auto simp: tk successively_Cons split_beta)
  then show ?case
    using Cons.IH [of "lease_expiry t ttl" ?s'] Cons.prems live
    by (simp add: step) (auto simp: tk successively_Cons)
qed

text \<open>The runner on a store that keeps the contract.\<close>

lemma run_busy:
  assumes "busy s n now"
  shows "\<exists>why. run_transition begin_op renew_op finish_op res s n d ow now ttl r ticks env out t_end
    = (Refused why, s)"
  using begin_refused [OF assms, of d ow ttl r]
  by (auto simp: run_transition_def run_fenced_def transition_attempt_def)

lemma run_granted:
  assumes "\<not> busy s n now" and "ow \<noteq> []" and "0 < ttl"
  shows "\<exists>l lost s3. ta_lease (fst (begin_op s n d ow now ttl r)) = Some l
    \<and> tl_bundle_name l = n \<and> tl_owner l = ow
    \<and> run_transition begin_op renew_op finish_op res s n d ow now ttl r ticks env out t_end =
      publish_outcome finish_op ''bundle operation cancelled'' ''bundle operation returned false''
        r lost s3 l out t_end"
proof -
  from begin_granted [OF assms, of d r] obtain l where
    l: "ta_lease (fst (begin_op s n d ow now ttl r)) = Some l"
       "ta_acquired (fst (begin_op s n d ow now ttl r))" "tl_bundle_name l = n" "tl_owner l = ow"
    by blast
  let ?k = "lease_keepalive (renew_leases (Some (\<lambda>s' t. renew_op s' l t ttl)) res)
      (snd (begin_op s n d ow now ttl r)) ticks"
  have "run_transition begin_op renew_op finish_op res s n d ow now ttl r ticks env out t_end =
      publish_outcome finish_op ''bundle operation cancelled'' ''bundle operation returned false''
        r (fst ?k) (env (snd ?k)) l out t_end"
    using l by (simp add: run_transition_def run_fenced_def transition_attempt_def split_beta)
  then show ?thesis using l(1,3,4) by blast
qed

lemma publish_releases:
  assumes "publish_outcome finish_op mc mf r lost s l out t_end = (res', s')" and "tl_owner l \<noteq> []"
  shows "\<not> current s' l t_end"
proof -
  have "\<exists>ok e. s' = snd (finish_op s l ok t_end r e)"
    using assms(1) by (auto simp: publish_outcome_def Let_def split_beta
        split: op_outcome.splits if_splits)
  then show ?thesis using finish_releases [OF assms(2)] by auto
qed

lemma publish_verdict:
  assumes "publish_outcome finish_op mc mf r lost s l out t_end = (Ran v verdict, s')"
    and "verdict = ''completed'' \<or> verdict = ''failed''"
  shows "truthy v = (verdict = ''completed'')
    \<and> phase_of s' (tl_bundle_name l) = (if verdict = ''completed'' then READY else CRASHED)
    \<and> (\<forall>t. \<not> busy s' (tl_bundle_name l) t)"
proof -
  let ?f = "finish_op s l (truthy v) t_end r (if truthy v then None else Some mf)"
  have *: "s' = snd ?f" "fst ?f" "truthy v = (verdict = ''completed'')"
    using assms by (auto simp: publish_outcome_def Let_def split_beta
        split: op_outcome.splits if_splits)
  then have "current s l t_end" by (simp add: finish_iff)
  from finish_live [OF this] show ?thesis using * by (auto split: if_splits)
qed

lemma run_sound:
  assumes "ow \<noteq> []" and "0 < ttl"
    and "run_transition begin_op renew_op finish_op res s n d ow now ttl r ticks env out t_end = (res', s')"
  shows "(busy s n now \<longrightarrow> s' = s \<and> (\<exists>why. res' = Refused why))
    \<and> (\<not> busy s n now \<longrightarrow> (\<forall>why. res' \<noteq> Refused why))
    \<and> (\<forall>l. ta_lease (fst (begin_op s n d ow now ttl r)) = Some l \<longrightarrow> \<not> current s' l t_end)
    \<and> (\<forall>v. res' = Ran v ''completed'' \<longrightarrow> truthy v \<and> phase_of s' n = READY \<and> (\<forall>t. \<not> busy s' n t))
    \<and> (\<forall>v. res' = Ran v ''failed'' \<longrightarrow> \<not> truthy v \<and> phase_of s' n = CRASHED \<and> (\<forall>t. \<not> busy s' n t))"
proof (cases "busy s n now")
  case True
  then show ?thesis
    using run_busy [OF True, of res d ow ttl r ticks env out t_end] begin_refused [OF True] assms(3)
    by auto
next
  case False
  from run_granted [OF False assms(1,2), where res = res and d = d and r = r and ticks = ticks
      and env = env and out = out and t_end = t_end] assms(3) obtain l lost s3
    where l: "ta_lease (fst (begin_op s n d ow now ttl r)) = Some l" "tl_bundle_name l = n"
        "tl_owner l = ow"
      and eq: "publish_outcome finish_op ''bundle operation cancelled''
        ''bundle operation returned false'' r lost s3 l out t_end = (res', s')"
    by auto
  have "\<forall>why. res' \<noteq> Refused why"
    using eq by (auto simp: publish_outcome_def Let_def split_beta split: op_outcome.splits if_splits)
  then show ?thesis
    using False l assms(1) publish_releases [OF eq] publish_verdict [of _ _ r lost s3 l out t_end] eq
    by auto
qed

end

end
