(* ===== verification/Bundle_Store.thy ===== *)
theory Bundle_Store
  imports Bundle_Controller
begin

text \<open>
  The in-memory store of \<open>scripts/bundle_lifecycle.py\<close>: transition leases on one bundle, on a group of bundles, and leases on sets of named resources. Every method
  body runs under one \<open>asyncio.Lock\<close>, so each is a function from the store to its result and the
  next store; interleavings of callers are sequences of these functions (\<open>mem_step\<close>).
  Time is passed in as the source passes \<open>now\<close>.
\<close>

section \<open>State\<close>

record mem_store =
  ms_records :: "string \<rightharpoonup> BundleLifecycleRecord"
  ms_resource_leases :: "string \<rightharpoonup> string \<times> int \<times> time"
  ms_resource_fence :: int

definition empty_store :: mem_store where
  "empty_store = \<lparr>ms_records = Map.empty, ms_resource_leases = Map.empty, ms_resource_fence = 0\<rparr>"

section \<open>Resource leases\<close>

text \<open>\<open>acquire_resources\<close>: the outer \<open>None\<close> is the \<open>ValueError\<close> of the normalisation.\<close>

definition acquire_resources ::
  "mem_store \<Rightarrow> string list \<Rightarrow> string \<Rightarrow> time \<Rightarrow> time \<Rightarrow> (ResourceLease option \<times> mem_store) option"
where [lifecycle_defs]:
  "acquire_resources s resource_ids owner now ttl_seconds =
     (case canonical_resource_ids resource_ids of
        None \<Rightarrow> None
      | Some normalized \<Rightarrow>
          if normalized = [] then Some (None, s)
          else if list_ex (\<lambda>r. case ms_resource_leases s r of None \<Rightarrow> False
                             | Some (_, _, e) \<Rightarrow> e > now) normalized
          then Some (None, s)
          else let fence = ms_resource_fence s + 1; expires_at = lease_expiry now ttl_seconds
               in Some (Some \<lparr>rl_resource_ids = normalized, rl_owner = owner, rl_fence = fence,
                              rl_expires_at = expires_at\<rparr>,
                        s\<lparr>ms_resource_fence := fence,
                          ms_resource_leases :=
                            upd_all (ms_resource_leases s) normalized (owner, fence, expires_at)\<rparr>))"

definition resource_held :: "mem_store \<Rightarrow> string \<Rightarrow> int \<Rightarrow> string \<Rightarrow> bool" where
  "resource_held s owner fence r =
     (case ms_resource_leases s r of None \<Rightarrow> False
      | Some (o', f, _) \<Rightarrow> o' = owner \<and> f = fence)"

definition renew_resources ::
  "mem_store \<Rightarrow> ResourceLease \<Rightarrow> time \<Rightarrow> time \<Rightarrow> (bool \<times> mem_store) option" where [lifecycle_defs]:
  "renew_resources s lease now ttl_seconds =
     (case canonical_resource_ids (rl_resource_ids lease) of
        None \<Rightarrow> None
      | Some normalized \<Rightarrow>
          if list_ex (\<lambda>r. case ms_resource_leases s r of None \<Rightarrow> True
                        | Some (o', f, e) \<Rightarrow> (o', f) \<noteq> (rl_owner lease, rl_fence lease) \<or> e \<le> now)
               normalized
          then Some (False, s)
          else Some (True, s\<lparr>ms_resource_leases :=
                 upd_all (ms_resource_leases s) normalized
                   (rl_owner lease, rl_fence lease, lease_expiry now ttl_seconds)\<rparr>))"

definition release_resources ::
  "mem_store \<Rightarrow> ResourceLease \<Rightarrow> (bool \<times> mem_store) option" where [lifecycle_defs]:
  "release_resources s lease =
     (case canonical_resource_ids (rl_resource_ids lease) of
        None \<Rightarrow> None
      | Some normalized \<Rightarrow>
          if list_ex (\<lambda>r. \<not> resource_held s (rl_owner lease) (rl_fence lease) r) normalized
          then Some (False, s)
          else Some (True, s\<lparr>ms_resource_leases := del_all (ms_resource_leases s) normalized\<rparr>))"

section \<open>Transition leases\<close>

definition current_record :: "mem_store \<Rightarrow> string \<Rightarrow> time \<Rightarrow> BundleLifecycleRecord" where
  "current_record s bundle_name now =
     (case ms_records s bundle_name of Some r \<Rightarrow> r | None \<Rightarrow> fresh_record bundle_name now)"

abbreviation get_record :: "mem_store \<Rightarrow> string \<Rightarrow> time \<Rightarrow> BundleLifecycleRecord" where
  "get_record \<equiv> current_record"

text \<open>\<open>current.transition_owner and current.transition_expires_at > now\<close>.\<close>

definition in_transition :: "BundleLifecycleRecord \<Rightarrow> time \<Rightarrow> bool" where
  "in_transition r now \<longleftrightarrow> opt_true (bl_transition_owner r) \<and> bl_transition_expires_at r > now"

definition begin_record ::
  "BundleLifecycleRecord \<Rightarrow> DesiredState \<Rightarrow> string \<Rightarrow> time \<Rightarrow> time \<Rightarrow> string \<Rightarrow> BundleLifecycleRecord"
where
  "begin_record current desired_state owner now ttl_seconds reason =
     current\<lparr>bl_desired_state := desired_state,
       bl_recovery := (bl_recovery current)\<lparr>rs_phase := RECOVERING,
         rs_transition_id := bl_transition_id current + 1, rs_last_restart_at := Some now\<rparr>,
       bl_generation_fence := bl_generation_fence current + 1,
       bl_transition_owner := Some owner,
       bl_transition_expires_at := now + ttl_seconds,
       bl_last_reason := reason, bl_last_error := None, bl_updated_at := now\<rparr>"

definition lease_of :: "string \<Rightarrow> string \<Rightarrow> BundleLifecycleRecord \<Rightarrow> BundleTransitionLease" where
  "lease_of bundle_name owner r = \<lparr>tl_bundle_name = bundle_name, tl_owner = owner,
     tl_generation_fence = bl_generation_fence r, tl_transition_id = bl_transition_id r,
     tl_expires_at = bl_transition_expires_at r\<rparr>"

definition begin_transition ::
  "mem_store \<Rightarrow> string \<Rightarrow> DesiredState \<Rightarrow> string \<Rightarrow> time \<Rightarrow> time \<Rightarrow> string
   \<Rightarrow> TransitionAttempt \<times> mem_store" where [lifecycle_defs]:
  "begin_transition s bundle_name desired_state owner now ttl_seconds reason =
     (let current = current_record s bundle_name now
      in if in_transition current now
         then (\<lparr>ta_acquired = False, ta_lease = None, ta_reason = ''transition_in_progress'',
                ta_record = Some current\<rparr>, s)
         else let r = begin_record current desired_state owner now ttl_seconds reason
              in (\<lparr>ta_acquired = True, ta_lease = Some (lease_of bundle_name owner r),
                   ta_reason = ''acquired'', ta_record = Some r\<rparr>,
                  s\<lparr>ms_records := (ms_records s)(bundle_name \<mapsto> r)\<rparr>))"

text \<open>The second loop of \<open>begin_group\<close>; \<open>currents\<close> was read before it.\<close>

fun begin_members ::
  "(string \<rightharpoonup> BundleLifecycleRecord) \<Rightarrow> (string \<Rightarrow> BundleLifecycleRecord)
   \<Rightarrow> (string \<times> DesiredState) list \<Rightarrow> string \<Rightarrow> time \<Rightarrow> time \<Rightarrow> string
   \<Rightarrow> group_lease \<times> (string \<rightharpoonup> BundleLifecycleRecord)" where
  "begin_members recs currents [] owner now ttl_seconds reason = ([], recs)"
| "begin_members recs currents ((n, d) # ts) owner now ttl_seconds reason =
     (let r = begin_record (currents n) d owner now ttl_seconds reason;
          (leases, recs') = begin_members (recs(n \<mapsto> r)) currents ts owner now ttl_seconds reason
      in (lease_of n owner r # leases, recs'))"

definition begin_group ::
  "mem_store \<Rightarrow> (string \<times> DesiredState) list \<Rightarrow> string \<Rightarrow> time \<Rightarrow> time \<Rightarrow> string
   \<Rightarrow> TransitionGroupAttempt \<times> mem_store" where [lifecycle_defs]:
  "begin_group s transitions owner now ttl_seconds reason =
     (let normalized = normalize_group_transitions transitions
      in if normalized = []
         then (\<lparr>tga_acquired = False, tga_lease = None, tga_reason = ''empty_group''\<rparr>, s)
         else let currents = (\<lambda>n. current_record s n now)
              in if list_ex (\<lambda>(n, d). in_transition (currents n) now) normalized
                 then (\<lparr>tga_acquired = False, tga_lease = None,
                        tga_reason = ''transition_in_progress''\<rparr>, s)
                 else let (leases, recs) = begin_members (ms_records s) currents normalized
                                             owner now ttl_seconds reason
                      in (\<lparr>tga_acquired = True, tga_lease = Some leases,
                           tga_reason = ''acquired''\<rparr>, s\<lparr>ms_records := recs\<rparr>))"

text \<open>The fence test shared by the renewals and the finishes.\<close>

definition lease_current :: "mem_store \<Rightarrow> BundleTransitionLease \<Rightarrow> time \<Rightarrow> bool" where
  "lease_current s lease now =
     (case ms_records s (tl_bundle_name lease) of
        None \<Rightarrow> False
      | Some r \<Rightarrow> bl_transition_owner r = Some (tl_owner lease)
          \<and> bl_generation_fence r = tl_generation_fence lease
          \<and> bl_transition_id r = tl_transition_id lease
          \<and> \<not> bl_transition_expires_at r \<le> now)"

definition renew_record :: "BundleLifecycleRecord \<Rightarrow> time \<Rightarrow> time \<Rightarrow> BundleLifecycleRecord" where
  "renew_record current now ttl_seconds =
     current\<lparr>bl_transition_expires_at := lease_expiry now ttl_seconds, bl_updated_at := now\<rparr>"

definition renew_transition ::
  "mem_store \<Rightarrow> BundleTransitionLease \<Rightarrow> time \<Rightarrow> time \<Rightarrow> bool \<times> mem_store" where [lifecycle_defs]:
  "renew_transition s lease now ttl_seconds =
     (if \<not> lease_current s lease now then (False, s)
      else (True, s\<lparr>ms_records := (ms_records s)(tl_bundle_name lease \<mapsto>
             renew_record (the (ms_records s (tl_bundle_name lease))) now ttl_seconds)\<rparr>))"

text \<open>The write loops of the group operations store every record under its own \<open>bundle_name\<close>.\<close>

fun write_records ::
  "(string \<rightharpoonup> BundleLifecycleRecord) \<Rightarrow> (BundleLifecycleRecord \<Rightarrow> BundleLifecycleRecord)
   \<Rightarrow> BundleLifecycleRecord list \<Rightarrow> (string \<rightharpoonup> BundleLifecycleRecord)" where
  "write_records recs f [] = recs"
| "write_records recs f (r # rs) = write_records (recs(bl_bundle_name r \<mapsto> f r)) f rs"

definition group_records :: "mem_store \<Rightarrow> group_lease \<Rightarrow> BundleLifecycleRecord list" where
  "group_records s leases = map (\<lambda>l. the (ms_records s (tl_bundle_name l))) leases"

definition renew_group ::
  "mem_store \<Rightarrow> group_lease \<Rightarrow> time \<Rightarrow> time \<Rightarrow> bool \<times> mem_store" where [lifecycle_defs]:
  "renew_group s leases now ttl_seconds =
     (if leases = [] then (False, s)
      else if list_ex (\<lambda>l. \<not> lease_current s l now) leases then (False, s)
      else (True, s\<lparr>ms_records := write_records (ms_records s)
              (\<lambda>r. renew_record r now ttl_seconds) (group_records s leases)\<rparr>))"

definition record_recovery ::
  "mem_store \<Rightarrow> string \<Rightarrow> DesiredState \<Rightarrow> RecoveryState \<Rightarrow> time \<Rightarrow> string \<Rightarrow> bool \<times> mem_store"
where [lifecycle_defs]:
  "record_recovery s bundle_name desired_state recovery now reason =
     (let current = current_record s bundle_name now
      in if in_transition current now then (False, s)
         else (True, s\<lparr>ms_records := (ms_records s)(bundle_name \<mapsto>
                 current\<lparr>bl_desired_state := desired_state, bl_recovery := recovery,
                   bl_last_reason := reason, bl_updated_at := now\<rparr>)\<rparr>))"

definition finish_record ::
  "BundleLifecycleRecord \<Rightarrow> bool \<Rightarrow> time \<Rightarrow> string \<Rightarrow> string option \<Rightarrow> string \<Rightarrow> BundleLifecycleRecord"
where
  "finish_record current success now reason err default_error =
     current\<lparr>bl_recovery := (bl_recovery current)\<lparr>
         rs_phase := (if success then READY else CRASHED),
         rs_last_healthy_at := (if success then Some now
                                else rs_last_healthy_at (bl_recovery current))\<rparr>,
       bl_transition_owner := None, bl_transition_expires_at := 0,
       bl_last_reason := (if reason \<noteq> [] then reason else bl_last_reason current),
       bl_last_error := (if success then None
                         else Some (if opt_true err then the err else default_error)),
       bl_updated_at := now\<rparr>"

definition finish_transition ::
  "mem_store \<Rightarrow> BundleTransitionLease \<Rightarrow> bool \<Rightarrow> time \<Rightarrow> string \<Rightarrow> string option \<Rightarrow> bool \<times> mem_store"
where [lifecycle_defs]:
  "finish_transition s lease success now reason err =
     (if \<not> lease_current s lease now then (False, s)
      else (True, s\<lparr>ms_records := (ms_records s)(tl_bundle_name lease \<mapsto>
             finish_record (the (ms_records s (tl_bundle_name lease))) success now reason err
               ''bundle transition failed'')\<rparr>))"

definition finish_group ::
  "mem_store \<Rightarrow> group_lease \<Rightarrow> bool \<Rightarrow> time \<Rightarrow> string \<Rightarrow> string option \<Rightarrow> bool \<times> mem_store"
where [lifecycle_defs]:
  "finish_group s leases success now reason err =
     (if list_ex (\<lambda>l. \<not> lease_current s l now) leases then (False, s)
      else (True, s\<lparr>ms_records := write_records (ms_records s)
              (\<lambda>r. finish_record r success now reason err ''bundle transition group failed'')
              (group_records s leases)\<rparr>))"

section \<open>Steps of the store\<close>

inductive mem_step :: "mem_store \<Rightarrow> mem_store \<Rightarrow> bool" where
  step_begin: "mem_step s (snd (begin_transition s n d ow now ttl r))"
| step_begin_group: "mem_step s (snd (begin_group s ts ow now ttl r))"
| step_renew: "mem_step s (snd (renew_transition s l now ttl))"
| step_renew_group: "mem_step s (snd (renew_group s ls now ttl))"
| step_record: "mem_step s (snd (record_recovery s n d rec now r))"
| step_finish: "mem_step s (snd (finish_transition s l ok now r e))"
| step_finish_group: "mem_step s (snd (finish_group s ls ok now r e))"
| step_acquire: "acquire_resources s ids ow now ttl = Some (x, s') \<Longrightarrow> mem_step s s'"
| step_renew_res: "renew_resources s rl now ttl = Some (b, s') \<Longrightarrow> mem_step s s'"
| step_release: "release_resources s rl = Some (b, s') \<Longrightarrow> mem_step s s'"


section \<open>Well-formed stores\<close>

definition wf_store :: "mem_store \<Rightarrow> bool" where
  "wf_store s \<longleftrightarrow> (\<forall>n r. ms_records s n = Some r \<longrightarrow> bl_bundle_name r = n)"

definition fence_of :: "mem_store \<Rightarrow> string \<Rightarrow> int" where
  "fence_of s n = (case ms_records s n of None \<Rightarrow> 0 | Some r \<Rightarrow> bl_generation_fence r)"

lemma wf_empty_store [simp]: "wf_store empty_store"
  by (simp add: wf_store_def empty_store_def)

lemma wf_storeD: "wf_store s \<Longrightarrow> ms_records s n = Some r \<Longrightarrow> bl_bundle_name r = n"
  by (simp add: wf_store_def)

lemma record_names [simp]:
  "bl_bundle_name (begin_record r d ow now ttl x) = bl_bundle_name r"
  "bl_bundle_name (renew_record r now ttl) = bl_bundle_name r"
  "bl_bundle_name (finish_record r ok now x e df) = bl_bundle_name r"
  "bl_bundle_name (fresh_record n now) = n"
  by (simp_all add: begin_record_def renew_record_def finish_record_def fresh_record_def)

lemma record_fences [simp]:
  "bl_generation_fence (begin_record r d ow now ttl x) = bl_generation_fence r + 1"
  "bl_generation_fence (renew_record r now ttl) = bl_generation_fence r"
  "bl_generation_fence (finish_record r ok now x e df) = bl_generation_fence r"
  "bl_generation_fence (fresh_record n now) = 0"
  by (simp_all add: begin_record_def renew_record_def finish_record_def fresh_record_def)

lemma begin_record_sel [simp]:
  "bl_transition_owner (begin_record r d ow now ttl x) = Some ow"
  "bl_transition_expires_at (begin_record r d ow now ttl x) = now + ttl"
  "bl_transition_id (begin_record r d ow now ttl x) = bl_transition_id r + 1"
  by (simp_all add: begin_record_def)

lemma renew_record_sel [simp]:
  "bl_transition_owner (renew_record r now ttl) = bl_transition_owner r"
  "bl_transition_expires_at (renew_record r now ttl) = lease_expiry now ttl"
  "bl_recovery (renew_record r now ttl) = bl_recovery r"
  by (simp_all add: renew_record_def)

lemma finish_record_sel [simp]:
  "bl_transition_owner (finish_record r ok now x e df) = None"
  "bl_transition_expires_at (finish_record r ok now x e df) = 0"
  "rs_phase (bl_recovery (finish_record r ok now x e df)) = (if ok then READY else CRASHED)"
  by (simp_all add: finish_record_def)

lemma lease_of_sel [simp]:
  "tl_bundle_name (lease_of n ow r) = n"
  "tl_owner (lease_of n ow r) = ow"
  "tl_generation_fence (lease_of n ow r) = bl_generation_fence r"
  "tl_transition_id (lease_of n ow r) = bl_transition_id r"
  by (simp_all add: lease_of_def)

lemma lease_expiry_gt [simp]: "now < lease_expiry now ttl"
  by (simp add: lease_expiry_def)

lemma current_record_name [simp]: "wf_store s \<Longrightarrow> bl_bundle_name (current_record s n now) = n"
  by (auto simp: current_record_def dest: wf_storeD split: option.split)

lemma current_record_fence [simp]: "bl_generation_fence (current_record s n now) = fence_of s n"
  by (auto simp: current_record_def fence_of_def split: option.split)

lemma lease_current_iff:
  "lease_current s l now \<longleftrightarrow> (\<exists>r. ms_records s (tl_bundle_name l) = Some r
     \<and> bl_transition_owner r = Some (tl_owner l) \<and> bl_generation_fence r = tl_generation_fence l
     \<and> bl_transition_id r = tl_transition_id l \<and> now < bl_transition_expires_at r)"
  by (auto simp: lease_current_def not_le split: option.splits)

text \<open>The two write loops, characterised pointwise.\<close>

lemma begin_members_leases:
  "fst (begin_members recs cur ts ow now ttl x) =
     map (\<lambda>(n, d). lease_of n ow (begin_record (cur n) d ow now ttl x)) ts"
  by (induction ts arbitrary: recs) (auto simp: Let_def split_beta)

lemma begin_members_apply:
  "distinct (map fst ts) \<Longrightarrow> snd (begin_members recs cur ts ow now ttl x) m =
    (case map_of ts m of None \<Rightarrow> recs m | Some d \<Rightarrow> Some (begin_record (cur m) d ow now ttl x))"
proof (induction ts arbitrary: recs)
  case Nil
  then show ?case by simp
next
  case (Cons t ts)
  obtain n d where t: "t = (n, d)" by (cases t)
  have "map_of ts n = None" using Cons.prems t by (simp add: map_of_eq_None_iff)
  moreover have "snd (begin_members recs cur (t # ts) ow now ttl x) m =
      snd (begin_members (recs(n \<mapsto> begin_record (cur n) d ow now ttl x)) cur ts ow now ttl x) m"
    by (simp add: t Let_def split: prod.split)
  ultimately show ?case
    using Cons by (auto simp: t split: option.split)
qed

lemma write_records_other:
  "\<forall>r \<in> set rs. bl_bundle_name r \<noteq> m \<Longrightarrow> write_records recs f rs m = recs m"
  by (induction rs arbitrary: recs) auto

lemma write_records_mem:
  "\<forall>r \<in> set rs. bl_bundle_name r = m \<longrightarrow> r = r0 \<Longrightarrow>
   (\<exists>r \<in> set rs. bl_bundle_name r = m) \<or> recs m = Some (f r0) \<Longrightarrow>
   write_records recs f rs m = Some (f r0)"
proof (induction rs arbitrary: recs)
  case Nil
  then show ?case by simp
next
  case (Cons a rs)
  have "(\<exists>r \<in> set rs. bl_bundle_name r = m) \<or> (recs(bl_bundle_name a \<mapsto> f a)) m = Some (f r0)"
    using Cons.prems by (cases "bl_bundle_name a = m") auto
  then show ?case
    using Cons.IH [of "recs(bl_bundle_name a \<mapsto> f a)"] Cons.prems(1) by (simp del: fun_upd_apply)
qed

lemma group_records_mem:
  assumes "\<not> list_ex (\<lambda>l. \<not> lease_current s l now) ls" and "r \<in> set (group_records s ls)"
  obtains l where "l \<in> set ls" and "ms_records s (tl_bundle_name l) = Some r"
  using assms by (fastforce simp: group_records_def list_ex_iff lease_current_iff)

lemma write_group_apply:
  assumes wf: "wf_store s" and cur: "\<not> list_ex (\<lambda>l. \<not> lease_current s l now) ls"
  shows "write_records (ms_records s) f (group_records s ls) m =
    (if \<exists>l \<in> set ls. tl_bundle_name l = m then map_option f (ms_records s m) else ms_records s m)"
proof -
  let ?rs = "group_records s ls"
  have key: "ms_records s (bl_bundle_name r) = Some r" if "r \<in> set ?rs" for r
    using group_records_mem [OF cur that] wf by (metis wf_storeD)
  have names: "bl_bundle_name ` set ?rs = tl_bundle_name ` set ls"
    using cur wf by (force simp: group_records_def list_ex_iff lease_current_iff image_image
        dest: wf_storeD)
  then have nm: "(\<exists>l \<in> set ls. tl_bundle_name l = m) \<longleftrightarrow> (\<exists>r \<in> set ?rs. bl_bundle_name r = m)"
    by (metis (no_types, opaque_lifting) imageE image_eqI)
  show ?thesis
  proof (cases "\<exists>r \<in> set ?rs. bl_bundle_name r = m")
    case True
    then obtain r0 where r0: "r0 \<in> set ?rs" "bl_bundle_name r0 = m" by blast
    then have m: "ms_records s m = Some r0" using key by blast
    then have "\<forall>r \<in> set ?rs. bl_bundle_name r = m \<longrightarrow> r = r0"
      using key by force
    then show ?thesis
      using True m nm write_records_mem [of ?rs m r0] by simp
  next
    case False
    then show ?thesis using nm by (simp add: write_records_other)
  qed
qed

lemma normalize_group_distinct [simp]:
  "distinct (map fst (normalize_group_transitions ts))"
  by (simp add: normalize_group_transitions_def Let_def comp_def)


section \<open>Fences only grow\<close>

text \<open>What one operation may do to the record of one bundle.\<close>

definition record_kept :: "mem_store \<Rightarrow> mem_store \<Rightarrow> string \<Rightarrow> bool" where
  "record_kept s s' m \<longleftrightarrow> fence_of s m \<le> fence_of s' m
     \<and> (\<forall>r. ms_records s' m = Some r \<longrightarrow> bl_bundle_name r = m)"

lemma record_kept_refl [simp]: "wf_store s \<Longrightarrow> record_kept s s m"
  by (simp add: record_kept_def wf_storeD)

lemma record_kept_records:
  "wf_store s \<Longrightarrow> ms_records s' = ms_records s \<Longrightarrow> record_kept s s' m"
  by (simp add: record_kept_def wf_storeD fence_of_def)

lemma record_kept_upd:
  "wf_store s \<Longrightarrow> bl_bundle_name r = n \<Longrightarrow> fence_of s n \<le> bl_generation_fence r \<Longrightarrow>
   record_kept s (s\<lparr>ms_records := (ms_records s)(n \<mapsto> r)\<rparr>) m"
  by (auto simp: record_kept_def fence_of_def dest: wf_storeD)

lemma kept_begin: "wf_store s \<Longrightarrow> record_kept s (snd (begin_transition s n d ow now ttl x)) m"
  by (auto simp: begin_transition_def Let_def intro: record_kept_upd)

lemma kept_begin_group: "wf_store s \<Longrightarrow> record_kept s (snd (begin_group s ts ow now ttl x)) m"
  by (auto simp: begin_group_def Let_def split_beta record_kept_def begin_members_apply fence_of_def
      current_record_fence [unfolded fence_of_def] dest: wf_storeD split: option.splits)

lemma kept_renew: "wf_store s \<Longrightarrow> record_kept s (snd (renew_transition s l now ttl)) m"
  by (auto simp: renew_transition_def lease_current_iff fence_of_def dest: wf_storeD
      intro!: record_kept_upd)

lemma kept_finish: "wf_store s \<Longrightarrow> record_kept s (snd (finish_transition s l ok now x e)) m"
  by (auto simp: finish_transition_def lease_current_iff fence_of_def dest: wf_storeD
      intro!: record_kept_upd)

lemma kept_record: "wf_store s \<Longrightarrow> record_kept s (snd (record_recovery s n d rec now x)) m"
  by (auto simp: record_recovery_def Let_def intro!: record_kept_upd)

lemma kept_renew_group: "wf_store s \<Longrightarrow> record_kept s (snd (renew_group s ls now ttl)) m"
  by (auto simp: renew_group_def write_group_apply record_kept_def fence_of_def
      dest: wf_storeD split: option.splits)

lemma kept_finish_group: "wf_store s \<Longrightarrow> record_kept s (snd (finish_group s ls ok now x e)) m"
  by (auto simp: finish_group_def write_group_apply record_kept_def fence_of_def
      dest: wf_storeD split: option.splits)

lemma resource_ops_records:
  "acquire_resources s ids ow now ttl = Some (x, s') \<Longrightarrow> ms_records s' = ms_records s"
  "renew_resources s rl now ttl = Some (b, s') \<Longrightarrow> ms_records s' = ms_records s"
  "release_resources s rl = Some (b, s') \<Longrightarrow> ms_records s' = ms_records s"
  by (auto simp: acquire_resources_def renew_resources_def release_resources_def Let_def
      split: option.splits if_splits)

lemmas kept_ops = kept_begin kept_begin_group kept_renew kept_renew_group kept_record kept_finish
  kept_finish_group

lemma mem_step_kept: "mem_step s s' \<Longrightarrow> wf_store s \<Longrightarrow> record_kept s s' m"
  by (induction rule: mem_step.induct) (auto intro: kept_ops record_kept_records
      dest: resource_ops_records)

lemma mem_step_wf: "mem_step s s' \<Longrightarrow> wf_store s \<Longrightarrow> wf_store s'"
  using mem_step_kept [of s s'] by (auto simp: record_kept_def wf_store_def)

lemma mem_steps_kept:
  "mem_step\<^sup>*\<^sup>* s s' \<Longrightarrow> wf_store s \<Longrightarrow> wf_store s' \<and> fence_of s m \<le> fence_of s' m"
proof (induction rule: rtranclp_induct)
  case base
  then show ?case by simp
next
  case (step t u)
  then show ?case
    using mem_step_kept [of t u m] mem_step_wf [of t u] by (auto simp: record_kept_def)
qed

section \<open>Grants\<close>

text \<open>The operations that hand out a transition lease.\<close>

inductive grants :: "mem_store \<Rightarrow> BundleTransitionLease \<Rightarrow> mem_store \<Rightarrow> bool" where
  grant_single: "begin_transition s n d ow now ttl r = (att, s') \<Longrightarrow> ta_lease att = Some l
    \<Longrightarrow> grants s l s'"
| grant_group: "begin_group s ts ow now ttl r = (att, s') \<Longrightarrow> tga_lease att = Some ls
    \<Longrightarrow> l \<in> set ls \<Longrightarrow> grants s l s'"

lemma grants_step: "grants s l s' \<Longrightarrow> mem_step s s'"
proof (induction rule: grants.induct)
  case (grant_single s n d ow now ttl r att s' l)
  then show ?case using mem_step.step_begin [of s n d ow now ttl r] by simp
next
  case (grant_group s ts ow now ttl r att s' ls l)
  then show ?case using mem_step.step_begin_group [of s ts ow now ttl r] by simp
qed

lemma grants_fence:
  assumes "grants s l s'"
  shows "tl_generation_fence l = fence_of s (tl_bundle_name l) + 1"
    and "fence_of s' (tl_bundle_name l) = tl_generation_fence l"
  using assms
  by (auto elim!: grants.cases simp: begin_transition_def begin_group_def Let_def split_beta
      fence_of_def [of "s\<lparr>ms_records := _\<rparr>"] begin_members_apply begin_members_leases
      split: if_splits option.splits dest: map_of_eq_None_iff [THEN iffD1] weak_map_of_SomeI)

lemma lease_current_fence:
  "lease_current s l now \<Longrightarrow> fence_of s (tl_bundle_name l) = tl_generation_fence l"
  by (auto simp: lease_current_iff fence_of_def)

lemma superseded_never_current:
  assumes "wf_store s" and "tl_generation_fence l < fence_of s (tl_bundle_name l)"
    and "mem_step\<^sup>*\<^sup>* s t"
  shows "\<not> lease_current t l now"
  using mem_steps_kept [OF assms(3,1), of "tl_bundle_name l"] assms(2) lease_current_fence [of t l now]
  by linarith


section \<open>Resource fences\<close>

definition res_fence_ge :: "mem_store \<Rightarrow> string \<Rightarrow> int \<Rightarrow> bool" where
  "res_fence_ge s r k \<longleftrightarrow> k \<le> ms_resource_fence s
     \<and> (\<forall>ow f e. ms_resource_leases s r = Some (ow, f, e) \<longrightarrow> k \<le> f)"

lemma res_fence_acquire:
  "acquire_resources s ids ow now ttl = Some (x, s') \<Longrightarrow> res_fence_ge s r k \<Longrightarrow> res_fence_ge s' r k"
  by (auto simp: acquire_resources_def Let_def res_fence_ge_def split: option.splits if_splits)

lemma res_fence_renew:
  "renew_resources s rl now ttl = Some (b, s') \<Longrightarrow> res_fence_ge s r k \<Longrightarrow> res_fence_ge s' r k"
  by (fastforce simp: renew_resources_def res_fence_ge_def list_ex_iff
      split: option.splits if_splits)

lemma res_fence_release:
  "release_resources s rl = Some (b, s') \<Longrightarrow> res_fence_ge s r k \<Longrightarrow> res_fence_ge s' r k"
  by (auto simp: release_resources_def res_fence_ge_def split: option.splits if_splits)

lemma transition_ops_resources [simp]:
  "ms_resource_leases (snd (begin_transition s n d ow now ttl x)) = ms_resource_leases s"
  "ms_resource_fence (snd (begin_transition s n d ow now ttl x)) = ms_resource_fence s"
  "ms_resource_leases (snd (begin_group s ts ow now ttl x)) = ms_resource_leases s"
  "ms_resource_fence (snd (begin_group s ts ow now ttl x)) = ms_resource_fence s"
  "ms_resource_leases (snd (renew_transition s l now ttl)) = ms_resource_leases s"
  "ms_resource_fence (snd (renew_transition s l now ttl)) = ms_resource_fence s"
  "ms_resource_leases (snd (renew_group s ls now ttl)) = ms_resource_leases s"
  "ms_resource_fence (snd (renew_group s ls now ttl)) = ms_resource_fence s"
  "ms_resource_leases (snd (record_recovery s n d rec now x)) = ms_resource_leases s"
  "ms_resource_fence (snd (record_recovery s n d rec now x)) = ms_resource_fence s"
  "ms_resource_leases (snd (finish_transition s l ok now x e)) = ms_resource_leases s"
  "ms_resource_fence (snd (finish_transition s l ok now x e)) = ms_resource_fence s"
  "ms_resource_leases (snd (finish_group s ls ok now x e)) = ms_resource_leases s"
  "ms_resource_fence (snd (finish_group s ls ok now x e)) = ms_resource_fence s"
  by (simp_all add: lifecycle_defs Let_def split_beta)

lemma mem_step_res_fence: "mem_step s s' \<Longrightarrow> res_fence_ge s r k \<Longrightarrow> res_fence_ge s' r k"
proof (induction rule: mem_step.induct)
  case (step_acquire s ids ow now ttl x s')
  then show ?case by (rule res_fence_acquire)
next
  case (step_renew_res s rl now ttl b s')
  then show ?case by (rule res_fence_renew)
next
  case (step_release s rl b s')
  then show ?case by (rule res_fence_release)
qed (simp_all add: res_fence_ge_def)

lemma mem_steps_res_fence: "mem_step\<^sup>*\<^sup>* s s' \<Longrightarrow> res_fence_ge s r k \<Longrightarrow> res_fence_ge s' r k"
  by (induction rule: rtranclp_induct) (auto intro: mem_step_res_fence)

text \<open>No recorded fence exceeds the counter.\<close>

definition wf_resources :: "mem_store \<Rightarrow> bool" where
  "wf_resources s \<longleftrightarrow> (\<forall>r ow f e. ms_resource_leases s r = Some (ow, f, e) \<longrightarrow> f \<le> ms_resource_fence s)"

lemma wf_resources_step: "mem_step s s' \<Longrightarrow> wf_resources s \<Longrightarrow> wf_resources s'"
proof (induction rule: mem_step.induct)
  case (step_acquire s ids ow now ttl x s')
  then show ?case
    by (fastforce simp: acquire_resources_def Let_def wf_resources_def
        split: option.splits if_splits)
next
  case (step_renew_res s rl now ttl b s')
  then show ?case
    by (fastforce simp: renew_resources_def wf_resources_def list_ex_iff
        split: option.splits if_splits)
next
  case (step_release s rl b s')
  then show ?case
    by (fastforce simp: release_resources_def wf_resources_def split: option.splits if_splits)
qed (simp_all add: wf_resources_def)

lemma wf_resources_steps: "mem_step\<^sup>*\<^sup>* s s' \<Longrightarrow> wf_resources s \<Longrightarrow> wf_resources s'"
  by (induction rule: rtranclp_induct) (auto intro: wf_resources_step)

lemma acquire_lease:
  assumes "acquire_resources s ids ow now ttl = Some (Some l, s')"
  shows "rl_fence l = ms_resource_fence s + 1" and "ms_resource_fence s' = rl_fence l"
    and "canonical_resource_ids (rl_resource_ids l) = Some (rl_resource_ids l)"
    and "r \<in> set (rl_resource_ids l) \<Longrightarrow>
         ms_resource_leases s' r = Some (ow, rl_fence l, lease_expiry now ttl)"
proof -
  from assms obtain norm where norm: "canonical_resource_ids ids = Some norm"
    and l: "l = \<lparr>rl_resource_ids = norm, rl_owner = ow, rl_fence = ms_resource_fence s + 1,
              rl_expires_at = lease_expiry now ttl\<rparr>"
    and s': "s' = s\<lparr>ms_resource_fence := ms_resource_fence s + 1, ms_resource_leases :=
      upd_all (ms_resource_leases s) norm (ow, ms_resource_fence s + 1, lease_expiry now ttl)\<rparr>"
    by (auto simp: acquire_resources_def Let_def split: option.splits if_splits)
  have nb: "\<not> blank r" "strip r = r" if "r \<in> set norm" for r
  proof -
    from norm that obtain x where x: "x \<in> set ids" "r = strip x" "\<not> blank x"
      by (auto simp: canonical_resource_ids_def split: if_splits)
    then show "\<not> blank r" using strip_not_blank [of x] by (simp add: blank_def)
    show "strip r = r" using x(2) by (simp add: strip_idem)
  qed
  have "sorted norm" "distinct norm"
    using norm by (auto simp: canonical_resource_ids_def split: if_splits)
  moreover have "map strip norm = norm" using nb(2) by (simp add: map_idI)
  ultimately have "sort_uniq (map strip norm) = norm" by (simp add: sort_uniq_fix)
  then show "canonical_resource_ids (rl_resource_ids l) = Some (rl_resource_ids l)"
    using nb by (auto simp: canonical_resource_ids_def l)
  show "rl_fence l = ms_resource_fence s + 1" "ms_resource_fence s' = rl_fence l"
    "r \<in> set (rl_resource_ids l) \<Longrightarrow>
      ms_resource_leases s' r = Some (ow, rl_fence l, lease_expiry now ttl)"
    by (simp_all add: l s')
qed

section \<open>Properties\<close>

text \<open>C1. Fencing of transitions. A lease is granted on a bundle, alone or as a member of a group;
  later, after any interleaving of store operations, another lease is granted on the same bundle.
  Then after any further operations the first lease is dead: it can neither be renewed nor
  finished, at any time, and such an attempt leaves the store as it is.\<close>

theorem superseded_lease_is_fenced:
  assumes "wf_store s" and "grants s old s1" and "mem_step\<^sup>*\<^sup>* s1 s2"
    and "grants s2 new s3" and "tl_bundle_name new = tl_bundle_name old" and "mem_step\<^sup>*\<^sup>* s3 s4"
  shows "tl_generation_fence old < tl_generation_fence new
    \<and> renew_transition s4 old now ttl = (False, s4)
    \<and> finish_transition s4 old ok now reason err = (False, s4)
    \<and> (old \<in> set ls \<longrightarrow> renew_group s4 ls now ttl = (False, s4)
                     \<and> finish_group s4 ls ok now reason err = (False, s4))"
proof -
  let ?n = "tl_bundle_name old"
  have wf1: "wf_store s1" using assms(1,2) by (metis grants_step mem_step_wf)
  then have wf2: "wf_store s2" and le: "tl_generation_fence old \<le> fence_of s2 ?n"
    using mem_steps_kept [OF assms(3), of ?n] grants_fence(2) [OF assms(2)] by simp_all
  then have wf3: "wf_store s3" using assms(4) by (metis grants_step mem_step_wf)
  have less: "tl_generation_fence old < tl_generation_fence new" "fence_of s3 ?n = tl_generation_fence new"
    using le grants_fence [OF assms(4)] assms(5) by auto
  then have "\<not> lease_current s4 old now"
    by (intro superseded_never_current [OF wf3 _ assms(6)]) simp
  then show ?thesis
    using less by (auto simp: lifecycle_defs list_ex_iff)
qed

definition sample_begin :: "mem_store \<Rightarrow> string \<Rightarrow> time \<Rightarrow> TransitionAttempt \<times> mem_store" where
  "sample_begin s ow now = begin_transition s ''llm'' Desired_RUNNING ow now 180 ''load''"

theorem superseded_lease_is_fenced_witness:
  "\<exists>old s1 s3. grants empty_store old s1
     \<and> fst (finish_transition s1 old True 100 [] None)
     \<and> \<not> fst (finish_transition s3 old True 250 [] None)"
proof -
  let ?s1 = "snd (sample_begin empty_store ''a'' 0)"
  let ?s3 = "snd (sample_begin ?s1 ''a'' 200)"
  let ?old = "the (ta_lease (fst (sample_begin empty_store ''a'' 0)))"
  let ?new = "the (ta_lease (fst (sample_begin ?s1 ''a'' 200)))"
  have g1: "grants empty_store ?old ?s1"
    by (rule grants.grant_single [where n = "''llm''" and d = Desired_RUNNING and ow = "''a''"
          and now = 0 and ttl = 180 and r = "''load''"])
      (auto simp: sample_begin_def begin_transition_def Let_def in_transition_def
        current_record_def empty_store_def fresh_record_def)
  have g2: "grants ?s1 ?new ?s3"
    by (rule grants.grant_single [where n = "''llm''" and d = Desired_RUNNING and ow = "''a''"
          and now = 200 and ttl = 180 and r = "''load''"])
      (auto simp: sample_begin_def begin_transition_def Let_def in_transition_def
        current_record_def empty_store_def fresh_record_def begin_record_def)
  have nm: "tl_bundle_name ?new = tl_bundle_name ?old"
    by (simp add: sample_begin_def begin_transition_def Let_def in_transition_def
        current_record_def empty_store_def fresh_record_def begin_record_def lease_of_def)
  have "finish_transition ?s3 ?old True 250 [] None = (False, ?s3)"
    using superseded_lease_is_fenced [OF wf_empty_store g1 rtranclp.rtrancl_refl g2 nm
        rtranclp.rtrancl_refl] by blast
  moreover have "fst (finish_transition ?s1 ?old True 100 [] None)"
    by (simp add: finish_transition_def lease_current_def sample_begin_def begin_transition_def
        Let_def in_transition_def current_record_def empty_store_def fresh_record_def
        begin_record_def lease_of_def)
  ultimately show ?thesis using g1 by (metis fst_conv)
qed


text \<open>C3. A group transition is all or nothing. It is granted exactly when the normalised group is not
  empty and no member has a live transition. Refused, the store is unchanged. Granted with a
  positive time to live, there is one lease per member, each current and each for the owner, and
  bundles outside the group keep their records.\<close>

theorem begin_group_all_or_nothing:
  fixes s ts ow now ttl reason
  defines "members \<equiv> normalize_group_transitions ts"
    and "result \<equiv> begin_group s ts ow now ttl reason"
  assumes "0 < ttl"
  shows "if members \<noteq> [] \<and> (\<forall>n \<in> fst ` set members. \<not> in_transition (current_record s n now) now)
    then \<exists>leases. tga_lease (fst result) = Some leases
       \<and> map tl_bundle_name leases = map fst members
       \<and> (\<forall>l \<in> set leases. tl_owner l = ow \<and> lease_current (snd result) l now)
       \<and> (\<forall>m. m \<notin> fst ` set members \<longrightarrow> ms_records (snd result) m = ms_records s m)
    else tga_lease (fst result) = None \<and> \<not> tga_acquired (fst result) \<and> snd result = s"
proof (cases "members \<noteq> [] \<and> (\<forall>n \<in> fst ` set members. \<not> in_transition (current_record s n now) now)")
  case True
  let ?cur = "\<lambda>n. current_record s n now"
  let ?bm = "begin_members (ms_records s) ?cur members ow now ttl reason"
  have res: "result = (\<lparr>tga_acquired = True, tga_lease = Some (fst ?bm), tga_reason = ''acquired''\<rparr>,
      s\<lparr>ms_records := snd ?bm\<rparr>)"
    using True unfolding result_def begin_group_def Let_def members_def [symmetric]
    by (auto simp: split_beta list_ex_iff)
  have dist: "distinct (map fst members)" by (simp add: members_def)
  have leases: "fst ?bm = map (\<lambda>(n, d). lease_of n ow (begin_record (?cur n) d ow now ttl reason)) members"
    by (rule begin_members_leases)
  have names: "map tl_bundle_name (fst ?bm) = map fst members"
    by (auto simp: leases)
  have cur: "tl_owner l = ow \<and> lease_current (snd result) l now" if "l \<in> set (fst ?bm)" for l
  proof -
    from that obtain n d where nd: "(n, d) \<in> set members"
      and l: "l = lease_of n ow (begin_record (?cur n) d ow now ttl reason)"
      by (auto simp: leases)
    then have "map_of members n = Some d" using dist by simp
    then have "ms_records (snd result) n = Some (begin_record (?cur n) d ow now ttl reason)"
      by (simp add: res begin_members_apply [OF dist])
    then show ?thesis using \<open>0 < ttl\<close> by (simp add: l lease_current_iff)
  qed
  have frame: "ms_records (snd result) m = ms_records s m" if "m \<notin> fst ` set members" for m
  proof -
    have "map_of members m = None" using that by (simp add: map_of_eq_None_iff)
    then show ?thesis by (simp add: res begin_members_apply [OF dist])
  qed
  have "tga_lease (fst result) = Some (fst ?bm)" by (simp add: res)
  then show ?thesis using True names cur frame by auto
next
  case False
  then have "result = (\<lparr>tga_acquired = False, tga_lease = None, tga_reason = ''empty_group''\<rparr>, s)
    \<or> result = (\<lparr>tga_acquired = False, tga_lease = None,
                 tga_reason = ''transition_in_progress''\<rparr>, s)"
    unfolding result_def begin_group_def Let_def members_def [symmetric]
    by (auto simp: split_beta list_ex_iff)
  then show ?thesis using False by auto
qed

theorem begin_group_all_or_nothing_witness:
  "tga_lease (fst (begin_group (snd (sample_begin empty_store ''a'' 0))
     [('' llm'', Desired_RUNNING), (''tts'', Desired_IDLE)] ''b'' 10 60 ''swap'')) = None"
proof -
  let ?s = "snd (sample_begin empty_store ''a'' 0)"
  have "normalize_group_transitions [('' llm'', Desired_RUNNING), (''tts'', Desired_IDLE)] =
      [(''llm'', Desired_RUNNING), (''tts'', Desired_IDLE)]"
    by code_simp
  moreover have "in_transition (current_record ?s ''llm'' 10) 10"
    by (simp add: sample_begin_def begin_transition_def Let_def in_transition_def
        current_record_def empty_store_def fresh_record_def begin_record_def)
  ultimately show ?thesis
    using begin_group_all_or_nothing [of 60 "[('' llm'', Desired_RUNNING), (''tts'', Desired_IDLE)]"
        ?s 10 "''b''" "''swap''"]
    by simp
qed

text \<open>C2. Resource leases exclude each other and are fenced. A lease over a set of resources is only
  granted when none of them is leased at that time; a set that shares a resource with a live lease
  is refused without effect. And once a later lease over an overlapping set was granted (the first
  one having expired), the first lease can neither be renewed nor released, after any operations.\<close>

theorem resource_leases_exclude:
  assumes "wf_resources s"
    and "acquire_resources s ids1 ow1 now1 ttl1 = Some (Some l1, s1)" and "mem_step\<^sup>*\<^sup>* s1 s2"
    and "acquire_resources s2 ids2 ow2 now2 ttl2 = Some (Some l2, s3)" and "mem_step\<^sup>*\<^sup>* s3 s4"
    and "r \<in> set (rl_resource_ids l1)" and "r \<in> set (rl_resource_ids l2)"
  shows "(\<forall>ow f e. ms_resource_leases s2 r = Some (ow, f, e) \<longrightarrow> e \<le> now2)
    \<and> rl_fence l1 < rl_fence l2
    \<and> renew_resources s4 l1 now ttl = Some (False, s4)
    \<and> release_resources s4 l1 = Some (False, s4)"
proof -
  note a1 = acquire_lease [OF assms(2)] and a2 = acquire_lease [OF assms(4)]
  have "res_fence_ge s1 r (rl_fence l1)"
    using a1(2) a1(4) [OF assms(6)] by (simp add: res_fence_ge_def)
  then have ge2: "rl_fence l1 \<le> ms_resource_fence s2"
    using mem_steps_res_fence [OF assms(3), of r "rl_fence l1"] by (simp add: res_fence_ge_def)
  then have less: "rl_fence l1 < rl_fence l2" using a2(1) by simp
  have "res_fence_ge s3 r (rl_fence l2)"
    using a2(2) a2(4) [OF assms(7)] by (simp add: res_fence_ge_def)
  then have r4: "res_fence_ge s4 r (rl_fence l2)"
    by (rule mem_steps_res_fence [OF assms(5)])
  then have lost: "ms_resource_leases s4 r \<noteq> Some (ow, rl_fence l1, e)" for ow e
    using less unfolding res_fence_ge_def by force
  have "renew_resources s4 l1 now ttl = Some (False, s4)"
    using lost by (auto simp: renew_resources_def a1(3) list_ex_iff split: option.splits
        intro!: bexI [OF _ assms(6)])
  moreover have "release_resources s4 l1 = Some (False, s4)"
    using lost by (auto simp: release_resources_def resource_held_def a1(3) list_ex_iff
        split: option.splits intro!: bexI [OF _ assms(6)])
  moreover have "\<forall>ow f e. ms_resource_leases s2 r = Some (ow, f, e) \<longrightarrow> e \<le> now2"
    using assms(4,7) by (fastforce simp: acquire_resources_def Let_def list_ex_iff
        split: option.splits if_splits)
  ultimately show ?thesis using less by blast
qed

definition sample_acquire ::
  "mem_store \<Rightarrow> string \<Rightarrow> time \<Rightarrow> (ResourceLease option \<times> mem_store) option" where
  "sample_acquire s ow now = acquire_resources s [''gpu:0'', '' cpu''] ow now 30"

lemma sample_ids: "canonical_resource_ids [''gpu:0'', '' cpu''] = Some [''cpu'', ''gpu:0'']"
  by code_simp

theorem resource_leases_exclude_witness:
  "\<exists>l1 l2 s1 s3. sample_acquire empty_store ''a'' 0 = Some (Some l1, s1)
     \<and> sample_acquire s1 ''b'' 10 = Some (None, s1)
     \<and> sample_acquire s1 ''b'' 31 = Some (Some l2, s3)
     \<and> renew_resources s3 l1 32 30 = Some (False, s3)"
proof -
  let ?l1 = "\<lparr>rl_resource_ids = [''cpu'', ''gpu:0''], rl_owner = ''a'', rl_fence = 1, rl_expires_at = 30\<rparr>"
  let ?l2 = "\<lparr>rl_resource_ids = [''cpu'', ''gpu:0''], rl_owner = ''b'', rl_fence = 2, rl_expires_at = 61\<rparr>"
  let ?s1 = "snd (the (sample_acquire empty_store ''a'' 0))"
  let ?s3 = "snd (the (sample_acquire ?s1 ''b'' 31))"
  note unf = sample_acquire_def acquire_resources_def sample_ids empty_store_def Let_def lease_expiry_def
  have 1: "sample_acquire empty_store ''a'' 0 = Some (Some ?l1, ?s1)"
    by (simp add: unf)
  have 2: "sample_acquire ?s1 ''b'' 10 = Some (None, ?s1)"
    by (simp add: unf)
  have 3: "sample_acquire ?s1 ''b'' 31 = Some (Some ?l2, ?s3)"
    by (simp add: unf)
  have "renew_resources ?s3 ?l1 32 30 = Some (False, ?s3)"
    using resource_leases_exclude [OF _ 1 [unfolded sample_acquire_def] rtranclp.rtrancl_refl
        3 [unfolded sample_acquire_def] rtranclp.rtrancl_refl, of "''cpu''"]
    by (simp add: wf_resources_def empty_store_def sample_acquire_def)
  then show ?thesis using 1 2 3 by blast
qed


section \<open>The store keeps the contract of the controller\<close>

definition mem_busy :: "mem_store \<Rightarrow> string \<Rightarrow> time \<Rightarrow> bool" where
  "mem_busy s n now = (\<exists>r. ms_records s n = Some r \<and> in_transition r now)"

definition mem_phase :: "mem_store \<Rightarrow> string \<Rightarrow> RecoveryPhase" where
  "mem_phase s n = (case ms_records s n of None \<Rightarrow> INTENTIONALLY_OFF
     | Some r \<Rightarrow> rs_phase (bl_recovery r))"

lemma mem_busy_current: "mem_busy s n now \<longleftrightarrow> in_transition (current_record s n now) now"
  by (auto simp: mem_busy_def current_record_def fresh_record_def in_transition_def split: option.split)

interpretation mem: transition_store begin_transition renew_transition finish_transition
  lease_current mem_busy mem_phase
proof (unfold_locales, goal_cases)
  case (1 s n now d ow ttl r)
  then show ?case by (simp add: begin_transition_def mem_busy_current)
next
  case (2 s n now ow ttl d r)
  then show ?case by (simp add: begin_transition_def mem_busy_current Let_def lease_current_iff)
next
  case (3 s l now ttl)
  then show ?case by (simp add: renew_transition_def)
next
  case (4 s l now ttl)
  then show ?case by (auto simp: renew_transition_def) (auto simp: lease_current_iff)
next
  case (5 s l now ok r e)
  then show ?case by (simp add: finish_transition_def)
next
  case (6 s l now ok r e)
  then show ?case
    by (auto simp: finish_transition_def mem_busy_def in_transition_def mem_phase_def)
next
  case (7 s l t)
  then show ?case by (auto simp: lease_current_iff mem_busy_def in_transition_def)
qed

text \<open>A transition run on the in-memory store, for any interleaved effects of other actors, any
  pattern of renewals and any outcome of the operation. A bundle with a live transition is refused
  and the store is untouched; otherwise the run is admitted. When the run is over its lease is no
  longer current. \<open>completed\<close> is reported only for a truthy result, with the bundle published ready;
  \<open>failed\<close> only for a falsy one, with the bundle published crashed; in both cases the bundle is
  free.\<close>

theorem run_transition_sound:
  assumes "ow \<noteq> []" and "0 < ttl"
    and "run_transition begin_transition renew_transition finish_transition res s n d ow now ttl r
      ticks env out t_end = (res', s')"
  shows "(mem_busy s n now \<longrightarrow> s' = s \<and> (\<exists>why. res' = Refused why))
    \<and> (\<not> mem_busy s n now \<longrightarrow> (\<forall>why. res' \<noteq> Refused why))
    \<and> (\<forall>l. ta_lease (fst (begin_transition s n d ow now ttl r)) = Some l \<longrightarrow> \<not> lease_current s' l t_end)
    \<and> (\<forall>v. res' = Ran v ''completed'' \<longrightarrow> truthy v \<and> mem_phase s' n = READY \<and> (\<forall>t. \<not> mem_busy s' n t))
    \<and> (\<forall>v. res' = Ran v ''failed'' \<longrightarrow> \<not> truthy v \<and> mem_phase s' n = CRASHED \<and> (\<forall>t. \<not> mem_busy s' n t))"
  using assms by (rule mem.run_sound)

theorem run_transition_sound_witness:
  "\<exists>s'. run_transition begin_transition renew_transition finish_transition None empty_store ''llm''
      Desired_RUNNING ''a'' 0 180 ''load'' [(id, 60, False), (id, 120, False)] id
      (Returned (PBool True)) 200 = (Ran (PBool True) ''completed'', s') \<and> mem_phase s' ''llm'' = READY"
proof -
  let ?run = "run_transition begin_transition renew_transition finish_transition None empty_store
      ''llm'' Desired_RUNNING ''a'' 0 180 ''load'' [(id, 60, False), (id, 120, False)] id
      (Returned (PBool True)) 200"
  have "fst ?run = Ran (PBool True) ''completed''"
    by (simp add: run_transition_def run_fenced_def publish_outcome_def transition_attempt_def
        renew_leases_def lifecycle_defs Let_def lease_current_def in_transition_def
        current_record_def empty_store_def fresh_record_def begin_record_def renew_record_def
        lease_of_def lease_expiry_def)
  then have "?run = (Ran (PBool True) ''completed'', snd ?run)" by (metis prod.collapse)
  then show ?thesis using run_transition_sound [of "''a''" 180 None empty_store "''llm''"] by auto
qed

text \<open>The keep-alive holds a lease through any run of the operation: when the renewals do not
  raise, each comes before the time the previous one bought runs out, and other actors leave
  the lease current, then no renewal is refused and the lease is still current up to the end of
  the last renewed period.\<close>

theorem keepalive_keeps_lease:
  assumes "\<forall>t. t < until \<longrightarrow> lease_current s l t"
    and "\<forall>(env, t, raised) \<in> set ticks.
      \<not> raised \<and> (\<forall>s t'. lease_current s l t' \<longrightarrow> lease_current (env s) l t')"
    and "successively (\<lambda>(_, a, _) (_, b, _). b < lease_expiry a ttl) ticks"
    and "ticks \<noteq> [] \<longrightarrow> fst (snd (hd ticks)) < until"
  shows "\<not> fst (lease_keepalive (\<lambda>s t. renew_transition s l t ttl) s ticks)
    \<and> (\<forall>t. t < (if ticks = [] then until else lease_expiry (fst (snd (last ticks))) ttl)
         \<longrightarrow> lease_current (snd (lease_keepalive (\<lambda>s t. renew_transition s l t ttl) s ticks)) l t)"
  using assms by (rule mem.keepalive_holds)

theorem keepalive_keeps_lease_witness:
  "\<not> fst (lease_keepalive
       (\<lambda>s t. renew_transition s (the (ta_lease (fst (sample_begin empty_store ''a'' 0)))) t 180)
       (snd (sample_begin empty_store ''a'' 0)) [(id, 60, False), (id, 230, False)])"
proof -
  let ?b = "sample_begin empty_store ''a'' 0"
  have "\<forall>t. t < 180 \<longrightarrow> lease_current (snd ?b) (the (ta_lease (fst ?b))) t"
    by (simp add: sample_begin_def begin_transition_def Let_def in_transition_def lease_current_def
        current_record_def empty_store_def fresh_record_def begin_record_def lease_of_def)
  then show ?thesis
    using keepalive_keeps_lease [of 180 "snd ?b" "the (ta_lease (fst ?b))"
        "[(id, 60, False), (id, 230, False)]" 180]
    by (simp add: lease_expiry_def)
qed

end
