(* ===== verification/Bundle_Redis.thy ===== *)
theory Bundle_Redis
  imports Bundle_Store
begin

text \<open>
  The Redis-backed bundle store of \<open>scripts/bundle_lifecycle.py\<close>: the hash fields a record is saved
  as, and the Lua scripts, which Redis runs atomically, together with the Python methods that call
  them. A hash field holds text; the model keeps what the text denotes (\<open>rval\<close>), since the source
  writes numbers with \<open>repr\<close>/\<open>str\<close> and reads them back with \<open>tonumber\<close>, \<open>float\<close> or \<open>int\<close>. The fields the
  scripts read as numbers are only ever written as numbers. The keys of bundles and of resources
  (SHA-256 digests under a separate prefix) are kept apart by a datatype. A key carries its
  expiry time, compared with the server clock \<open>rd_clock\<close>.
\<close>

section \<open>Records as hash fields\<close>

datatype rval = RStr string | RInt int | RNum real

type_synonym rhash = "string \<rightharpoonup> rval"

fun desired_value :: "DesiredState \<Rightarrow> string" where
  "desired_value Desired_STOPPED = ''stopped''"
| "desired_value Desired_RUNNING = ''running''"
| "desired_value Desired_IDLE = ''idle''"
| "desired_value Desired_PINNED = ''pinned''"

fun phase_value :: "RecoveryPhase \<Rightarrow> string" where
  "phase_value DISABLED = ''disabled''"
| "phase_value INTENTIONALLY_OFF = ''intentionally_off''"
| "phase_value READY = ''ready''"
| "phase_value CRASHED = ''crashed''"
| "phase_value RECOVERING = ''recovering''"
| "phase_value FAULTED = ''faulted''"
| "phase_value MAINTENANCE = ''maintenance''"
| "phase_value BLOCKED = ''blocked''"

definition all_desired :: "DesiredState list" where
  "all_desired = [Desired_STOPPED, Desired_RUNNING, Desired_IDLE, Desired_PINNED]"

definition all_phases :: "RecoveryPhase list" where
  "all_phases = [DISABLED, INTENTIONALLY_OFF, READY, CRASHED, RECOVERING, FAULTED, MAINTENANCE, BLOCKED]"

text \<open>\<open>DesiredState(text)\<close> and \<open>RecoveryPhase(text)\<close>; \<open>None\<close> is the \<open>ValueError\<close>.\<close>

definition parse_desired :: "string \<Rightarrow> DesiredState option" where
  "parse_desired t = find (\<lambda>d. desired_value d = t) all_desired"

definition parse_phase :: "string \<Rightarrow> RecoveryPhase option" where
  "parse_phase t = find (\<lambda>p. phase_value p = t) all_phases"

definition opt_num :: "real option \<Rightarrow> rval" where
  "opt_num x = (case x of None \<Rightarrow> RStr [] | Some v \<Rightarrow> RNum v)"

definition opt_str :: "string option \<Rightarrow> rval" where
  "opt_str x = (case x of None \<Rightarrow> RStr [] | Some v \<Rightarrow> RStr v)"

definition to_fields :: "BundleLifecycleRecord \<Rightarrow> rhash" where
  "to_fields r = map_of
     [(''schema_version'', RInt 1),
      (''bundle_name'', RStr (bl_bundle_name r)),
      (''desired_state'', RStr (desired_value (bl_desired_state r))),
      (''phase'', RStr (phase_value (rs_phase (bl_recovery r)))),
      (''transition_id'', RInt (bl_transition_id r)),
      (''restart_attempts'', RInt (rs_restart_attempts (bl_recovery r))),
      (''retry_window_started_at'', opt_num (rs_retry_window_started_at (bl_recovery r))),
      (''last_restart_at'', opt_num (rs_last_restart_at (bl_recovery r))),
      (''last_healthy_at'', opt_num (rs_last_healthy_at (bl_recovery r))),
      (''generation_fence'', RInt (bl_generation_fence r)),
      (''transition_owner'', opt_str (bl_transition_owner r)),
      (''transition_expires_at'', RNum (bl_transition_expires_at r)),
      (''last_reason'', RStr (bl_last_reason r)),
      (''last_error'', opt_str (bl_last_error r)),
      (''updated_at'', RNum (bl_updated_at r))]"

definition text_field :: "rhash \<Rightarrow> string \<Rightarrow> string" where
  "text_field h f = (case h f of Some (RStr t) \<Rightarrow> t | _ \<Rightarrow> [])"

text \<open>\<open>integer\<close>: text that \<open>int\<close> refuses, and the empty text, give the default.\<close>

definition int_field :: "rhash \<Rightarrow> string \<Rightarrow> int \<Rightarrow> int" where
  "int_field h f dflt = (case h f of Some (RInt i) \<Rightarrow> i | _ \<Rightarrow> dflt)"

definition num_field :: "rhash \<Rightarrow> string \<Rightarrow> real option" where
  "num_field h f = (case h f of Some (RNum x) \<Rightarrow> Some x | Some (RInt i) \<Rightarrow> Some (of_int i) | _ \<Rightarrow> None)"

definition num_or_0 :: "rhash \<Rightarrow> string \<Rightarrow> real" where
  "num_or_0 h f = (case num_field h f of Some x \<Rightarrow> x | None \<Rightarrow> 0)"

definition none_if_empty :: "string \<Rightarrow> string option" where
  "none_if_empty t = (if t = [] then None else Some t)"

definition from_fields :: "string \<Rightarrow> rhash \<Rightarrow> BundleLifecycleRecord" where
  "from_fields bundle_name h =
     \<lparr>bl_bundle_name = (case h ''bundle_name'' of None \<Rightarrow> bundle_name | Some _ \<Rightarrow> text_field h ''bundle_name''),
      bl_desired_state = (case parse_desired (text_field h ''desired_state'') of
         None \<Rightarrow> Desired_IDLE | Some d \<Rightarrow> d),
      bl_recovery = \<lparr>rs_phase = (case parse_phase (text_field h ''phase'') of
           None \<Rightarrow> INTENTIONALLY_OFF | Some p \<Rightarrow> p),
         rs_transition_id = int_field h ''transition_id'' 0,
         rs_restart_attempts = int_field h ''restart_attempts'' 0,
         rs_retry_window_started_at = num_field h ''retry_window_started_at'',
         rs_last_restart_at = num_field h ''last_restart_at'',
         rs_last_healthy_at = num_field h ''last_healthy_at''\<rparr>,
      bl_generation_fence = int_field h ''generation_fence'' 0,
      bl_transition_owner = none_if_empty (text_field h ''transition_owner''),
      bl_transition_expires_at = num_or_0 h ''transition_expires_at'',
      bl_last_reason = text_field h ''last_reason'',
      bl_last_error = none_if_empty (text_field h ''last_error''),
      bl_updated_at = num_or_0 h ''updated_at''\<rparr>"

section \<open>The database\<close>

datatype rkey = BundleKey string | ResourceKey string

record redis_db =
  rd_clock :: time
  rd_hashes :: "rkey \<rightharpoonup> rhash \<times> time"
  rd_resource_counter :: int

definition live_hash :: "redis_db \<Rightarrow> rkey \<Rightarrow> rhash" where
  "live_hash db k = (case rd_hashes db k of None \<Rightarrow> Map.empty
     | Some (h, expiry) \<Rightarrow> if expiry \<le> rd_clock db then Map.empty else h)"

text \<open>\<open>HSET\<close> of the given fields followed by \<open>EXPIRE\<close>.\<close>

definition hset_expire :: "redis_db \<Rightarrow> rkey \<Rightarrow> rhash \<Rightarrow> time \<Rightarrow> redis_db" where
  "hset_expire db k updates ttl =
     db\<lparr>rd_hashes := (rd_hashes db)(k \<mapsto> (live_hash db k ++ updates, rd_clock db + ttl))\<rparr>"

definition del_key :: "redis_db \<Rightarrow> rkey \<Rightarrow> redis_db" where
  "del_key db k = db\<lparr>rd_hashes := (rd_hashes db)(k := None)\<rparr>"

text \<open>Python's \<open>int(x)\<close> truncates; \<open>max(1, int(ttl_seconds) + 1)\<close>.\<close>

definition py_trunc :: "real \<Rightarrow> int" where
  "py_trunc x = (if 0 \<le> x then \<lfloor>x\<rfloor> else \<lceil>x\<rceil>)"

definition key_ttl :: "time \<Rightarrow> time" where
  "key_ttl ttl_seconds = of_int (max 1 (py_trunc ttl_seconds + 1))"

definition redis_get :: "redis_db \<Rightarrow> string \<Rightarrow> BundleLifecycleRecord" where
  "redis_get db bundle_name = from_fields bundle_name (live_hash db (BundleKey bundle_name))"

section \<open>Transition scripts\<close>

definition hash_busy :: "rhash \<Rightarrow> time \<Rightarrow> bool" where
  "hash_busy h now \<longleftrightarrow> text_field h ''transition_owner'' \<noteq> [] \<and> num_or_0 h ''transition_expires_at'' > now"

definition begin_fields ::
  "rhash \<Rightarrow> string \<Rightarrow> DesiredState \<Rightarrow> string \<Rightarrow> time \<Rightarrow> time \<Rightarrow> string \<Rightarrow> rhash" where
  "begin_fields h bundle_name desired_state owner now expires reason = map_of
     [(''generation_fence'', RInt (int_field h ''generation_fence'' 0 + 1)),
      (''transition_id'', RInt (int_field h ''transition_id'' 0 + 1)),
      (''schema_version'', RInt 1),
      (''bundle_name'', RStr bundle_name),
      (''desired_state'', RStr (desired_value desired_state)),
      (''phase'', RStr ''recovering''),
      (''transition_owner'', RStr owner),
      (''transition_expires_at'', RNum expires),
      (''last_reason'', RStr (take 500 reason)),
      (''last_error'', RStr []),
      (''updated_at'', RNum now)]"

definition redis_begin ::
  "redis_db \<Rightarrow> string \<Rightarrow> DesiredState \<Rightarrow> string \<Rightarrow> time \<Rightarrow> time \<Rightarrow> string \<Rightarrow> TransitionAttempt \<times> redis_db"
where
  "redis_begin db bundle_name desired_state owner now ttl_seconds reason =
     (let k = BundleKey bundle_name; h = live_hash db k
      in if hash_busy h now
         then (\<lparr>ta_acquired = False, ta_lease = None, ta_reason = ''transition_in_progress'',
                ta_record = Some (redis_get db bundle_name)\<rparr>, db)
         else let updates = begin_fields h bundle_name desired_state owner now (now + ttl_seconds) reason;
                  db' = hset_expire db k updates (key_ttl ttl_seconds);
                  record = redis_get db' bundle_name
              in (\<lparr>ta_acquired = True,
                   ta_lease = Some \<lparr>tl_bundle_name = bundle_name, tl_owner = owner,
                     tl_generation_fence = int_field h ''generation_fence'' 0 + 1,
                     tl_transition_id = int_field h ''transition_id'' 0 + 1,
                     tl_expires_at = bl_transition_expires_at record\<rparr>,
                   ta_reason = ''acquired'', ta_record = Some record\<rparr>, db'))"

fun redis_begin_members ::
  "redis_db \<Rightarrow> (string \<times> DesiredState) list \<Rightarrow> string \<Rightarrow> time \<Rightarrow> time \<Rightarrow> string \<Rightarrow> group_lease \<times> redis_db"
where
  "redis_begin_members db [] owner now ttl_seconds reason = ([], db)"
| "redis_begin_members db ((n, d) # ts) owner now ttl_seconds reason =
     (let h = live_hash db (BundleKey n);
          db' = hset_expire db (BundleKey n) (begin_fields h n d owner now (now + ttl_seconds) reason)
                  (key_ttl ttl_seconds);
          (leases, db'') = redis_begin_members db' ts owner now ttl_seconds reason
      in (\<lparr>tl_bundle_name = n, tl_owner = owner,
           tl_generation_fence = int_field h ''generation_fence'' 0 + 1,
           tl_transition_id = int_field h ''transition_id'' 0 + 1,
           tl_expires_at = now + ttl_seconds\<rparr> # leases, db''))"

definition redis_begin_group ::
  "redis_db \<Rightarrow> (string \<times> DesiredState) list \<Rightarrow> string \<Rightarrow> time \<Rightarrow> time \<Rightarrow> string
   \<Rightarrow> TransitionGroupAttempt \<times> redis_db" where
  "redis_begin_group db transitions owner now ttl_seconds reason =
     (let normalized = normalize_group_transitions transitions
      in if normalized = []
         then (\<lparr>tga_acquired = False, tga_lease = None, tga_reason = ''empty_group''\<rparr>, db)
         else if list_ex (\<lambda>(n, d). hash_busy (live_hash db (BundleKey n)) now) normalized
         then (\<lparr>tga_acquired = False, tga_lease = None, tga_reason = ''transition_in_progress''\<rparr>, db)
         else let (leases, db') = redis_begin_members db normalized owner now ttl_seconds reason
              in (\<lparr>tga_acquired = True, tga_lease = Some leases, tga_reason = ''acquired''\<rparr>, db'))"

text \<open>The fence test of the scripts; the group scripts pass the owner of the first lease.\<close>

definition hash_current :: "rhash \<Rightarrow> string \<Rightarrow> BundleTransitionLease \<Rightarrow> time \<Rightarrow> bool" where
  "hash_current h owner lease now \<longleftrightarrow>
     text_field h ''transition_owner'' = owner
     \<and> int_field h ''generation_fence'' (-1) = tl_generation_fence lease
     \<and> int_field h ''transition_id'' (-1) = tl_transition_id lease
     \<and> num_or_0 h ''transition_expires_at'' > now"

definition redis_current :: "redis_db \<Rightarrow> BundleTransitionLease \<Rightarrow> time \<Rightarrow> bool" where
  "redis_current db lease now =
     hash_current (live_hash db (BundleKey (tl_bundle_name lease))) (tl_owner lease) lease now"

definition renew_fields :: "time \<Rightarrow> time \<Rightarrow> rhash" where
  "renew_fields now ttl_seconds =
     map_of [(''transition_expires_at'', RNum (lease_expiry now ttl_seconds)), (''updated_at'', RNum now)]"

definition redis_renew ::
  "redis_db \<Rightarrow> BundleTransitionLease \<Rightarrow> time \<Rightarrow> time \<Rightarrow> bool \<times> redis_db" where
  "redis_renew db lease now ttl_seconds =
     (if \<not> redis_current db lease now then (False, db)
      else (True, hset_expire db (BundleKey (tl_bundle_name lease)) (renew_fields now ttl_seconds)
                    (key_ttl ttl_seconds)))"

definition redis_renew_group ::
  "redis_db \<Rightarrow> group_lease \<Rightarrow> time \<Rightarrow> time \<Rightarrow> bool \<times> redis_db" where
  "redis_renew_group db leases now ttl_seconds =
     (case leases of
        [] \<Rightarrow> (False, db)
      | first # _ \<Rightarrow>
          if list_ex (\<lambda>l. \<not> hash_current (live_hash db (BundleKey (tl_bundle_name l)))
                         (tl_owner first) l now) leases
          then (False, db)
          else (True, fold (\<lambda>l d. hset_expire d (BundleKey (tl_bundle_name l))
                        (renew_fields now ttl_seconds) (key_ttl ttl_seconds)) leases db))"

definition finish_fields :: "bool \<Rightarrow> time \<Rightarrow> string \<Rightarrow> string option \<Rightarrow> rhash" where
  "finish_fields success now reason err = map_of
     ([(''phase'', RStr (if success then ''ready'' else ''crashed'')),
       (''transition_owner'', RStr []),
       (''transition_expires_at'', RInt 0),
       (''last_reason'', RStr (take 500 reason)),
       (''last_error'', RStr (take 1000 (case err of None \<Rightarrow> [] | Some e \<Rightarrow> e))),
       (''updated_at'', RNum now)]
      @ (if success
         then [(''last_healthy_at'', RNum now), (''last_restart_at'', RStr []),
               (''restart_attempts'', RInt 0), (''retry_window_started_at'', RStr [])]
         else []))"

definition redis_finish ::
  "redis_db \<Rightarrow> BundleTransitionLease \<Rightarrow> bool \<Rightarrow> time \<Rightarrow> string \<Rightarrow> string option \<Rightarrow> bool \<times> redis_db"
where
  "redis_finish db lease success now reason err =
     (if \<not> redis_current db lease now then (False, db)
      else (True, hset_expire db (BundleKey (tl_bundle_name lease))
                    (finish_fields success now reason err) 3600))"

definition redis_finish_group ::
  "redis_db \<Rightarrow> group_lease \<Rightarrow> bool \<Rightarrow> time \<Rightarrow> string \<Rightarrow> string option \<Rightarrow> bool \<times> redis_db" where
  "redis_finish_group db leases success now reason err =
     (case leases of
        [] \<Rightarrow> (False, db)
      | first # _ \<Rightarrow>
          if list_ex (\<lambda>l. \<not> hash_current (live_hash db (BundleKey (tl_bundle_name l)))
                         (tl_owner first) l now) leases
          then (False, db)
          else (True, fold (\<lambda>l d. hset_expire d (BundleKey (tl_bundle_name l))
                        (finish_fields success now reason err) 3600) leases db))"

definition record_fields :: "string \<Rightarrow> DesiredState \<Rightarrow> RecoveryState \<Rightarrow> time \<Rightarrow> string \<Rightarrow> rhash" where
  "record_fields bundle_name desired_state recovery now reason = map_of
     [(''schema_version'', RInt 1),
      (''bundle_name'', RStr bundle_name),
      (''desired_state'', RStr (desired_value desired_state)),
      (''phase'', RStr (phase_value (rs_phase recovery))),
      (''transition_id'', RInt (rs_transition_id recovery)),
      (''restart_attempts'', RInt (rs_restart_attempts recovery)),
      (''retry_window_started_at'', opt_num (rs_retry_window_started_at recovery)),
      (''last_restart_at'', opt_num (rs_last_restart_at recovery)),
      (''last_healthy_at'', opt_num (rs_last_healthy_at recovery)),
      (''last_reason'', RStr (take 500 reason)),
      (''updated_at'', RNum now)]"

definition redis_record_recovery ::
  "redis_db \<Rightarrow> string \<Rightarrow> DesiredState \<Rightarrow> RecoveryState \<Rightarrow> time \<Rightarrow> string \<Rightarrow> bool \<times> redis_db" where
  "redis_record_recovery db bundle_name desired_state recovery now reason =
     (let k = BundleKey bundle_name
      in if hash_busy (live_hash db k) now then (False, db)
         else (True, hset_expire db k
                (record_fields bundle_name desired_state recovery now reason) 3600))"

section \<open>Resource scripts\<close>

definition resource_busy :: "rhash \<Rightarrow> time \<Rightarrow> bool" where
  "resource_busy h now \<longleftrightarrow> text_field h ''owner'' \<noteq> [] \<and> num_or_0 h ''expires_at'' > now"

text \<open>\<open>math.max(1, math.ceil(expires - now) + 1)\<close>.\<close>

definition resource_ttl :: "time \<Rightarrow> time \<Rightarrow> time" where
  "resource_ttl expires now = of_int (max 1 (\<lceil>expires - now\<rceil> + 1))"

definition redis_acquire_resources ::
  "redis_db \<Rightarrow> string list \<Rightarrow> string \<Rightarrow> time \<Rightarrow> time \<Rightarrow> (ResourceLease option \<times> redis_db) option"
where
  "redis_acquire_resources db resource_ids owner now ttl_seconds =
     (case canonical_resource_ids resource_ids of
        None \<Rightarrow> None
      | Some normalized \<Rightarrow>
          if normalized = [] then Some (None, db)
          else if list_ex (\<lambda>r. resource_busy (live_hash db (ResourceKey r)) now) normalized
          then Some (None, db)
          else let fence = rd_resource_counter db + 1;
                   expires = lease_expiry now ttl_seconds;
                   db' = fold (\<lambda>r d. hset_expire d (ResourceKey r)
                            (map_of [(''owner'', RStr owner), (''fence'', RInt fence),
                                     (''expires_at'', RNum expires)])
                            (resource_ttl expires now))
                          normalized (db\<lparr>rd_resource_counter := fence\<rparr>)
               in Some (Some \<lparr>rl_resource_ids = normalized, rl_owner = owner, rl_fence = fence,
                              rl_expires_at = expires\<rparr>, db'))"

definition resource_owned :: "rhash \<Rightarrow> ResourceLease \<Rightarrow> bool" where
  "resource_owned h lease \<longleftrightarrow>
     text_field h ''owner'' = rl_owner lease \<and> h ''fence'' = Some (RInt (rl_fence lease))"

definition redis_renew_resources ::
  "redis_db \<Rightarrow> ResourceLease \<Rightarrow> time \<Rightarrow> time \<Rightarrow> (bool \<times> redis_db) option" where
  "redis_renew_resources db lease now ttl_seconds =
     (case canonical_resource_ids (rl_resource_ids lease) of
        None \<Rightarrow> None
      | Some normalized \<Rightarrow>
          if normalized = [] then Some (False, db)
          else if list_ex (\<lambda>r. \<not> resource_owned (live_hash db (ResourceKey r)) lease
                 \<or> num_or_0 (live_hash db (ResourceKey r)) ''expires_at'' \<le> now) normalized
          then Some (False, db)
          else let expires = lease_expiry now ttl_seconds
               in Some (True, fold (\<lambda>r d. hset_expire d (ResourceKey r)
                          (map_of [(''expires_at'', RNum expires)]) (resource_ttl expires now))
                        normalized db))"

definition redis_release_resources ::
  "redis_db \<Rightarrow> ResourceLease \<Rightarrow> (bool \<times> redis_db) option" where
  "redis_release_resources db lease =
     (case canonical_resource_ids (rl_resource_ids lease) of
        None \<Rightarrow> None
      | Some normalized \<Rightarrow>
          if normalized = [] then Some (False, db)
          else if list_ex (\<lambda>r. \<not> resource_owned (live_hash db (ResourceKey r)) lease) normalized
          then Some (False, db)
          else Some (True, fold (\<lambda>r d. del_key d (ResourceKey r)) normalized db))"


section \<open>Round trip of the fields\<close>

lemma parse_values [simp]:
  "parse_desired (desired_value d) = Some d" "parse_phase (phase_value p) = Some p"
  by (cases d; simp add: parse_desired_def all_desired_def)
    (cases p; simp add: parse_phase_def all_phases_def)

text \<open>Saving and loading a bundle record: reading back the hash fields written for a record gives the
  record itself, for every record whose owner and error are not the empty string (which the fields
  cannot tell from absent).\<close>

theorem fields_round_trip:
  assumes "bl_transition_owner r \<noteq> Some []" and "bl_last_error r \<noteq> Some []"
  shows "from_fields name (to_fields r) = r"
  using assms
  by (cases r; cases "bl_recovery r")
    (auto simp: from_fields_def to_fields_def text_field_def int_field_def num_field_def num_or_0_def
      none_if_empty_def opt_num_def opt_str_def split: option.splits)

definition sample_record :: BundleLifecycleRecord where
  "sample_record = begin_record (fresh_record ''llm'' 0) Desired_PINNED ''a'' 10 60 ''load''"

theorem fields_round_trip_witness:
  "from_fields ''other'' (to_fields sample_record) = sample_record"
  by (rule fields_round_trip) (simp_all add: sample_record_def begin_record_def fresh_record_def)

section \<open>Facts about the scripts\<close>

lemma key_ttl_pos [simp]: "0 < key_ttl ttl"
  by (simp add: key_ttl_def)

lemma live_hset [simp]:
  "0 < ttl \<Longrightarrow> live_hash (hset_expire db k f ttl) k' =
     (if k' = k then live_hash db k ++ f else live_hash db k')"
  by (auto simp: live_hash_def hset_expire_def split: option.splits)

lemmas field_defs = text_field_def int_field_def num_field_def num_or_0_def

text \<open>The fencing view of a hash agrees with an in-memory record.\<close>

definition same_fencing :: "rhash \<Rightarrow> BundleLifecycleRecord \<Rightarrow> bool" where
  "same_fencing h r \<longleftrightarrow>
     none_if_empty (text_field h ''transition_owner'') = bl_transition_owner r
     \<and> int_field h ''generation_fence'' 0 = bl_generation_fence r
     \<and> int_field h ''transition_id'' 0 = bl_transition_id r
     \<and> num_or_0 h ''transition_expires_at'' = bl_transition_expires_at r
     \<and> (bl_transition_owner r \<noteq> None \<longrightarrow>
          (\<exists>f t. h ''generation_fence'' = Some (RInt f) \<and> h ''transition_id'' = Some (RInt t)))"

text \<open>The relation between the two stores.\<close>

definition store_sim :: "mem_store \<Rightarrow> redis_db \<Rightarrow> bool" where
  "store_sim s db \<longleftrightarrow> (\<forall>n. same_fencing (live_hash db (BundleKey n)) (current_record s n 0))"

lemma same_fencing_now:
  "same_fencing h (current_record s n now) \<longleftrightarrow> same_fencing h (current_record s n now')"
  by (simp add: same_fencing_def current_record_def fresh_record_def split: option.splits)

lemma store_simD: "store_sim s db \<Longrightarrow> same_fencing (live_hash db (BundleKey n)) (current_record s n now)"
  unfolding store_sim_def by (metis same_fencing_now)

lemma sim_busy:
  "same_fencing h r \<Longrightarrow> hash_busy h now = in_transition r now"
  by (cases "bl_transition_owner r")
    (auto simp: same_fencing_def hash_busy_def in_transition_def none_if_empty_def split: if_splits)

lemma sim_current:
  assumes "same_fencing (live_hash db (BundleKey (tl_bundle_name l))) (current_record s (tl_bundle_name l) 0)"
    and "tl_owner l \<noteq> []"
  shows "redis_current db l now = lease_current s l now"
proof (cases "ms_records s (tl_bundle_name l)")
  case None
  then show ?thesis
    using assms by (auto simp: same_fencing_def redis_current_def hash_current_def lease_current_def
        current_record_def fresh_record_def none_if_empty_def split: if_splits)
next
  case (Some r)
  then have sf: "same_fencing (live_hash db (BundleKey (tl_bundle_name l))) r"
    using assms(1) by (simp add: current_record_def)
  have "text_field (live_hash db (BundleKey (tl_bundle_name l))) ''transition_owner'' = tl_owner l
      \<longleftrightarrow> bl_transition_owner r = Some (tl_owner l)"
    using sf assms(2) by (auto simp: same_fencing_def none_if_empty_def split: if_splits)
  then show ?thesis
    using Some sf
    by (auto simp: redis_current_def hash_current_def lease_current_def same_fencing_def
        int_field_def)
qed

lemma sim_update:
  assumes "store_sim s db" and "0 < ttl"
    and "same_fencing (live_hash db (BundleKey n) ++ f) r"
  shows "store_sim (s\<lparr>ms_records := (ms_records s)(n \<mapsto> r)\<rparr>) (hset_expire db (BundleKey n) f ttl)"
  using assms by (auto simp: store_sim_def current_record_def split: option.splits)

lemma sim_begin_fields:
  assumes "same_fencing h r" and "ow \<noteq> []"
  shows "same_fencing (h ++ begin_fields h n d ow now (now + ttl) x) (begin_record r d ow now ttl y)"
  using assms by (simp add: same_fencing_def begin_fields_def field_defs none_if_empty_def map_add_def)

lemma sim_renew_fields:
  "same_fencing h r \<Longrightarrow> same_fencing (h ++ renew_fields now ttl) (renew_record r now ttl)"
  by (auto simp: same_fencing_def renew_fields_def field_defs map_add_def)

lemma sim_finish_fields:
  "same_fencing h r \<Longrightarrow> same_fencing (h ++ finish_fields ok now x e) (finish_record r ok now y e' df)"
  by (auto simp: same_fencing_def finish_fields_def field_defs none_if_empty_def finish_record_def map_add_def)


lemma sim_record_fields:
  "same_fencing h r \<Longrightarrow> same_fencing (h ++ record_fields n d rec now x)
     (r\<lparr>bl_desired_state := d, bl_recovery := rec, bl_last_reason := y, bl_updated_at := now\<rparr>)"
  by (auto simp: same_fencing_def record_fields_def field_defs map_add_def)

lemma sim_begin:
  assumes sim: "store_sim s db" and ow: "ow \<noteq> []"
  shows "ta_acquired (fst (redis_begin db n d ow now ttl r)) = ta_acquired (fst (begin_transition s n d ow now ttl r))
      \<and> ta_lease (fst (redis_begin db n d ow now ttl r)) = ta_lease (fst (begin_transition s n d ow now ttl r))
      \<and> store_sim (snd (begin_transition s n d ow now ttl r)) (snd (redis_begin db n d ow now ttl r))"
proof -
  let ?h = "live_hash db (BundleKey n)" and ?r = "current_record s n now"
  have sf: "same_fencing ?h ?r" using sim by (rule store_simD)
  have busy: "hash_busy ?h now = in_transition ?r now" using sf by (rule sim_busy)
  note sfb = sim_begin_fields [OF sf ow, of n d now ttl r r]
  have "lease_of n ow (begin_record ?r d ow now ttl r) = \<lparr>tl_bundle_name = n, tl_owner = ow,
      tl_generation_fence = int_field ?h ''generation_fence'' 0 + 1,
      tl_transition_id = int_field ?h ''transition_id'' 0 + 1, tl_expires_at = now + ttl\<rparr>"
    using sf by (simp add: lease_of_def same_fencing_def)
  then show ?thesis
    using sim sim_update [OF sim key_ttl_pos sfb, of ttl]
    by (auto simp: redis_begin_def begin_transition_def Let_def busy redis_get_def from_fields_def
        begin_fields_def field_defs)
qed

lemma sim_lease:
  assumes sim: "store_sim s db" and l: "tl_owner l \<noteq> []"
  shows "redis_current db l now = lease_current s l now"
    and "lease_current s l now \<Longrightarrow> same_fencing (live_hash db (BundleKey (tl_bundle_name l)))
           (the (ms_records s (tl_bundle_name l)))"
proof -
  show "redis_current db l now = lease_current s l now"
    using sim l by (intro sim_current store_simD)
  show "lease_current s l now \<Longrightarrow> same_fencing (live_hash db (BundleKey (tl_bundle_name l)))
      (the (ms_records s (tl_bundle_name l)))"
    using store_simD [OF sim, of "tl_bundle_name l" now]
    by (auto simp: lease_current_iff current_record_def)
qed

text \<open>C4. The Redis store refines the in-memory store. While no key has expired, the two stores in
  related states answer \<open>begin\<close>, \<open>renew\<close>, \<open>finish\<close> and \<open>record_recovery\<close> alike (acquired or not, with the
  same fence, transition number and expiry in the lease; renewed, finished or recorded or not), and
  are related again afterwards.\<close>

theorem redis_refines_memory:
  assumes sim: "store_sim s db" and ow: "ow \<noteq> []" and l: "tl_owner l \<noteq> []"
  shows "(ta_acquired (fst (redis_begin db n d ow now ttl r)) = ta_acquired (fst (begin_transition s n d ow now ttl r))
      \<and> ta_lease (fst (redis_begin db n d ow now ttl r)) = ta_lease (fst (begin_transition s n d ow now ttl r))
      \<and> store_sim (snd (begin_transition s n d ow now ttl r)) (snd (redis_begin db n d ow now ttl r)))
    \<and> (fst (redis_renew db l now ttl) = fst (renew_transition s l now ttl)
      \<and> store_sim (snd (renew_transition s l now ttl)) (snd (redis_renew db l now ttl)))
    \<and> (fst (redis_finish db l ok now r e) = fst (finish_transition s l ok now r e)
      \<and> store_sim (snd (finish_transition s l ok now r e)) (snd (redis_finish db l ok now r e)))
    \<and> (fst (redis_record_recovery db n d rec now r) = fst (record_recovery s n d rec now r)
      \<and> store_sim (snd (record_recovery s n d rec now r)) (snd (redis_record_recovery db n d rec now r)))"
proof (intro conjI)
  note cur = sim_lease [OF sim l, of now]
  show "fst (redis_renew db l now ttl) = fst (renew_transition s l now ttl)"
    "store_sim (snd (renew_transition s l now ttl)) (snd (redis_renew db l now ttl))"
    using sim cur(2) by (auto simp: redis_renew_def renew_transition_def cur(1)
        intro!: sim_update sim_renew_fields)
  show "fst (redis_finish db l ok now r e) = fst (finish_transition s l ok now r e)"
    "store_sim (snd (finish_transition s l ok now r e)) (snd (redis_finish db l ok now r e))"
    using sim cur(2) by (auto simp: redis_finish_def finish_transition_def cur(1)
        intro!: sim_update sim_finish_fields)
  have sf: "same_fencing (live_hash db (BundleKey n)) (current_record s n now)"
    using sim by (rule store_simD)
  show "fst (redis_record_recovery db n d rec now r) = fst (record_recovery s n d rec now r)"
    "store_sim (snd (record_recovery s n d rec now r)) (snd (redis_record_recovery db n d rec now r))"
    using sim sf by (auto simp: redis_record_recovery_def record_recovery_def Let_def sim_busy [OF sf]
        intro!: sim_update sim_record_fields)
qed (use sim_begin [OF sim ow] in auto)

definition empty_db :: redis_db where
  "empty_db = \<lparr>rd_clock = 0, rd_hashes = Map.empty, rd_resource_counter = 0\<rparr>"

lemma empty_sim: "store_sim empty_store empty_db"
  by (simp add: store_sim_def empty_store_def empty_db_def live_hash_def same_fencing_def field_defs
      current_record_def fresh_record_def none_if_empty_def initial_recovery_def)

theorem redis_refines_memory_witness:
  "ta_lease (fst (redis_begin empty_db ''llm'' Desired_RUNNING ''a'' 0 180 ''load''))
   = ta_lease (fst (sample_begin empty_store ''a'' 0))"
  using redis_refines_memory [OF empty_sim, of "''a''"
      "\<lparr>tl_bundle_name = ''llm'', tl_owner = ''a'', tl_generation_fence = 1, tl_transition_id = 1,
        tl_expires_at = 180\<rparr>" "''llm''" Desired_RUNNING 0 180 "''load''"]
  by (simp add: sample_begin_def)

section \<open>The store keeps the contract of the controller\<close>

definition redis_busy :: "redis_db \<Rightarrow> string \<Rightarrow> time \<Rightarrow> bool" where
  "redis_busy db n now = hash_busy (live_hash db (BundleKey n)) now"

definition redis_phase :: "redis_db \<Rightarrow> string \<Rightarrow> RecoveryPhase" where
  "redis_phase db n = rs_phase (bl_recovery (redis_get db n))"

interpretation redis: transition_store redis_begin redis_renew redis_finish
  redis_current redis_busy redis_phase
proof (unfold_locales, goal_cases)
  case (1 s n now d ow ttl r)
  then show ?case by (simp add: redis_begin_def redis_busy_def)
next
  case (2 s n now ow ttl d r)
  then show ?case
    by (simp add: redis_begin_def redis_busy_def Let_def redis_current_def hash_current_def
        begin_fields_def field_defs)
next
  case (3 s l now ttl)
  then show ?case by (simp add: redis_renew_def)
next
  case (4 s l now ttl)
  then show ?case
    by (auto simp: redis_renew_def) (auto simp: redis_current_def hash_current_def renew_fields_def
        field_defs)
next
  case (5 s l now ok r e)
  then show ?case by (simp add: redis_finish_def)
next
  case (6 s l now ok r e)
  then show ?case
    by (auto simp: redis_finish_def redis_busy_def hash_busy_def finish_fields_def field_defs
        redis_phase_def redis_get_def from_fields_def parse_phase_def all_phases_def)
next
  case (7 s l t)
  then show ?case by (simp add: redis_current_def hash_current_def redis_busy_def hash_busy_def)
qed

text \<open>The same contract on Redis: a transition run of the controller on the Redis store is refused
  without effect when the bundle is busy, otherwise admitted, never leaves its lease current, and
  reports \<open>completed\<close> or \<open>failed\<close> only with the matching result and published phase.\<close>

theorem redis_run_transition_sound:
  assumes "ow \<noteq> []" and "0 < ttl"
    and "run_transition redis_begin redis_renew redis_finish res s n d ow now ttl r
      ticks env out t_end = (res', s')"
  shows "(redis_busy s n now \<longrightarrow> s' = s \<and> (\<exists>why. res' = Refused why))
    \<and> (\<not> redis_busy s n now \<longrightarrow> (\<forall>why. res' \<noteq> Refused why))
    \<and> (\<forall>l. ta_lease (fst (redis_begin s n d ow now ttl r)) = Some l \<longrightarrow> \<not> redis_current s' l t_end)
    \<and> (\<forall>v. res' = Ran v ''completed'' \<longrightarrow> truthy v \<and> redis_phase s' n = READY \<and> (\<forall>t. \<not> redis_busy s' n t))
    \<and> (\<forall>v. res' = Ran v ''failed'' \<longrightarrow> \<not> truthy v \<and> redis_phase s' n = CRASHED \<and> (\<forall>t. \<not> redis_busy s' n t))"
  using assms by (rule redis.run_sound)

theorem redis_run_transition_sound_witness:
  "\<exists>s'. run_transition redis_begin redis_renew redis_finish None empty_db ''llm''
      Desired_RUNNING ''a'' 0 180 ''load'' [(id, 60, False)] id
      (Returned (PBool False)) 200 = (Ran (PBool False) ''failed'', s') \<and> redis_phase s' ''llm'' = CRASHED"
proof -
  let ?run = "run_transition redis_begin redis_renew redis_finish None empty_db ''llm''
      Desired_RUNNING ''a'' 0 180 ''load'' [(id, 60, False)] id (Returned (PBool False)) 200"
  have "fst ?run = Ran (PBool False) ''failed''"
    by (simp add: run_transition_def run_fenced_def publish_outcome_def transition_attempt_def
        renew_leases_def redis_begin_def redis_renew_def redis_finish_def Let_def redis_current_def
        hash_current_def hash_busy_def begin_fields_def renew_fields_def field_defs lease_expiry_def
        empty_db_def live_hash_def [of "\<lparr>rd_clock = 0, rd_hashes = Map.empty, rd_resource_counter = 0\<rparr>"])
  then have "?run = (Ran (PBool False) ''failed'', snd ?run)" by (metis prod.collapse)
  then show ?thesis using redis_run_transition_sound [of "''a''" 180 None empty_db "''llm''"] by auto
qed

section \<open>Expiry of the fence\<close>

text \<open>The fence of the Redis store does not survive the expiry of its key: \<open>begin\<close> lets the key
  expire about one second after the lease, and \<open>finish\<close> after an hour, and the generation counter
  is a field of that key. After the expiry the next transition of the bundle gets fence 1 again, so
  a stalled task of the same controller process, whose owner string is the same, holds a lease
  that matches the new transition and can finish it.\<close>

theorem redis_fence_reused_after_expiry:
  fixes db :: redis_db
  assumes "ow \<noteq> []" and "0 < ttl" and "live_hash db (BundleKey n) = Map.empty"
    and "redis_begin db n d ow now ttl r = (att, db1)"
    and "rd_clock db + key_ttl ttl \<le> later"
    and "redis_begin (db1\<lparr>rd_clock := later\<rparr>) n d' ow later ttl r' = (att', db2)"
  shows "\<exists>old new. ta_lease att = Some old \<and> ta_lease att' = Some new
     \<and> tl_generation_fence old = tl_generation_fence new
     \<and> fst (redis_finish db2 old ok later r'' e)"
proof -
  have db1: "db1 = hset_expire db (BundleKey n)
        (begin_fields Map.empty n d ow now (now + ttl) r) (key_ttl ttl)"
    and att: "ta_lease att = Some \<lparr>tl_bundle_name = n, tl_owner = ow, tl_generation_fence = 1,
        tl_transition_id = 1, tl_expires_at = bl_transition_expires_at (redis_get db1 n)\<rparr>"
    using assms(3,4) by (auto simp: redis_begin_def Let_def hash_busy_def field_defs)
  have gone: "live_hash (db1\<lparr>rd_clock := later\<rparr>) (BundleKey n) = Map.empty"
    using assms(5) by (simp add: db1 live_hash_def hset_expire_def)
  have db2: "db2 = hset_expire (db1\<lparr>rd_clock := later\<rparr>) (BundleKey n)
        (begin_fields Map.empty n d' ow later (later + ttl) r') (key_ttl ttl)"
    and att': "ta_lease att' = Some \<lparr>tl_bundle_name = n, tl_owner = ow, tl_generation_fence = 1,
        tl_transition_id = 1, tl_expires_at = bl_transition_expires_at (redis_get db2 n)\<rparr>"
    using gone assms(6) by (auto simp: redis_begin_def Let_def hash_busy_def field_defs)
  have "fst (redis_finish db2 (the (ta_lease att)) ok later r'' e)"
    using assms(2) by (simp add: att db2 gone redis_finish_def redis_current_def hash_current_def
        begin_fields_def field_defs)
  then show ?thesis using att att' by auto
qed

theorem redis_fence_reused_after_expiry_witness:
  "\<exists>old db2. ta_lease (fst (redis_begin empty_db ''llm'' Desired_RUNNING ''a'' 0 180 ''load'')) = Some old
     \<and> fst (redis_finish db2 old True 200 ''load'' None)
     \<and> db2 = snd (redis_begin ((snd (redis_begin empty_db ''llm'' Desired_RUNNING ''a'' 0 180 ''load''))\<lparr>rd_clock := 200\<rparr>)
               ''llm'' Desired_IDLE ''a'' 200 180 ''swap'')"
proof -
  let ?b1 = "redis_begin empty_db ''llm'' Desired_RUNNING ''a'' 0 180 ''load''"
  let ?b2 = "redis_begin ((snd ?b1)\<lparr>rd_clock := 200\<rparr>) ''llm'' Desired_IDLE ''a'' 200 180 ''swap''"
  have "rd_clock empty_db + key_ttl 180 \<le> 200"
    by (simp add: key_ttl_def py_trunc_def empty_db_def)
  moreover have "live_hash empty_db (BundleKey ''llm'') = Map.empty"
    by (simp add: empty_db_def live_hash_def)
  ultimately show ?thesis
    using redis_fence_reused_after_expiry [of "''a''" 180 empty_db "''llm''" Desired_RUNNING 0 "''load''"
        "fst ?b1" "snd ?b1" 200 Desired_IDLE "''swap''" "fst ?b2" "snd ?b2" True "''load''" None]
    by auto
qed

end
