(* ===== verification/Runtime_Contracts.thy ===== *)
theory Runtime_Contracts
  imports Prelude
begin

text \<open>
  \<open>scripts/runtime_contracts.py\<close>: validation of runtime profiles, model sets, the registry that holds
  them, and the observations an adapter reports. A document is an untyped value. Each message the
  source appends is a constructor of \<open>contract_error\<close>, with the names it interpolates. The SHA-256
  fingerprint of a document's canonical JSON text is the parameter \<open>fp\<close>. A membership test against
  a set of strings is modelled for hashable values (a list or an object there raises
  \<open>TypeError\<close> in Python; the model reports it as not a member).
\<close>

section \<open>Errors\<close>

datatype contract_error =
    Bad_name
  | Not_an_object
  | Bad_schema_version
  | Id_mismatch
  | Bad_revision
  | Bad_status
  | Bad_kind
  | Not_a_string string
  | Bad_process
  | Bad_process_unit
  | Bad_process_port
  | Bad_health_path
  | Bad_model_set_ref
  | Bad_model_set_revision
  | Bad_model_set_fingerprint
  | Not_a_string_list string
  | Bad_resource_requirements
  | Field_not_allowed string
  | Bad_components
  | No_components
  | Component_error nat string
  | Bad_budgets
  | No_budgets
  | Bad_budget string
  | Undeclared_device string
  | Bad_compatibility
  | Undeclared_role string
  | Required_compatibility string
  | Observation_error string
  | In_profile string contract_error
  | In_model_set string contract_error
  | Registry_error string
  | Unknown_reference string string

definition disallowed_fields :: "string list" where
  "disallowed_fields = [''command'', ''exec'', ''shell'', ''privileged'', ''host_mounts'',
     ''docker_socket'', ''host_network'']"

definition model_set_disallowed_fields :: "string list" where
  "model_set_disallowed_fields = disallowed_fields @ [''path'', ''url'', ''endpoint'', ''environment'',
     ''env'', ''secret'', ''credentials'', ''mounts'']"

fun string_list :: "pyval \<Rightarrow> bool" where
  "string_list (PList vs) = list_all (\<lambda>v. case v of PStr s \<Rightarrow> \<not> blank s | _ \<Rightarrow> False) vs"
| "string_list _ = False"

fun nonblank_str :: "pyval \<Rightarrow> bool" where
  "nonblank_str (PStr s) = (\<not> blank s)"
| "nonblank_str _ = False"

section \<open>Runtime profiles\<close>

definition process_errors :: "pyval \<Rightarrow> contract_error list" where
  "process_errors process =
     (case process of
        PNone \<Rightarrow> []
      | PDict p \<Rightarrow>
          err_if (has_key p ''unit'' \<and> dget p ''unit'' \<noteq> PNone \<and> \<not> is_str (dget p ''unit'')) Bad_process_unit
          @ err_if (case dget_or p ''port'' (PInt 0) of PInt i \<Rightarrow> \<not> (0 \<le> i \<and> i \<le> 65535) | _ \<Rightarrow> True)
              Bad_process_port
          @ err_if (has_key p ''health_path'' \<and> \<not> is_str (dget p ''health_path'')) Bad_health_path
      | _ \<Rightarrow> [Bad_process])"

text \<open>\<open>str(value)\<close> matched against the digest pattern: of the values a document holds, only a string
  can be 64 characters of the pattern, or an integer of 64 digits.\<close>

definition digest_text :: "pyval \<Rightarrow> bool" where
  "digest_text v = (case v of PStr s \<Rightarrow> is_sha256 s | PInt i \<Rightarrow> 10 ^ 63 \<le> i \<and> i < 10 ^ 64 | _ \<Rightarrow> False)"

definition validate_runtime_profile :: "string \<Rightarrow> pyval \<Rightarrow> contract_error list" where
  "validate_runtime_profile name profile =
     err_if (\<not> is_id name) Bad_name
     @ (case profile of
          PDict p \<Rightarrow>
            err_if (dget p ''schema_version'' \<noteq> PStr ''runtime-profile.v1'') Bad_schema_version
            @ err_if (\<not> pos_int (dget_or p ''revision'' (PInt 1))) Bad_revision
            @ concat (map (\<lambda>f. err_if (\<not> nonblank_str (dget p f)) (Not_a_string f)) [''engine'', ''adapter''])
            @ process_errors (dget_or p ''process'' (PDict []))
            @ err_if (dget p ''model_set'' \<noteq> PNone \<and> \<not> is_str (dget p ''model_set'')
                      \<and> \<not> is_dict (dget p ''model_set'')) Bad_model_set_ref
            @ err_if (has_key p ''model_set_revision'' \<and> \<not> pos_int (dget p ''model_set_revision''))
                Bad_model_set_revision
            @ err_if (has_key p ''model_set_fingerprint'' \<and> \<not> digest_text (dget p ''model_set_fingerprint''))
                Bad_model_set_fingerprint
            @ err_if (has_key p ''capabilities'' \<and> \<not> string_list (dget p ''capabilities''))
                (Not_a_string_list ''capabilities'')
            @ err_if (has_key p ''resource_requirements'' \<and> \<not> is_dict (dget p ''resource_requirements''))
                Bad_resource_requirements
            @ err_if (has_key p ''identity_fields'' \<and> \<not> string_list (dget p ''identity_fields''))
                (Not_a_string_list ''identity_fields'')
            @ map Field_not_allowed (filter (has_key p) disallowed_fields)
        | _ \<Rightarrow> [Not_an_object])"

section \<open>Model sets\<close>

text \<open>\<open>_dangerous_model_set_fields\<close>: the keys found at any depth (the source also builds their path).\<close>

primrec dangerous_fields :: "pyval \<Rightarrow> string list" where
  "dangerous_fields PNone = []"
| "dangerous_fields (PBool b) = []"
| "dangerous_fields (PInt i) = []"
| "dangerous_fields (PFloat x) = []"
| "dangerous_fields (PStr s) = []"
| "dangerous_fields (PList vs) = concat (map dangerous_fields vs)"
| "dangerous_fields (PDict d) =
     concat (map (\<lambda>kd. (if lower (fst kd) \<in> set model_set_disallowed_fields then [fst kd] else []) @ snd kd)
       (map (map_prod id dangerous_fields) d))"

definition starts_with :: "string \<Rightarrow> string \<Rightarrow> bool" where
  "starts_with s p = (take (length p) s = p)"

definition unresolved :: "string \<Rightarrow> bool" where
  "unresolved s = (let t = lower (strip s) in starts_with t ''unresolved'' \<or> starts_with t ''unknown'')"

text \<open>One component of a model set; \<open>seen\<close> holds the identifiers of the earlier ones.\<close>

definition component_errors :: "bool \<Rightarrow> string list \<Rightarrow> nat \<Rightarrow> pyval \<Rightarrow> contract_error list" where
  "component_errors qualified seen index component =
     (case component of
        PDict c \<Rightarrow>
          (case dget c ''id'' of
             PStr s \<Rightarrow> (if \<not> is_id s then [Component_error index ''id'']
                        else if s \<in> set seen then [Component_error index ''duplicate id''] else [])
           | _ \<Rightarrow> [Component_error index ''id''])
          @ concat (map (\<lambda>f. case dget c f of
                PStr s \<Rightarrow> (if blank s then [Component_error index f]
                           else if qualified \<and> unresolved s then [Component_error index ''unresolved''] else [])
              | _ \<Rightarrow> [Component_error index f]) [''role'', ''artifact'', ''precision'', ''device''])
          @ err_if (has_key c ''compatible_with'' \<and> \<not> string_list (dget c ''compatible_with''))
              (Component_error index ''compatible_with'')
          @ err_if (case dget c ''sha256'' of PNone \<Rightarrow> False | PStr s \<Rightarrow> \<not> is_sha256 s | _ \<Rightarrow> True)
              (Component_error index ''sha256'')
          @ err_if (qualified \<and> dget c ''sha256'' = PNone) (Component_error index ''sha256 required'')
      | _ \<Rightarrow> [Component_error index ''object''])"

text \<open>The identifiers that enter \<open>seen\<close>: valid ones, once each.\<close>

definition component_id :: "pyval \<Rightarrow> string list" where
  "component_id component = (case component of
     PDict c \<Rightarrow> (case dget c ''id'' of PStr s \<Rightarrow> (if is_id s then [s] else []) | _ \<Rightarrow> [])
   | _ \<Rightarrow> [])"

fun components_errors :: "bool \<Rightarrow> string list \<Rightarrow> nat \<Rightarrow> pyval list \<Rightarrow> contract_error list" where
  "components_errors qualified seen i [] = []"
| "components_errors qualified seen i (c # cs) =
     component_errors qualified seen i c
     @ components_errors qualified (component_id c @ seen) (Suc i) cs"

definition component_strings :: "string \<Rightarrow> pyval list \<Rightarrow> string list" where
  "component_strings field components = concat (map (\<lambda>v. case v of
     PDict c \<Rightarrow> (case dget c field of PStr s \<Rightarrow> (if blank s then [] else [s]) | _ \<Rightarrow> [])
   | _ \<Rightarrow> []) components)"

definition budget_errors :: "bool \<Rightarrow> bool \<Rightarrow> string \<times> pyval \<Rightarrow> contract_error list" where
  "budget_errors qualified runtime entry =
     (case entry of (device, amount) \<Rightarrow>
        err_if (blank device) (Bad_budget [])
        @ (if amount = PNone \<and> \<not> qualified then []
           else case amount of
             PInt i \<Rightarrow> (if i < 0 \<or> (qualified \<and> runtime \<and> i = 0) then [Bad_budget device] else [])
           | _ \<Rightarrow> [Bad_budget device]))"

definition compat_names :: "string list" where
  "compat_names = [''engines'', ''requires_roles'', ''accepts'', ''produces'']"

definition strings_of :: "pyval \<Rightarrow> string list" where
  "strings_of v = (case v of PList vs \<Rightarrow> concat (map (\<lambda>x. case x of PStr s \<Rightarrow> [s] | _ \<Rightarrow> []) vs) | _ \<Rightarrow> [])"

definition compatibility_errors :: "bool \<Rightarrow> bool \<Rightarrow> string list \<Rightarrow> pyval \<Rightarrow> contract_error list" where
  "compatibility_errors qualified runtime roles compatibility =
     (case compatibility of
        PDict c \<Rightarrow>
          concat (map (\<lambda>f. err_if (has_key c f \<and> \<not> string_list (dget c f)) (Not_a_string_list f)) compat_names)
          @ (if string_list (dget c ''requires_roles'')
             then map Undeclared_role (filter (\<lambda>r. r \<notin> set roles) (sort_uniq (strings_of (dget c ''requires_roles''))))
             else [])
          @ (if qualified \<and> runtime
             then map Required_compatibility (filter (\<lambda>f. \<not> truthy (dget c f)) compat_names) else [])
      | _ \<Rightarrow> [Bad_compatibility])"

definition validate_model_set :: "string \<Rightarrow> pyval \<Rightarrow> contract_error list" where
  "validate_model_set name model_set =
     err_if (\<not> is_id name) Bad_name
     @ (case model_set of
          PDict m \<Rightarrow>
            let qualified = (dget m ''status'' = PStr ''qualified'');
                runtime = (dget m ''kind'' = PStr ''model-runtime'');
                components = (case dget m ''components'' of PList cs \<Rightarrow> cs | _ \<Rightarrow> [])
            in err_if (dget m ''schema_version'' \<noteq> PStr ''model-set.v1'') Bad_schema_version
               @ err_if (dget m ''id'' \<noteq> PStr name) Id_mismatch
               @ err_if (\<not> pos_int (dget_or m ''revision'' (PInt 1))) Bad_revision
               @ err_if (\<not> str_in (dget m ''status'') [''draft'', ''qualified'', ''retired'']) Bad_status
               @ err_if (\<not> str_in (dget m ''kind'') [''model-runtime'', ''control-plane'']) Bad_kind
               @ (case dget m ''components'' of
                    PList cs \<Rightarrow> err_if (runtime \<and> cs = []) No_components
                  | _ \<Rightarrow> [Bad_components])
               @ components_errors qualified [] 0 components
               @ (case dget m ''memory_budget_mib'' of
                    PDict b \<Rightarrow>
                      err_if (runtime \<and> b = []) No_budgets
                      @ concat (map (budget_errors qualified runtime) b)
                      @ map Undeclared_device (filter (\<lambda>d. d \<notin> set (map fst b))
                          (sort_uniq (component_strings ''device'' components)))
                  | _ \<Rightarrow> [Bad_budgets])
               @ compatibility_errors qualified runtime (component_strings ''role'' components)
                   (dget m ''compatibility'')
               @ map Field_not_allowed (dangerous_fields model_set)
        | _ \<Rightarrow> [Not_an_object])"

section \<open>The registry\<close>

definition as_dict :: "pyval \<Rightarrow> pydict option" where
  "as_dict v = (case v of PNone \<Rightarrow> Some [] | PDict d \<Rightarrow> Some d | _ \<Rightarrow> None)"

definition reference_errors :: "(pyval \<Rightarrow> string) \<Rightarrow> pydict \<Rightarrow> string \<times> pyval \<Rightarrow> contract_error list" where
  "reference_errors fp model_sets entry =
     (case entry of
        (profile_name, PDict p) \<Rightarrow>
          (case dget p ''model_set'' of
             PStr ms \<Rightarrow>
               (case map_of model_sets ms of
                  None \<Rightarrow> [Unknown_reference profile_name ms]
                | Some (PDict m) \<Rightarrow>
                    err_if (\<not> py_eq (dget p ''model_set_revision'') (dget m ''revision''))
                      (In_profile profile_name Bad_model_set_revision)
                    @ err_if (dget p ''model_set_fingerprint'' \<noteq> PStr (fp (PDict m)))
                        (In_profile profile_name Bad_model_set_fingerprint)
                | Some _ \<Rightarrow> [])
           | _ \<Rightarrow> [])
      | _ \<Rightarrow> [])"

definition service_errors :: "pydict \<Rightarrow> string \<times> pyval \<Rightarrow> contract_error list" where
  "service_errors profiles entry =
     (case entry of
        (service_name, PDict svc) \<Rightarrow>
          (case dget svc ''runtime_profile'' of
             PStr p \<Rightarrow> err_if (p \<noteq> [] \<and> \<not> has_key profiles p) (Unknown_reference service_name p)
           | v \<Rightarrow> err_if (truthy v) (Unknown_reference service_name []))
      | _ \<Rightarrow> [])"

definition validate_runtime_registry :: "(pyval \<Rightarrow> string) \<Rightarrow> pyval \<Rightarrow> contract_error list" where
  "validate_runtime_registry fp registry =
     (case registry of
        PDict g \<Rightarrow>
          if \<not> has_key g ''runtime_profiles'' \<and> \<not> has_key g ''model_sets'' then []
          else (case as_dict (dget_or g ''runtime_profiles'' (PDict [])) of
                  None \<Rightarrow> [Registry_error ''runtime_profiles'']
                | Some profiles \<Rightarrow>
                    let perrs = concat (map (\<lambda>(n, p). map (In_profile n) (validate_runtime_profile n p)) profiles)
                    in (case as_dict (dget_or g ''model_sets'' (PDict [])) of
                          None \<Rightarrow> perrs @ [Registry_error ''model_sets'']
                        | Some model_sets \<Rightarrow>
                            perrs
                            @ concat (map (\<lambda>(n, m). map (In_model_set n) (validate_model_set n m)) model_sets)
                            @ (if has_key g ''model_sets''
                               then concat (map (reference_errors fp model_sets) profiles) else [])
                            @ (case dget_or g ''services'' (PDict []) of
                                 PDict svcs \<Rightarrow> concat (map (service_errors profiles) svcs)
                               | _ \<Rightarrow> [])))
      | _ \<Rightarrow> [Registry_error ''object''])"

section \<open>Observations\<close>

definition validate_runtime_observation ::
  "(pyval \<Rightarrow> string) \<Rightarrow> string \<Rightarrow> pydict \<Rightarrow> pyval \<Rightarrow> contract_error list" where
  "validate_runtime_observation fp profile_name profile observation =
     validate_runtime_profile profile_name (PDict profile)
     @ (case observation of
          PDict ob \<Rightarrow>
            err_if (dget ob ''profile_name'' \<noteq> PStr profile_name) (Observation_error ''profile_name'')
            @ err_if (dget ob ''profile_fingerprint'' \<noteq> PStr (fp (PDict profile)))
                (Observation_error ''profile_fingerprint'')
            @ err_if (\<not> str_in (dget ob ''state'') [''stopped'', ''loading'', ''ready'', ''draining'', ''faulted''])
                (Observation_error ''state'')
            @ err_if (\<not> pos_int (dget ob ''process_generation'')) (Observation_error ''process_generation'')
            @ concat (map (\<lambda>f. err_if (\<not> is_bool (dget ob f)) (Observation_error f))
                [''process_ready'', ''model_ready'', ''accepting''])
            @ err_if (dget ob ''state'' = PStr ''ready''
                \<and> \<not> (truthy (dget ob ''process_ready'') \<and> truthy (dget ob ''model_ready'')))
                (Observation_error ''ready requires process_ready and model_ready'')
            @ err_if (dget profile ''model_set'' \<noteq> PNone
                \<and> \<not> py_eq (dget ob ''model_set'') (dget profile ''model_set''))
                (Observation_error ''model_set'')
        | _ \<Rightarrow> [Observation_error ''object''])"


section \<open>What a valid model set is\<close>

text \<open>A key occurs in a document, at any depth.\<close>

inductive key_in :: "string \<Rightarrow> pyval \<Rightarrow> bool" where
  here: "(k, v) \<in> set d \<Longrightarrow> key_in k (PDict d)"
| in_value: "(k', v) \<in> set d \<Longrightarrow> key_in k v \<Longrightarrow> key_in k (PDict d)"
| in_item: "v \<in> set vs \<Longrightarrow> key_in k v \<Longrightarrow> key_in k (PList vs)"

lemma dangerous_fields_complete:
  "key_in k v \<Longrightarrow> lower k \<in> set model_set_disallowed_fields \<Longrightarrow> k \<in> set (dangerous_fields v)"
proof (induction rule: key_in.induct)
  case (here k v d)
  then show ?case by force
next
  case (in_value k' v d k)
  then show ?case by force
next
  case (in_item v vs k)
  then show ?case by auto
qed

lemma dangerous_fields_sound:
  "k \<in> set (dangerous_fields v) \<Longrightarrow> key_in k v \<and> lower k \<in> set model_set_disallowed_fields"
proof (induction v)
  case (PList vs)
  then show ?case by (auto intro: in_item)
next
  case (PDict d)
  then obtain k' v' where kv: "(k', v') \<in> set d"
    and "k \<in> set (dangerous_fields v') \<or> (k = k' \<and> lower k \<in> set model_set_disallowed_fields)"
    by (auto split: if_splits)
  then show ?case
    using PDict.IH [OF kv, of v'] by (auto intro: key_in.intros)
qed simp_all

lemma no_dangerous_fields_iff:
  "dangerous_fields v = [] \<longleftrightarrow> (\<forall>k. key_in k v \<longrightarrow> lower k \<notin> set model_set_disallowed_fields)"
  using dangerous_fields_complete dangerous_fields_sound
  by (metis list.set_intros(1) neq_Nil_conv list.set(1) empty_iff)

lemma components_errors_nth:
  "components_errors q seen i cs = [] \<Longrightarrow> c \<in> set cs \<Longrightarrow> \<exists>seen' j. component_errors q seen' j c = []"
  by (induction q seen i cs rule: components_errors.induct) auto

lemma component_errors_idD:
  "component_errors q seen i c = [] \<Longrightarrow> \<exists>s. component_id c = [s] \<and> s \<notin> set seen"
  by (auto simp: component_errors_def component_id_def split: pyval.splits if_splits)

lemma components_ids_distinct:
  "components_errors q seen i cs = [] \<Longrightarrow>
     distinct (concat (map component_id cs)) \<and> set (concat (map component_id cs)) \<inter> set seen = {}"
proof (induction q seen i cs rule: components_errors.induct)
  case (2 q seen i c cs)
  then obtain s where "component_id c = [s]" "s \<notin> set seen"
    using component_errors_idD by (metis append_is_Nil_conv components_errors.simps(2))
  then show ?case using 2 by auto
qed simp

lemma qualified_componentD:
  assumes "component_errors True seen i c = []"
  shows "\<exists>d h dev. c = PDict d \<and> dget d ''sha256'' = PStr h \<and> is_sha256 h
           \<and> dget d ''device'' = PStr dev \<and> \<not> blank dev"
  using assms by (auto simp: component_errors_def split: pyval.splits if_splits)

lemma component_stringsI:
  "PDict d \<in> set cs \<Longrightarrow> dget d f = PStr s \<Longrightarrow> \<not> blank s \<Longrightarrow> s \<in> set (component_strings f cs)"
  by (force simp: component_strings_def)

lemma budget_errorsD: "budget_errors True True (dev, a) = [] \<Longrightarrow> \<exists>n>0. a = PInt n"
  by (auto simp: budget_errors_def split: pyval.splits if_splits)

lemma validate_model_setD:
  assumes "validate_model_set name (PDict m) = []"
  shows "is_id name" "dget m ''id'' = PStr name" "dangerous_fields (PDict m) = []"
    and "\<exists>cs b. dget m ''components'' = PList cs \<and> dget m ''memory_budget_mib'' = PDict b
       \<and> components_errors (dget m ''status'' = PStr ''qualified'') [] 0 cs = []
       \<and> (dget m ''kind'' = PStr ''model-runtime'' \<longrightarrow> cs \<noteq> [] \<and> b \<noteq> [])
       \<and> (\<forall>e \<in> set b. budget_errors (dget m ''status'' = PStr ''qualified'')
             (dget m ''kind'' = PStr ''model-runtime'') e = [])
       \<and> set (component_strings ''device'' cs) \<subseteq> fst ` set b"
  using assms
  by (auto simp: validate_model_set_def Let_def filter_empty_conv split: pyval.splits if_splits)

text \<open>The model set of the witnesses: one text encoder on one device.\<close>

definition sample_component :: pydict where
  "sample_component = [(''id'', PStr ''te''), (''role'', PStr ''text''), (''artifact'', PStr ''te.gguf''),
     (''precision'', PStr ''fp8''), (''device'', PStr ''gpu0''), (''sha256'', PStr (replicate 64 CHR ''a''))]"

definition sample_model_set :: pydict where
  "sample_model_set = [(''schema_version'', PStr ''model-set.v1''), (''id'', PStr ''flux''), (''revision'', PInt 2),
     (''status'', PStr ''qualified''), (''kind'', PStr ''model-runtime''),
     (''components'', PList [PDict sample_component]),
     (''memory_budget_mib'', PDict [(''gpu0'', PInt 9000)]),
     (''compatibility'', PDict [(''engines'', PList [PStr ''comfyui'']), (''requires_roles'', PList [PStr ''text'']),
        (''accepts'', PList [PStr ''prompt'']), (''produces'', PList [PStr ''image''])])]"

lemma sample_model_set_valid: "validate_model_set ''flux'' (PDict sample_model_set) = []"
  by code_simp

text \<open>A model set that validates carries no key, at any depth and in any letter case, that names a
  command, a shell, a privilege, a host mount, a network endpoint, an environment or a secret; and
  the validator reports such a key whenever there is one.\<close>

theorem model_set_carries_no_host_access:
  assumes "validate_model_set name (PDict m) = []" and "key_in k (PDict m)"
  shows "lower k \<notin> {''command'', ''exec'', ''shell'', ''privileged'', ''host_mounts'', ''docker_socket'',
           ''host_network'', ''path'', ''url'', ''endpoint'', ''environment'', ''env'', ''secret'',
           ''credentials'', ''mounts''}"
proof -
  have "lower k \<notin> set model_set_disallowed_fields"
    using assms validate_model_setD(3) no_dangerous_fields_iff by blast
  then show ?thesis
    by (simp add: model_set_disallowed_fields_def disallowed_fields_def)
qed

theorem model_set_carries_no_host_access_witness:
  "key_in ''artifact'' (PDict sample_model_set)
   \<and> lower ''artifact'' \<notin> {''command'', ''exec'', ''shell'', ''privileged'', ''host_mounts'', ''docker_socket'',
       ''host_network'', ''path'', ''url'', ''endpoint'', ''environment'', ''env'', ''secret'',
       ''credentials'', ''mounts''}
   \<and> validate_model_set ''flux'' (PDict ((''x'', PList [PDict [(''Shell'', PNone)]]) # sample_model_set))
       = [Field_not_allowed ''Shell'']"
proof -
  have k: "key_in ''artifact'' (PDict sample_model_set)"
    unfolding sample_model_set_def
    by (rule in_value [of "''components''" "PList [PDict sample_component]"],
        simp, rule in_item, simp, simp add: sample_component_def, rule here [of _ "PStr ''te.gguf''"], simp)
  moreover have "validate_model_set ''flux'' (PDict ((''x'', PList [PDict [(''Shell'', PNone)]]) # sample_model_set))
       = [Field_not_allowed ''Shell'']"
    by code_simp
  ultimately show ?thesis
    using model_set_carries_no_host_access [OF sample_model_set_valid k] by blast
qed

text \<open>A qualified model runtime that validates is fully pinned: it has components, their identifiers
  are distinct, each is bound to a 64-digit SHA-256 of its artifact, and the device each needs has a
  positive memory budget.\<close>

theorem qualified_model_set_is_pinned:
  assumes "validate_model_set name (PDict m) = []"
    and "dget m ''status'' = PStr ''qualified''" and "dget m ''kind'' = PStr ''model-runtime''"
  shows "\<exists>cs b. dget m ''components'' = PList cs \<and> dget m ''memory_budget_mib'' = PDict b \<and> cs \<noteq> []
     \<and> distinct (concat (map component_id cs)) \<and> length (concat (map component_id cs)) = length cs
     \<and> (\<forall>c \<in> set cs. \<exists>d h dev n. c = PDict d \<and> dget d ''sha256'' = PStr h \<and> is_sha256 h
           \<and> dget d ''device'' = PStr dev \<and> (dev, PInt n) \<in> set b \<and> 0 < n)"
proof -
  from assms validate_model_setD(4) [OF assms(1)] obtain cs b where
    cs: "dget m ''components'' = PList cs" "cs \<noteq> []" "components_errors True [] 0 cs = []"
    and b: "dget m ''memory_budget_mib'' = PDict b" "\<forall>e \<in> set b. budget_errors True True e = []"
      "set (component_strings ''device'' cs) \<subseteq> fst ` set b"
    by auto
  have "\<exists>d h dev n. c = PDict d \<and> dget d ''sha256'' = PStr h \<and> is_sha256 h
           \<and> dget d ''device'' = PStr dev \<and> (dev, PInt n) \<in> set b \<and> 0 < n" if c: "c \<in> set cs" for c
  proof -
    obtain d h dev where d: "c = PDict d" "dget d ''sha256'' = PStr h" "is_sha256 h"
        "dget d ''device'' = PStr dev" "\<not> blank dev"
      using qualified_componentD components_errors_nth [OF cs(3) c] by blast
    then have "dev \<in> fst ` set b"
      using component_stringsI [of d cs "''device''" dev] c b(3) by auto
    then obtain a where a: "(dev, a) \<in> set b" by auto
    then have "\<exists>n>0. a = PInt n" by (intro budget_errorsD [of dev]) (use b(2) in blast)
    then show ?thesis using d(1-4) a by auto
  qed
  moreover have "length (component_id c) = 1" if "c \<in> set cs" for c
    using components_errors_nth [OF cs(3) that] component_errors_idD by fastforce
  then have "length (concat (map component_id cs)) = length cs"
    by (induction cs) auto
  moreover have "distinct (concat (map component_id cs))"
    using components_ids_distinct [OF cs(3)] by (rule conjunct1)
  ultimately show ?thesis
    using cs(1,2) b(1) by - (rule exI [of _ cs], rule exI [of _ b], intro conjI ballI)
qed

theorem qualified_model_set_is_pinned_witness:
  "\<exists>cs b. dget sample_model_set ''components'' = PList cs
     \<and> dget sample_model_set ''memory_budget_mib'' = PDict b \<and> cs \<noteq> []
     \<and> distinct (concat (map component_id cs)) \<and> length (concat (map component_id cs)) = length cs
     \<and> (\<forall>c \<in> set cs. \<exists>d h dev n. c = PDict d \<and> dget d ''sha256'' = PStr h \<and> is_sha256 h
           \<and> dget d ''device'' = PStr dev \<and> (dev, PInt n) \<in> set b \<and> 0 < n)"
  by (rule qualified_model_set_is_pinned [OF sample_model_set_valid])
    (simp_all add: sample_model_set_def dget_def)

section \<open>What a valid registry is\<close>

lemma dget_has_key: "dget d k = v \<Longrightarrow> v \<noteq> PNone \<Longrightarrow> has_key d k \<and> dget_or d k u = v"
  by (auto simp: dget_def dget_or_def has_key_def split: option.splits)

lemma validate_runtime_registryD:
  assumes "validate_runtime_registry fp (PDict g) = []"
    and "dget g ''runtime_profiles'' = PDict ps" and "dget g ''model_sets'' = PDict ms"
  shows "\<forall>(n, p) \<in> set ps. validate_runtime_profile n p = []"
    and "\<forall>(n, m) \<in> set ms. validate_model_set n m = []"
    and "\<forall>e \<in> set ps. reference_errors fp ms e = []"
  using assms(1) dget_has_key [OF assms(2)] dget_has_key [OF assms(3)]
  by (auto simp: validate_runtime_registry_def as_dict_def Let_def split: pyval.splits if_splits)

lemma reference_errorsD:
  assumes "reference_errors fp ms (n, PDict p) = []" and "dget p ''model_set'' = PStr r"
    and "\<forall>(k, m) \<in> set ms. validate_model_set k m = []"
  shows "\<exists>m. map_of ms r = Some (PDict m) \<and> py_eq (dget p ''model_set_revision'') (dget m ''revision'')
     \<and> dget p ''model_set_fingerprint'' = PStr (fp (PDict m))"
proof -
  obtain v where v: "map_of ms r = Some v"
    using assms(1,2) by (auto simp: reference_errors_def split: option.splits)
  then have "validate_model_set r v = []" using assms(3) map_of_SomeD by fastforce
  then obtain m where "v = PDict m" by (cases v) (simp_all add: validate_model_set_def)
  then show ?thesis using assms(1,2) v by (auto simp: reference_errors_def split: if_splits)
qed

definition sample_profile :: "string \<Rightarrow> pydict" where
  "sample_profile h = [(''schema_version'', PStr ''runtime-profile.v1''), (''revision'', PInt 1),
     (''engine'', PStr ''comfyui''), (''adapter'', PStr ''systemd''), (''model_set'', PStr ''flux''),
     (''model_set_revision'', PInt 2), (''model_set_fingerprint'', PStr h)]"

text \<open>The fingerprint of the witnesses: 64 digits that depend on the size of the document.\<close>

definition sample_fp :: "pyval \<Rightarrow> string" where
  "sample_fp v = (case v of PDict d \<Rightarrow> replicate 63 CHR ''0'' @ (if length d < 8 then ''1'' else ''2'') | _ \<Rightarrow> replicate 64 CHR ''0'')"

definition sample_registry :: pydict where
  "sample_registry = [(''runtime_profiles'', PDict [(''image'', PDict (sample_profile (sample_fp (PDict sample_model_set))))]),
     (''model_sets'', PDict [(''flux'', PDict sample_model_set)])]"

text \<open>In a registry that validates, the model set a profile names is registered and is itself
  valid, and the profile is bound to its current content: same revision, same fingerprint.\<close>

theorem registry_binds_profiles_to_model_sets:
  assumes "validate_runtime_registry fp (PDict g) = []"
    and "dget g ''runtime_profiles'' = PDict ps" and "dget g ''model_sets'' = PDict ms"
    and "(n, PDict p) \<in> set ps" and "dget p ''model_set'' = PStr r"
  shows "\<exists>m. map_of ms r = Some (PDict m) \<and> validate_model_set r (PDict m) = []
     \<and> py_eq (dget p ''model_set_revision'') (dget m ''revision'')
     \<and> dget p ''model_set_fingerprint'' = PStr (fp (PDict m))"
proof -
  note valid = validate_runtime_registryD [OF assms(1-3)]
  have "reference_errors fp ms (n, PDict p) = []" using valid(3) assms(4) by blast
  from reference_errorsD [OF this assms(5) valid(2)] show ?thesis
    using valid(2) map_of_SomeD by fastforce
qed

theorem registry_binds_profiles_to_model_sets_witness:
  "\<exists>m. map_of [(''flux'', PDict sample_model_set)] ''flux'' = Some (PDict m)
     \<and> validate_model_set ''flux'' (PDict m) = []
     \<and> py_eq (dget (sample_profile (sample_fp (PDict sample_model_set))) ''model_set_revision'') (dget m ''revision'')
     \<and> dget (sample_profile (sample_fp (PDict sample_model_set))) ''model_set_fingerprint''
         = PStr (sample_fp (PDict m))"
proof -
  have "validate_runtime_registry sample_fp (PDict sample_registry) = []"
    by code_simp
  then show ?thesis
    by (rule registry_binds_profiles_to_model_sets
        [where ps = "[(''image'', PDict (sample_profile (sample_fp (PDict sample_model_set))))]" and n = "''image''"])
      (simp_all add: sample_registry_def sample_profile_def dget_def)
qed

end
