(* ===== verification/Runtime_State.thy ===== *)
theory Runtime_State
  imports Runtime_Contracts "HOL-Library.AList"
begin

text \<open>
  \<open>scripts/runtime_state.py\<close>: the fenced state of the runtime instances. The store is the Python
  dictionary of the records, an association list in insertion order; every method runs under one
  lock, so it is one atomic function of the store. A raised exception is the left value of the
  result and leaves the store as it was. The time of a call is an argument, as \<open>now\<close> is in the source;
  the fingerprint of a profile is the parameter \<open>fp\<close>.
\<close>

section \<open>Data\<close>

datatype runtime_error =
    RuntimeStateError string
  | RuntimeStateErrors string "contract_error list"
  | RuntimeConflict string

datatype RuntimeControlState = RT_UNKNOWN | RT_STOPPED | RT_TRANSITIONING | RT_READY | RT_DEGRADED | RT_BLOCKED

datatype RuntimeDesiredState = WANT_STOPPED | WANT_READY

record RuntimeTransitionLease =
  rtl_instance_id :: string
  rtl_owner :: string
  rtl_fence :: int
  rtl_expires_at :: time

record RuntimeInstanceRecord =
  rt_instance_id :: string
  rt_profile_name :: string
  rt_profile_fingerprint :: string
  rt_desired_state :: RuntimeDesiredState
  rt_state :: RuntimeControlState
  rt_process_generation :: int
  rt_process_ready :: bool
  rt_model_ready :: bool
  rt_accepting :: bool
  rt_transition_owner :: "string option"
  rt_transition_fence :: int
  rt_transition_expires_at :: time
  rt_observed_at :: time
  rt_last_error :: "string option"

type_synonym rt_store = "(string \<times> RuntimeInstanceRecord) list"
type_synonym 'a rt_result = "runtime_error + 'a"

text \<open>The record a constructor call with the defaults of the class builds.\<close>

definition new_instance :: "string \<Rightarrow> string \<Rightarrow> string \<Rightarrow> time \<Rightarrow> RuntimeInstanceRecord" where
  "new_instance i name h t =
     \<lparr>rt_instance_id = i, rt_profile_name = name, rt_profile_fingerprint = h,
      rt_desired_state = WANT_STOPPED, rt_state = RT_UNKNOWN, rt_process_generation = 0,
      rt_process_ready = False, rt_model_ready = False, rt_accepting = False,
      rt_transition_owner = None, rt_transition_fence = 0, rt_transition_expires_at = 0,
      rt_observed_at = t, rt_last_error = None\<rparr>"

text \<open>The parameter \<open>desired_state\<close> is a string or a member of a string enumeration: its value.\<close>

definition desired_of :: "string \<Rightarrow> RuntimeDesiredState rt_result" where
  "desired_of v = (if v = ''stopped'' then Inr WANT_STOPPED
     else if v = ''ready'' then Inr WANT_READY
     else Inl (RuntimeStateError ''unsupported desired runtime state''))"

definition state_for_observation :: "pydict \<Rightarrow> RuntimeControlState" where
  "state_for_observation ob = (let s = dget ob ''state'' in
     if s = PStr ''ready'' then RT_READY
     else if s = PStr ''stopped'' then RT_STOPPED
     else if str_in s [''loading'', ''draining''] then RT_TRANSITIONING
     else if s = PStr ''faulted'' then RT_BLOCKED
     else RT_UNKNOWN)"

section \<open>Operations\<close>

definition rt_live :: "RuntimeInstanceRecord \<Rightarrow> time \<Rightarrow> bool" where
  "rt_live r t \<longleftrightarrow> opt_true (rt_transition_owner r) \<and> rt_transition_expires_at r > t"

definition require_owner :: "RuntimeInstanceRecord \<Rightarrow> RuntimeTransitionLease \<Rightarrow> time \<Rightarrow> unit rt_result" where
  "require_owner r l t =
     (if rtl_instance_id l \<noteq> rt_instance_id r
      then Inl (RuntimeStateError ''lease instance does not match runtime record'')
      else if rt_transition_owner r \<noteq> Some (rtl_owner l) \<or> rt_transition_fence r \<noteq> rtl_fence l
              \<or> \<not> opt_true (rt_transition_owner r) \<or> rt_transition_expires_at r \<le> t
      then Inl (RuntimeConflict ''runtime transition lease is stale or expired'')
      else Inr ())"

definition register ::
  "(pyval \<Rightarrow> string) \<Rightarrow> rt_store \<Rightarrow> string \<Rightarrow> string \<Rightarrow> pydict \<Rightarrow> time
     \<Rightarrow> (RuntimeInstanceRecord \<times> rt_store) rt_result" where
  "register fp s i name profile t =
     (let errors = validate_runtime_profile name (PDict profile); h = fp (PDict profile) in
      if errors \<noteq> [] then Inl (RuntimeStateErrors ''invalid runtime profile'' errors)
      else if blank i then Inl (RuntimeStateError ''instance_id must be non-empty'')
      else case map_of s i of
        Some r \<Rightarrow>
          let same = (rt_profile_name r = name \<and> rt_profile_fingerprint r = h) in
          if rt_live r t then Inl (RuntimeConflict ''cannot replace a runtime during a live transition'')
          else if rt_state r = RT_READY \<and> \<not> same
          then Inl (RuntimeConflict ''cannot replace an admitted runtime profile'')
          else let r' = r\<lparr>rt_profile_name := name, rt_profile_fingerprint := h,
                 rt_state := (if same then rt_state r else RT_UNKNOWN),
                 rt_process_ready := (if same then rt_process_ready r else False),
                 rt_model_ready := (if same then rt_model_ready r else False),
                 rt_accepting := (if same then rt_accepting r else False),
                 rt_observed_at := t\<rparr>
               in Inr (r', AList.update i r' s)
      | None \<Rightarrow> let r' = new_instance i name h t in Inr (r', AList.update i r' s))"

definition rt_begin ::
  "(pyval \<Rightarrow> string) \<Rightarrow> rt_store \<Rightarrow> string \<Rightarrow> string \<Rightarrow> pydict \<Rightarrow> string \<Rightarrow> string \<Rightarrow> time \<Rightarrow> time
     \<Rightarrow> (RuntimeInstanceRecord \<times> RuntimeTransitionLease \<times> rt_store) rt_result" where
  "rt_begin fp s i name profile owner desired ttl t =
     (let errors = validate_runtime_profile name (PDict profile); h = fp (PDict profile) in
      if errors \<noteq> [] then Inl (RuntimeStateErrors ''invalid runtime profile'' errors)
      else if blank owner then Inl (RuntimeStateError ''transition owner must be non-empty'')
      else case desired_of desired of
        Inl e \<Rightarrow> Inl e
      | Inr want \<Rightarrow>
          let r = (case map_of s i of None \<Rightarrow> new_instance i name h t | Some r \<Rightarrow> r) in
          if rt_live r t then Inl (RuntimeConflict ''runtime transition already owned'')
          else
            let r' = r\<lparr>rt_profile_name := name, rt_profile_fingerprint := h, rt_desired_state := want,
                  rt_state := RT_TRANSITIONING, rt_process_ready := False, rt_model_ready := False,
                  rt_accepting := False, rt_transition_owner := Some owner,
                  rt_transition_fence := rt_transition_fence r + 1,
                  rt_transition_expires_at := t + max (1 / 10) ttl, rt_last_error := None, rt_observed_at := t\<rparr>
            in Inr (r', \<lparr>rtl_instance_id = i, rtl_owner = owner, rtl_fence = rt_transition_fence r + 1,
                         rtl_expires_at = rt_transition_expires_at r'\<rparr>, AList.update i r' s))"

definition rt_renew ::
  "rt_store \<Rightarrow> RuntimeTransitionLease \<Rightarrow> time \<Rightarrow> time \<Rightarrow> (RuntimeTransitionLease \<times> rt_store) rt_result" where
  "rt_renew s l ttl t =
     (case map_of s (rtl_instance_id l) of
        None \<Rightarrow> Inl (RuntimeConflict ''runtime instance is missing'')
      | Some r \<Rightarrow> (case require_owner r l t of
            Inl e \<Rightarrow> Inl e
          | Inr _ \<Rightarrow> let x = t + max (1 / 10) ttl in
              Inr (l\<lparr>rtl_expires_at := x\<rparr>,
                AList.update (rtl_instance_id l) (r\<lparr>rt_transition_expires_at := x, rt_observed_at := t\<rparr>) s)))"

definition fail_transition ::
  "rt_store \<Rightarrow> RuntimeTransitionLease \<Rightarrow> string \<Rightarrow> time \<Rightarrow> (RuntimeInstanceRecord \<times> rt_store) rt_result" where
  "fail_transition s l err t =
     (case map_of s (rtl_instance_id l) of
        None \<Rightarrow> Inl (RuntimeConflict ''runtime instance is missing'')
      | Some r \<Rightarrow> (case require_owner r l t of
            Inl e \<Rightarrow> Inl e
          | Inr _ \<Rightarrow>
              let r' = r\<lparr>rt_state := RT_BLOCKED, rt_process_ready := False, rt_model_ready := False,
                    rt_accepting := False, rt_transition_owner := None, rt_transition_expires_at := 0,
                    rt_observed_at := t,
                    rt_last_error := Some (let m = take 1000 err in
                      if m = [] then ''runtime transition failed'' else m)\<rparr>
              in Inr (r', AList.update (rtl_instance_id l) r' s)))"

text \<open>
  \<open>publish_observation\<close>. A \<open>profile_name\<close> that is not a string differs from its own text, so the
  validator rejects it whatever else the observation holds.
\<close>

definition observation_errors :: "(pyval \<Rightarrow> string) \<Rightarrow> pydict \<Rightarrow> pydict \<Rightarrow> contract_error list" where
  "observation_errors fp profile ob = (case dget ob ''profile_name'' of
     PStr name \<Rightarrow> validate_runtime_observation fp name profile (PDict ob)
   | _ \<Rightarrow> [Observation_error ''profile_name''])"

definition int_of :: "pyval \<Rightarrow> int" where
  "int_of v = (case v of PInt i \<Rightarrow> i | _ \<Rightarrow> 0)"

text \<open>The record an accepted observation turns \<open>r\<close> into.\<close>

definition observed_record :: "RuntimeInstanceRecord \<Rightarrow> pydict \<Rightarrow> time \<Rightarrow> RuntimeInstanceRecord" where
  "observed_record r ob t =
     (let gen = int_of (dget ob ''process_generation''); state = state_for_observation ob;
          settled = (state = RT_READY \<or> state = RT_STOPPED)
      in r\<lparr>rt_state := state,
           rt_process_generation := (if gen < rt_process_generation r then rt_process_generation r else gen),
           rt_process_ready := truthy (dget ob ''process_ready''),
           rt_model_ready := truthy (dget ob ''model_ready''),
           rt_accepting := truthy (dget ob ''accepting''),
           rt_transition_owner := (if settled then None else rt_transition_owner r),
           rt_transition_expires_at := (if settled then 0 else rt_transition_expires_at r),
           rt_observed_at := t,
           rt_last_error := (if state \<noteq> RT_BLOCKED then None else Some ''adapter reported faulted'')\<rparr>)"

definition publish_observation ::
  "(pyval \<Rightarrow> string) \<Rightarrow> rt_store \<Rightarrow> RuntimeTransitionLease \<Rightarrow> pydict \<Rightarrow> pydict \<Rightarrow> time
     \<Rightarrow> (RuntimeInstanceRecord \<times> rt_store) rt_result" where
  "publish_observation fp s l profile ob t =
     (let errors = observation_errors fp profile ob in
      if errors \<noteq> [] then Inl (RuntimeStateErrors ''invalid runtime observation'' errors)
      else case map_of s (rtl_instance_id l) of
        None \<Rightarrow> Inl (RuntimeStateError ''runtime instance is missing'')
      | Some r \<Rightarrow> (case require_owner r l t of
            Inl e \<Rightarrow> Inl e
          | Inr _ \<Rightarrow>
              let r' = observed_record r ob t in
              if dget ob ''profile_name'' \<noteq> PStr (rt_profile_name r)
                 \<or> rt_profile_fingerprint r \<noteq> fp (PDict profile)
              then Inl (RuntimeStateError ''observation profile does not match transition profile'')
              else if int_of (dget ob ''process_generation'') < rt_process_generation r
                 \<and> dget ob ''state'' \<noteq> PStr ''stopped''
              then Inl (RuntimeConflict ''runtime observation is from an older process generation'')
              else if rt_state r' = RT_READY \<and> rt_desired_state r \<noteq> WANT_READY
              then Inl (RuntimeStateError ''ready observation contradicts desired stopped state'')
              else if rt_state r' = RT_READY \<and> \<not> (rt_process_ready r' \<and> rt_model_ready r' \<and> rt_accepting r')
              then Inl (RuntimeStateError ''ready observation is not accepting'')
              else Inr (r', AList.update (rtl_instance_id l) r' s)))"

definition snapshot :: "rt_store \<Rightarrow> string \<Rightarrow> RuntimeInstanceRecord rt_result" where
  "snapshot s i = (case map_of s i of
     None \<Rightarrow> Inl (RuntimeStateError ''unknown runtime instance'') | Some r \<Rightarrow> Inr r)"

definition snapshots :: "rt_store \<Rightarrow> RuntimeInstanceRecord list" where
  "snapshots s = map snd (sort_key fst s)"

datatype admission_error =
    Not_registered
  | Profile_error contract_error
  | Wrong_profile_name
  | Wrong_fingerprint
  | State_is RuntimeControlState
  | Desired_is RuntimeDesiredState
  | Process_not_ready
  | Model_not_ready
  | Not_accepting
  | Generation_unknown
  | Transition_active

definition admission_errors ::
  "(pyval \<Rightarrow> string) \<Rightarrow> rt_store \<Rightarrow> string \<Rightarrow> string \<Rightarrow> pydict \<Rightarrow> time \<Rightarrow> admission_error list" where
  "admission_errors fp s i name profile t =
     (let errors = map Profile_error (validate_runtime_profile name (PDict profile)) in
      case map_of s i of
        None \<Rightarrow> Not_registered # errors
      | Some r \<Rightarrow>
          errors
          @ err_if (rt_profile_name r \<noteq> name) Wrong_profile_name
          @ err_if (rt_profile_fingerprint r \<noteq> fp (PDict profile)) Wrong_fingerprint
          @ err_if (rt_state r \<noteq> RT_READY) (State_is (rt_state r))
          @ err_if (rt_desired_state r \<noteq> WANT_READY) (Desired_is (rt_desired_state r))
          @ err_if (\<not> rt_process_ready r) Process_not_ready
          @ err_if (\<not> rt_model_ready r) Model_not_ready
          @ err_if (\<not> rt_accepting r) Not_accepting
          @ err_if (rt_process_generation r < 1) Generation_unknown
          @ err_if (rt_live r t) Transition_active)"

section \<open>The durable store\<close>

text \<open>
  \<open>FileRuntimeStateStore\<close> keeps the records in one JSON document that is replaced as a whole
  (\<open>os.replace\<close>) after every operation that succeeded. The file is the parsed document it holds
  (JSON text and the file system are outside the model; so is a write that fails). The loader of the source checks the
  shape of a record, the two enumerations, the identity and the sign of the fence; a field of
  another JSON type, which the source would keep as it is, has no place in the typed record and is
  a load error here.
\<close>

record file_store =
  fs_records :: rt_store
  fs_file :: "pyval option"

definition desired_text :: "RuntimeDesiredState \<Rightarrow> string" where
  "desired_text d = (case d of WANT_STOPPED \<Rightarrow> ''stopped'' | WANT_READY \<Rightarrow> ''ready'')"

definition control_text :: "RuntimeControlState \<Rightarrow> string" where
  "control_text c = (case c of RT_UNKNOWN \<Rightarrow> ''unknown'' | RT_STOPPED \<Rightarrow> ''stopped''
     | RT_TRANSITIONING \<Rightarrow> ''transitioning'' | RT_READY \<Rightarrow> ''ready'' | RT_DEGRADED \<Rightarrow> ''degraded''
     | RT_BLOCKED \<Rightarrow> ''blocked'')"

definition opt_val :: "string option \<Rightarrow> pyval" where
  "opt_val x = (case x of None \<Rightarrow> PNone | Some s \<Rightarrow> PStr s)"

text \<open>\<open>asdict(record)\<close>.\<close>

definition record_doc :: "RuntimeInstanceRecord \<Rightarrow> pydict" where
  "record_doc r =
     [(''instance_id'', PStr (rt_instance_id r)), (''profile_name'', PStr (rt_profile_name r)),
      (''profile_fingerprint'', PStr (rt_profile_fingerprint r)),
      (''desired_state'', PStr (desired_text (rt_desired_state r))),
      (''state'', PStr (control_text (rt_state r))),
      (''process_generation'', PInt (rt_process_generation r)),
      (''process_ready'', PBool (rt_process_ready r)), (''model_ready'', PBool (rt_model_ready r)),
      (''accepting'', PBool (rt_accepting r)), (''transition_owner'', opt_val (rt_transition_owner r)),
      (''transition_fence'', PInt (rt_transition_fence r)),
      (''transition_expires_at'', PFloat (rt_transition_expires_at r)),
      (''observed_at'', PFloat (rt_observed_at r)), (''last_error'', opt_val (rt_last_error r))]"

definition expected_fields :: "string list" where
  "expected_fields = [''instance_id'', ''profile_name'', ''profile_fingerprint'', ''desired_state'', ''state'',
     ''process_generation'', ''process_ready'', ''model_ready'', ''accepting'', ''transition_owner'',
     ''transition_fence'', ''transition_expires_at'', ''observed_at'', ''last_error'']"

definition read_control :: "string \<Rightarrow> RuntimeControlState option" where
  "read_control v = (if v = ''unknown'' then Some RT_UNKNOWN else if v = ''stopped'' then Some RT_STOPPED
     else if v = ''transitioning'' then Some RT_TRANSITIONING else if v = ''ready'' then Some RT_READY
     else if v = ''degraded'' then Some RT_DEGRADED else if v = ''blocked'' then Some RT_BLOCKED else None)"

definition as_str :: "pyval \<Rightarrow> string option" where
  "as_str v = (case v of PStr s \<Rightarrow> Some s | _ \<Rightarrow> None)"

definition as_int :: "pyval \<Rightarrow> int option" where
  "as_int v = (case v of PInt i \<Rightarrow> Some i | _ \<Rightarrow> None)"

definition as_bool :: "pyval \<Rightarrow> bool option" where
  "as_bool v = (case v of PBool b \<Rightarrow> Some b | _ \<Rightarrow> None)"

definition as_time :: "pyval \<Rightarrow> time option" where
  "as_time v = (case v of PFloat x \<Rightarrow> Some x | PInt i \<Rightarrow> Some (of_int i) | _ \<Rightarrow> None)"

definition as_opt_str :: "pyval \<Rightarrow> string option option" where
  "as_opt_str v = (case v of PNone \<Rightarrow> Some None | PStr s \<Rightarrow> Some (Some s) | _ \<Rightarrow> None)"

definition load_record :: "string \<Rightarrow> pyval \<Rightarrow> RuntimeInstanceRecord option" where
  "load_record i raw = (case raw of
     PDict d \<Rightarrow>
       if set (map fst d) \<noteq> set expected_fields then None
       else (case (as_str (dget d ''instance_id''), as_str (dget d ''profile_name''),
                   as_str (dget d ''profile_fingerprint''),
                   Option.bind (as_str (dget d ''desired_state'')) (\<lambda>v. case desired_of v of Inl _ \<Rightarrow> None | Inr w \<Rightarrow> Some w),
                   Option.bind (as_str (dget d ''state'')) read_control,
                   as_int (dget d ''process_generation''), as_bool (dget d ''process_ready''),
                   as_bool (dget d ''model_ready''), as_bool (dget d ''accepting''),
                   as_opt_str (dget d ''transition_owner''), as_int (dget d ''transition_fence''),
                   as_time (dget d ''transition_expires_at''), as_time (dget d ''observed_at''),
                   as_opt_str (dget d ''last_error'')) of
               (Some i', Some name, Some h, Some want, Some st, Some gen, Some pr, Some mr, Some acc,
                Some own, Some fence, Some x, Some ob, Some err) \<Rightarrow>
                 if i' \<noteq> i \<or> fence < 0 then None
                 else Some \<lparr>rt_instance_id = i', rt_profile_name = name, rt_profile_fingerprint = h,
                   rt_desired_state = want, rt_state = st, rt_process_generation = gen,
                   rt_process_ready = pr, rt_model_ready = mr, rt_accepting = acc,
                   rt_transition_owner = own, rt_transition_fence = fence,
                   rt_transition_expires_at = x, rt_observed_at = ob, rt_last_error = err\<rparr>
             | _ \<Rightarrow> None)
   | _ \<Rightarrow> None)"

fun load_records :: "pydict \<Rightarrow> rt_store option" where
  "load_records [] = Some []"
| "load_records ((i, raw) # rest) = (case (load_record i raw, load_records rest) of
     (Some r, Some s) \<Rightarrow> Some ((i, r) # s) | _ \<Rightarrow> None)"

definition load_error :: runtime_error where
  "load_error = RuntimeStateError ''cannot load durable runtime state''"

definition open_store :: "pyval option \<Rightarrow> file_store rt_result" where
  "open_store file = (case file of
     None \<Rightarrow> Inr \<lparr>fs_records = [], fs_file = None\<rparr>
   | Some (PDict d) \<Rightarrow>
       if dget d ''schema_version'' \<noteq> PStr ''runtime-state-store.v1'' then Inl load_error
       else (case dget d ''records'' of
               PDict raw \<Rightarrow> (case load_records raw of
                   None \<Rightarrow> Inl load_error | Some s \<Rightarrow> Inr \<lparr>fs_records = s, fs_file = file\<rparr>)
             | _ \<Rightarrow> Inl load_error)
   | Some _ \<Rightarrow> Inl load_error)"

definition state_document :: "rt_store \<Rightarrow> pyval" where
  "state_document s = PDict [(''schema_version'', PStr ''runtime-state-store.v1''),
     (''records'', PDict (map (\<lambda>(i, r). (i, PDict (record_doc r))) (sort_key fst s)))]"

definition persist :: "rt_store \<Rightarrow> file_store" where
  "persist s = \<lparr>fs_records = s, fs_file = Some (state_document s)\<rparr>"

definition file_register where
  "file_register fp fs i name profile t =
     map_sum id (\<lambda>(r, s). (r, persist s)) (register fp (fs_records fs) i name profile t)"

definition file_begin where
  "file_begin fp fs i name profile owner desired ttl t =
     map_sum id (\<lambda>(r, l, s). (r, l, persist s)) (rt_begin fp (fs_records fs) i name profile owner desired ttl t)"

definition file_renew where
  "file_renew fs l ttl t = map_sum id (\<lambda>(l', s). (l', persist s)) (rt_renew (fs_records fs) l ttl t)"

definition file_fail where
  "file_fail fs l err t = map_sum id (\<lambda>(r, s). (r, persist s)) (fail_transition (fs_records fs) l err t)"

definition file_publish where
  "file_publish fp fs l profile ob t =
     map_sum id (\<lambda>(r, s). (r, persist s)) (publish_observation fp (fs_records fs) l profile ob t)"

section \<open>Steps of the store\<close>

inductive rt_step :: "(pyval \<Rightarrow> string) \<Rightarrow> rt_store \<Rightarrow> rt_store \<Rightarrow> bool" for fp where
  step_register: "register fp s i name profile t = Inr (r, s') \<Longrightarrow> rt_step fp s s'"
| step_begin: "rt_begin fp s i name profile owner desired ttl t = Inr (r, l, s') \<Longrightarrow> rt_step fp s s'"
| step_renew: "rt_renew s l ttl t = Inr (l', s') \<Longrightarrow> rt_step fp s s'"
| step_fail: "fail_transition s l err t = Inr (r, s') \<Longrightarrow> rt_step fp s s'"
| step_publish: "publish_observation fp s l profile ob t = Inr (r, s') \<Longrightarrow> rt_step fp s s'"

text \<open>
  What every operation does to the record it writes: \<open>old\<close> is the record before (if any) and \<open>r\<close>
  the record written. The fence and the process generation never go down; the owner changes only
  together with the fence, or to none; a record becomes ready only with all its evidence.
\<close>

definition ready_ok :: "RuntimeInstanceRecord \<Rightarrow> bool" where
  "ready_ok r \<longleftrightarrow> rt_desired_state r = WANT_READY \<and> rt_process_ready r \<and> rt_model_ready r \<and> rt_accepting r
     \<and> 1 \<le> rt_process_generation r \<and> rt_transition_owner r = None"

definition rec_ok :: "string \<Rightarrow> RuntimeInstanceRecord \<Rightarrow> bool" where
  "rec_ok i r \<longleftrightarrow> rt_instance_id r = i \<and> 0 \<le> rt_transition_fence r \<and> 0 \<le> rt_process_generation r
     \<and> (rt_state r = RT_READY \<longrightarrow> ready_ok r)"

definition rec_fence :: "RuntimeInstanceRecord option \<Rightarrow> int" where
  "rec_fence x = (case x of None \<Rightarrow> 0 | Some r \<Rightarrow> rt_transition_fence r)"

definition rec_generation :: "RuntimeInstanceRecord option \<Rightarrow> int" where
  "rec_generation x = (case x of None \<Rightarrow> 0 | Some r \<Rightarrow> rt_process_generation r)"

definition rec_owner :: "RuntimeInstanceRecord option \<Rightarrow> string option" where
  "rec_owner x = (case x of None \<Rightarrow> None | Some r \<Rightarrow> rt_transition_owner r)"

definition rec_next :: "string \<Rightarrow> RuntimeInstanceRecord option \<Rightarrow> RuntimeInstanceRecord \<Rightarrow> bool" where
  "rec_next i old r \<longleftrightarrow> rec_ok i r \<and> rec_fence old \<le> rt_transition_fence r
     \<and> rec_generation old \<le> rt_process_generation r
     \<and> (rt_transition_owner r = rec_owner old \<or> rt_transition_owner r = None
        \<or> rec_fence old < rt_transition_fence r)"

definition wf_rt :: "rt_store \<Rightarrow> bool" where
  "wf_rt s \<longleftrightarrow> distinct (map fst s) \<and> (\<forall>i r. map_of s i = Some r \<longrightarrow> rec_ok i r)"

lemmas rec_defs = rec_next_def rec_ok_def rec_fence_def rec_generation_def rec_owner_def

lemma wf_rtD: "wf_rt s \<Longrightarrow> map_of s i = Some r \<Longrightarrow> rec_ok i r"
  by (simp add: wf_rt_def)

lemma require_owner_iff:
  "require_owner r l t = Inr u \<longleftrightarrow> rtl_instance_id l = rt_instance_id r
     \<and> rt_transition_owner r = Some (rtl_owner l) \<and> rtl_owner l \<noteq> []
     \<and> rt_transition_fence r = rtl_fence l \<and> t < rt_transition_expires_at r"
  by (auto simp: require_owner_def opt_true_iff)

lemma registerD:
  assumes "register fp s i name profile t = Inr (r, s')" and "wf_rt s"
  shows "s' = AList.update i r s" and "rec_next i (map_of s i) r"
  using assms wf_rtD [OF assms(2), of i]
  by (auto simp: register_def new_instance_def rec_defs ready_ok_def Let_def
      split: if_splits option.splits)

lemma rt_beginD:
  assumes "rt_begin fp s i name profile owner desired ttl t = Inr (r, l, s')" and "wf_rt s"
  shows "s' = AList.update i r s" and "rec_next i (map_of s i) r"
    and "\<exists>want. desired_of desired = Inr want \<and> rt_desired_state r = want"
    and "rt_transition_fence r = rec_fence (map_of s i) + 1"
    and "rt_transition_owner r = Some owner" and "owner \<noteq> []"
    and "rt_transition_expires_at r = t + max (1 / 10) ttl" and "rt_state r = RT_TRANSITIONING"
    and "l = \<lparr>rtl_instance_id = i, rtl_owner = owner, rtl_fence = rt_transition_fence r,
              rtl_expires_at = rt_transition_expires_at r\<rparr>"
    and "rt_instance_id r = i" and "rt_profile_name r = name"
    and "rt_profile_fingerprint r = fp (PDict profile)"
  using assms wf_rtD [OF assms(2), of i]
  by (auto simp: rt_begin_def new_instance_def rec_defs Let_def blank_def
      split: if_splits option.splits sum.splits)

lemma rt_renewD:
  assumes "rt_renew s l ttl t = Inr (l', s')" and "wf_rt s"
  shows "\<exists>r r'. map_of s (rtl_instance_id l) = Some r \<and> require_owner r l t = Inr ()
     \<and> s' = AList.update (rtl_instance_id l) r' s \<and> rec_next (rtl_instance_id l) (Some r) r'
     \<and> r' = r\<lparr>rt_transition_expires_at := t + max (1 / 10) ttl, rt_observed_at := t\<rparr>
     \<and> l' = l\<lparr>rtl_expires_at := t + max (1 / 10) ttl\<rparr>"
  using assms wf_rtD [OF assms(2), of "rtl_instance_id l"]
  by (auto simp: rt_renew_def rec_defs ready_ok_def Let_def split: if_splits option.splits sum.splits)

lemma fail_transitionD:
  assumes "fail_transition s l err t = Inr (r', s')" and "wf_rt s"
  shows "\<exists>r. map_of s (rtl_instance_id l) = Some r \<and> require_owner r l t = Inr ()"
    and "s' = AList.update (rtl_instance_id l) r' s"
    and "rec_next (rtl_instance_id l) (map_of s (rtl_instance_id l)) r'"
    and "rt_state r' = RT_BLOCKED" and "\<not> rt_accepting r'" and "rt_transition_owner r' = None"
    and "rt_transition_fence r' = rtl_fence l" and "rt_last_error r' \<noteq> None"
  using assms wf_rtD [OF assms(2), of "rtl_instance_id l"]
  by (auto simp: fail_transition_def rec_defs Let_def require_owner_iff
      split: if_splits option.splits sum.splits)

lemma observation_errorsD:
  assumes "observation_errors fp profile ob = []"
  shows "0 < int_of (dget ob ''process_generation'')"
    and "dget ob ''state'' \<in> PStr ` {''stopped'', ''loading'', ''ready'', ''draining'', ''faulted''}"
    and "dget ob ''process_ready'' \<in> range PBool" "dget ob ''model_ready'' \<in> range PBool"
      "dget ob ''accepting'' \<in> range PBool"
proof -
  obtain name where v: "validate_runtime_observation fp name profile (PDict ob) = []"
    using assms by (auto simp: observation_errors_def split: pyval.splits)
  have b: "is_bool u \<Longrightarrow> u \<in> range PBool" for u by (cases u) auto
  show "0 < int_of (dget ob ''process_generation'')"
    using v by (auto simp: validate_runtime_observation_def int_of_def elim!: pos_int.elims split: if_splits)
  show "dget ob ''state'' \<in> PStr ` {''stopped'', ''loading'', ''ready'', ''draining'', ''faulted''}"
    using v by (auto simp: validate_runtime_observation_def str_in_def split: if_splits pyval.splits)
  show "dget ob ''process_ready'' \<in> range PBool" "dget ob ''model_ready'' \<in> range PBool"
      "dget ob ''accepting'' \<in> range PBool"
    using v b by (auto simp: validate_runtime_observation_def split: if_splits)
qed

lemma observed_record_sel [simp]:
  "rt_instance_id (observed_record r ob t) = rt_instance_id r"
  "rt_profile_name (observed_record r ob t) = rt_profile_name r"
  "rt_profile_fingerprint (observed_record r ob t) = rt_profile_fingerprint r"
  "rt_desired_state (observed_record r ob t) = rt_desired_state r"
  "rt_state (observed_record r ob t) = state_for_observation ob"
  "rt_process_generation (observed_record r ob t)
     = max (rt_process_generation r) (int_of (dget ob ''process_generation''))"
  "rt_process_ready (observed_record r ob t) = truthy (dget ob ''process_ready'')"
  "rt_model_ready (observed_record r ob t) = truthy (dget ob ''model_ready'')"
  "rt_accepting (observed_record r ob t) = truthy (dget ob ''accepting'')"
  "rt_transition_fence (observed_record r ob t) = rt_transition_fence r"
  "rt_transition_owner (observed_record r ob t) =
     (if state_for_observation ob \<in> {RT_READY, RT_STOPPED} then None else rt_transition_owner r)"
  by (simp_all add: observed_record_def Let_def)

lemma publishE:
  assumes "publish_observation fp s l profile ob t = Inr (r', s')"
  obtains r where "map_of s (rtl_instance_id l) = Some r" and "require_owner r l t = Inr ()"
    and "r' = observed_record r ob t" and "s' = AList.update (rtl_instance_id l) r' s"
    and "observation_errors fp profile ob = []" and "dget ob ''profile_name'' = PStr (rt_profile_name r)"
    and "rt_profile_fingerprint r = fp (PDict profile)"
    and "rt_state r' = RT_READY \<longrightarrow>
      rt_desired_state r = WANT_READY \<and> rt_process_ready r' \<and> rt_model_ready r' \<and> rt_accepting r'"
  using assms
  by (auto simp: publish_observation_def Let_def split: if_splits option.splits sum.splits)

lemma publish_rec:
  assumes "publish_observation fp s l profile ob t = Inr (r', s')" and "wf_rt s"
  shows "s' = AList.update (rtl_instance_id l) r' s"
    and "rec_next (rtl_instance_id l) (map_of s (rtl_instance_id l)) r'"
proof -
  from assms(1) obtain r where r: "map_of s (rtl_instance_id l) = Some r"
    "r' = observed_record r ob t" "s' = AList.update (rtl_instance_id l) r' s"
    and e: "observation_errors fp profile ob = []"
    and ready: "rt_state r' = RT_READY \<longrightarrow>
      rt_desired_state r = WANT_READY \<and> rt_process_ready r' \<and> rt_model_ready r' \<and> rt_accepting r'"
    by (rule publishE) blast
  show "s' = AList.update (rtl_instance_id l) r' s" by fact
  have "rec_ok (rtl_instance_id l) r" using wf_rtD [OF assms(2) r(1)] .
  moreover have "rt_state r' = RT_READY \<longrightarrow> ready_ok r'"
    using ready observation_errorsD(1) [OF e] by (auto simp: r(2) ready_ok_def)
  ultimately show "rec_next (rtl_instance_id l) (map_of s (rtl_instance_id l)) r'"
    by (auto simp: r(1,2) rec_defs)
qed

lemma rt_step_rec:
  assumes "rt_step fp s s'" and "wf_rt s"
  shows "\<exists>i r. s' = AList.update i r s \<and> rec_next i (map_of s i) r"
  using assms
proof cases
  case step_renew
  then show ?thesis using rt_renewD [OF step_renew assms(2)] by metis
qed (use assms(2) registerD rt_beginD fail_transitionD publish_rec in metis)+

lemma wf_rt_update: "wf_rt s \<Longrightarrow> rec_ok i r \<Longrightarrow> wf_rt (AList.update i r s)"
  by (simp add: wf_rt_def update_conv' distinct_update)

lemma rt_step_wf: "rt_step fp s s' \<Longrightarrow> wf_rt s \<Longrightarrow> wf_rt s'"
  using rt_step_rec wf_rt_update rec_next_def by blast

lemma rt_step_mono:
  assumes "rt_step fp s s'" and "wf_rt s"
  shows "rec_fence (map_of s j) \<le> rec_fence (map_of s' j)"
    and "rec_generation (map_of s j) \<le> rec_generation (map_of s' j)"
  using rt_step_rec [OF assms] by (auto simp: update_conv' rec_next_def rec_fence_def rec_generation_def)

lemma wf_rt_Nil [simp]: "wf_rt []"
  by (simp add: wf_rt_def)

lemma rt_steps_wf: "(rt_step fp)\<^sup>*\<^sup>* s s' \<Longrightarrow> wf_rt s \<Longrightarrow> wf_rt s'"
  by (induction rule: rtranclp_induct) (auto intro: rt_step_wf)

lemma rt_steps_mono:
  assumes "(rt_step fp)\<^sup>*\<^sup>* s s'" and "wf_rt s"
  shows "rec_fence (map_of s j) \<le> rec_fence (map_of s' j)
    \<and> rec_generation (map_of s j) \<le> rec_generation (map_of s' j)"
  using assms
proof (induction rule: rtranclp_induct)
  case (step y z)
  then show ?case
    using rt_step_mono [OF step.hyps(2) rt_steps_wf [OF step.hyps(1)], of j] by linarith
qed simp

section \<open>A lease dies for good\<close>

text \<open>A lease is retired once the fence moved past it, or its transition is settled.\<close>

definition retired :: "rt_store \<Rightarrow> RuntimeTransitionLease \<Rightarrow> bool" where
  "retired s l \<longleftrightarrow> (let x = map_of s (rtl_instance_id l) in
     rtl_fence l < rec_fence x \<or> (rtl_fence l = rec_fence x \<and> rec_owner x = None))"

lemma retired_step: "rt_step fp s s' \<Longrightarrow> wf_rt s \<Longrightarrow> retired s l \<Longrightarrow> retired s' l"
  by (drule (1) rt_step_rec) (auto simp: retired_def Let_def update_conv' rec_defs split: option.splits)

lemma retired_steps: "(rt_step fp)\<^sup>*\<^sup>* s s' \<Longrightarrow> wf_rt s \<Longrightarrow> retired s l \<Longrightarrow> retired s' l"
  by (induction rule: rtranclp_induct) (auto intro: retired_step rt_steps_wf)

lemma retired_not_owner:
  "retired s l \<Longrightarrow> map_of s (rtl_instance_id l) = Some r \<Longrightarrow> require_owner r l t \<noteq> Inr u"
  by (auto simp: retired_def require_owner_iff rec_fence_def rec_owner_def)

lemma retired_rejected:
  assumes "retired s l"
  shows "rt_renew s l ttl t \<noteq> Inr x" and "fail_transition s l err t \<noteq> Inr y"
    and "publish_observation fp s l profile ob t \<noteq> Inr y"
proof -
  note no = retired_not_owner [OF assms]
  show "rt_renew s l ttl t \<noteq> Inr x" "fail_transition s l err t \<noteq> Inr y"
    by (auto simp: rt_renew_def fail_transition_def Let_def no split: option.splits sum.splits)
  show "publish_observation fp s l profile ob t \<noteq> Inr y"
    by (cases y) (auto elim: publishE simp: no)
qed

lemma isl_iff_not_Inr: "isl x \<longleftrightarrow> (\<forall>y. x \<noteq> Inr y)"
  by (cases x) auto

text \<open>The ways a transition ends: another one begins on the instance, or the lease fails it, or the
  lease publishes a ready or stopped observation.\<close>

definition ends_lease :: "(pyval \<Rightarrow> string) \<Rightarrow> RuntimeTransitionLease \<Rightarrow> rt_store \<Rightarrow> rt_store \<Rightarrow> bool" where
  "ends_lease fp l s s' \<longleftrightarrow>
     (\<exists>name profile owner desired ttl t r l'.
        rt_begin fp s (rtl_instance_id l) name profile owner desired ttl t = Inr (r, l', s'))
   \<or> (\<exists>err t r. fail_transition s l err t = Inr (r, s'))
   \<or> (\<exists>profile ob t r. publish_observation fp s l profile ob t = Inr (r, s')
        \<and> (rt_state r = RT_READY \<or> rt_state r = RT_STOPPED))"

lemma publish_settles:
  assumes "publish_observation fp s l profile ob t = Inr (r, s')"
    and "rt_state r = RT_READY \<or> rt_state r = RT_STOPPED"
  shows "retired s' l"
  using assms(1)
proof (rule publishE)
  fix r0
  assume r0: "require_owner r0 l t = Inr ()" "r = observed_record r0 ob t"
    "s' = AList.update (rtl_instance_id l) r s"
  have "rt_transition_owner r = None" "rt_transition_fence r = rtl_fence l"
    using assms(2) r0(1) by (auto simp: r0(2) require_owner_iff)
  then show ?thesis
    by (simp add: retired_def r0(3) update_conv' rec_fence_def rec_owner_def)
qed

lemma ends_lease_retires:
  assumes "ends_lease fp l s s'" and "wf_rt s" and "rtl_fence l \<le> rec_fence (map_of s (rtl_instance_id l))"
  shows "retired s' l" and "rt_step fp s s'"
proof -
  note e = assms(1) [unfolded ends_lease_def]
  show "retired s' l"
    using e
  proof (elim disjE exE conjE)
    fix name profile owner desired ttl t r l'
    assume b: "rt_begin fp s (rtl_instance_id l) name profile owner desired ttl t = Inr (r, l', s')"
    show ?thesis
      using rt_beginD(1,4) [OF b assms(2)] assms(3)
      by (simp add: retired_def update_conv') (simp add: rec_fence_def)
  next
    fix err t r
    assume f: "fail_transition s l err t = Inr (r, s')"
    show ?thesis
      using fail_transitionD(2,6,7) [OF f assms(2)]
      by (simp add: retired_def update_conv' rec_fence_def rec_owner_def)
  qed (auto intro: publish_settles)
  show "rt_step fp s s'"
    using e by (auto intro: rt_step.intros)
qed

section \<open>Persistence\<close>

lemma load_record_doc:
  assumes "rt_instance_id r = i" and "0 \<le> rt_transition_fence r"
  shows "load_record i (PDict (record_doc r)) = Some r"
proof -
  have d: "desired_of (desired_text w) = Inr w" for w
    by (cases w) (simp_all add: desired_of_def desired_text_def)
  have c: "read_control (control_text c) = Some c" for c
    by (cases c) (simp_all add: read_control_def control_text_def)
  have o: "as_opt_str (opt_val x) = Some x" for x
    by (cases x) (simp_all add: as_opt_str_def opt_val_def)
  have f: "map fst (record_doc r) = expected_fields"
    by (simp add: record_doc_def expected_fields_def)
  show ?thesis
    using assms
    by (simp add: load_record_def f) (simp add: record_doc_def dget_def as_str_def as_int_def
        as_bool_def as_time_def d c o)
qed

lemma load_records_doc:
  "\<forall>(i, r) \<in> set s. rt_instance_id r = i \<and> 0 \<le> rt_transition_fence r \<Longrightarrow>
     load_records (map (\<lambda>(i, r). (i, PDict (record_doc r))) s) = Some s"
  by (induction s) (auto simp: load_record_doc)

lemma map_of_sort_key: "distinct (map fst s) \<Longrightarrow> map_of (sort_key fst s) = map_of s"
  by (subst map_of_inject_set) (simp_all add: distinct_map inj_on_def)

lemma wf_rt_same_map: "wf_rt s \<Longrightarrow> distinct (map fst s') \<Longrightarrow> map_of s' = map_of s \<Longrightarrow> wf_rt s'"
  by (simp add: wf_rt_def)

lemma open_document:
  assumes "wf_rt s"
  shows "open_store (Some (state_document s))
    = Inr \<lparr>fs_records = sort_key fst s, fs_file = Some (state_document s)\<rparr>"
proof -
  have "\<forall>(i, r) \<in> set (sort_key fst s). rt_instance_id r = i \<and> 0 \<le> rt_transition_fence r"
    using assms by (auto simp: wf_rt_def rec_ok_def)
  from load_records_doc [OF this] show ?thesis
    by (simp add: open_store_def state_document_def dget_def)
qed

lemma wf_rt_sort_key: "wf_rt s \<Longrightarrow> wf_rt (sort_key fst s)"
  by (rule wf_rt_same_map) (auto simp: wf_rt_def map_of_sort_key distinct_map inj_on_def)

text \<open>The steps of the durable store; a restart reads the file back.\<close>

inductive file_step :: "(pyval \<Rightarrow> string) \<Rightarrow> file_store \<Rightarrow> file_store \<Rightarrow> bool" for fp where
  fstep_register: "file_register fp fs i name profile t = Inr (r, fs') \<Longrightarrow> file_step fp fs fs'"
| fstep_begin: "file_begin fp fs i name profile owner desired ttl t = Inr (r, l, fs') \<Longrightarrow> file_step fp fs fs'"
| fstep_renew: "file_renew fs l ttl t = Inr (l', fs') \<Longrightarrow> file_step fp fs fs'"
| fstep_fail: "file_fail fs l err t = Inr (r, fs') \<Longrightarrow> file_step fp fs fs'"
| fstep_publish: "file_publish fp fs l profile ob t = Inr (r, fs') \<Longrightarrow> file_step fp fs fs'"
| fstep_restart: "open_store (fs_file fs) = Inr fs' \<Longrightarrow> file_step fp fs fs'"

lemmas file_defs = file_register_def file_begin_def file_renew_def file_fail_def file_publish_def map_sum_Inr

lemma persist_sel [simp]: "fs_records (persist s) = s" "fs_file (persist s) = Some (state_document s)"
  by (simp_all add: persist_def)

definition synced :: "file_store \<Rightarrow> bool" where
  "synced fs \<longleftrightarrow> wf_rt (fs_records fs) \<and> (case fs_file fs of
     None \<Rightarrow> fs_records fs = []
   | Some d \<Rightarrow> \<exists>s. wf_rt s \<and> d = state_document s \<and> map_of s = map_of (fs_records fs))"

lemma synced_persist: "wf_rt s \<Longrightarrow> synced (persist s)"
  by (auto simp: synced_def)

lemma synced_restart:
  assumes "synced fs"
  shows "\<exists>fs'. open_store (fs_file fs) = Inr fs' \<and> synced fs'
     \<and> map_of (fs_records fs') = map_of (fs_records fs) \<and> fs_file fs' = fs_file fs"
proof (cases "fs_file fs")
  case None
  then show ?thesis using assms by (simp add: synced_def open_store_def)
next
  case (Some d)
  then obtain s where s: "wf_rt s" "d = state_document s" "map_of s = map_of (fs_records fs)"
    using assms by (auto simp: synced_def)
  have "map_of (sort_key fst s) = map_of s" using s(1) by (simp add: wf_rt_def map_of_sort_key)
  then show ?thesis
    using s Some wf_rt_sort_key [OF s(1)] by (auto simp: open_document synced_def)
qed

text \<open>A step of the durable store is a step of the store under it, or a restart that changes no record.\<close>

lemma file_stepD:
  assumes "file_step fp fs fs'"
  shows "(\<exists>s. rt_step fp (fs_records fs) s \<and> fs' = persist s) \<or> open_store (fs_file fs) = Inr fs'"
  using assms by cases (auto simp: file_defs, (blast intro: rt_step.intros)+)

lemma file_step_cases:
  assumes "file_step fp fs fs'" and "synced fs"
  shows "synced fs' \<and> (rt_step fp (fs_records fs) (fs_records fs')
      \<or> map_of (fs_records fs') = map_of (fs_records fs))"
proof -
  have wf: "wf_rt (fs_records fs)" using assms(2) by (simp add: synced_def)
  show ?thesis
    using file_stepD [OF assms(1)]
  proof
    assume "\<exists>s. rt_step fp (fs_records fs) s \<and> fs' = persist s"
    then show ?thesis using rt_step_wf wf synced_persist by fastforce
  qed (use synced_restart [OF assms(2)] in auto)
qed

lemma file_steps_synced: "(file_step fp)\<^sup>*\<^sup>* fs fs' \<Longrightarrow> synced fs \<Longrightarrow> synced fs'"
  by (induction rule: rtranclp_induct) (use file_step_cases in blast)+

lemma file_steps_mono:
  "(file_step fp)\<^sup>*\<^sup>* fs fs' \<Longrightarrow> synced fs \<Longrightarrow>
     rec_fence (map_of (fs_records fs) j) \<le> rec_fence (map_of (fs_records fs') j)
     \<and> rec_generation (map_of (fs_records fs) j) \<le> rec_generation (map_of (fs_records fs') j)"
proof (induction rule: rtranclp_induct)
  case (step y z)
  have y: "synced y" using step file_steps_synced by blast
  have "rec_fence (map_of (fs_records y) j) \<le> rec_fence (map_of (fs_records z) j)
     \<and> rec_generation (map_of (fs_records y) j) \<le> rec_generation (map_of (fs_records z) j)"
    using file_step_cases [OF step.hyps(2) y] rt_step_mono [of fp "fs_records y" "fs_records z" j] y
    by (auto simp: synced_def)
  then show ?case using step by linarith
qed simp

section \<open>Properties\<close>

text \<open>The profile, the instance and the observations of the witnesses.\<close>

definition sample_state_profile :: pydict where
  "sample_state_profile = [(''schema_version'', PStr ''runtime-profile.v1''), (''engine'', PStr ''llama.cpp''),
     (''adapter'', PStr ''systemd'')]"

definition sample_ready_observation :: pydict where
  "sample_ready_observation = [(''profile_name'', PStr ''chat''), (''profile_fingerprint'', PStr ''h''),
     (''state'', PStr ''ready''), (''process_generation'', PInt 7), (''process_ready'', PBool True),
     (''model_ready'', PBool True), (''accepting'', PBool True)]"

definition sample_hash :: "pyval \<Rightarrow> string" where
  "sample_hash v = ''h''"

definition sample_begun :: RuntimeInstanceRecord where
  "sample_begun = (new_instance ''gpu0'' ''chat'' ''h'' 100)
     \<lparr>rt_desired_state := WANT_READY, rt_state := RT_TRANSITIONING, rt_transition_owner := Some ''me'',
      rt_transition_fence := 1, rt_transition_expires_at := 280\<rparr>"

definition sample_rt_lease :: RuntimeTransitionLease where
  "sample_rt_lease = \<lparr>rtl_instance_id = ''gpu0'', rtl_owner = ''me'', rtl_fence = 1, rtl_expires_at = 280\<rparr>"

lemma sample_profile_valid: "validate_runtime_profile ''chat'' (PDict sample_state_profile) = []"
  by code_simp

lemma sample_observation_valid: "observation_errors sample_hash sample_state_profile sample_ready_observation = []"
  by code_simp

lemma sample_begin:
  "rt_begin sample_hash [] ''gpu0'' ''chat'' sample_state_profile ''me'' ''ready'' 180 100
     = Inr (sample_begun, sample_rt_lease, [(''gpu0'', sample_begun)])"
proof -
  have "\<not> blank ''me''" by code_simp
  then show ?thesis
    by (simp add: rt_begin_def sample_profile_valid desired_of_def new_instance_def rt_live_def
        sample_hash_def sample_begun_def sample_rt_lease_def Let_def)
qed

definition sample_published :: RuntimeInstanceRecord where
  "sample_published = observed_record sample_begun sample_ready_observation 120"

lemma sample_state_ready: "state_for_observation sample_ready_observation = RT_READY"
  by (simp add: state_for_observation_def sample_ready_observation_def dget_def)

lemma sample_publish:
  "publish_observation sample_hash [(''gpu0'', sample_begun)] sample_rt_lease sample_state_profile
     sample_ready_observation 120 = Inr (sample_published, [(''gpu0'', sample_published)])"
proof -
  have "require_owner sample_begun sample_rt_lease 120 = Inr ()"
    by (simp add: require_owner_iff sample_begun_def sample_rt_lease_def new_instance_def)
  moreover have "int_of (dget sample_ready_observation ''process_generation'') = 7"
      "dget sample_ready_observation ''profile_name'' = PStr ''chat''"
      "dget sample_ready_observation ''process_ready'' = PBool True"
      "dget sample_ready_observation ''model_ready'' = PBool True"
      "dget sample_ready_observation ''accepting'' = PBool True"
    by (simp_all add: sample_ready_observation_def dget_def int_of_def)
  ultimately show ?thesis
    by (simp add: publish_observation_def sample_observation_valid sample_state_ready sample_published_def)
      (simp add: sample_begun_def sample_rt_lease_def new_instance_def sample_hash_def Let_def)
qed

lemma sample_steps: "(rt_step sample_hash)\<^sup>*\<^sup>* [] [(''gpu0'', sample_begun)]"
    "rt_step sample_hash [(''gpu0'', sample_begun)] [(''gpu0'', sample_published)]"
  using step_begin [OF sample_begin] step_publish [OF sample_publish] by auto

text \<open>Admission is exactly readiness: in every store the operations can reach, the admission check
  reports no error if and only if the profile is valid and the instance is READY with that very
  profile name and fingerprint; and READY means that ready was asked for, that process, model and
  acceptance were observed on a known process generation, and that no transition owns the instance.\<close>

theorem admission_iff_ready:
  assumes "(rt_step fp)\<^sup>*\<^sup>* [] s"
  shows "(admission_errors fp s i name profile t = [] \<longleftrightarrow>
            validate_runtime_profile name (PDict profile) = []
            \<and> (\<exists>r. map_of s i = Some r \<and> rt_state r = RT_READY \<and> rt_profile_name r = name
                  \<and> rt_profile_fingerprint r = fp (PDict profile)))
     \<and> (\<forall>r. map_of s i = Some r \<and> rt_state r = RT_READY \<longrightarrow>
           rt_desired_state r = WANT_READY \<and> rt_process_ready r \<and> rt_model_ready r \<and> rt_accepting r
           \<and> 1 \<le> rt_process_generation r \<and> rt_transition_owner r = None)"
proof -
  have ok: "map_of s i = Some r \<Longrightarrow> rt_state r = RT_READY \<Longrightarrow> ready_ok r" for r
    using rt_steps_wf [OF assms] wf_rtD rec_ok_def by auto
  show ?thesis
  proof (cases "map_of s i")
    case (Some r)
    then show ?thesis
      using ok [OF Some]
      by (cases "rt_state r = RT_READY") (auto simp: admission_errors_def Let_def ready_ok_def rt_live_def)
  qed (simp add: admission_errors_def Let_def)
qed

theorem admission_iff_ready_witness:
  "admission_errors sample_hash [(''gpu0'', sample_published)] ''gpu0'' ''chat'' sample_state_profile 130 = []
   \<and> admission_errors sample_hash [(''gpu0'', sample_begun)] ''gpu0'' ''chat'' sample_state_profile 130 \<noteq> []"
proof -
  have steps: "(rt_step sample_hash)\<^sup>*\<^sup>* [] [(''gpu0'', sample_begun)]"
      "(rt_step sample_hash)\<^sup>*\<^sup>* [] [(''gpu0'', sample_published)]"
    using sample_steps by (blast intro: rtranclp.rtrancl_into_rtrancl)+
  have r: "rt_state sample_published = RT_READY" "rt_profile_name sample_published = ''chat''"
      "rt_profile_fingerprint sample_published = ''h''" "rt_state sample_begun = RT_TRANSITIONING"
    by (simp_all add: sample_published_def sample_state_ready) (simp_all add: sample_begun_def new_instance_def)
  show ?thesis
    using admission_iff_ready [OF steps(1), of "''gpu0''" "''chat''" sample_state_profile 130, THEN conjunct1]
      admission_iff_ready [OF steps(2), of "''gpu0''" "''chat''" sample_state_profile 130, THEN conjunct1]
    by (simp add: sample_profile_valid r sample_hash_def)
qed

text \<open>An instance becomes READY in one way only: the holder of its live transition lease publishes
  an observation that validates against the profile and reports the process ready, the model ready
  and the runtime accepting, while ready is what the transition was asked for.\<close>

theorem ready_only_by_evidence:
  assumes "(rt_step fp)\<^sup>*\<^sup>* [] s" and "rt_step fp s s'"
    and "map_of s' i = Some r'" and "rt_state r' = RT_READY"
    and "\<forall>r. map_of s i = Some r \<longrightarrow> rt_state r \<noteq> RT_READY"
  shows "\<exists>l profile ob t r. publish_observation fp s l profile ob t = Inr (r', s') \<and> rtl_instance_id l = i
     \<and> map_of s i = Some r \<and> rt_transition_owner r = Some (rtl_owner l)
     \<and> rt_transition_fence r = rtl_fence l \<and> t < rt_transition_expires_at r
     \<and> rt_desired_state r = WANT_READY \<and> observation_errors fp profile ob = []
     \<and> dget ob ''state'' = PStr ''ready'' \<and> dget ob ''process_ready'' = PBool True
     \<and> dget ob ''model_ready'' = PBool True \<and> dget ob ''accepting'' = PBool True"
proof -
  have wf: "wf_rt s" using rt_steps_wf [OF assms(1)] by simp
  have new: "s' = AList.update j x s \<Longrightarrow> j = i \<and> x = r'" for j x
    using assms(3-5) by (auto simp: update_conv' split: if_splits)
  show ?thesis
    using assms(2)
  proof cases
    case (step_register j name profile t r)
    have "r = r'" "j = i" using registerD(1) [OF step_register wf] new by auto
    then show ?thesis
      using step_register assms(4,5)
      by (auto simp: register_def new_instance_def Let_def split: if_splits option.splits)
  next
    case (step_begin j name profile owner desired ttl t r l)
    then show ?thesis using rt_beginD(1,8) [OF step_begin wf] new assms(4) by auto
  next
    case (step_renew l ttl t l')
    then show ?thesis
      using rt_renewD [OF step_renew wf] new assms(4,5) by fastforce
  next
    case (step_fail l err t r)
    then show ?thesis using fail_transitionD(2,4) [OF step_fail wf] new assms(4) by auto
  next
    case (step_publish l profile ob t r)
    from step_publish show ?thesis
    proof (rule publishE)
      fix r0
      assume r0: "map_of s (rtl_instance_id l) = Some r0" "require_owner r0 l t = Inr ()"
        "r = observed_record r0 ob t" "s' = AList.update (rtl_instance_id l) r s"
        and e: "observation_errors fp profile ob = []"
        and ready: "rt_state r = RT_READY \<longrightarrow> rt_desired_state r0 = WANT_READY \<and> rt_process_ready r
          \<and> rt_model_ready r \<and> rt_accepting r"
      have eq: "rtl_instance_id l = i" "r = r'" using new [OF r0(4)] by auto
      have st: "state_for_observation ob = RT_READY" using assms(4) unfolding eq(2) [symmetric] r0(3) by simp
      then have "dget ob ''state'' = PStr ''ready''"
        by (auto simp: state_for_observation_def Let_def split: if_splits)
      moreover have "truthy v \<Longrightarrow> v \<in> range PBool \<Longrightarrow> v = PBool True" for v by auto
      ultimately show ?thesis
        using step_publish r0 e ready eq st observation_errorsD(3-5) [OF e]
        by (intro exI [of _ l] exI [of _ profile] exI [of _ ob] exI [of _ t] exI [of _ r0])
          (auto simp: require_owner_iff)
    qed
  qed
qed

theorem ready_only_by_evidence_witness:
  "\<exists>l profile ob t r. publish_observation sample_hash [(''gpu0'', sample_begun)] l profile ob t
        = Inr (sample_published, [(''gpu0'', sample_published)]) \<and> rtl_instance_id l = ''gpu0''
     \<and> map_of [(''gpu0'', sample_begun)] ''gpu0'' = Some r \<and> rt_transition_owner r = Some (rtl_owner l)
     \<and> rt_transition_fence r = rtl_fence l \<and> t < rt_transition_expires_at r
     \<and> rt_desired_state r = WANT_READY \<and> observation_errors sample_hash profile ob = []
     \<and> dget ob ''state'' = PStr ''ready'' \<and> dget ob ''process_ready'' = PBool True
     \<and> dget ob ''model_ready'' = PBool True \<and> dget ob ''accepting'' = PBool True"
  by (rule ready_only_by_evidence [OF sample_steps])
    (simp_all add: sample_published_def sample_state_ready, simp add: sample_begun_def)

text \<open>C7. A transition lease dies for good. Once another transition begins on the instance, or the holder
  fails the transition, or publishes a ready or stopped observation, then in every store reached
  later, at every time, renewing with the lease, failing with it and publishing with it all raise.\<close>

theorem ended_lease_is_dead:
  assumes "(rt_step fp)\<^sup>*\<^sup>* [] s0"
    and "rt_begin fp s0 i name profile owner desired ttl t = Inr (r, l, s1)"
    and "(rt_step fp)\<^sup>*\<^sup>* s1 s2" and "ends_lease fp l s2 s3" and "(rt_step fp)\<^sup>*\<^sup>* s3 s4"
  shows "isl (rt_renew s4 l ttl' t') \<and> isl (fail_transition s4 l err t')
     \<and> isl (publish_observation fp s4 l profile' ob t')"
proof -
  have wf0: "wf_rt s0" using rt_steps_wf [OF assms(1)] by simp
  have wf1: "wf_rt s1" using rt_step_wf [OF step_begin [OF assms(2)] wf0] .
  have wf2: "wf_rt s2" using rt_steps_wf [OF assms(3) wf1] .
  have "rec_fence (map_of s1 (rtl_instance_id l)) = rtl_fence l"
    using rt_beginD(1,9) [OF assms(2) wf0] by (simp add: update_conv' rec_fence_def)
  then have le: "rtl_fence l \<le> rec_fence (map_of s2 (rtl_instance_id l))"
    using rt_steps_mono [OF assms(3) wf1, of "rtl_instance_id l"] by simp
  note ended = ends_lease_retires [OF assms(4) wf2 le]
  have "retired s4 l"
    using retired_steps [OF assms(5) rt_step_wf [OF ended(2) wf2] ended(1)] .
  then show ?thesis
    by (auto simp: isl_iff_not_Inr retired_rejected)
qed

theorem ended_lease_is_dead_witness:
  "isl (rt_renew [(''gpu0'', sample_published)] sample_rt_lease 180 130)
   \<and> isl (fail_transition [(''gpu0'', sample_published)] sample_rt_lease ''late'' 130)
   \<and> isl (publish_observation sample_hash [(''gpu0'', sample_published)] sample_rt_lease
            sample_state_profile sample_ready_observation 130)"
proof (rule ended_lease_is_dead [OF _ sample_begin])
  have "rt_state sample_published = RT_READY" by (simp add: sample_published_def sample_state_ready)
  then show "ends_lease sample_hash sample_rt_lease [(''gpu0'', sample_begun)] [(''gpu0'', sample_published)]"
    using sample_publish unfolding ends_lease_def by blast
qed simp_all

text \<open>C6. Fences survive restarts. Over any sequence of operations and restarts of the durable store, the
  file can be loaded and gives back every record, and a transition begun later on an instance, in
  this process or after any number of restarts, carries a larger fence than every earlier one; the
  observed process generation never goes back.\<close>

theorem fences_survive_restart:
  assumes "(file_step fp)\<^sup>*\<^sup>* \<lparr>fs_records = [], fs_file = None\<rparr> fs0"
    and "file_begin fp fs0 i name profile owner desired ttl t = Inr (r, l, fs1)"
    and "(file_step fp)\<^sup>*\<^sup>* fs1 fs2"
    and "file_begin fp fs2 i name' profile' owner' desired' ttl' t' = Inr (r', l', fs3)"
  shows "rtl_fence l < rtl_fence l' \<and> rt_process_generation r \<le> rt_process_generation r'
     \<and> (\<exists>fs. open_store (fs_file fs3) = Inr fs \<and> map_of (fs_records fs) = map_of (fs_records fs3))"
proof -
  have s0: "synced fs0" using file_steps_synced [OF assms(1)] by (simp add: synced_def)
  have s1: "synced fs1" using file_step_cases [OF fstep_begin [OF assms(2)] s0] by simp
  have s2: "synced fs2" using file_steps_synced [OF assms(3) s1] .
  have s3: "synced fs3" using file_step_cases [OF fstep_begin [OF assms(4)] s2] by simp
  obtain s1' where b1: "rt_begin fp (fs_records fs0) i name profile owner desired ttl t = Inr (r, l, s1')"
      "fs1 = persist s1'"
    using assms(2) by (auto simp: file_defs)
  obtain s3' where b2: "rt_begin fp (fs_records fs2) i name' profile' owner' desired' ttl' t' = Inr (r', l', s3')"
    using assms(4) by (auto simp: file_defs)
  note d1 = rt_beginD(1,9) [OF b1(1) s0 [unfolded synced_def, THEN conjunct1]]
  note d2 = rt_beginD(2,4,9) [OF b2 s2 [unfolded synced_def, THEN conjunct1]]
  have "rtl_fence l = rec_fence (map_of (fs_records fs1) i)"
      "rt_process_generation r = rec_generation (map_of (fs_records fs1) i)"
    using d1 b1(2) by (simp_all add: update_conv' rec_fence_def rec_generation_def)
  then show ?thesis
    using file_steps_mono [OF assms(3) s1, of i] d2 synced_restart [OF s3]
    by (auto simp: rec_next_def)
qed

definition sample_file :: file_store where
  "sample_file = persist [(''gpu0'', sample_begun)]"

theorem fences_survive_restart_witness:
  "\<exists>r' l' fs. file_begin sample_hash sample_file ''gpu0'' ''chat'' sample_state_profile ''you'' ''ready'' 180 300
      = Inr (r', l', fs) \<and> open_store (fs_file sample_file) = Inr sample_file
      \<and> rtl_fence sample_rt_lease < rtl_fence l'"
proof -
  have b: "file_begin sample_hash \<lparr>fs_records = [], fs_file = None\<rparr> ''gpu0'' ''chat'' sample_state_profile
      ''me'' ''ready'' 180 100 = Inr (sample_begun, sample_rt_lease, sample_file)"
    by (simp add: file_begin_def sample_begin sample_file_def)
  have wf: "wf_rt [(''gpu0'', sample_begun)]"
    by (simp add: wf_rt_def rec_ok_def sample_begun_def new_instance_def)
  have o: "open_store (fs_file sample_file) = Inr sample_file"
    using open_document [OF wf] by (simp add: sample_file_def persist_def)
  have "\<not> blank ''you''" by code_simp
  then have "\<exists>r' l' fs. file_begin sample_hash sample_file ''gpu0'' ''chat'' sample_state_profile ''you'' ''ready''
      180 300 = Inr (r', l', fs)"
    by (simp add: file_begin_def sample_file_def rt_begin_def sample_profile_valid desired_of_def
        rt_live_def sample_begun_def Let_def)
  then obtain r' l' fs where b': "file_begin sample_hash sample_file ''gpu0'' ''chat'' sample_state_profile
      ''you'' ''ready'' 180 300 = Inr (r', l', fs)" by blast
  have "rtl_fence sample_rt_lease < rtl_fence l'"
    using fences_survive_restart [OF _ b _ b'] fstep_restart [OF o] by simp
  then show ?thesis using o b' by blast
qed

end
