(* ===== verification/Runtime_Supervisor.thy ===== *)
theory Runtime_Supervisor
  imports Runtime_State "HOL-Library.Sublist"
begin

text \<open>
  \<open>scripts/runtime_supervisor.py\<close>: one fenced transition of a runtime instance, driven through an
  engine adapter. The adapter is code outside this module: the environment says what its n-th call
  returns, which keepalive ticks fire and what other clients do to the store while that call is in
  progress, and what the clocks show. The store is reached through its four operations only, so
  the transition is written over them and instantiated with the in-memory and the durable store.
  An exception is a left value; the state at the point where it was raised is kept.
\<close>

section \<open>The environment\<close>

datatype TransitionPhase =
    PH_INSPECT | PH_DRAIN | PH_UNLOAD | PH_STOP | PH_PREPARE | PH_LOAD | PH_HEALTH | PH_RECONCILE

definition phase_text :: "TransitionPhase \<Rightarrow> string" where
  "phase_text ph = (case ph of PH_INSPECT \<Rightarrow> ''inspect'' | PH_DRAIN \<Rightarrow> ''drain'' | PH_UNLOAD \<Rightarrow> ''unload''
     | PH_STOP \<Rightarrow> ''stop'' | PH_PREPARE \<Rightarrow> ''prepare'' | PH_LOAD \<Rightarrow> ''load'' | PH_HEALTH \<Rightarrow> ''health''
     | PH_RECONCILE \<Rightarrow> ''reconcile'')"

text \<open>What a call of the adapter does: it returns a document, raises, or the task is cancelled in it.\<close>

datatype adapter_result = Returned pydict | Raised string | Cancelled

text \<open>What happens while a call is in progress: the keepalive interval elapses, or another client
  changes the store.\<close>

datatype 's event = Tick time | Other "'s \<Rightarrow> 's"

record 's sup_env =
  en_adapter :: "nat \<Rightarrow> TransitionPhase \<Rightarrow> adapter_result"
  en_events :: "nat \<Rightarrow> 's event list"
  en_clock :: "nat \<Rightarrow> time"
  en_took :: "nat \<Rightarrow> time"
  en_now :: "time option"
  en_binds :: bool

text \<open>What the adapter sees, in order.\<close>

datatype adapter_event = Bind string int | Call TransitionPhase | Clear

record 's sup_state =
  su_store :: 's
  su_lost :: bool
  su_calls :: nat
  su_phase :: TransitionPhase
  su_trace :: "adapter_event list"

datatype sup_exn =
    Exn_cancelled
  | Exn_adapter string
  | Exn_store runtime_error
  | Exn_lost TransitionPhase
  | Exn_timeout
  | Exn_faulted
  | Exn_config

datatype sup_error =
    Sup_begin runtime_error
  | Sup_failed TransitionPhase sup_exn
  | Sup_fence_lost TransitionPhase runtime_error
  | Sup_cancelled

type_synonym ('s, 'a) sup = "'s sup_state \<Rightarrow> (sup_exn + 'a) \<times> 's sup_state"

type_synonym 's begin_op = "'s \<Rightarrow> string \<Rightarrow> string \<Rightarrow> pydict \<Rightarrow> string \<Rightarrow> string \<Rightarrow> time \<Rightarrow> time
  \<Rightarrow> (RuntimeInstanceRecord \<times> RuntimeTransitionLease \<times> 's) rt_result"
type_synonym 's renew_op = "'s \<Rightarrow> RuntimeTransitionLease \<Rightarrow> time \<Rightarrow> time \<Rightarrow> (RuntimeTransitionLease \<times> 's) rt_result"
type_synonym 's fail_op = "'s \<Rightarrow> RuntimeTransitionLease \<Rightarrow> string \<Rightarrow> time \<Rightarrow> (RuntimeInstanceRecord \<times> 's) rt_result"
type_synonym 's publish_op = "'s \<Rightarrow> RuntimeTransitionLease \<Rightarrow> pydict \<Rightarrow> pydict \<Rightarrow> time
  \<Rightarrow> (RuntimeInstanceRecord \<times> 's) rt_result"

definition xbind :: "('s, 'a) sup \<Rightarrow> ('a \<Rightarrow> ('s, 'b) sup) \<Rightarrow> ('s, 'b) sup" where
  "xbind m f st = (case m st of (Inl e, st') \<Rightarrow> (Inl e, st') | (Inr v, st') \<Rightarrow> f v st')"

definition xreturn :: "'a \<Rightarrow> ('s, 'a) sup" where
  "xreturn v st = (Inr v, st)"

section \<open>Keepalive\<close>

definition rt_keepalive_interval :: "time \<Rightarrow> time" where
  "rt_keepalive_interval ttl = max (5 / 100) (min (ttl / 3) 5)"

text \<open>The keepalive task renews on every tick until a renewal fails; then it reports the loss and ends.\<close>

fun during :: "'s renew_op \<Rightarrow> RuntimeTransitionLease \<Rightarrow> time \<Rightarrow> 's event list \<Rightarrow> 's \<times> bool \<Rightarrow> 's \<times> bool" where
  "during renew l ttl [] (s, lost) = (s, lost)"
| "during renew l ttl (Tick t # es) (s, lost) =
     during renew l ttl es
       (if lost then (s, lost) else (case renew s l ttl t of Inl _ \<Rightarrow> (s, True) | Inr (_, s') \<Rightarrow> (s', False)))"
| "during renew l ttl (Other f # es) (s, lost) = during renew l ttl es (f s, lost)"

text \<open>The n-th time the task waits: for an adapter call, or between two polls.\<close>

definition await :: "'s renew_op \<Rightarrow> RuntimeTransitionLease \<Rightarrow> time \<Rightarrow> 's sup_env \<Rightarrow> 's sup_state \<Rightarrow> 's sup_state" where
  "await renew l ttl env st =
     (let (s, lost) = during renew l ttl (en_events env (su_calls st)) (su_store st, su_lost st)
      in st\<lparr>su_store := s, su_lost := lost, su_calls := Suc (su_calls st)\<rparr>)"

definition adapter_call ::
  "'s renew_op \<Rightarrow> RuntimeTransitionLease \<Rightarrow> time \<Rightarrow> 's sup_env \<Rightarrow> TransitionPhase
     \<Rightarrow> 's sup_state \<Rightarrow> adapter_result \<times> 's sup_state" where
  "adapter_call renew l ttl env ph st =
     (let st' = await renew l ttl env st
      in (en_adapter env (su_calls st) ph, st'\<lparr>su_trace := su_trace st' @ [Call ph]\<rparr>))"

text \<open>Set the phase, call the adapter, and check that the lease is still held.\<close>

definition phase_call ::
  "'s renew_op \<Rightarrow> RuntimeTransitionLease \<Rightarrow> time \<Rightarrow> 's sup_env \<Rightarrow> TransitionPhase \<Rightarrow> ('s, pydict) sup" where
  "phase_call renew l ttl env ph st =
     (case adapter_call renew l ttl env ph (st\<lparr>su_phase := ph\<rparr>) of
        (Cancelled, st') \<Rightarrow> (Inl Exn_cancelled, st')
      | (Raised m, st') \<Rightarrow> (Inl (Exn_adapter m), st')
      | (Returned v, st') \<Rightarrow> (if su_lost st' then (Inl (Exn_lost ph), st') else (Inr v, st')))"

definition renew_or_raise ::
  "'s renew_op \<Rightarrow> RuntimeTransitionLease \<Rightarrow> time \<Rightarrow> 's sup_env \<Rightarrow> ('s, unit) sup" where
  "renew_or_raise renew l ttl env st =
     (case renew (su_store st) l ttl (en_clock env (su_calls st)) of
        Inl e \<Rightarrow> (Inl (Exn_store e), st)
      | Inr (_, s') \<Rightarrow> (Inr (), st\<lparr>su_store := s'\<rparr>))"

definition ensure_lease_live :: "('s, unit) sup" where
  "ensure_lease_live st = (if su_lost st then (Inl (Exn_lost (su_phase st)), st) else (Inr (), st))"

section \<open>Waiting for the desired state\<close>

definition observed_as :: "pydict \<Rightarrow> string \<Rightarrow> bool \<Rightarrow> bool" where
  "observed_as ob state b \<longleftrightarrow> dget ob ''state'' = PStr state \<and> dget ob ''process_ready'' = PBool b
     \<and> dget ob ''model_ready'' = PBool b \<and> dget ob ''accepting'' = PBool b"

definition observation_reached_desired :: "pydict \<Rightarrow> RuntimeDesiredState \<Rightarrow> bool" where
  "observation_reached_desired ob desired =
     (case desired of WANT_READY \<Rightarrow> observed_as ob ''ready'' True | WANT_STOPPED \<Rightarrow> observed_as ob ''stopped'' False)"

text \<open>The polling loop, at the time \<open>t\<close> of the event loop's clock.\<close>

function poll_desired ::
  "'s renew_op \<Rightarrow> RuntimeTransitionLease \<Rightarrow> time \<Rightarrow> 's sup_env \<Rightarrow> RuntimeDesiredState \<Rightarrow> time \<Rightarrow> time \<Rightarrow> time
     \<Rightarrow> ('s, pydict) sup" where
  "poll_desired renew l ttl env desired deadline poll t st =
     (if poll \<le> 0 then (Inl Exn_config, st)
      else case phase_call renew l ttl env PH_HEALTH st of
        (Inl e, st1) \<Rightarrow> (Inl e, st1)
      | (Inr ob, st1) \<Rightarrow>
          if observation_reached_desired ob desired then (Inr ob, st1)
          else if dget ob ''state'' = PStr ''faulted'' then (Inl Exn_faulted, st1)
          else
            let t1 = t + max 0 (en_took env (su_calls st)); remaining = deadline - t1 in
            if remaining \<le> 0 then (Inl Exn_timeout, st1)
            else
              let st2 = await renew l ttl env st1 in
              if su_lost st2 then (Inl (Exn_lost PH_HEALTH), st2)
              else poll_desired renew l ttl env desired deadline poll (t1 + min poll remaining) st2)"
  by pat_completeness auto

lemma poll_measure:
  fixes t t1 d p :: real
  assumes "0 < p" and "t \<le> t1" and "t1 < d"
  shows "\<lceil>(d - (t1 + min p (d - t1))) / p\<rceil> < \<lceil>(d - t) / p\<rceil>"
proof -
  have "(d - (t1 + min p (d - t1))) / p = max ((d - t1) / p - 1) 0"
    using assms by (auto simp: min_def max_def field_simps)
  then have "\<lceil>(d - (t1 + min p (d - t1))) / p\<rceil> = max (\<lceil>(d - t1) / p\<rceil> - 1) 0"
    by (simp add: max_def)
  moreover have "0 < \<lceil>(d - t1) / p\<rceil>" using assms by simp
  moreover have "\<lceil>(d - t1) / p\<rceil> \<le> \<lceil>(d - t) / p\<rceil>"
    using assms by (intro ceiling_mono divide_right_mono) auto
  ultimately show ?thesis by linarith
qed

termination poll_desired
  by (relation "measure (\<lambda>(renew, l, ttl, env, desired, deadline, poll, t, st). nat \<lceil>(deadline - t) / poll\<rceil>)")
    (auto intro: poll_measure)

declare poll_desired.simps [simp del]

definition wait_for_desired_observation ::
  "'s renew_op \<Rightarrow> RuntimeTransitionLease \<Rightarrow> time \<Rightarrow> 's sup_env \<Rightarrow> RuntimeDesiredState \<Rightarrow> time \<Rightarrow> time \<Rightarrow> time
     \<Rightarrow> ('s, pydict) sup" where
  "wait_for_desired_observation renew l ttl env desired timeout poll t st =
     (let st' = st\<lparr>su_phase := PH_HEALTH\<rparr> in
      if timeout \<le> 0 then (Inl Exn_config, st')
      else poll_desired renew l ttl env desired (t + timeout) poll t st')"

section \<open>One transition\<close>

definition op_time :: "'s sup_env \<Rightarrow> 's sup_state \<Rightarrow> time" where
  "op_time env st = (case en_now env of Some t \<Rightarrow> t | None \<Rightarrow> en_clock env (su_calls st))"

definition publish_step ::
  "'s publish_op \<Rightarrow> RuntimeTransitionLease \<Rightarrow> pydict \<Rightarrow> 's sup_env \<Rightarrow> pydict \<Rightarrow> ('s, RuntimeInstanceRecord) sup" where
  "publish_step publish l profile env ob st =
     (case publish (su_store st) l profile ob (op_time env st) of
        Inl e \<Rightarrow> (Inl (Exn_store e), st)
      | Inr (r, s') \<Rightarrow> (Inr r, st\<lparr>su_store := s'\<rparr>))"

text \<open>The calls between the inspection and the wait.\<close>

definition clear_old :: "'s renew_op \<Rightarrow> RuntimeTransitionLease \<Rightarrow> time \<Rightarrow> 's sup_env \<Rightarrow> pydict \<Rightarrow> ('s, unit) sup" where
  "clear_old renew l ttl env observed =
     (if observed_as observed ''stopped'' False then xreturn ()
      else xbind (phase_call renew l ttl env PH_DRAIN) (\<lambda>_.
           xbind (renew_or_raise renew l ttl env) (\<lambda>_.
           xbind (phase_call renew l ttl env PH_UNLOAD) (\<lambda>_.
           renew_or_raise renew l ttl env))))"

definition apply_desired ::
  "'s renew_op \<Rightarrow> RuntimeTransitionLease \<Rightarrow> time \<Rightarrow> 's sup_env \<Rightarrow> RuntimeDesiredState \<Rightarrow> ('s, pydict) sup" where
  "apply_desired renew l ttl env desired =
     (case desired of
        WANT_STOPPED \<Rightarrow> phase_call renew l ttl env PH_STOP
      | WANT_READY \<Rightarrow>
          xbind (phase_call renew l ttl env PH_PREPARE) (\<lambda>_.
          xbind (renew_or_raise renew l ttl env) (\<lambda>_.
          phase_call renew l ttl env PH_LOAD)))"

definition transition_body ::
  "'s renew_op \<Rightarrow> 's publish_op \<Rightarrow> RuntimeTransitionLease \<Rightarrow> time \<Rightarrow> 's sup_env \<Rightarrow> pydict \<Rightarrow> RuntimeDesiredState
     \<Rightarrow> time \<Rightarrow> time \<Rightarrow> time \<Rightarrow> ('s, RuntimeInstanceRecord) sup" where
  "transition_body renew publish l ttl env profile desired timeout poll t =
     xbind (phase_call renew l ttl env PH_INSPECT) (\<lambda>observed.
       if observation_reached_desired observed desired then publish_step publish l profile env observed
       else xbind (renew_or_raise renew l ttl env) (\<lambda>_.
            xbind ensure_lease_live (\<lambda>_.
            xbind (clear_old renew l ttl env observed) (\<lambda>_.
            xbind (apply_desired renew l ttl env desired) (\<lambda>_.
            xbind (wait_for_desired_observation renew l ttl env desired timeout poll t) (\<lambda>evidence.
            publish_step publish l profile env evidence))))))"

text \<open>The text of an exception, as far as it reaches the \<open>last_error\<close> of the record; the lists of
  validation messages are left out of it.\<close>

definition exn_text :: "sup_exn \<Rightarrow> string" where
  "exn_text e = (case e of
     Exn_cancelled \<Rightarrow> ''cancelled''
   | Exn_adapter m \<Rightarrow> m
   | Exn_store (RuntimeStateError m) \<Rightarrow> m
   | Exn_store (RuntimeStateErrors m _) \<Rightarrow> m
   | Exn_store (RuntimeConflict m) \<Rightarrow> m
   | Exn_lost ph \<Rightarrow> phase_text ph @ '' failed: runtime transition lease lost''
   | Exn_timeout \<Rightarrow> ''runtime did not reach the desired state before readiness timeout''
   | Exn_faulted \<Rightarrow> ''runtime reported a faulted state''
   | Exn_config \<Rightarrow> ''readiness timeout and poll interval must be positive'')"

text \<open>
  The two exception handlers: reconcile, whatever it returns or raises; then fail the transition. A
  cancellation inside reconcile is not an \<open>Exception\<close> and leaves the handler at once.
\<close>

definition transition_failed ::
  "'s renew_op \<Rightarrow> 's fail_op \<Rightarrow> RuntimeTransitionLease \<Rightarrow> time \<Rightarrow> 's sup_env \<Rightarrow> sup_exn \<Rightarrow> 's sup_state
     \<Rightarrow> sup_error \<times> 's sup_state" where
  "transition_failed renew fail l ttl env e st =
     (case adapter_call renew l ttl env PH_RECONCILE st of
        (Cancelled, st') \<Rightarrow> (Sup_cancelled, st')
      | (_, st') \<Rightarrow>
          (case fail (su_store st') l (phase_text (su_phase st) @ '': '' @ exn_text e) (op_time env st') of
             Inr (_, s') \<Rightarrow>
               (if e = Exn_cancelled then Sup_cancelled else Sup_failed (su_phase st) e, st'\<lparr>su_store := s'\<rparr>)
           | Inl fe \<Rightarrow>
               (if e = Exn_cancelled then Sup_cancelled else Sup_fence_lost (su_phase st) fe, st')))"

definition start_state :: "'s sup_env \<Rightarrow> 's \<Rightarrow> 's sup_state" where
  "start_state env s = \<lparr>su_store = s, su_lost = False, su_calls = 0, su_phase = PH_INSPECT, su_trace = []\<rparr>"

definition transition_runtime ::
  "'s begin_op \<Rightarrow> 's renew_op \<Rightarrow> 's fail_op \<Rightarrow> 's publish_op \<Rightarrow> 's sup_env \<Rightarrow> 's \<Rightarrow> string \<Rightarrow> string \<Rightarrow> pydict
     \<Rightarrow> string \<Rightarrow> string \<Rightarrow> time \<Rightarrow> time \<Rightarrow> time \<Rightarrow> time \<Rightarrow> (sup_error + RuntimeInstanceRecord) \<times> 's sup_state" where
  "transition_runtime begin_tr renew fail publish env s i name profile owner desired ttl timeout poll t =
     (let st0 = start_state env s in
      case begin_tr s i name profile owner desired ttl (op_time env st0) of
        Inl e \<Rightarrow> (Inl (Sup_begin e), st0)
      | Inr (r, l, s1) \<Rightarrow>
          let want = (if desired = ''ready'' then WANT_READY else WANT_STOPPED);
              st1 = st0\<lparr>su_store := s1,
                su_trace := (if en_binds env then [Bind (rtl_owner l) (rtl_fence l)] else [])\<rparr>;
              (res, st2) = (case transition_body renew publish l ttl env profile want timeout poll t st1 of
                 (Inr r, st') \<Rightarrow> (Inr r, st')
               | (Inl e, st') \<Rightarrow> map_prod Inl id (transition_failed renew fail l ttl env e st'))
          in (res, if en_binds env then st2\<lparr>su_trace := su_trace st2 @ [Clear]\<rparr> else st2))"

section \<open>Composition\<close>

lemma xbind_InlE:
  assumes "xbind m f st = (Inl e, st')"
  obtains "m st = (Inl e, st')" | v st1 where "m st = (Inr v, st1)" "f v st1 = (Inl e, st')"
  using assms by (auto simp: xbind_def split: prod.splits sum.splits)


text \<open>\<open>calls m plans\<close>: the adapter calls of \<open>m\<close> are a prefix of one of the plans, and all of it when
  \<open>m\<close> returns.\<close>

definition calls :: "('s, 'a) sup \<Rightarrow> TransitionPhase list set \<Rightarrow> bool" where
  "calls m plans \<longleftrightarrow> (\<forall>st res st'. m st = (res, st') \<longrightarrow>
     (\<exists>xs. \<exists>plan \<in> plans. su_trace st' = su_trace st @ map Call xs \<and> prefix xs plan \<and> (isl res \<or> xs = plan)))"

lemma callsI:
  assumes "\<And>st res st'. m st = (res, st') \<Longrightarrow>
    \<exists>xs. \<exists>plan \<in> plans. su_trace st' = su_trace st @ map Call xs \<and> prefix xs plan \<and> (isl res \<or> xs = plan)"
  shows "calls m plans"
  using assms by (auto simp: calls_def)

lemma callsD:
  assumes "calls m plans" and "m st = (res, st')"
  obtains xs plan where "plan \<in> plans" "su_trace st' = su_trace st @ map Call xs" "prefix xs plan"
    "isl res \<or> xs = plan"
  using assms unfolding calls_def by blast

lemma calls_xbind:
  assumes "calls m A" and "\<And>v. calls (f v) B" and "B \<noteq> {}"
  shows "calls (xbind m f) {a @ b | a b. a \<in> A \<and> b \<in> B}"
proof (rule callsI)
  fix st res st'
  assume run: "xbind m f st = (res, st')"
  obtain r1 st1 where m: "m st = (r1, st1)" by fastforce
  obtain xs a where xs: "a \<in> A" "su_trace st1 = su_trace st @ map Call xs" "prefix xs a" "isl r1 \<or> xs = a"
    using assms(1) m by (rule callsD)
  show "\<exists>xs. \<exists>plan \<in> {a @ b | a b. a \<in> A \<and> b \<in> B}. su_trace st' = su_trace st @ map Call xs
      \<and> prefix xs plan \<and> (isl res \<or> xs = plan)"
  proof (cases r1)
    case (Inl e)
    then have "res = Inl e" "st' = st1" using run m by (auto simp: xbind_def)
    moreover obtain b where "b \<in> B" using assms(3) by blast
    ultimately show ?thesis using xs by (force intro: prefix_prefix)
  next
    case (Inr v)
    then have "f v st1 = (res, st')" using run m by (simp add: xbind_def)
    then obtain ys b where ys: "b \<in> B" "su_trace st' = su_trace st1 @ map Call ys" "prefix ys b" "isl res \<or> ys = b"
      using assms(2) callsD by metis
    then show ?thesis
      using xs Inr by (intro exI [of _ "xs @ ys"] bexI [of _ "a @ b"]) auto
  qed
qed

lemma calls_mono: "calls m A \<Longrightarrow> A \<subseteq> B \<Longrightarrow> calls m B"
  unfolding calls_def by blast

lemma await_sel [simp]:
  "su_trace (await renew l ttl env st) = su_trace st" "su_phase (await renew l ttl env st) = su_phase st"
  "su_calls (await renew l ttl env st) = Suc (su_calls st)"
  by (simp_all add: await_def split_beta)

lemma adapter_call_sel [simp]:
  "fst (adapter_call renew l ttl env ph st) = en_adapter env (su_calls st) ph"
  "su_trace (snd (adapter_call renew l ttl env ph st)) = su_trace st @ [Call ph]"
  "su_store (snd (adapter_call renew l ttl env ph st)) = su_store (await renew l ttl env st)"
  "su_phase (snd (adapter_call renew l ttl env ph st)) = su_phase st"
  by (simp_all add: adapter_call_def)

lemma phase_call_res:
  "phase_call renew l ttl env ph st = (res, st') \<Longrightarrow>
     st' = snd (adapter_call renew l ttl env ph (st\<lparr>su_phase := ph\<rparr>))
     \<and> (\<forall>v. res = Inr v \<longrightarrow> en_adapter env (su_calls st) ph = Returned v)"
  by (cases "adapter_call renew l ttl env ph (st\<lparr>su_phase := ph\<rparr>)")
    (auto simp: phase_call_def adapter_call_def Let_def split: adapter_result.splits if_splits)

lemma calls_phase_call: "calls (phase_call renew l ttl env ph) {[ph]}"
  by (rule callsI) (force dest!: phase_call_res)

lemma calls_silent: "(\<And>st res st'. m st = (res, st') \<Longrightarrow> su_trace st' = su_trace st) \<Longrightarrow> calls m {[]}"
  by (rule callsI) force

lemma calls_renew_or_raise: "calls (renew_or_raise renew l ttl env) {[]}"
  by (rule calls_silent) (auto simp: renew_or_raise_def split: sum.splits prod.splits)

lemma calls_ensure: "calls ensure_lease_live {[]}"
  by (rule calls_silent) (auto simp: ensure_lease_live_def split: if_splits)

lemma calls_publish: "calls (publish_step publish l profile env ob) {[]}"
  by (rule calls_silent) (auto simp: publish_step_def split: sum.splits prod.splits)

lemmas calls_basic = calls_phase_call calls_renew_or_raise calls_ensure calls_publish

definition old_plan :: "pydict \<Rightarrow> TransitionPhase list" where
  "old_plan observed = (if observed_as observed ''stopped'' False then [] else [PH_DRAIN, PH_UNLOAD])"

definition new_plan :: "RuntimeDesiredState \<Rightarrow> TransitionPhase list" where
  "new_plan desired = (case desired of WANT_STOPPED \<Rightarrow> [PH_STOP] | WANT_READY \<Rightarrow> [PH_PREPARE, PH_LOAD])"

lemma calls_clear_old: "calls (clear_old renew l ttl env observed) {old_plan observed}"
proof (cases "observed_as observed ''stopped'' False")
  case True
  then show ?thesis by (auto simp: clear_old_def old_plan_def xreturn_def intro: calls_silent)
next
  case False
  have "calls (xbind (phase_call renew l ttl env PH_DRAIN) (\<lambda>_. xbind (renew_or_raise renew l ttl env) (\<lambda>_.
      xbind (phase_call renew l ttl env PH_UNLOAD) (\<lambda>_. renew_or_raise renew l ttl env)))) {[PH_DRAIN, PH_UNLOAD]}"
    by (rule calls_mono, (rule calls_xbind calls_basic | simp)+)
  then show ?thesis using False by (simp add: clear_old_def old_plan_def)
qed

lemma calls_apply_desired: "calls (apply_desired renew l ttl env desired) {new_plan desired}"
proof (cases desired)
  case WANT_READY
  have "calls (xbind (phase_call renew l ttl env PH_PREPARE) (\<lambda>_. xbind (renew_or_raise renew l ttl env) (\<lambda>_.
      phase_call renew l ttl env PH_LOAD))) {[PH_PREPARE, PH_LOAD]}"
    by (rule calls_mono, (rule calls_xbind calls_basic | simp)+)
  then show ?thesis using WANT_READY by (simp add: apply_desired_def new_plan_def)
qed (simp add: apply_desired_def new_plan_def calls_phase_call)

lemma poll_desired_run:
  "poll_desired renew l ttl env desired deadline poll t st = (res, st') \<Longrightarrow>
     (\<exists>n. su_trace st' = su_trace st @ map Call (replicate n PH_HEALTH))
     \<and> (\<forall>ob. res = Inr ob \<longrightarrow> observation_reached_desired ob desired
          \<and> (\<exists>k. en_adapter env k PH_HEALTH = Returned ob))"
proof (induction renew l ttl env desired deadline poll t st
    rule: poll_desired.induct)
  case (1 renew l ttl env desired deadline poll t st)
  note run = 1(2) [unfolded poll_desired.simps [of renew l ttl env desired deadline poll t st]]
  obtain r1 st1 where h: "phase_call renew l ttl env PH_HEALTH st = (r1, st1)" by fastforce
  have tr: "su_trace st1 = su_trace st @ [Call PH_HEALTH]"
    and ret: "r1 = Inr v \<Longrightarrow> en_adapter env (su_calls st) PH_HEALTH = Returned v" for v
    using phase_call_res [OF h] by auto
  have one: "\<exists>n. su_trace st1 = su_trace st @ map Call (replicate n PH_HEALTH)"
    using tr by (intro exI [of _ 1]) simp
  show ?case
  proof (cases "poll \<le> 0 \<or> isl r1")
    case True
    then show ?thesis using run h one
      by (cases r1) (auto split: if_splits intro: exI [of _ 0])
  next
    case False
    then obtain ob where ob: "r1 = Inr ob" and p: "\<not> poll \<le> 0" by (cases r1) auto
    let ?t1 = "t + max 0 (en_took env (su_calls st))"
    let ?st2 = "await renew l ttl env st1"
    show ?thesis
    proof (cases "observation_reached_desired ob desired \<or> dget ob ''state'' = PStr ''faulted''
        \<or> deadline - ?t1 \<le> 0 \<or> su_lost ?st2")
      case True
      then show ?thesis
        using run h one ob p ret [OF ob] by (auto simp: Let_def split: if_splits)
    next
      case False
      then have rec: "poll_desired renew l ttl env desired deadline poll (?t1 + min poll (deadline - ?t1)) ?st2
          = (res, st')"
        using run h ob p by (simp add: Let_def)
      have IH: "(\<exists>n. su_trace st' = su_trace ?st2 @ map Call (replicate n PH_HEALTH))
         \<and> (\<forall>ob. res = Inr ob \<longrightarrow> observation_reached_desired ob desired
              \<and> (\<exists>k. en_adapter env k PH_HEALTH = Returned ob))"
        by (rule 1(1) [OF p h [unfolded ob, symmetric] refl])
          (use False rec in auto)
      then obtain n where "su_trace st' = su_trace ?st2 @ map Call (replicate n PH_HEALTH)" by blast
      then have "su_trace st' = su_trace st @ map Call (replicate (Suc n) PH_HEALTH)"
        using tr by simp
      then show ?thesis using IH by blast
    qed
  qed
qed

lemma wait_run:
  "wait_for_desired_observation renew l ttl env desired timeout poll t st = (res, st') \<Longrightarrow>
     (\<exists>n. su_trace st' = su_trace st @ map Call (replicate n PH_HEALTH))
     \<and> (\<forall>ob. res = Inr ob \<longrightarrow> observation_reached_desired ob desired
          \<and> (\<exists>k. en_adapter env k PH_HEALTH = Returned ob))"
  by (auto simp: wait_for_desired_observation_def Let_def split: if_splits
      dest: poll_desired_run intro: exI [of _ 0])

lemma calls_wait:
  "calls (wait_for_desired_observation renew l ttl env desired timeout poll t) (range (\<lambda>n. replicate n PH_HEALTH))"
  by (rule callsI) (use wait_run in force)

definition inspected :: "'s sup_env \<Rightarrow> nat \<Rightarrow> pydict" where
  "inspected env n = (case en_adapter env n PH_INSPECT of Returned ob \<Rightarrow> ob | _ \<Rightarrow> [])"

text \<open>The calls of a transition, up to the number of polls.\<close>

definition transition_plan :: "pydict \<Rightarrow> RuntimeDesiredState \<Rightarrow> nat \<Rightarrow> TransitionPhase list" where
  "transition_plan observed desired n =
     PH_INSPECT # old_plan observed @ new_plan desired @ replicate n PH_HEALTH"

lemma body_trace:
  assumes "transition_body renew publish l ttl env profile desired timeout poll t st = (res, st')"
  shows "\<exists>n xs. su_trace st' = su_trace st @ map Call xs
     \<and> prefix xs (transition_plan (inspected env (su_calls st)) desired n)
     \<and> (observation_reached_desired (inspected env (su_calls st)) desired \<longrightarrow> xs = [PH_INSPECT])"
proof -
  obtain r1 st1 where h: "phase_call renew l ttl env PH_INSPECT st = (r1, st1)" by fastforce
  have tr: "su_trace st1 = su_trace st @ [Call PH_INSPECT]" using phase_call_res [OF h] by simp
  let ?rest = "\<lambda>ob. xbind (renew_or_raise renew l ttl env) (\<lambda>_. xbind ensure_lease_live (\<lambda>_.
      xbind (clear_old renew l ttl env ob) (\<lambda>_. xbind (apply_desired renew l ttl env desired) (\<lambda>_.
      xbind (wait_for_desired_observation renew l ttl env desired timeout poll t) (\<lambda>evidence.
      publish_step publish l profile env evidence)))))"
  have rest: "calls (?rest ob) {old_plan ob @ new_plan desired @ replicate n PH_HEALTH | n. True}" for ob
    by (rule calls_mono, (rule calls_xbind calls_basic calls_clear_old calls_apply_desired calls_wait | simp)+)
      auto
  show ?thesis
  proof (cases r1)
    case (Inl e)
    then have "st' = st1" using assms h by (simp add: transition_body_def xbind_def)
    then show ?thesis using tr by (auto simp: transition_plan_def intro!: exI [of _ "[PH_INSPECT]"])
  next
    case (Inr ob)
    then have ins: "inspected env (su_calls st) = ob"
      using phase_call_res [OF h] by (simp add: inspected_def)
    show ?thesis
    proof (cases "observation_reached_desired ob desired")
      case True
      then have "publish_step publish l profile env ob st1 = (res, st')"
        using assms h Inr by (simp add: transition_body_def xbind_def)
      then have "su_trace st' = su_trace st1" by (auto simp: publish_step_def split: sum.splits prod.splits)
      then show ?thesis using tr by (auto simp: transition_plan_def intro!: exI [of _ "[PH_INSPECT]"])
    next
      case False
      then have "?rest ob st1 = (res, st')"
        using assms h Inr by (simp add: transition_body_def xbind_def)
      with rest obtain xs plan where "plan \<in> {old_plan ob @ new_plan desired @ replicate n PH_HEALTH | n. True}"
          "su_trace st' = su_trace st1 @ map Call xs" "prefix xs plan"
        by (rule callsD)
      then obtain n where "su_trace st' = su_trace st1 @ map Call xs"
          "prefix xs (old_plan ob @ new_plan desired @ replicate n PH_HEALTH)" by blast
      then show ?thesis
        using tr ins False
        by (intro exI [of _ n] exI [of _ "PH_INSPECT # xs"]) (simp add: transition_plan_def)
    qed
  qed
qed

section \<open>The contract of the store\<close>








section \<open>The two stores\<close>



section \<open>Properties\<close>

text \<open>The environment of the witnesses: an adapter that already runs the requested model.\<close>

definition sample_env :: "file_store sup_env" where
  "sample_env = \<lparr>en_adapter = (\<lambda>n ph. Returned sample_ready_observation), en_events = (\<lambda>n. []),
     en_clock = (\<lambda>n. if n = 0 then 100 else 120), en_took = (\<lambda>n. 1), en_now = None, en_binds = True\<rparr>"

definition sample_new_file :: file_store where
  "sample_new_file = \<lparr>fs_records = [], fs_file = None\<rparr>"

lemma sample_reached: "observation_reached_desired sample_ready_observation WANT_READY"
  by (simp add: observation_reached_desired_def observed_as_def sample_ready_observation_def dget_def)

lemma sample_transition:
  "fst (transition_runtime (file_begin sample_hash) file_renew file_fail (file_publish sample_hash) sample_env
      sample_new_file ''gpu0'' ''chat'' sample_state_profile ''me'' ''ready'' 180 60 1 0) = Inr sample_published"
proof -
  have b: "file_begin sample_hash sample_new_file ''gpu0'' ''chat'' sample_state_profile ''me'' ''ready'' 180 100
      = Inr (sample_begun, sample_rt_lease, persist [(''gpu0'', sample_begun)])"
    by (simp add: file_begin_def sample_begin sample_new_file_def)
  have p: "file_publish sample_hash (persist [(''gpu0'', sample_begun)]) sample_rt_lease sample_state_profile
      sample_ready_observation 120 = Inr (sample_published, persist [(''gpu0'', sample_published)])"
    by (simp add: file_publish_def sample_publish)
  show ?thesis
    by (simp add: transition_runtime_def op_time_def start_state_def sample_env_def b transition_body_def xbind_def
        phase_call_def adapter_call_def await_def sample_reached publish_step_def p Let_def)
qed



text \<open>The adapter is driven in order. The calls a transition makes are a prefix of its plan:
  inspect; then drain and unload, unless inspection found the instance stopped; then stop, or
  prepare and load; then health polls. So nothing is loaded before the old model was drained and
  unloaded. When inspection already shows the desired state nothing else is called. After a
  failure only reconcile follows. An adapter that binds is bound to the lease first and cleared
  last.\<close>

theorem adapter_calls_follow_plan:
  assumes "transition_runtime begin_tr renew fail publish env s i name profile owner desired ttl timeout poll t = (res, st')"
    and "begin_tr s i name profile owner desired ttl (op_time env (start_state env s)) = Inr (r, l, s1)"
  shows "\<exists>n xs rest. su_trace st' = (if en_binds env then [Bind (rtl_owner l) (rtl_fence l)] else [])
            @ map Call xs @ rest @ (if en_binds env then [Clear] else [])
     \<and> prefix xs (PH_INSPECT
          # (if observed_as (inspected env 0) ''stopped'' False then [] else [PH_DRAIN, PH_UNLOAD])
          @ (if desired = ''ready'' then [PH_PREPARE, PH_LOAD] else [PH_STOP]) @ replicate n PH_HEALTH)
     \<and> (observation_reached_desired (inspected env 0) (if desired = ''ready'' then WANT_READY else WANT_STOPPED)
          \<longrightarrow> xs = [PH_INSPECT])
     \<and> rest = (if isl res then [Call PH_RECONCILE] else [])"
proof -
  define want where "want = (if desired = ''ready'' then WANT_READY else WANT_STOPPED)"
  define st1 where "st1 = (start_state env s)\<lparr>su_store := s1,
      su_trace := (if en_binds env then [Bind (rtl_owner l) (rtl_fence l)] else [])\<rparr>"
  obtain r2 st2 where body: "transition_body renew publish l ttl env profile want timeout poll t st1 = (r2, st2)"
    by fastforce
  note run = assms(1) [unfolded transition_runtime_def Let_def assms(2) sum.case prod.case,
      folded want_def st1_def, unfolded body prod.case]
  have "su_calls st1 = 0" by (simp add: st1_def start_state_def)
  with body_trace [OF body] obtain n xs where xs: "su_trace st2 = su_trace st1 @ map Call xs"
      "prefix xs (transition_plan (inspected env 0) want n)"
      "observation_reached_desired (inspected env 0) want \<longrightarrow> xs = [PH_INSPECT]" by auto
  have plan: "transition_plan (inspected env 0) want n = PH_INSPECT
        # (if observed_as (inspected env 0) ''stopped'' False then [] else [PH_DRAIN, PH_UNLOAD])
        @ (if desired = ''ready'' then [PH_PREPARE, PH_LOAD] else [PH_STOP]) @ replicate n PH_HEALTH"
    by (simp add: transition_plan_def old_plan_def new_plan_def want_def)
  have rec: "su_trace (snd (transition_failed renew fail l ttl env e st2)) = su_trace st2 @ [Call PH_RECONCILE]" for e
    by (cases "adapter_call renew l ttl env PH_RECONCILE st2")
      (auto simp: transition_failed_def adapter_call_def Let_def split: adapter_result.splits sum.splits)
  have "su_trace st' = su_trace st2 @ (if isl res then [Call PH_RECONCILE] else []) @ (if en_binds env then [Clear] else [])"
    using run rec by (cases r2) (auto simp: map_prod_def split_beta split: if_splits)
  then have "su_trace st' = (if en_binds env then [Bind (rtl_owner l) (rtl_fence l)] else []) @ map Call xs
      @ (if isl res then [Call PH_RECONCILE] else []) @ (if en_binds env then [Clear] else [])"
    using xs(1) by (simp add: st1_def)
  with xs(2) [unfolded plan] xs(3) [unfolded want_def] show ?thesis by blast
qed

theorem adapter_calls_follow_plan_witness:
  "su_trace (snd (transition_runtime (file_begin sample_hash) file_renew file_fail (file_publish sample_hash) sample_env
      sample_new_file ''gpu0'' ''chat'' sample_state_profile ''me'' ''ready'' 180 60 1 0))
   = [Bind ''me'' 1, Call PH_INSPECT, Clear]"
proof -
  have b: "file_begin sample_hash sample_new_file ''gpu0'' ''chat'' sample_state_profile ''me'' ''ready'' 180
      (op_time sample_env (start_state sample_env sample_new_file))
      = Inr (sample_begun, sample_rt_lease, persist [(''gpu0'', sample_begun)])"
    by (simp add: file_begin_def sample_begin sample_new_file_def op_time_def start_state_def sample_env_def)
  have e: "inspected sample_env 0 = sample_ready_observation" "en_binds sample_env"
    by (simp_all add: inspected_def sample_env_def)
  let ?x = "transition_runtime (file_begin sample_hash) file_renew file_fail (file_publish sample_hash) sample_env
      sample_new_file ''gpu0'' ''chat'' sample_state_profile ''me'' ''ready'' 180 60 1 0"
  have "?x = (Inr sample_published, snd ?x)" using sample_transition by (metis prod.collapse)
  from adapter_calls_follow_plan [OF this b] show ?thesis
    by (simp add: e sample_reached) (simp add: sample_rt_lease_def)
qed

end
