(* ===== verification/Broker_Contracts.thy ===== *)
theory Broker_Contracts
  imports Prelude
begin

text \<open>
  \<open>scripts/gemma_broker\<close>: the data contracts of the broker (\<open>contracts.py\<close>), the reduction of probe
  evidence to a member snapshot (\<open>readiness.py\<close>), the compatibility of a request with a member
  (\<open>compatibility.py\<close>) and bounded admission (\<open>admission.py\<close>). Configuration and probe
  dictionaries are records of the keys the code reads, \<open>None\<close> standing for a missing key; a value of a wrong type,
  on which \<open>int()\<close> or \<open>float()\<close> would raise, is outside the model.
\<close>

section \<open>Contracts\<close>

datatype MemberState = M_OFFLINE | M_JOINING | M_READY_ACCEPTING | M_READY_BUSY | M_DRAINING | M_UNHEALTHY | M_FAULTED

datatype JobState = J_QUEUED | J_CLAIMED | J_ACCEPTED | J_IN_FLIGHT | J_COMPLETED | J_FAILED | J_CANCELLED | J_OUTCOME_UNKNOWN

datatype AttemptState = A_RESERVED | A_FORWARDING | A_ACCEPTED | A_COMPLETED | A_FAILED | A_CANCELLED | A_OUTCOME_UNKNOWN

datatype Priority = INTERACTIVE | NORMAL | BACKGROUND

definition priority_value :: "Priority \<Rightarrow> int" where
  "priority_value p = (case p of INTERACTIVE \<Rightarrow> 0 | NORMAL \<Rightarrow> 10 | BACKGROUND \<Rightarrow> 20)"

datatype ReasonCode =
    MEMBER_CONFIG_DISABLED
  | MEMBER_IDLE_SERVICE_NOT_CONFIGURED
  | MEMBER_IDLE_SERVICE_NOT_EFFECTIVE
  | MEMBER_CONFLICTING_BUNDLE
  | MEMBER_SYSTEMD_INACTIVE
  | MEMBER_HTTP_UNREADY
  | MEMBER_PORT_DARK
  | MEMBER_PROBE_TIMEOUT
  | MEMBER_PROBE_DISCONNECTED
  | MEMBER_UNHEALTHY_RESPONSE
  | MEMBER_MODEL_NOT_RESIDENT
  | MEMBER_DISPATCHER_UNREGISTERED
  | MEMBER_DRAINING
  | MEMBER_UNHEALTHY
  | MEMBER_FAULTED
  | MEMBER_NO_CAPACITY
  | REQUEST_CONTEXT_INCOMPATIBLE
  | REQUEST_CAPABILITY_INCOMPATIBLE
  | REDIS_STATE_UNKNOWN
  | TELEMETRY_STALE
  | RESERVATION_STATE_STALE
  | PRE_ACCEPTANCE_REQUEUE
  | POST_ACCEPTANCE_OUTCOME_UNKNOWN
  | CANCELLED_BEFORE_ACCEPTANCE
  | CANCELLED_AFTER_ACCEPTANCE
  | CANCEL_UNSAFE_AFTER_ACCEPTANCE
  | IDEMPOTENCY_KEY_REUSED
  | MIGRATION_PEL_NOT_EMPTY
  | BASELINE_DRIFT
  | NO_ELIGIBLE_MEMBER
  | PRIORITY_INVALID
  | STREAMING_NOT_SUPPORTED
  | CRASH_EVIDENCE_CONFLICT

text \<open>The table of the legal member transitions.\<close>

fun allowed_member_transitions :: "MemberState \<Rightarrow> MemberState list" where
  "allowed_member_transitions M_OFFLINE = [M_JOINING]"
| "allowed_member_transitions M_JOINING = [M_READY_ACCEPTING, M_DRAINING, M_UNHEALTHY, M_FAULTED, M_OFFLINE]"
| "allowed_member_transitions M_READY_ACCEPTING = [M_READY_BUSY, M_DRAINING, M_UNHEALTHY, M_FAULTED]"
| "allowed_member_transitions M_READY_BUSY = [M_READY_ACCEPTING, M_DRAINING, M_UNHEALTHY, M_FAULTED]"
| "allowed_member_transitions M_DRAINING = [M_OFFLINE, M_FAULTED]"
| "allowed_member_transitions M_UNHEALTHY = [M_JOINING, M_DRAINING, M_OFFLINE, M_FAULTED]"
| "allowed_member_transitions M_FAULTED = [M_JOINING, M_OFFLINE]"

text \<open>\<open>validate_member_transition\<close> raises exactly when this is false.\<close>

definition member_transition_ok :: "MemberState \<Rightarrow> MemberState \<Rightarrow> bool" where
  "member_transition_ok current target \<longleftrightarrow> target \<in> set (allowed_member_transitions current)"

record MemberSnapshot =
  m_name :: string
  m_gpu_id :: "string option"
  m_state :: MemberState
  m_accepting :: bool
  m_configured_slots :: int
  m_context_per_slot :: int
  m_state_version :: int
  m_observed_at :: time
  m_generation_fence :: int
  m_backend_slots_total :: "int option"
  m_backend_slots_busy :: "int option"
  m_dispatcher_leases :: int
  m_drain_disabled_slots :: int
  m_compatible_free_slots :: "int option"
  m_capabilities :: "string list"
  m_idle_service_configured :: "string option"
  m_idle_service_effective :: "bool option"
  m_systemd_active :: bool
  m_main_pid :: "int option"
  m_semantic_health :: bool
  m_model_resident :: "bool option"
  m_dispatcher_registered :: bool
  m_snapshot_age_ms :: int
  m_blockers :: "string list"
  m_reason_codes :: "ReasonCode list"

record JobRecord =
  j_job_id :: string
  j_idempotency_key :: string
  j_request_sha256 :: string
  j_request_body :: pydict
  j_submitted_at :: time
  j_enqueue_sequence :: int
  j_base_priority :: Priority
  j_effective_priority :: int
  j_state :: JobState
  j_selected_member :: "string option"
  j_member_state_version :: "int option"
  j_attempt_count :: int
  j_current_attempt_id :: "string option"
  j_accepted_boundary_crossed :: bool
  j_queue_claimed_at :: "time option"
  j_forward_started_at :: "time option"
  j_completed_at :: "time option"
  j_input_tokens_estimate :: "int option"
  j_max_output_tokens :: "int option"
  j_required_capabilities :: "string list"
  j_result :: "pydict option"
  j_error :: "string option"
  j_reason_code :: "ReasonCode option"
  j_cancel_requested :: bool
  j_state_version :: int
  j_schema_version :: int

text \<open>\<open>x or 0\<close> on an optional integer.\<close>

definition or_0 :: "int option \<Rightarrow> int" where
  "or_0 x = (case x of None \<Rightarrow> 0 | Some i \<Rightarrow> i)"

lemma or_0_simps [simp]: "or_0 None = 0" "or_0 (Some i) = i"
  by (simp_all add: or_0_def)

section \<open>Readiness\<close>

record member_config =
  mc_gpu_id :: "string option"
  mc_cpu_only :: bool
  mc_parallel :: "int option"
  mc_worker_parallel :: "int option"
  mc_enabled :: bool
  mc_idle_service_configured :: "string option"
  mc_member_type :: "string option"
  mc_context_per_slot :: "int option"
  mc_capabilities :: "string list"

record member_probes =
  mp_observed_at :: "time option"
  mp_idle_service_effective :: "bool option"
  mp_conflicting_bundle :: bool
  mp_model_resident :: "bool option"
  mp_systemd_active :: bool
  mp_main_pid :: "int option"
  mp_semantic_health :: bool
  mp_probe_error :: "string option"
  mp_dispatcher_registered :: bool
  mp_backend_slots_total :: "int option"
  mp_backend_slots_busy :: "int option"
  mp_dispatcher_leases :: "int option"
  mp_drain_disabled_slots :: "int option"

definition cpu_only :: "member_config \<Rightarrow> bool" where
  "cpu_only c \<longleftrightarrow> mc_cpu_only c \<or> \<not> opt_true (mc_gpu_id c)"

definition configured_slots_of :: "member_config \<Rightarrow> int" where
  "configured_slots_of c = (case mc_parallel c of Some n \<Rightarrow> n | None \<Rightarrow> or_0 (mc_worker_parallel c))"

definition observed_at_of :: "member_probes \<Rightarrow> time" where
  "observed_at_of p = (case mp_observed_at p of None \<Rightarrow> 0 | Some t \<Rightarrow> t)"

definition snapshot_age :: "member_probes \<Rightarrow> time \<Rightarrow> int" where
  "snapshot_age p now = max 0 \<lfloor>(now - observed_at_of p) * 1000\<rfloor>"

text \<open>\<open>block(reason, detail)\<close> keeps the first detail of a reason; both lists grow together.\<close>

type_synonym blocks = "(ReasonCode \<times> string) list"

definition block :: "bool \<Rightarrow> ReasonCode \<Rightarrow> string \<Rightarrow> blocks \<Rightarrow> blocks" where
  "block cond reason detail bs = (if cond \<and> reason \<notin> fst ` set bs then bs @ [(reason, detail)] else bs)"

definition prefix_of :: "string \<Rightarrow> string \<Rightarrow> bool" where
  "prefix_of p s \<longleftrightarrow> take (length p) s = p"

text \<open>The chain on \<open>probe_error\<close>: the blocker of the HTTP probe, if any.\<close>

definition probe_block :: "member_probes \<Rightarrow> (ReasonCode \<times> string) option" where
  "probe_block p =
     (case mp_probe_error p of
        None \<Rightarrow> (if \<not> mp_semantic_health p then Some (MEMBER_HTTP_UNREADY, ''semantic HTTP health failed'') else None)
      | Some e \<Rightarrow>
          if e = ''connection_refused'' \<or> e = ''connection_error''
          then Some (MEMBER_PORT_DARK, ''port unreachable (connection refused)'')
          else if e = ''probe_timeout'' then Some (MEMBER_PROBE_TIMEOUT, ''probe timed out'')
          else if e = ''server_disconnected'' then Some (MEMBER_PROBE_DISCONNECTED, ''server disconnected'')
          else if prefix_of ''http_'' e then Some (MEMBER_UNHEALTHY_RESPONSE, ''backend responded '' @ drop 5 e)
          else if e = ''bad_json'' then Some (MEMBER_UNHEALTHY_RESPONSE, ''backend returned invalid JSON'')
          else if e = ''systemd_error'' then None
          else if e = ''probe_unknown'' then Some (MEMBER_HTTP_UNREADY, ''backend probe result unavailable'')
          else if \<not> mp_semantic_health p then Some (MEMBER_HTTP_UNREADY, ''semantic HTTP health failed'')
          else None)"

text \<open>The slots proved free, \<open>None\<close> when the evidence is stale or incomplete.\<close>

definition free_slots_of :: "member_config \<Rightarrow> member_probes \<Rightarrow> bool \<Rightarrow> int option" where
  "free_slots_of c p stale =
     (case (mp_backend_slots_total p, mp_backend_slots_busy p) of
        (Some slots, Some busy) \<Rightarrow>
          if stale then None
          else Some (min (configured_slots_of c)
                 (min (max 0 (slots - busy)) (max 0 (configured_slots_of c - max 0 (or_0 (mp_dispatcher_leases p))))))
      | _ \<Rightarrow> None)"

definition member_blocks :: "member_config \<Rightarrow> member_probes \<Rightarrow> time \<Rightarrow> int \<Rightarrow> blocks" where
  "member_blocks c p now freshness_ms =
     (let age = snapshot_age p now; stale = (age > freshness_ms); gpu = (\<not> cpu_only c);
          free = free_slots_of c p stale;
          b1 = block (\<not> mc_enabled c) MEMBER_CONFIG_DISABLED ''service disabled in config'' [];
          b2 = block stale TELEMETRY_STALE
                 (''snapshot age '' @ show_int age @ ''ms exceeds '' @ show_int freshness_ms @ ''ms'') b1;
          b3 = block (gpu \<and> \<not> opt_true (mc_idle_service_configured c)) MEMBER_IDLE_SERVICE_NOT_CONFIGURED
                 ''idle service not configured'' b2;
          b4 = block (gpu \<and> mp_idle_service_effective p \<noteq> Some True) MEMBER_IDLE_SERVICE_NOT_EFFECTIVE
                 ''configured idle service is not effective'' b3;
          b5 = block (gpu \<and> mp_conflicting_bundle p) MEMBER_CONFLICTING_BUNDLE ''conflicting bundle is active'' b4;
          b6 = block (gpu \<and> mp_model_resident p \<noteq> Some True) MEMBER_MODEL_NOT_RESIDENT
                 ''model residency not proved'' b5;
          b7 = block (mc_member_type c \<noteq> Some ''openai_compatible'' \<and> (\<not> mp_systemd_active p \<or> or_0 (mp_main_pid p) = 0))
                 MEMBER_SYSTEMD_INACTIVE ''systemd unit or MainPID is inactive'' b6;
          b8 = (case probe_block p of None \<Rightarrow> b7 | Some (r, d) \<Rightarrow> block True r d b7);
          b9 = block (\<not> mp_dispatcher_registered p) MEMBER_DISPATCHER_UNREGISTERED
                 ''dispatcher registration is absent'' b8
      in block (case free of None \<Rightarrow> False | Some n \<Rightarrow> n \<le> 0) MEMBER_NO_CAPACITY ''no proved immediate slot'' b9)"

definition hard_reasons :: "ReasonCode list" where
  "hard_reasons = [MEMBER_SYSTEMD_INACTIVE, MEMBER_HTTP_UNREADY, MEMBER_PORT_DARK, MEMBER_PROBE_TIMEOUT,
     MEMBER_PROBE_DISCONNECTED, MEMBER_UNHEALTHY_RESPONSE, MEMBER_MODEL_NOT_RESIDENT, TELEMETRY_STALE]"

text \<open>\<open>_semantic\<close>: what is left of a snapshot without its times and its version.\<close>

definition semantic :: "MemberSnapshot \<Rightarrow> MemberSnapshot" where
  "semantic m = m\<lparr>m_observed_at := 0, m_snapshot_age_ms := 0, m_state_version := 0\<rparr>"

definition reduce_member_readiness ::
  "string \<Rightarrow> member_config \<Rightarrow> member_probes \<Rightarrow> time \<Rightarrow> int \<Rightarrow> MemberSnapshot option \<Rightarrow> MemberSnapshot" where
  "reduce_member_readiness name c p now freshness_ms previous =
     (let age = snapshot_age p now; stale = (age > freshness_ms);
          blocks = member_blocks c p now freshness_ms; reasons = map fst blocks;
          free = free_slots_of c p stale;
          accepting = (reasons = [] \<and> (case free of None \<Rightarrow> False | Some n \<Rightarrow> n > 0));
          state = (if accepting then M_READY_ACCEPTING
                   else if set reasons = {MEMBER_NO_CAPACITY} then M_READY_BUSY
                   else if list_ex (\<lambda>r. r \<in> set reasons) hard_reasons then M_UNHEALTHY
                   else M_JOINING);
          candidate =
            \<lparr>m_name = name, m_gpu_id = mc_gpu_id c, m_state = state, m_accepting = accepting,
             m_configured_slots = configured_slots_of c, m_context_per_slot = or_0 (mc_context_per_slot c),
             m_state_version = 1, m_observed_at = observed_at_of p,
             m_generation_fence = (case previous of None \<Rightarrow> 0 | Some q \<Rightarrow> m_generation_fence q),
             m_backend_slots_total = mp_backend_slots_total p, m_backend_slots_busy = mp_backend_slots_busy p,
             m_dispatcher_leases = max 0 (or_0 (mp_dispatcher_leases p)),
             m_drain_disabled_slots = max 0 (or_0 (mp_drain_disabled_slots p)),
             m_compatible_free_slots = free, m_capabilities = mc_capabilities c,
             m_idle_service_configured = mc_idle_service_configured c,
             m_idle_service_effective = (if cpu_only c then None else mp_idle_service_effective p),
             m_systemd_active = mp_systemd_active p,
             m_main_pid = (if or_0 (mp_main_pid p) = 0 then None else mp_main_pid p),
             m_semantic_health = mp_semantic_health p,
             m_model_resident = (if cpu_only c then None else mp_model_resident p),
             m_dispatcher_registered = mp_dispatcher_registered p, m_snapshot_age_ms = age,
             m_blockers = map snd blocks, m_reason_codes = reasons\<rparr>
      in case previous of
           None \<Rightarrow> candidate
         | Some q \<Rightarrow> candidate\<lparr>m_state_version :=
             m_state_version q + (if semantic q \<noteq> semantic candidate then 1 else 0)\<rparr>)"

section \<open>Compatibility\<close>

record RequestRequirements =
  rr_input_tokens_estimate :: int
  rr_max_output_tokens :: int
  rr_required_capabilities :: "string list"
  rr_estimate_source :: string

record CompatibilityResult =
  cr_compatible :: bool
  cr_required_context :: int
  cr_reason_codes :: "ReasonCode list"

definition evaluate :: "RequestRequirements \<Rightarrow> MemberSnapshot \<Rightarrow> int \<Rightarrow> CompatibilityResult" where
  "evaluate r m safety_margin_tokens =
     (let required = rr_input_tokens_estimate r + rr_max_output_tokens r + max 0 safety_margin_tokens;
          reasons = (if required > m_context_per_slot m then [REQUEST_CONTEXT_INCOMPATIBLE] else [])
            @ (if set (rr_required_capabilities r) \<subseteq> set (m_capabilities m) then [] else [REQUEST_CAPABILITY_INCOMPATIBLE])
      in \<lparr>cr_compatible = (reasons = []), cr_required_context = required, cr_reason_codes = reasons\<rparr>)"

abbreviation compatible :: "RequestRequirements \<Rightarrow> MemberSnapshot \<Rightarrow> bool" where
  "compatible r m \<equiv> cr_compatible (evaluate r m 1024)"

section \<open>Admission\<close>

record AdmissionController =
  ac_queue_cap :: int
  ac_token_cap :: int
  ac_freshness_seconds :: time
  ac_service_rate :: real
  ac_eta_cap_seconds :: time

text \<open>The constructor raises \<open>ValueError\<close> unless this holds.\<close>

definition controller_ok :: "AdmissionController \<Rightarrow> bool" where
  "controller_ok a \<longleftrightarrow> 0 < ac_queue_cap a \<and> 0 < ac_token_cap a \<and> 0 < ac_freshness_seconds a
     \<and> 0 < ac_service_rate a \<and> 0 < ac_eta_cap_seconds a"

record AdmissionResult =
  ar_admitted :: bool
  ar_reason_codes :: "string list"
  ar_eta_seconds :: "real option"
  ar_member_profiles :: "(string \<times> string) list"

definition job_requirements :: "JobRecord \<Rightarrow> RequestRequirements" where
  "job_requirements job = \<lparr>rr_input_tokens_estimate = or_0 (j_input_tokens_estimate job),
     rr_max_output_tokens = or_0 (j_max_output_tokens job),
     rr_required_capabilities = j_required_capabilities job,
     rr_estimate_source = ''durable_job''\<rparr>"

definition member_profile :: "AdmissionController \<Rightarrow> JobRecord \<Rightarrow> time \<Rightarrow> MemberSnapshot \<Rightarrow> string" where
  "member_profile a job now m =
     (if \<not> now - m_observed_at m \<le> ac_freshness_seconds a then ''stale''
      else let comp = compatible (job_requirements job) m;
               capacity = or_0 (m_compatible_free_slots m) > 0;
               ready = (m_state m = M_READY_ACCEPTING \<and> m_accepting m)
           in if comp \<and> capacity \<and> ready then ''eligible''
              else if comp \<and> ready then ''no_capacity'' else ''incompatible'')"

definition admission_reasons ::
  "AdmissionController \<Rightarrow> JobRecord \<Rightarrow> MemberSnapshot list \<Rightarrow> time \<Rightarrow> int \<Rightarrow> int \<Rightarrow> string list" where
  "admission_reasons a job members now queue_depth queued_tokens =
     (let profiles = map (member_profile a job now) members in
      if queue_depth \<ge> ac_queue_cap a then [''queue_depth_cap'']
      else if queued_tokens + or_0 (j_input_tokens_estimate job) + or_0 (j_max_output_tokens job) > ac_token_cap a
      then [''queue_token_cap'']
      else if ''eligible'' \<in> set profiles then []
      else if ''stale'' \<in> set profiles \<and> set profiles \<subseteq> {''stale''} then [''capacity_stale'']
      else [''no_eligible_member''])"

definition admission_evaluate ::
  "AdmissionController \<Rightarrow> JobRecord \<Rightarrow> MemberSnapshot list \<Rightarrow> time \<Rightarrow> int \<Rightarrow> int \<Rightarrow> AdmissionResult" where
  "admission_evaluate a job members now queue_depth queued_tokens =
     (let profiles = map (\<lambda>m. (m_name m, member_profile a job now m)) members;
          reasons = admission_reasons a job members now queue_depth queued_tokens
      in if reasons \<noteq> []
         then \<lparr>ar_admitted = False, ar_reason_codes = reasons, ar_eta_seconds = None, ar_member_profiles = profiles\<rparr>
         else \<lparr>ar_admitted = True, ar_reason_codes = [],
               ar_eta_seconds = Some (min (real_of_int (max 0 queue_depth + 1) / ac_service_rate a) (ac_eta_cap_seconds a)),
               ar_member_profiles = profiles\<rparr>)"

section \<open>Properties\<close>

lemma block_Nil_iff [simp]: "block cond r d bs = [] \<longleftrightarrow> bs = [] \<and> \<not> cond"
  by (auto simp: block_def)

lemma probe_block_None_iff:
  "probe_block p = None \<longleftrightarrow> mp_probe_error p = Some ''systemd_error''
     \<or> mp_semantic_health p \<and> (mp_probe_error p = None
       \<or> (\<exists>e. mp_probe_error p = Some e \<and> \<not> prefix_of ''http_'' e
            \<and> e \<notin> {''connection_refused'', ''connection_error'', ''probe_timeout'', ''server_disconnected'',
                   ''bad_json'', ''probe_unknown''}))"
proof -
  have "\<not> prefix_of ''http_'' ''systemd_error''" by (simp add: prefix_of_def)
  then show ?thesis by (auto simp: probe_block_def split: option.splits)
qed

lemma member_blocks_Nil_iff:
  "member_blocks c p now f = [] \<longleftrightarrow>
     mc_enabled c \<and> snapshot_age p now \<le> f
     \<and> (cpu_only c \<or> (opt_true (mc_idle_service_configured c) \<and> mp_idle_service_effective p = Some True
          \<and> \<not> mp_conflicting_bundle p \<and> mp_model_resident p = Some True))
     \<and> (mc_member_type c = Some ''openai_compatible'' \<or> (mp_systemd_active p \<and> or_0 (mp_main_pid p) \<noteq> 0))
     \<and> probe_block p = None \<and> mp_dispatcher_registered p
     \<and> (case free_slots_of c p (snapshot_age p now > f) of None \<Rightarrow> True | Some n \<Rightarrow> 0 < n)"
  by (auto simp: member_blocks_def Let_def split: option.splits)

lemma reduce_accepting:
  "m_accepting (reduce_member_readiness name c p now f previous) \<longleftrightarrow>
     member_blocks c p now f = [] \<and> (\<exists>n>0. free_slots_of c p (snapshot_age p now > f) = Some n)"
  by (auto simp: reduce_member_readiness_def Let_def split: option.splits)

lemma reduce_state:
  "m_state (reduce_member_readiness name c p now f previous) = M_READY_ACCEPTING \<longleftrightarrow>
     m_accepting (reduce_member_readiness name c p now f previous)"
  by (auto simp: reduce_member_readiness_def Let_def split: option.splits)

text \<open>Readiness fails closed. A member is reported as accepting, and as \<open>ready_accepting\<close>, exactly when
  every piece of evidence is there: enabled, fresh, on a GPU the idle service configured and
  effective with the model resident and no conflicting bundle, a live process (unless the member is remote),
  a healthy probe, a registered dispatcher, and at least one slot free by both the backend's and the
  dispatcher's count. The one way around the health probe is the probe error \<open>systemd_error\<close>, which
  a remote member can carry although its health check failed.\<close>

theorem readiness_fails_closed:
  "(m_accepting (reduce_member_readiness name c p now freshness previous) \<longleftrightarrow>
      mc_enabled c \<and> snapshot_age p now \<le> freshness
      \<and> (cpu_only c \<or> (opt_true (mc_idle_service_configured c) \<and> mp_idle_service_effective p = Some True
           \<and> \<not> mp_conflicting_bundle p \<and> mp_model_resident p = Some True))
      \<and> (mc_member_type c = Some ''openai_compatible'' \<or> (mp_systemd_active p \<and> or_0 (mp_main_pid p) \<noteq> 0))
      \<and> (mp_probe_error p = Some ''systemd_error'' \<or> (mp_semantic_health p \<and> (mp_probe_error p = None
           \<or> (\<exists>e. mp_probe_error p = Some e \<and> \<not> prefix_of ''http_'' e
                \<and> e \<notin> {''connection_refused'', ''connection_error'', ''probe_timeout'', ''server_disconnected'',
                       ''bad_json'', ''probe_unknown''}))))
      \<and> mp_dispatcher_registered p
      \<and> (\<exists>slots busy. mp_backend_slots_total p = Some slots \<and> mp_backend_slots_busy p = Some busy
           \<and> busy < slots \<and> max 0 (or_0 (mp_dispatcher_leases p)) < configured_slots_of c))
   \<and> (m_state (reduce_member_readiness name c p now freshness previous) = M_READY_ACCEPTING \<longleftrightarrow>
      m_accepting (reduce_member_readiness name c p now freshness previous))"
proof -
  define slot where "slot \<longleftrightarrow> (\<exists>slots busy. mp_backend_slots_total p = Some slots
      \<and> mp_backend_slots_busy p = Some busy
      \<and> busy < slots \<and> max 0 (or_0 (mp_dispatcher_leases p)) < configured_slots_of c)"
  define fresh where "fresh \<longleftrightarrow> snapshot_age p now \<le> freshness"
  have free: "(\<exists>n>0. free_slots_of c p (snapshot_age p now > freshness) = Some n) \<longleftrightarrow> fresh \<and> slot"
    by (auto simp: free_slots_of_def slot_def fresh_def split: option.splits)
  then have some: "fresh \<and> slot \<Longrightarrow>
      (case free_slots_of c p (snapshot_age p now > freshness) of None \<Rightarrow> True | Some n \<Rightarrow> 0 < n)"
    by auto
  show ?thesis
    unfolding reduce_state reduce_accepting member_blocks_Nil_iff free probe_block_None_iff [symmetric]
    unfolding slot_def [symmetric] fresh_def [symmetric]
    using some by argo
qed

lemma eligible_iff:
  "member_profile a job now m = ''eligible'' \<longleftrightarrow> now - m_observed_at m \<le> ac_freshness_seconds a
     \<and> m_state m = M_READY_ACCEPTING \<and> m_accepting m \<and> 0 < or_0 (m_compatible_free_slots m)
     \<and> or_0 (j_input_tokens_estimate job) + or_0 (j_max_output_tokens job) + 1024 \<le> m_context_per_slot m
     \<and> set (j_required_capabilities job) \<subseteq> set (m_capabilities m)"
  by (auto simp: member_profile_def Let_def evaluate_def job_requirements_def)

lemma admitted_iff:
  "ar_admitted (admission_evaluate a job members now depth tokens) \<longleftrightarrow> depth < ac_queue_cap a
     \<and> tokens + or_0 (j_input_tokens_estimate job) + or_0 (j_max_output_tokens job) \<le> ac_token_cap a
     \<and> (\<exists>m \<in> set members. member_profile a job now m = ''eligible'')"
  by (auto simp: admission_evaluate_def admission_reasons_def Let_def image_iff split: if_splits)

text \<open>A burst of submissions against one view of the members: what is admitted joins the queue.\<close>

definition job_tokens :: "JobRecord \<Rightarrow> int" where
  "job_tokens job = or_0 (j_input_tokens_estimate job) + or_0 (j_max_output_tokens job)"

fun admit_all :: "AdmissionController \<Rightarrow> MemberSnapshot list \<Rightarrow> time \<Rightarrow> JobRecord list \<Rightarrow> int \<times> int \<Rightarrow> int \<times> int" where
  "admit_all a members now [] q = q"
| "admit_all a members now (job # jobs) (depth, tokens) = admit_all a members now jobs
     (if ar_admitted (admission_evaluate a job members now depth tokens) then (depth + 1, tokens + job_tokens job)
      else (depth, tokens))"

lemma admit_all_bounded:
  "fst q \<le> ac_queue_cap a \<Longrightarrow> snd q \<le> ac_token_cap a \<Longrightarrow>
     fst (admit_all a members now jobs q) \<le> ac_queue_cap a \<and> snd (admit_all a members now jobs q) \<le> ac_token_cap a"
  by (induction a members now jobs q rule: admit_all.induct) (auto simp: admitted_iff job_tokens_def)

definition sample_controller :: AdmissionController where
  "sample_controller = \<lparr>ac_queue_cap = 2, ac_token_cap = 100, ac_freshness_seconds = 5, ac_service_rate = 1,
     ac_eta_cap_seconds = 60\<rparr>"

definition sample_member :: MemberSnapshot where
  "sample_member = \<lparr>m_name = ''m1'', m_gpu_id = None, m_state = M_READY_ACCEPTING, m_accepting = True,
     m_configured_slots = 1, m_context_per_slot = 4096, m_state_version = 3, m_observed_at = 10,
     m_generation_fence = 0, m_backend_slots_total = Some 1, m_backend_slots_busy = Some 0, m_dispatcher_leases = 0,
     m_drain_disabled_slots = 0, m_compatible_free_slots = Some 1, m_capabilities = [''chat''],
     m_idle_service_configured = None, m_idle_service_effective = None, m_systemd_active = True, m_main_pid = Some 7,
     m_semantic_health = True, m_model_resident = None, m_dispatcher_registered = True, m_snapshot_age_ms = 0,
     m_blockers = [], m_reason_codes = []\<rparr>"

definition sample_job :: "string \<Rightarrow> JobRecord" where
  "sample_job i = \<lparr>j_job_id = i, j_idempotency_key = i, j_request_sha256 = ''h'', j_request_body = [],
     j_submitted_at = 1, j_enqueue_sequence = 1, j_base_priority = NORMAL, j_effective_priority = 10,
     j_state = J_QUEUED, j_selected_member = None, j_member_state_version = None, j_attempt_count = 0,
     j_current_attempt_id = None, j_accepted_boundary_crossed = False, j_queue_claimed_at = None,
     j_forward_started_at = None, j_completed_at = None, j_input_tokens_estimate = Some 30,
     j_max_output_tokens = Some 20, j_required_capabilities = [''chat''], j_result = None, j_error = None,
     j_reason_code = None, j_cancel_requested = False, j_state_version = 1, j_schema_version = 1\<rparr>"

text \<open>Admission is exact and bounded. A job is admitted if and only if the queue is below its depth cap, the
  queued tokens with the job's stay within the token cap, and some member with fresh evidence is
  ready, accepting, has a free slot, offers every capability asked for and has the context for
  input, output and the safety margin. An admitted job gets a positive estimate within its cap.
  However many jobs arrive, a queue that respects its caps never exceeds them.\<close>

theorem admission_exact_and_bounded:
  assumes "controller_ok a" and "depth \<le> ac_queue_cap a" and "tokens \<le> ac_token_cap a"
  shows "(ar_admitted (admission_evaluate a job members now depth tokens) \<longleftrightarrow>
      depth < ac_queue_cap a \<and> tokens + job_tokens job \<le> ac_token_cap a
      \<and> (\<exists>m \<in> set members. now - m_observed_at m \<le> ac_freshness_seconds a
           \<and> m_state m = M_READY_ACCEPTING \<and> m_accepting m \<and> 0 < or_0 (m_compatible_free_slots m)
           \<and> job_tokens job + 1024 \<le> m_context_per_slot m
           \<and> set (j_required_capabilities job) \<subseteq> set (m_capabilities m)))
   \<and> (\<forall>eta. ar_eta_seconds (admission_evaluate a job members now depth tokens) = Some eta \<longrightarrow>
        0 < eta \<and> eta \<le> ac_eta_cap_seconds a)
   \<and> fst (admit_all a members now jobs (depth, tokens)) \<le> ac_queue_cap a
   \<and> snd (admit_all a members now jobs (depth, tokens)) \<le> ac_token_cap a"
proof -
  have "ar_eta_seconds (admission_evaluate a job members now depth tokens) = Some eta \<Longrightarrow>
      0 < eta \<and> eta \<le> ac_eta_cap_seconds a" for eta
    using assms(1) by (auto simp: admission_evaluate_def controller_ok_def Let_def split: if_splits)
  then show ?thesis
    using admit_all_bounded [of "(depth, tokens)" a] assms(2,3)
    by (simp add: admitted_iff eligible_iff job_tokens_def ac_simps)
qed

theorem admission_exact_and_bounded_witness:
  "ar_admitted (admission_evaluate sample_controller (sample_job ''a'') [sample_member] 12 0 0)
   \<and> \<not> ar_admitted (admission_evaluate sample_controller (sample_job ''a'') [sample_member] 12 1 60)
   \<and> fst (admit_all sample_controller [sample_member] 12 (map sample_job [''a'', ''b'', ''c'']) (0, 0)) \<le> 2"
proof -
  have c: "controller_ok sample_controller" by (simp add: controller_ok_def sample_controller_def)
  show ?thesis
    using admission_exact_and_bounded [OF c, of 0 0 "sample_job ''a''" "[sample_member]" 12
        "map sample_job [''a'', ''b'', ''c'']"]
      admission_exact_and_bounded [OF c, of 1 60 "sample_job ''a''" "[sample_member]" 12 "[]"]
    by (simp add: sample_controller_def sample_member_def sample_job_def job_tokens_def del: admit_all.simps)
qed

end
