(* ===== verification/Broker_Repository.thy ===== *)
theory Broker_Repository
  imports Broker_Contracts "HOL-Library.Product_Lexorder"
begin

text \<open>
  \<open>InMemoryJobRepository\<close> of \<open>scripts/gemma_broker/redis_store.py\<close>, which the module calls the semantic
  oracle of the broker: jobs, the three priority queues, the idempotency index, members, their
  lease sets and the leadership token. Every method holds one lock, so it is one atomic function
  of the repository. A raised exception is the left value of the result, and it leaves the repository as it was.
  The identifier \<open>uuid4\<close> draws for an attempt is an argument. A lease set is a list without
  duplicates.
\<close>

section \<open>State\<close>

record job_repo =
  jr_available :: bool
  jr_aging_seconds :: time
  jr_jobs :: "string \<rightharpoonup> JobRecord"
  jr_queues :: "Priority \<Rightarrow> string list"
  jr_idempotency :: "string \<times> string \<rightharpoonup> string \<times> string"
  jr_members :: "string \<rightharpoonup> MemberSnapshot"
  jr_leases :: "string \<Rightarrow> string list"
  jr_leader_owner :: "string option"
  jr_leader_token :: int
  jr_leader_expires_at :: time
  jr_notified :: "string list"

definition new_repo :: "time \<Rightarrow> job_repo" where
  "new_repo aging = \<lparr>jr_available = True, jr_aging_seconds = aging, jr_jobs = Map.empty, jr_queues = (\<lambda>_. []),
     jr_idempotency = Map.empty, jr_members = Map.empty, jr_leases = (\<lambda>_. []), jr_leader_owner = None,
     jr_leader_token = 0, jr_leader_expires_at = 0, jr_notified = []\<rparr>"

datatype repo_error =
    RepositoryUnavailable
  | ContractError string
  | ReservationStale string
  | LeadershipLost
  | ValueError string

type_synonym 'a repo_result = "repo_error + 'a"

definition stale :: "'a repo_result" where
  "stale = Inl (ReservationStale ''RESERVATION_STATE_STALE'')"

definition unknown_member :: "'a repo_result" where
  "unknown_member = Inl (ContractError ''UNKNOWN_MEMBER'')"

definition set_member :: "job_repo \<Rightarrow> string \<Rightarrow> MemberSnapshot \<Rightarrow> job_repo" where
  "set_member r name m = r\<lparr>jr_members := (jr_members r)(name \<mapsto> m)\<rparr>"

definition set_job :: "job_repo \<Rightarrow> JobRecord \<Rightarrow> job_repo" where
  "set_job r j = r\<lparr>jr_jobs := (jr_jobs r)(j_job_id j \<mapsto> j)\<rparr>"

definition set_queue :: "job_repo \<Rightarrow> Priority \<Rightarrow> string list \<Rightarrow> job_repo" where
  "set_queue r p q = r\<lparr>jr_queues := (jr_queues r)(p := q)\<rparr>"

definition set_leases :: "job_repo \<Rightarrow> string \<Rightarrow> string list \<Rightarrow> job_repo" where
  "set_leases r name ls = r\<lparr>jr_leases := (jr_leases r)(name := ls)\<rparr>"

lemmas repo_updates [broker_defs] = set_member_def set_job_def set_queue_def set_leases_def

section \<open>Capacity and priority\<close>

definition derive_compatible_free_slots :: "int \<Rightarrow> int option \<Rightarrow> int \<Rightarrow> int \<Rightarrow> int" where
  "derive_compatible_free_slots configured_slots backend_total backend_busy live_leases =
     (let configured = max 0 configured_slots in
      if configured \<le> 0 then 0
      else let observed_total = (case backend_total of None \<Rightarrow> configured | Some n \<Rightarrow> max 0 (min configured n));
               backend_free = max 0 (observed_total - max 0 backend_busy);
               dispatcher_free = max 0 (configured - max 0 live_leases)
           in min configured (min backend_free dispatcher_free))"

text \<open>\<open>effective_priority\<close> for a positive aging period; \<open>wait // aging\<close> is the floor of the quotient.\<close>

definition effective_priority :: "Priority \<Rightarrow> time \<Rightarrow> time \<Rightarrow> time \<Rightarrow> int" where
  "effective_priority base submitted_at now aging =
     max 0 (priority_value base - 10 * \<lfloor>max 0 (now - submitted_at) / aging\<rfloor>)"

definition job_priority :: "job_repo \<Rightarrow> time \<Rightarrow> JobRecord \<Rightarrow> int" where
  "job_priority r now j = effective_priority (j_base_priority j) (j_submitted_at j) now (jr_aging_seconds r)"

section \<open>Jobs\<close>

definition submit :: "job_repo \<Rightarrow> JobRecord \<Rightarrow> string \<Rightarrow> (JobRecord \<times> job_repo) repo_result" where
  "submit r job caller_scope =
     (let key = (caller_scope, j_idempotency_key job) in
      if \<not> jr_available r then Inl RepositoryUnavailable
      else case jr_idempotency r key of
        Some (prior_id, prior_hash) \<Rightarrow>
          if prior_hash \<noteq> j_request_sha256 job then Inl (ContractError ''IDEMPOTENCY_KEY_REUSED'')
          else Inr (the (jr_jobs r prior_id), r)
      | None \<Rightarrow>
          if jr_jobs r (j_job_id job) \<noteq> None then Inl (ContractError ''DUPLICATE_JOB_ID'')
          else let stored = job\<lparr>j_effective_priority := priority_value (j_base_priority job)\<rparr>;
                   p = j_base_priority stored
               in Inr (stored, (set_queue (set_job r stored) p (jr_queues r p @ [j_job_id stored]))
                    \<lparr>jr_idempotency := (jr_idempotency r)(key \<mapsto> (j_job_id stored, j_request_sha256 stored))\<rparr>))"

definition get_job :: "job_repo \<Rightarrow> string \<Rightarrow> JobRecord option repo_result" where
  "get_job r i = (if \<not> jr_available r then Inl RepositoryUnavailable else Inr (jr_jobs r i))"

text \<open>The head of every non-empty queue, most urgent queue first.\<close>

definition heads :: "job_repo \<Rightarrow> JobRecord list" where
  "heads r = concat (map (\<lambda>p. case jr_queues r p of [] \<Rightarrow> [] | i # _ \<Rightarrow> [the (jr_jobs r i)])
     [INTERACTIVE, NORMAL, BACKGROUND])"

definition job_key :: "job_repo \<Rightarrow> time \<Rightarrow> JobRecord \<Rightarrow> int \<times> int" where
  "job_key r now j = (job_priority r now j, j_enqueue_sequence j)"

definition peek_next :: "job_repo \<Rightarrow> time \<Rightarrow> JobRecord option repo_result" where
  "peek_next r now =
     (if \<not> jr_available r then Inl RepositoryUnavailable
      else if heads r = [] then Inr None
      else if jr_aging_seconds r \<le> 0 then Inl (ValueError ''aging_seconds must be positive'')
      else let selected = arg_min_list (job_key r now) (heads r)
           in Inr (Some (selected\<lparr>j_effective_priority := job_priority r now selected\<rparr>)))"

definition reservable :: "RequestRequirements \<Rightarrow> MemberSnapshot \<Rightarrow> bool" where
  "reservable req m \<longleftrightarrow> m_state m = M_READY_ACCEPTING \<and> m_accepting m
     \<and> or_0 (m_compatible_free_slots m) > 0 \<and> compatible req m"

definition claim_job :: "JobRecord \<Rightarrow> MemberSnapshot \<Rightarrow> string \<Rightarrow> time \<Rightarrow> int \<Rightarrow> JobRecord" where
  "claim_job j m attempt now prio = j\<lparr>j_state := J_CLAIMED, j_selected_member := Some (m_name m),
     j_member_state_version := Some (m_state_version m), j_attempt_count := j_attempt_count j + 1,
     j_current_attempt_id := Some attempt, j_queue_claimed_at := Some now, j_effective_priority := prio,
     j_state_version := j_state_version j + 1\<rparr>"

text \<open>A reservation: the claimed job and the member as it was written back.\<close>

type_synonym reservation = "JobRecord \<times> MemberSnapshot"

definition reserve_next ::
  "job_repo \<Rightarrow> time \<Rightarrow> MemberSnapshot list \<Rightarrow> RequestRequirements \<Rightarrow> (string \<Rightarrow> MemberSnapshot) option \<Rightarrow> string
     \<Rightarrow> (reservation option \<times> job_repo) repo_result" where
  "reserve_next r now ordered_members req lookup attempt =
     (case peek_next r now of
        Inl e \<Rightarrow> Inl e
      | Inr None \<Rightarrow> Inr (None, r)
      | Inr (Some selected) \<Rightarrow>
          (case find (reservable req) ordered_members of
             None \<Rightarrow> Inr (None, r)
           | Some m \<Rightarrow>
               let current = (case lookup of None \<Rightarrow> m | Some f \<Rightarrow> f (m_name m));
                   live = int (length (jr_leases r (m_name current)));
                   configured = m_configured_slots current;
                   p = j_base_priority selected
               in if configured \<le> 0 \<or> live \<ge> configured then stale
                  else if m_state_version current \<noteq> m_state_version m \<or> m_state current \<noteq> M_READY_ACCEPTING
                     \<or> \<not> m_accepting current \<or> or_0 (m_compatible_free_slots current) \<le> 0 then stale
                  else case jr_queues r p of
                    [] \<Rightarrow> stale
                  | i # rest \<Rightarrow>
                      if i \<noteq> j_job_id selected then stale
                      else let claimed = claim_job (the (jr_jobs r i)) m attempt now (j_effective_priority selected);
                               reserved = current\<lparr>m_dispatcher_leases := live + 1,
                                 m_compatible_free_slots := Some (max 0 (min (configured - live - 1)
                                   (or_0 (m_compatible_free_slots current) - 1)))\<rparr>;
                               r1 = set_job (set_queue r p rest) claimed;
                               r2 = set_leases r1 (m_name m) (List.insert attempt (jr_leases r (m_name m)))
                           in Inr (Some (claimed, reserved), set_member r2 (m_name m) reserved)))"

definition cancel_queued :: "job_repo \<Rightarrow> string \<Rightarrow> time \<Rightarrow> (JobRecord \<times> job_repo) repo_result" where
  "cancel_queued r i completed_at =
     (if \<not> jr_available r then Inl RepositoryUnavailable
      else case jr_jobs r i of
        None \<Rightarrow> Inl (ContractError ''UNKNOWN_JOB_ID'')
      | Some j \<Rightarrow>
          if j_state j \<noteq> J_QUEUED then Inr (j, r)
          else let p = j_base_priority j in
            if i \<notin> set (jr_queues r p) then Inl RepositoryUnavailable
            else let cancelled = j\<lparr>j_state := J_CANCELLED, j_completed_at := Some completed_at,
                   j_reason_code := Some CANCELLED_BEFORE_ACCEPTANCE, j_state_version := j_state_version j + 1\<rparr>
                 in Inr (cancelled, (set_job (set_queue r p (remove1 i (jr_queues r p))) cancelled)
                      \<lparr>jr_notified := jr_notified r @ [i]\<rparr>))"

definition terminal_job :: "JobState \<Rightarrow> bool" where
  "terminal_job s \<longleftrightarrow> s \<in> {J_COMPLETED, J_FAILED, J_CANCELLED, J_OUTCOME_UNKNOWN}"

definition replace_job :: "job_repo \<Rightarrow> JobRecord \<Rightarrow> (JobRecord \<times> job_repo) repo_result" where
  "replace_job r job =
     (if \<not> jr_available r then Inl RepositoryUnavailable
      else if jr_jobs r (j_job_id job) = None then Inl (ContractError ''UNKNOWN_JOB_ID'')
      else Inr (job, (set_job r job)
        \<lparr>jr_notified := (if terminal_job (j_state job) then jr_notified r @ [j_job_id job] else jr_notified r)\<rparr>))"

definition requeue_job :: "JobRecord \<Rightarrow> ReasonCode \<Rightarrow> JobRecord" where
  "requeue_job j reason = j\<lparr>j_state := J_QUEUED, j_selected_member := None, j_member_state_version := None,
     j_current_attempt_id := None, j_queue_claimed_at := None, j_forward_started_at := None,
     j_reason_code := Some reason, j_error := None, j_state_version := j_state_version j + 1\<rparr>"

text \<open>The lease and the capacity a requeued claim gives back.\<close>

definition return_capacity :: "job_repo \<Rightarrow> JobRecord \<Rightarrow> job_repo" where
  "return_capacity r j =
     (case (j_selected_member j, j_current_attempt_id j) of
        (Some name, Some attempt) \<Rightarrow>
          if name = [] \<or> attempt = [] then r
          else let r1 = set_leases r name (remove1 attempt (jr_leases r name)) in
            (case jr_members r name of
               None \<Rightarrow> r1
             | Some m \<Rightarrow> set_member r1 name (m\<lparr>m_dispatcher_leases := max 0 (m_dispatcher_leases m - 1),
                 m_compatible_free_slots := Some (min (m_configured_slots m) (or_0 (m_compatible_free_slots m) + 1)),
                 m_state_version := m_state_version m + 1\<rparr>))
      | _ \<Rightarrow> r)"

definition requeue_claim :: "job_repo \<Rightarrow> JobRecord \<Rightarrow> ReasonCode \<Rightarrow> (JobRecord \<times> job_repo) repo_result" where
  "requeue_claim r job reason =
     (if \<not> jr_available r then Inl RepositoryUnavailable
      else case jr_jobs r (j_job_id job) of
        None \<Rightarrow> Inl (ContractError ''UNKNOWN_JOB_ID'')
      | Some j \<Rightarrow>
          if j_state j \<notin> {J_CLAIMED, J_ACCEPTED, J_IN_FLIGHT} then Inl (ContractError ''REQUEUE_INVALID_STATE'')
          else if j_accepted_boundary_crossed j then Inl (ContractError ''CANCEL_UNSAFE_AFTER_ACCEPTANCE'')
          else let queued = requeue_job j reason; i = j_job_id queued; p = j_base_priority queued;
                   q = jr_queues r p;
                   r1 = set_queue (set_job r queued) p (if i \<in> set q then q else i # q)
               in Inr (queued, return_capacity r1 j))"

section \<open>Members\<close>

definition put_member :: "job_repo \<Rightarrow> MemberSnapshot \<Rightarrow> (MemberSnapshot \<times> job_repo) repo_result" where
  "put_member r m =
     (if \<not> jr_available r then Inl RepositoryUnavailable
      else let m' = (case jr_members r (m_name m) of
             None \<Rightarrow> m
           | Some cur \<Rightarrow>
               if or_0 (m_compatible_free_slots cur) > 0 \<and> or_0 (m_compatible_free_slots m) \<le> 0 \<and> m_configured_slots m > 0
               then m\<lparr>m_compatible_free_slots := m_compatible_free_slots cur\<rparr> else m)
           in Inr (m', set_member r (m_name m) m'))"

definition add_member_lease :: "job_repo \<Rightarrow> string \<Rightarrow> string \<Rightarrow> job_repo repo_result" where
  "add_member_lease r name attempt =
     (if \<not> jr_available r then Inl RepositoryUnavailable
      else if jr_members r name = None then unknown_member
      else Inr (set_leases r name (List.insert attempt (jr_leases r name))))"

definition lease_count :: "job_repo \<Rightarrow> string \<Rightarrow> nat" where
  "lease_count r name = length (jr_leases r name)"

text \<open>\<open>dict.fromkeys\<close>: the first of equal elements stays.\<close>

definition dict_fromkeys :: "'a list \<Rightarrow> 'a list" where
  "dict_fromkeys xs = rev (remdups (rev xs))"

definition begin_member_drain :: "job_repo \<Rightarrow> string \<Rightarrow> int \<Rightarrow> (MemberSnapshot \<times> job_repo) repo_result" where
  "begin_member_drain r name expected_version =
     (if \<not> jr_available r then Inl RepositoryUnavailable
      else case jr_members r name of
        None \<Rightarrow> unknown_member
      | Some m \<Rightarrow>
          if m_state_version m \<noteq> expected_version then stale
          else if m_state m = M_DRAINING then Inr (m, r)
          else if \<not> member_transition_ok (m_state m) M_DRAINING then Inl (ContractError ''ILLEGAL_MEMBER_TRANSITION'')
          else let m' = m\<lparr>m_state := M_DRAINING, m_accepting := False, m_compatible_free_slots := Some 0,
                 m_state_version := m_state_version m + 1,
                 m_blockers := dict_fromkeys (m_blockers m @ [''member_draining'']),
                 m_reason_codes := dict_fromkeys (m_reason_codes m @ [MEMBER_DRAINING])\<rparr>
               in Inr (m', set_member r name m'))"

text \<open>The free slots after a release: 0 while draining, else derived from the live lease set.\<close>

definition released_member :: "MemberSnapshot \<Rightarrow> int \<Rightarrow> MemberSnapshot" where
  "released_member m live =
     (if m_state m = M_DRAINING
      then m\<lparr>m_dispatcher_leases := live, m_drain_disabled_slots := m_drain_disabled_slots m + 1\<rparr>
      else m\<lparr>m_dispatcher_leases := live, m_compatible_free_slots := Some
             (if m_configured_slots m > 0
              then derive_compatible_free_slots (m_configured_slots m) (m_backend_slots_total m)
                     (or_0 (m_backend_slots_busy m)) live
              else min (m_configured_slots m) (max 0 (or_0 (m_compatible_free_slots m) + 1)))\<rparr>)"

definition release_member_lease :: "job_repo \<Rightarrow> string \<Rightarrow> string \<Rightarrow> int \<Rightarrow> (MemberSnapshot \<times> job_repo) repo_result" where
  "release_member_lease r name attempt claimed_version =
     (if \<not> jr_available r then Inl RepositoryUnavailable
      else case jr_members r name of
        None \<Rightarrow> unknown_member
      | Some m \<Rightarrow>
          if attempt \<notin> set (jr_leases r name) then Inl (ReservationStale ''LEASE_NOT_OWNED'')
          else if (if m_state m = M_DRAINING \<or> m_state m = M_JOINING then claimed_version \<noteq> m_state_version m
                   else claimed_version > m_state_version m) then stale
          else let ls = remove1 attempt (jr_leases r name); m' = released_member m (int (length ls))
               in Inr (m', set_member (set_leases r name ls) name m'))"

definition complete_member_drain :: "job_repo \<Rightarrow> string \<Rightarrow> int \<Rightarrow> (MemberSnapshot \<times> job_repo) repo_result" where
  "complete_member_drain r name expected_version =
     (if \<not> jr_available r then Inl RepositoryUnavailable
      else case jr_members r name of
        None \<Rightarrow> unknown_member
      | Some m \<Rightarrow>
          if m_state_version m \<noteq> expected_version then stale
          else if m_state m \<noteq> M_DRAINING then Inl (ContractError ''DRAIN_INVALID_STATE'')
          else if jr_leases r name \<noteq> [] then Inl (ReservationStale ''MEMBER_LEASES_REMAIN'')
          else if \<not> member_transition_ok (m_state m) M_OFFLINE then Inl (ContractError ''ILLEGAL_MEMBER_TRANSITION'')
          else let m' = m\<lparr>m_state := M_OFFLINE, m_accepting := False, m_compatible_free_slots := Some 0,
                 m_state_version := m_state_version m + 1\<rparr>
               in Inr (m', set_member r name m'))"

definition begin_member_rejoin :: "job_repo \<Rightarrow> string \<Rightarrow> int \<Rightarrow> int \<Rightarrow> (MemberSnapshot \<times> job_repo) repo_result" where
  "begin_member_rejoin r name expected_version generation_fence =
     (if \<not> jr_available r then Inl RepositoryUnavailable
      else case jr_members r name of
        None \<Rightarrow> unknown_member
      | Some m \<Rightarrow>
          if m_state_version m \<noteq> expected_version then stale
          else if generation_fence \<le> m_generation_fence m then Inl (ContractError ''GENERATION_FENCE_STALE'')
          else if \<not> member_transition_ok (m_state m) M_JOINING then Inl (ContractError ''ILLEGAL_MEMBER_TRANSITION'')
          else let m' = m\<lparr>m_state := M_JOINING, m_accepting := False, m_compatible_free_slots := Some 0,
                 m_generation_fence := generation_fence, m_state_version := m_state_version m + 1\<rparr>
               in Inr (m', set_member r name m'))"

definition complete_member_rejoin ::
  "job_repo \<Rightarrow> string \<Rightarrow> int \<Rightarrow> MemberSnapshot \<Rightarrow> (MemberSnapshot \<times> job_repo) repo_result" where
  "complete_member_rejoin r name expected_version readiness =
     (if \<not> jr_available r then Inl RepositoryUnavailable
      else case jr_members r name of
        None \<Rightarrow> unknown_member
      | Some m \<Rightarrow>
          if m_state_version m \<noteq> expected_version then stale
          else if \<not> member_transition_ok (m_state m) M_READY_ACCEPTING
          then Inl (ContractError ''ILLEGAL_MEMBER_TRANSITION'')
          else let m' = readiness\<lparr>m_state := M_READY_ACCEPTING, m_accepting := True,
                 m_generation_fence := m_generation_fence m, m_state_version := m_state_version m + 1,
                 m_drain_disabled_slots := 0, m_dispatcher_leases := 0\<rparr>
               in Inr (m', set_member r name m'))"

section \<open>Leadership\<close>

definition acquire_leadership :: "job_repo \<Rightarrow> string \<Rightarrow> time \<Rightarrow> time \<Rightarrow> (int \<times> job_repo) repo_result" where
  "acquire_leadership r owner now ttl =
     (if owner = [] \<or> ttl \<le> 0 then Inl (ValueError ''acquire_leadership'')
      else if \<not> jr_available r then Inl RepositoryUnavailable
      else if jr_leader_owner r = Some owner \<and> jr_leader_token r > 0 \<and> now < jr_leader_expires_at r
      then Inr (jr_leader_token r, r\<lparr>jr_leader_expires_at := now + ttl\<rparr>)
      else let token = jr_leader_token r + 1
           in Inr (token, r\<lparr>jr_leader_token := token, jr_leader_owner := Some owner, jr_leader_expires_at := now + ttl\<rparr>))"

definition renew_leadership :: "job_repo \<Rightarrow> string \<Rightarrow> int \<Rightarrow> time \<Rightarrow> time \<Rightarrow> (int \<times> job_repo) repo_result" where
  "renew_leadership r owner fencing_token now ttl =
     (if owner = [] \<or> fencing_token \<le> 0 \<or> ttl \<le> 0 then Inl (ValueError ''renew_leadership'')
      else if \<not> jr_available r then Inl RepositoryUnavailable
      else if jr_leader_owner r \<noteq> Some owner \<or> jr_leader_token r \<noteq> fencing_token \<or> now \<ge> jr_leader_expires_at r
      then Inl LeadershipLost
      else Inr (jr_leader_token r, r\<lparr>jr_leader_expires_at := now + ttl\<rparr>))"

section \<open>Steps and the invariant of the queues\<close>

text \<open>What the dispatcher may write over a job: the job is claimed, keeps its identity, does not return to the
  queue this way, and never loses the acceptance mark.\<close>

definition dispatch_update :: "JobRecord \<Rightarrow> JobRecord \<Rightarrow> bool" where
  "dispatch_update old new \<longleftrightarrow> j_state old \<in> {J_CLAIMED, J_ACCEPTED, J_IN_FLIGHT} \<and> j_state new \<noteq> J_QUEUED
     \<and> j_job_id new = j_job_id old \<and> j_base_priority new = j_base_priority old
     \<and> j_request_sha256 new = j_request_sha256 old
     \<and> (j_accepted_boundary_crossed old \<longrightarrow> j_accepted_boundary_crossed new)"

inductive repo_step :: "job_repo \<Rightarrow> job_repo \<Rightarrow> bool" where
  s_submit: "submit r job scope = Inr (j, r') \<Longrightarrow> j_state job = J_QUEUED \<Longrightarrow> \<not> j_accepted_boundary_crossed job \<Longrightarrow>
     repo_step r r'"
| s_reserve: "reserve_next r now ms req lookup attempt = Inr (x, r') \<Longrightarrow> repo_step r r'"
| s_cancel: "cancel_queued r i t = Inr (j, r') \<Longrightarrow> repo_step r r'"
| s_replace: "replace_job r job = Inr (j, r') \<Longrightarrow> jr_jobs r (j_job_id job) = Some old \<Longrightarrow> dispatch_update old job \<Longrightarrow>
     repo_step r r'"
| s_requeue: "requeue_claim r job reason = Inr (j, r') \<Longrightarrow> repo_step r r'"
| s_put: "put_member r m = Inr (m', r') \<Longrightarrow> repo_step r r'"
| s_add: "add_member_lease r n a = Inr r' \<Longrightarrow> repo_step r r'"
| s_release: "release_member_lease r n a v = Inr (m, r') \<Longrightarrow> repo_step r r'"
| s_drain: "begin_member_drain r n v = Inr (m, r') \<Longrightarrow> repo_step r r'"
| s_drained: "complete_member_drain r n v = Inr (m, r') \<Longrightarrow> repo_step r r'"
| s_rejoin: "begin_member_rejoin r n v g = Inr (m, r') \<Longrightarrow> repo_step r r'"
| s_rejoined: "complete_member_rejoin r n v rd = Inr (m, r') \<Longrightarrow> repo_step r r'"
| s_acquire: "acquire_leadership r owner now ttl = Inr (k, r') \<Longrightarrow> repo_step r r'"
| s_renew: "renew_leadership r owner tok now ttl = Inr (k, r') \<Longrightarrow> repo_step r r'"

definition wf_repo :: "job_repo \<Rightarrow> bool" where
  "wf_repo r \<longleftrightarrow> jr_available r
     \<and> (\<forall>p. distinct (jr_queues r p))
     \<and> (\<forall>p i. i \<in> set (jr_queues r p) \<longrightarrow> (\<exists>j. jr_jobs r i = Some j \<and> j_state j = J_QUEUED
           \<and> j_base_priority j = p \<and> \<not> j_accepted_boundary_crossed j))
     \<and> (\<forall>i j. jr_jobs r i = Some j \<longrightarrow> j_job_id j = i \<and> (j_state j = J_QUEUED \<longrightarrow> i \<in> set (jr_queues r (j_base_priority j))))
     \<and> (\<forall>k i h. jr_idempotency r k = Some (i, h) \<longrightarrow> (\<exists>j. jr_jobs r i = Some j \<and> j_request_sha256 j = h))"

text \<open>The part of the repository that the member and leadership operations leave alone.\<close>

definition same_jobs :: "job_repo \<Rightarrow> job_repo \<Rightarrow> bool" where
  "same_jobs r r' \<longleftrightarrow> jr_available r' = jr_available r \<and> jr_jobs r' = jr_jobs r \<and> jr_queues r' = jr_queues r
     \<and> jr_idempotency r' = jr_idempotency r"

lemma wf_repo_same_jobs: "wf_repo r \<Longrightarrow> same_jobs r r' \<Longrightarrow> wf_repo r'"
  by (simp add: wf_repo_def same_jobs_def)

lemma wf_repo_new [simp]: "wf_repo (new_repo aging)"
  by (simp add: wf_repo_def new_repo_def)

lemmas member_op_defs = put_member_def add_member_lease_def release_member_lease_def begin_member_drain_def
  complete_member_drain_def begin_member_rejoin_def complete_member_rejoin_def stale_def unknown_member_def

lemma member_ops_same_jobs:
  "put_member r m = Inr (m', r') \<Longrightarrow> same_jobs r r'"
  "add_member_lease r n a = Inr r' \<Longrightarrow> same_jobs r r'"
  "release_member_lease r n a v = Inr (m', r') \<Longrightarrow> same_jobs r r'"
  "begin_member_drain r n v = Inr (m', r') \<Longrightarrow> same_jobs r r'"
  "complete_member_drain r n v = Inr (m', r') \<Longrightarrow> same_jobs r r'"
  "begin_member_rejoin r n v g = Inr (m', r') \<Longrightarrow> same_jobs r r'"
  "complete_member_rejoin r n v rd = Inr (m', r') \<Longrightarrow> same_jobs r r'"
  by (auto simp: member_op_defs broker_defs same_jobs_def Let_def split: if_splits option.splits)

lemma leader_ops_same_jobs:
  "acquire_leadership r owner now ttl = Inr (k, r') \<Longrightarrow> same_jobs r r'"
  "renew_leadership r owner tok now ttl = Inr (k, r') \<Longrightarrow> same_jobs r r'"
  by (auto simp: acquire_leadership_def renew_leadership_def same_jobs_def Let_def split: if_splits)

text \<open>Effects of the job operations.\<close>

lemma peek_next_SomeD:
  assumes "peek_next r now = Inr (Some j)" and "wf_repo r"
  obtains j0 i rest where "jr_queues r (j_base_priority j) = i # rest" "jr_jobs r i = Some j0" "j_job_id j = i"
    "j = j0\<lparr>j_effective_priority := job_priority r now j0\<rparr>" "j_state j0 = J_QUEUED"
    "\<not> j_accepted_boundary_crossed j0" "0 < jr_aging_seconds r"
    "\<And>h. h \<in> set (heads r) \<Longrightarrow> job_key r now j0 \<le> job_key r now h"
proof -
  have ne: "heads r \<noteq> []" and pos: "0 < jr_aging_seconds r"
    and j: "j = (arg_min_list (job_key r now) (heads r))\<lparr>j_effective_priority :=
        job_priority r now (arg_min_list (job_key r now) (heads r))\<rparr>"
    using assms(1) by (auto simp: peek_next_def Let_def split: if_splits)
  let ?j0 = "arg_min_list (job_key r now) (heads r)"
  have "?j0 \<in> set (heads r)" using ne by (rule arg_min_list_in)
  then obtain p i rest where q: "jr_queues r p = i # rest" "?j0 = the (jr_jobs r i)"
    by (auto simp: heads_def split: list.splits)
  then obtain j1 where "jr_jobs r i = Some j1" "j_state j1 = J_QUEUED" "j_base_priority j1 = p"
      "\<not> j_accepted_boundary_crossed j1" "j_job_id j1 = i"
    using assms(2) unfolding wf_repo_def by (metis list.set_intros(1))
  moreover have "job_key r now ?j0 \<le> job_key r now h" if "h \<in> set (heads r)" for h
    using f_arg_min_list_f [OF ne, of "job_key r now"] that by simp
  ultimately show ?thesis using that [of i rest ?j0] q j pos by simp
qed

lemma reserve_nextD:
  assumes "reserve_next r now ms req lookup attempt = Inr (Some (claimed, m'), r')" and "wf_repo r"
  obtains j rest p m current where "jr_queues r p = j_job_id claimed # rest" "jr_jobs r (j_job_id claimed) = Some j"
    "p = j_base_priority j" "j_state j = J_QUEUED" "\<not> j_accepted_boundary_crossed j"
    "claimed = claim_job j m attempt now (job_priority r now j)" "m \<in> set ms" "reservable req m"
    "current = (case lookup of None \<Rightarrow> m | Some f \<Rightarrow> f (m_name m))"
    "int (length (jr_leases r (m_name current))) < m_configured_slots current"
    "m_state_version current = m_state_version m" "m_state current = M_READY_ACCEPTING" "m_accepting current"
    "m' = current\<lparr>m_dispatcher_leases := int (length (jr_leases r (m_name current))) + 1,
        m_compatible_free_slots := Some (max 0 (min
          (m_configured_slots current - int (length (jr_leases r (m_name current))) - 1)
          (or_0 (m_compatible_free_slots current) - 1)))\<rparr>"
    "r' = set_member (set_leases (set_job (set_queue r p rest) claimed) (m_name m)
        (List.insert attempt (jr_leases r (m_name m)))) (m_name m) m'"
    "0 < jr_aging_seconds r" "\<And>h. h \<in> set (heads r) \<Longrightarrow> job_key r now j \<le> job_key r now h"
proof -
  obtain sel where sel: "peek_next r now = Inr (Some sel)"
    using assms(1) by (auto simp: reserve_next_def split: sum.splits option.splits)
  from sel assms(2) obtain j i rest where
    q: "jr_queues r (j_base_priority sel) = i # rest" "jr_jobs r i = Some j" "j_job_id sel = i"
      "sel = j\<lparr>j_effective_priority := job_priority r now j\<rparr>" "j_state j = J_QUEUED"
      "\<not> j_accepted_boundary_crossed j" "0 < jr_aging_seconds r"
      "\<And>h. h \<in> set (heads r) \<Longrightarrow> job_key r now j \<le> job_key r now h"
    by (rule peek_next_SomeD) blast
  obtain m where m: "find (reservable req) ms = Some m"
    using assms(1) sel by (auto simp: reserve_next_def split: option.splits)
  then have mm: "m \<in> set ms" "reservable req m" by (auto simp: find_Some_iff in_set_conv_nth)
  define current where "current = (case lookup of None \<Rightarrow> m | Some f \<Rightarrow> f (m_name m))"
  have id: "j_job_id j = i" using q(3,4) by simp
  have b: "j_base_priority sel = j_base_priority j" "j_effective_priority sel = job_priority r now j"
    using q(4) by simp_all
  note run = assms(1) [unfolded reserve_next_def sel sum.case option.case m Let_def, folded current_def,
      unfolded b q(1) [unfolded b] list.case q(2,3) option.sel]
  have g: "int (length (jr_leases r (m_name current))) < m_configured_slots current"
      "m_state_version current = m_state_version m" "m_state current = M_READY_ACCEPTING" "m_accepting current"
    using run by (auto simp: stale_def split: if_splits)
  have res: "claimed = claim_job j m attempt now (job_priority r now j)"
    "m' = current\<lparr>m_dispatcher_leases := int (length (jr_leases r (m_name current))) + 1,
        m_compatible_free_slots := Some (max 0 (min
          (m_configured_slots current - int (length (jr_leases r (m_name current))) - 1)
          (or_0 (m_compatible_free_slots current) - 1)))\<rparr>"
    "r' = set_member (set_leases (set_job (set_queue r (j_base_priority j) rest) claimed) (m_name m)
        (List.insert attempt (jr_leases r (m_name m)))) (m_name m) m'"
    using run by (auto simp: stale_def split: if_splits)
  have cid: "j_job_id claimed = i" by (simp add: res(1) claim_job_def id)
  show ?thesis
    by (rule that [of "j_base_priority j" rest j m current])
      (use q(1,2,5-8) b cid res mm g current_def in auto)
qed

lemma reserve_None: "reserve_next r now ms req lookup attempt = Inr (None, r') \<Longrightarrow> r' = r"
  by (auto simp: reserve_next_def stale_def Let_def split: sum.splits option.splits list.splits if_splits)

lemma wf_repoD:
  assumes "wf_repo r"
  shows "distinct (jr_queues r p)" and "jr_available r"
    and "i \<in> set (jr_queues r p) \<Longrightarrow> \<exists>j. jr_jobs r i = Some j \<and> j_state j = J_QUEUED
           \<and> j_base_priority j = p \<and> \<not> j_accepted_boundary_crossed j"
    and "jr_jobs r i = Some j \<Longrightarrow> j_job_id j = i"
    and "jr_jobs r i = Some j \<Longrightarrow> j_state j = J_QUEUED \<Longrightarrow> i \<in> set (jr_queues r (j_base_priority j))"
    and "jr_idempotency r k = Some (i, h) \<Longrightarrow> \<exists>j. jr_jobs r i = Some j \<and> j_request_sha256 j = h"
  using assms unfolding wf_repo_def by blast+

text \<open>A job that leaves its queue and is not queued any more.\<close>

lemma wf_repo_dequeue:
  assumes "wf_repo r" and "jr_jobs r i = Some j" and "j_base_priority j = p"
    and "distinct q" and "set q = set (jr_queues r p) - {i}"
    and "j_job_id j' = i" and "j_state j' \<noteq> J_QUEUED" and "j_base_priority j' = p"
    and "j_request_sha256 j' = j_request_sha256 j"
  shows "wf_repo (set_job (set_queue r p q) j')"
proof -
  have other: "i \<notin> set (jr_queues r p')" if "p' \<noteq> p" for p'
    using wf_repoD(3) [OF assms(1), of i p'] assms(2,3) that by auto
  show ?thesis
    using assms other unfolding wf_repo_def broker_defs
    by (auto simp: fun_upd_def) (metis option.inject)+
qed

lemma wf_repo_submit:
  assumes "submit r job scope = Inr (j, r')" and "wf_repo r" and "j_state job = J_QUEUED"
    and "\<not> j_accepted_boundary_crossed job"
  shows "wf_repo r'"
proof (cases "jr_idempotency r (scope, j_idempotency_key job)")
  case None
  then have new: "jr_jobs r (j_job_id job) = None" and r': "r' = (set_queue (set_job r j) (j_base_priority job)
      (jr_queues r (j_base_priority job) @ [j_job_id job]))\<lparr>jr_idempotency :=
        (jr_idempotency r)((scope, j_idempotency_key job) \<mapsto> (j_job_id job, j_request_sha256 job))\<rparr>"
    and j: "j = job\<lparr>j_effective_priority := priority_value (j_base_priority job)\<rparr>"
    using assms(1,2) by (auto simp: submit_def Let_def wf_repoD split: if_splits)
  have "j_job_id job \<notin> set (jr_queues r p)" for p
    using wf_repoD(3) [OF assms(2)] new by fastforce
  moreover have "jr_idempotency r k = Some (i, h) \<Longrightarrow> i \<noteq> j_job_id job" for k i h
    using wf_repoD(6) [OF assms(2)] new by fastforce
  ultimately show ?thesis
    using assms(2-4) new unfolding r' j wf_repo_def broker_defs by (auto simp: fun_upd_def) metis
next
  case (Some x)
  then show ?thesis using assms(1,2) by (auto simp: submit_def wf_repoD split: if_splits prod.splits)
qed

lemma return_capacity_same_jobs: "same_jobs r (return_capacity r j)"
  by (auto simp: return_capacity_def same_jobs_def broker_defs Let_def split: option.splits)

lemma wf_repo_requeue:
  assumes "requeue_claim r job reason = Inr (j', r')" and "wf_repo r"
  shows "wf_repo r'"
proof -
  let ?i = "j_job_id job"
  obtain j where j: "jr_jobs r ?i = Some j" "j_state j \<in> {J_CLAIMED, J_ACCEPTED, J_IN_FLIGHT}"
      "\<not> j_accepted_boundary_crossed j" "j' = requeue_job j reason"
    and r': "r' = return_capacity (set_queue (set_job r j') (j_base_priority j)
        (if ?i \<in> set (jr_queues r (j_base_priority j)) then jr_queues r (j_base_priority j)
         else ?i # jr_queues r (j_base_priority j))) j"
    using assms wf_repoD(4) [OF assms(2)]
    by (auto simp: requeue_claim_def requeue_job_def Let_def split: option.splits if_splits)
  have id: "j_job_id j = ?i" using wf_repoD(4) [OF assms(2) j(1)] .
  have out: "?i \<notin> set (jr_queues r p)" for p
    using wf_repoD(3) [OF assms(2), of ?i p] j by auto
  have "wf_repo (set_queue (set_job r j') (j_base_priority j) (?i # jr_queues r (j_base_priority j)))"
    using assms(2) j id out unfolding j(4) wf_repo_def broker_defs requeue_job_def
    by (auto simp: fun_upd_def) (metis option.inject)+
  then show ?thesis
    using out r' return_capacity_same_jobs wf_repo_same_jobs by simp
qed

lemma repo_step_wf:
  assumes "repo_step r r'" and "wf_repo r"
  shows "wf_repo r'"
  using assms(1)
proof cases
  case (s_submit job scope j)
  then show ?thesis using wf_repo_submit assms(2) by blast
next
  case (s_reserve now ms req lookup attempt x)
  show ?thesis
  proof (cases x)
    case None
    then show ?thesis using s_reserve reserve_None assms(2) by blast
  next
    case (Some y)
    obtain claimed m' where y: "y = (claimed, m')" by fastforce
    from s_reserve [unfolded Some y] assms(2) show ?thesis
    proof (rule reserve_nextD)
      fix j rest p m current
      assume q: "jr_queues r p = j_job_id claimed # rest" "jr_jobs r (j_job_id claimed) = Some j" "p = j_base_priority j"
        "claimed = claim_job j m attempt now (job_priority r now j)"
        "r' = set_member (set_leases (set_job (set_queue r p rest) claimed) (m_name m)
          (List.insert attempt (jr_leases r (m_name m)))) (m_name m) m'"
      have "wf_repo (set_job (set_queue r p rest) claimed)"
        using wf_repoD(1) [OF assms(2), of p] q
        by (intro wf_repo_dequeue [OF assms(2) q(2)]) (auto simp: claim_job_def)
      moreover have "same_jobs (set_job (set_queue r p rest) claimed) r'"
        by (simp add: q(5) same_jobs_def broker_defs)
      ultimately show ?thesis by (rule wf_repo_same_jobs)
    qed
  qed
next
  case (s_cancel i t j)
  show ?thesis
  proof (cases "r' = r")
    case False
    obtain j0 where j0: "jr_jobs r i = Some j0"
      using s_cancel by (auto simp: cancel_queued_def split: option.splits if_splits)
    note run = s_cancel [unfolded cancel_queued_def j0 option.case Let_def]
    have in_q: "i \<in> set (jr_queues r (j_base_priority j0))"
      and j: "j = j0\<lparr>j_state := J_CANCELLED, j_completed_at := Some t,
            j_reason_code := Some CANCELLED_BEFORE_ACCEPTANCE, j_state_version := j_state_version j0 + 1\<rparr>"
      and r': "r' = (set_job (set_queue r (j_base_priority j0) (remove1 i (jr_queues r (j_base_priority j0)))) j)
          \<lparr>jr_notified := jr_notified r @ [i]\<rparr>"
      using run False by (auto split: if_splits)
    have "wf_repo (set_job (set_queue r (j_base_priority j0) (remove1 i (jr_queues r (j_base_priority j0)))) j)"
      using wf_repoD(1,4) [OF assms(2)] j0 in_q
      by (intro wf_repo_dequeue [OF assms(2) j0]) (auto simp: j)
    then show ?thesis by (rule wf_repo_same_jobs) (simp add: r' same_jobs_def)
  qed (use assms(2) in simp)
next
  case (s_replace job j old)
  have id: "j_job_id old = j_job_id job" using wf_repoD(4) [OF assms(2) s_replace(2)] .
  have q: "j_job_id job \<notin> set (jr_queues r p)" for p
    using wf_repoD(3) [OF assms(2), of "j_job_id job" p] s_replace(2,3) by (auto simp: dispatch_update_def)
  have "wf_repo (set_job (set_queue r (j_base_priority old) (jr_queues r (j_base_priority old))) job)"
    using s_replace(2,3) q id wf_repoD(1) [OF assms(2)]
    by (intro wf_repo_dequeue [OF assms(2) s_replace(2)]) (auto simp: dispatch_update_def)
  moreover have "same_jobs (set_job (set_queue r (j_base_priority old) (jr_queues r (j_base_priority old))) job) r'"
    using s_replace(1) by (auto simp: replace_job_def same_jobs_def broker_defs split: if_splits)
  ultimately show ?thesis by (rule wf_repo_same_jobs)
next
  case (s_requeue job reason j)
  then show ?thesis using wf_repo_requeue assms(2) by blast
qed (rule wf_repo_same_jobs [OF assms(2)], erule member_ops_same_jobs leader_ops_same_jobs)+

lemma repo_steps_wf: "repo_step\<^sup>*\<^sup>* r r' \<Longrightarrow> wf_repo r \<Longrightarrow> wf_repo r'"
  by (induction rule: rtranclp_induct) (auto intro: repo_step_wf)

section \<open>Idempotency\<close>

lemma idempotency_kept_step:
  assumes "repo_step r r'" and "wf_repo r" and "jr_idempotency r k = Some (i, h)"
  shows "jr_idempotency r' k = Some (i, h)"
  using assms(1)
proof cases
  case (s_submit job scope j)
  then show ?thesis
    using assms(3) by (auto simp: submit_def broker_defs Let_def split: if_splits option.splits prod.splits)
next
  case (s_reserve now ms req lookup attempt x)
  then show ?thesis
    using assms(3)
    by (auto simp: reserve_next_def broker_defs stale_def Let_def
        split: sum.splits option.splits list.splits if_splits)
next
  case (s_cancel i t j)
  then show ?thesis
    using assms(3) by (auto simp: cancel_queued_def broker_defs Let_def split: if_splits option.splits)
next
  case (s_replace job j old)
  then show ?thesis using assms(3) by (auto simp: replace_job_def broker_defs split: if_splits)
next
  case (s_requeue job reason j)
  have "jr_idempotency (return_capacity q c) = jr_idempotency q" for q c
    using return_capacity_same_jobs [of q c] by (simp add: same_jobs_def)
  then show ?thesis
    using s_requeue assms(3) by (auto simp: requeue_claim_def broker_defs Let_def split: if_splits option.splits)
qed (auto dest!: member_ops_same_jobs leader_ops_same_jobs simp: same_jobs_def assms(3))

lemma idempotency_kept:
  "repo_step\<^sup>*\<^sup>* r r' \<Longrightarrow> wf_repo r \<Longrightarrow> jr_idempotency r k = Some (i, h) \<Longrightarrow> jr_idempotency r' k = Some (i, h)"
  by (induction rule: rtranclp_induct) (use idempotency_kept_step repo_steps_wf in blast)+

lemma submit_records:
  assumes "submit r job scope = Inr (j, r')" and "wf_repo r"
  shows "jr_idempotency r' (scope, j_idempotency_key job) = Some (j_job_id j, j_request_sha256 job)"
proof (cases "jr_idempotency r (scope, j_idempotency_key job)")
  case None
  then show ?thesis using assms by (auto simp: submit_def broker_defs Let_def split: if_splits)
next
  case (Some x)
  obtain i h where x: "x = (i, h)" by fastforce
  obtain j0 where "jr_jobs r i = Some j0" "j_job_id j0 = i"
    using wf_repoD(4,6) [OF assms(2)] Some x by blast
  then show ?thesis using assms(1) Some x by (auto simp: submit_def Let_def split: if_splits)
qed

definition sample_repo :: job_repo where
  "sample_repo = (new_repo 300)
     \<lparr>jr_jobs := [''a'' \<mapsto> sample_job ''a''], jr_queues := (\<lambda>_. [])(NORMAL := [''a'']),
      jr_idempotency := [(''me'', ''a'') \<mapsto> (''a'', ''h'')]\<rparr>"

lemma sample_submit: "submit (new_repo 300) (sample_job ''a'') ''me'' = Inr (sample_job ''a'', sample_repo)"
  by (simp add: submit_def new_repo_def sample_repo_def sample_job_def broker_defs priority_value_def Let_def)

lemma sample_submit_step: "repo_step (new_repo 300) sample_repo"
  by (rule s_submit [OF sample_submit]) (simp_all add: sample_job_def)

text \<open>Submission is idempotent for good. Once a caller's idempotency key was used, then in every later state
  of the repository the same key with the same request body hash returns the same job and changes
  nothing, and with any other hash it is refused; no second job is ever created for it.\<close>

theorem submit_is_idempotent:
  assumes "repo_step\<^sup>*\<^sup>* (new_repo aging) r0" and "submit r0 job scope = Inr (stored, r1)"
    and "j_state job = J_QUEUED" and "\<not> j_accepted_boundary_crossed job"
    and "repo_step\<^sup>*\<^sup>* r1 r2" and "j_idempotency_key job' = j_idempotency_key job"
  shows "(j_request_sha256 job' = j_request_sha256 job \<longrightarrow>
            (\<exists>j. submit r2 job' scope = Inr (j, r2) \<and> j_job_id j = j_job_id stored
                \<and> jr_jobs r2 (j_job_id stored) = Some j))
     \<and> (j_request_sha256 job' \<noteq> j_request_sha256 job \<longrightarrow>
            submit r2 job' scope = Inl (ContractError ''IDEMPOTENCY_KEY_REUSED''))"
proof -
  have wf0: "wf_repo r0" using repo_steps_wf [OF assms(1)] by simp
  have wf1: "wf_repo r1" using wf_repo_submit [OF assms(2) wf0 assms(3,4)] .
  have wf2: "wf_repo r2" using repo_steps_wf [OF assms(5) wf1] .
  have k: "jr_idempotency r2 (scope, j_idempotency_key job) = Some (j_job_id stored, j_request_sha256 job)"
    using idempotency_kept [OF assms(5) wf1 submit_records [OF assms(2) wf0]] .
  then obtain j where "jr_jobs r2 (j_job_id stored) = Some j" using wf_repoD(6) [OF wf2] by blast
  then show ?thesis
    using k wf_repoD(2,4) [OF wf2] by (simp add: submit_def assms(6))
qed

theorem submit_is_idempotent_witness:
  "(\<exists>j. submit sample_repo (sample_job ''a'') ''me'' = Inr (j, sample_repo) \<and> j_job_id j = ''a'')
   \<and> submit sample_repo ((sample_job ''a'')\<lparr>j_request_sha256 := ''x''\<rparr>) ''me''
       = Inl (ContractError ''IDEMPOTENCY_KEY_REUSED'')"
proof -
  have q: "j_state (sample_job ''a'') = J_QUEUED" "\<not> j_accepted_boundary_crossed (sample_job ''a'')"
    by (simp_all add: sample_job_def)
  note thm1 = submit_is_idempotent [OF rtranclp.rtrancl_refl sample_submit q rtranclp.rtrancl_refl]
  show ?thesis
    using thm1 [of "sample_job ''a''"] thm1 [of "(sample_job ''a'')\<lparr>j_request_sha256 := ''x''\<rparr>"]
    by (auto simp: sample_job_def)
qed

section \<open>No second dispatch after acceptance\<close>



definition sample_claimed_job :: JobRecord where
  "sample_claimed_job = claim_job (sample_job ''a'') sample_member ''t1'' 12 10"

definition sample_held :: MemberSnapshot where
  "sample_held = sample_member\<lparr>m_dispatcher_leases := 1, m_compatible_free_slots := Some 0\<rparr>"

definition sample_claimed :: job_repo where
  "sample_claimed = sample_repo\<lparr>jr_jobs := [''a'' \<mapsto> sample_claimed_job], jr_queues := (\<lambda>_. []),
     jr_leases := (\<lambda>_. [])(''m1'' := [''t1'']), jr_members := [''m1'' \<mapsto> sample_held]\<rparr>"

definition sample_accepted_job :: JobRecord where
  "sample_accepted_job = sample_claimed_job\<lparr>j_state := J_ACCEPTED, j_accepted_boundary_crossed := True\<rparr>"

definition sample_accepted :: job_repo where
  "sample_accepted = sample_claimed\<lparr>jr_jobs := [''a'' \<mapsto> sample_accepted_job]\<rparr>"

lemma sample_claim:
  "reserve_next sample_repo 12 [sample_member] (job_requirements (sample_job ''a'')) None ''t1'' =
     Inr (Some (sample_claimed_job, sample_held), sample_claimed)"
proof -
  have h: "heads sample_repo = [sample_job ''a'']" by (simp add: heads_def sample_repo_def)
  have p: "peek_next sample_repo 12 = Inr (Some (sample_job ''a''))"
    by (simp add: peek_next_def h, simp add: sample_repo_def new_repo_def job_priority_def effective_priority_def
        sample_job_def priority_value_def)
  have f: "reservable (job_requirements (sample_job ''a'')) sample_member"
    by (simp add: reservable_def evaluate_def job_requirements_def sample_job_def sample_member_def)
  have q: "jr_queues sample_repo NORMAL = [''a'']" "jr_leases sample_repo = (\<lambda>_. [])"
      "jr_jobs sample_repo ''a'' = Some (sample_job ''a'')" "j_base_priority (sample_job ''a'') = NORMAL"
      "j_job_id (sample_job ''a'') = ''a''" "j_effective_priority (sample_job ''a'') = 10"
    by (simp_all add: sample_repo_def new_repo_def sample_job_def)
  have m: "m_name sample_member = ''m1''" "m_configured_slots sample_member = 1" "m_state sample_member = M_READY_ACCEPTING"
      "m_accepting sample_member" "m_compatible_free_slots sample_member = Some 1"
    by (simp_all add: sample_member_def)
  show ?thesis
    by (simp add: reserve_next_def p f q m Let_def sample_claimed_job_def [symmetric] sample_held_def)
      (simp add: sample_claimed_def sample_held_def sample_repo_def new_repo_def broker_defs sample_claimed_job_def
        claim_job_def sample_job_def fun_upd_idem)
qed

lemma sample_accept_step: "repo_step sample_claimed sample_accepted"
proof (rule s_replace)
  show "replace_job sample_claimed sample_accepted_job = Inr (sample_accepted_job, sample_accepted)"
    by (simp add: replace_job_def sample_claimed_def sample_accepted_def sample_accepted_job_def terminal_job_def
        broker_defs sample_claimed_job_def claim_job_def sample_job_def sample_repo_def new_repo_def)
  show "jr_jobs sample_claimed (j_job_id sample_accepted_job) = Some sample_claimed_job"
    by (simp add: sample_claimed_def sample_accepted_job_def sample_claimed_job_def claim_job_def sample_job_def)
  show "dispatch_update sample_claimed_job sample_accepted_job"
    by (simp add: dispatch_update_def sample_accepted_job_def sample_claimed_job_def claim_job_def)
qed

lemma sample_repo_steps:
  "repo_step\<^sup>*\<^sup>* (new_repo 300) sample_repo" "repo_step\<^sup>*\<^sup>* (new_repo 300) sample_claimed"
  "repo_step\<^sup>*\<^sup>* (new_repo 300) sample_accepted"
proof -
  show a: "repo_step\<^sup>*\<^sup>* (new_repo 300) sample_repo" using sample_submit_step by blast
  show b: "repo_step\<^sup>*\<^sup>* (new_repo 300) sample_claimed"
    by (rule rtranclp.rtrancl_into_rtrancl [OF a s_reserve [OF sample_claim]])
  show "repo_step\<^sup>*\<^sup>* (new_repo 300) sample_accepted"
    by (rule rtranclp.rtrancl_into_rtrancl [OF b sample_accept_step])
qed



text \<open>A reservation takes the right job and the right slot. The job it claims was queued, is the head with the smallest
  effective priority and then the smallest sequence number among the heads of the queues, is in no
  queue afterwards, and no other job changes; the member is accepting at commit time under the version that was seen,
  and holds at most as many leases afterwards as it has slots.\<close>

theorem reservation_takes_head_and_slot:
  assumes "repo_step\<^sup>*\<^sup>* (new_repo aging) r" and "\<And>f n. lookup = Some f \<Longrightarrow> m_name (f n) = n"
    and "reserve_next r now ms req lookup attempt = Inr (Some (c, m), r')"
  shows "\<exists>j. jr_jobs r (j_job_id c) = Some j \<and> j_state j = J_QUEUED \<and> j_state c = J_CLAIMED
     \<and> (\<forall>h \<in> set (heads r). (job_priority r now j, j_enqueue_sequence j) \<le> (job_priority r now h, j_enqueue_sequence h))
     \<and> jr_jobs r' = (jr_jobs r)(j_job_id c \<mapsto> c) \<and> (\<forall>p. j_job_id c \<notin> set (jr_queues r' p))
     \<and> j_selected_member c = Some (m_name m) \<and> m_accepting m \<and> m_state m = M_READY_ACCEPTING
     \<and> j_member_state_version c = Some (m_state_version m)
     \<and> attempt \<in> set (jr_leases r' (m_name m)) \<and> int (length (jr_leases r' (m_name m))) \<le> m_configured_slots m"
proof -
  have wf: "wf_repo r" using repo_steps_wf [OF assms(1)] by simp
  have wf': "wf_repo r'" using repo_step_wf [OF s_reserve [OF assms(3)] wf] .
  from assms(3) wf show ?thesis
  proof (rule reserve_nextD)
    fix j rest p m0 current
    assume q: "jr_queues r p = j_job_id c # rest" "jr_jobs r (j_job_id c) = Some j" "p = j_base_priority j"
      "j_state j = J_QUEUED" "c = claim_job j m0 attempt now (job_priority r now j)"
      "current = (case lookup of None \<Rightarrow> m0 | Some f \<Rightarrow> f (m_name m0))"
      "int (length (jr_leases r (m_name current))) < m_configured_slots current"
      "m_state_version current = m_state_version m0" "m_state current = M_READY_ACCEPTING" "m_accepting current"
      "m = current\<lparr>m_dispatcher_leases := int (length (jr_leases r (m_name current))) + 1,
        m_compatible_free_slots := Some (max 0 (min
          (m_configured_slots current - int (length (jr_leases r (m_name current))) - 1)
          (or_0 (m_compatible_free_slots current) - 1)))\<rparr>"
      "r' = set_member (set_leases (set_job (set_queue r p rest) c) (m_name m0)
        (List.insert attempt (jr_leases r (m_name m0)))) (m_name m0) m"
      and min: "\<And>h. h \<in> set (heads r) \<Longrightarrow> job_key r now j \<le> job_key r now h"
    have name: "m_name current = m_name m0" using q(6) assms(2) by (auto split: option.splits)
    have jobs: "jr_jobs r' = (jr_jobs r)(j_job_id c \<mapsto> c)" by (simp add: q(12) broker_defs)
    have "j_state c = J_CLAIMED" by (simp add: q(5) claim_job_def)
    then have out: "j_job_id c \<notin> set (jr_queues r' p')" for p'
      using wf_repoD(3) [OF wf', of "j_job_id c" p'] jobs by auto
    have leases: "jr_leases r' (m_name m) = List.insert attempt (jr_leases r (m_name m))"
      using name by (simp add: q(11,12) broker_defs)
    have len: "int (length (jr_leases r' (m_name m))) \<le> m_configured_slots m"
      using q(7) by (simp add: leases) (simp add: q(11) List.insert_def)
    show ?thesis
      by (rule exI [of _ j])
        (use q(2,4,8-10) min jobs out leases len name in \<open>auto simp: q(5,11) claim_job_def job_key_def\<close>)
  qed
qed

theorem reservation_takes_head_and_slot_witness:
  "\<exists>j. jr_jobs sample_repo ''a'' = Some j \<and> j_state j = J_QUEUED
     \<and> jr_jobs sample_claimed = (jr_jobs sample_repo)(''a'' \<mapsto> sample_claimed_job)
     \<and> int (length (jr_leases sample_claimed ''m1'')) \<le> 1"
proof -
  have "j_job_id sample_claimed_job = ''a''" "m_name sample_held = ''m1''" "m_configured_slots sample_held = 1"
    by (simp_all add: sample_claimed_job_def claim_job_def sample_job_def sample_held_def sample_member_def)
  with reservation_takes_head_and_slot [OF sample_repo_steps(1) _ sample_claim] show ?thesis by auto
qed

section \<open>Aging\<close>

lemma effective_priority_aged:
  assumes "0 < aging" and "of_int (priority_value p) / 10 * aging \<le> now - submitted_at"
  shows "effective_priority p submitted_at now aging = 0"
proof -
  have "of_int (priority_value p) / 10 \<le> (now - submitted_at) / aging"
    using assms by (simp add: pos_le_divide_eq)
  also have "\<dots> \<le> max 0 (now - submitted_at) / aging"
    using assms(1) by (intro divide_right_mono) auto
  finally have le: "of_int (priority_value p) / 10 \<le> max 0 (now - submitted_at) / aging" .
  have "priority_value p = 10 * (priority_value p div 10)"
    by (cases p) (simp_all add: priority_value_def)
  then have "of_int (priority_value p div 10) \<le> max 0 (now - submitted_at) / aging"
    using le by linarith
  then have "priority_value p div 10 \<le> \<lfloor>max 0 (now - submitted_at) / aging\<rfloor>"
    by (simp add: le_floor_iff)
  then show ?thesis
    using \<open>priority_value p = _\<close> unfolding effective_priority_def by linarith
qed

text \<open>Aging prevents starvation. When a job at the head of its queue has waited one aging period per ten points of its
  base priority (600 s for background work by default), the only job a reservation can take before
  it is one of effective priority 0 that was enqueued no later than it.\<close>

theorem aged_job_waits_only_for_older:
  assumes "repo_step\<^sup>*\<^sup>* (new_repo aging) r" and "reserve_next r now ms req lookup attempt = Inr (Some (c, m), r')"
    and "h \<in> set (heads r)"
    and "of_int (priority_value (j_base_priority h)) / 10 * jr_aging_seconds r \<le> now - j_submitted_at h"
  shows "j_effective_priority c = 0 \<and> j_enqueue_sequence c \<le> j_enqueue_sequence h"
proof -
  have wf: "wf_repo r" using repo_steps_wf [OF assms(1)] by simp
  from assms(2) wf show ?thesis
  proof (rule reserve_nextD)
    fix j rest p m0 current
    assume c: "c = claim_job j m0 attempt now (job_priority r now j)" and pos: "0 < jr_aging_seconds r"
      and min: "\<And>h. h \<in> set (heads r) \<Longrightarrow> job_key r now j \<le> job_key r now h"
    have "job_priority r now h = 0"
      unfolding job_priority_def by (rule effective_priority_aged [OF pos assms(4)])
    moreover have "0 \<le> job_priority r now j" by (simp add: job_priority_def effective_priority_def)
    ultimately show ?thesis
      using min [OF assms(3)] by (auto simp: job_key_def c claim_job_def less_eq_prod_def)
  qed
qed

theorem aged_job_waits_only_for_older_witness:
  "\<exists>c m r'. reserve_next sample_repo 612 [sample_member] (job_requirements (sample_job ''a'')) None ''t1''
      = Inr (Some (c, m), r') \<and> j_effective_priority c = 0 \<and> j_enqueue_sequence c \<le> 1"
proof -
  have h: "heads sample_repo = [sample_job ''a'']" by (simp add: heads_def sample_repo_def)
  have f: "reservable (job_requirements (sample_job ''a'')) sample_member"
    by (simp add: reservable_def evaluate_def job_requirements_def sample_job_def sample_member_def)
  have a: "jr_aging_seconds sample_repo = 300" "jr_available sample_repo" "jr_leases sample_repo = (\<lambda>_. [])"
      "jr_queues sample_repo NORMAL = [''a'']"
    by (simp_all add: sample_repo_def new_repo_def)
  have j: "j_base_priority (sample_job ''a'') = NORMAL" "j_job_id (sample_job ''a'') = ''a''"
      "j_submitted_at (sample_job ''a'') = 1" "j_enqueue_sequence (sample_job ''a'') = 1"
    by (simp_all add: sample_job_def)
  have "\<exists>c m r'. reserve_next sample_repo 612 [sample_member] (job_requirements (sample_job ''a'')) None ''t1''
      = Inr (Some (c, m), r')"
    by (simp add: reserve_next_def peek_next_def h f a j Let_def) (simp add: sample_member_def)
  then obtain c m r' where run: "reserve_next sample_repo 612 [sample_member] (job_requirements (sample_job ''a'')) None
      ''t1'' = Inr (Some (c, m), r')" by blast
  have "j_effective_priority c = 0 \<and> j_enqueue_sequence c \<le> 1"
    using aged_job_waits_only_for_older [OF sample_repo_steps(1) run, of "sample_job ''a''"]
    by (simp add: h a j priority_value_def)
  with run show ?thesis by blast
qed

section \<open>Leadership\<close>

text \<open>The token never goes down, and as long as it stays the same so does the owner.\<close>

lemma leader_step:
  assumes "repo_step r r'"
  shows "jr_leader_token r \<le> jr_leader_token r'
     \<and> (jr_leader_token r' = jr_leader_token r \<longrightarrow> jr_leader_owner r' = jr_leader_owner r)"
  using assms
proof cases
  case (s_requeue job reason j)
  have "jr_leader_token (return_capacity q k) = jr_leader_token q \<and> jr_leader_owner (return_capacity q k) = jr_leader_owner q"
    for q k by (auto simp: return_capacity_def broker_defs Let_def split: option.splits)
  then show ?thesis
    using s_requeue by (auto simp: requeue_claim_def broker_defs Let_def split: if_splits option.splits)
next
  case (s_reserve now ms req lookup attempt x)
  then show ?thesis
    by (auto simp: reserve_next_def broker_defs stale_def Let_def
        split: sum.splits option.splits list.splits if_splits)
qed (auto simp: submit_def cancel_queued_def replace_job_def member_op_defs broker_defs acquire_leadership_def
    renew_leadership_def Let_def split: if_splits option.splits prod.splits)

lemma leader_steps:
  "repo_step\<^sup>*\<^sup>* r r' \<Longrightarrow> jr_leader_token r \<le> jr_leader_token r'
     \<and> (jr_leader_token r' = jr_leader_token r \<longrightarrow> jr_leader_owner r' = jr_leader_owner r)"
proof (induction rule: rtranclp_induct)
  case (step y z)
  then show ?case using leader_step [OF step.hyps(2)] by force
qed simp

lemma acquireD:
  "acquire_leadership r owner now ttl = Inr (k, r') \<Longrightarrow> jr_leader_token r' = k \<and> jr_leader_owner r' = Some owner
     \<and> jr_leader_token r \<le> k \<and> (jr_leader_owner r \<noteq> Some owner \<longrightarrow> jr_leader_token r < k)"
  by (auto simp: acquire_leadership_def Let_def split: if_splits)

text \<open>Leadership is fenced. When another owner takes over the dispatcher leadership, its token is larger, and the
  previous leader's token can never renew again.\<close>

theorem superseded_leader_cannot_renew:
  assumes "acquire_leadership r0 owner now ttl = Inr (k, r1)" and "repo_step\<^sup>*\<^sup>* r1 r2"
    and "acquire_leadership r2 owner' now' ttl' = Inr (k', r3)" and "owner' \<noteq> owner" and "repo_step\<^sup>*\<^sup>* r3 r4"
  shows "k < k' \<and> isl (renew_leadership r4 owner k now'' ttl'')"
proof -
  note a = acquireD [OF assms(1)] and b = acquireD [OF assms(3)]
  note s = leader_steps [OF assms(2)] and s' = leader_steps [OF assms(5)]
  have "k < k'"
  proof (cases "jr_leader_token r2 = k")
    case True
    then have "jr_leader_owner r2 = Some owner" using a s by simp
    then show ?thesis using b assms(4) True by simp
  next
    case False
    then show ?thesis using a b s by linarith
  qed
  moreover have "jr_leader_token r4 \<noteq> k" using calculation s' b by linarith
  ultimately show ?thesis by (auto simp: renew_leadership_def)
qed

theorem superseded_leader_cannot_renew_witness:
  "\<exists>k r1 k' r2. acquire_leadership (new_repo 300) ''a'' 0 30 = Inr (k, r1)
     \<and> acquire_leadership r1 ''b'' 5 30 = Inr (k', r2) \<and> k < k' \<and> isl (renew_leadership r2 ''a'' k 6 30)"
proof -
  obtain k r1 where a: "acquire_leadership (new_repo 300) ''a'' 0 30 = Inr (k, r1)" "jr_available r1"
    by (simp add: acquire_leadership_def new_repo_def Let_def)
  have "\<not> isl (acquire_leadership r1 ''b'' 5 30)" using a(2) by (simp add: acquire_leadership_def Let_def)
  then obtain k' r2 where b: "acquire_leadership r1 ''b'' 5 30 = Inr (k', r2)"
    by (cases "acquire_leadership r1 ''b'' 5 30") auto
  have "k < k' \<and> isl (renew_leadership r2 ''a'' k 6 30)"
    by (rule superseded_leader_cannot_renew [OF a(1) _ b]) simp_all
  with a(1) b show ?thesis by blast
qed

end
