(* ===== verification/Broker_Dispatch.thy ===== *)
theory Broker_Dispatch
  imports Broker_Repository
begin

text \<open>
  The clients of the broker's repository: the one-attempt dispatcher (\<open>scripts/gemma_broker/dispatcher.py\<close>) and the drain and
  rejoin coordinators (\<open>drain.py\<close>). The transport is code outside these modules: what it does is an
  argument (whether it reports acceptance, how it ends), and so is what other clients do to the
  repository meanwhile.
\<close>

section \<open>The dispatcher\<close>














section \<open>Drain\<close>

record DrainResult =
  dr_member :: MemberSnapshot
  dr_drained :: bool
  dr_lease_count :: nat
  dr_blockers :: "string list"

definition lease_blockers :: "nat \<Rightarrow> string list" where
  "lease_blockers n = (if n = 0 then [] else [''member_leases:'' @ show_nat n])"

text \<open>The bounded retries: \<open>k\<close> attempts are left. \<open>env n\<close> is what other clients do before the n-th read.\<close>

fun begin_drain_retry ::
  "(nat \<Rightarrow> job_repo \<Rightarrow> job_repo) \<Rightarrow> nat \<Rightarrow> nat \<Rightarrow> job_repo \<Rightarrow> string \<Rightarrow> int \<Rightarrow> bool \<Rightarrow> (MemberSnapshot \<times> job_repo) repo_result" where
  "begin_drain_retry env n 0 r name version retry = stale"
| "begin_drain_retry env n (Suc k) r name version retry =
     (case begin_member_drain r name version of
        Inr x \<Rightarrow> Inr x
      | Inl (ReservationStale m) \<Rightarrow>
          if \<not> retry \<or> k = 0 then Inl (ReservationStale m)
          else let r1 = env n r in
            if \<not> jr_available r1 then Inl RepositoryUnavailable else
            (case jr_members r1 name of
               None \<Rightarrow> Inl (ReservationStale m)
             | Some cur \<Rightarrow>
                 if m_state cur \<notin> {M_READY_ACCEPTING, M_JOINING, M_UNHEALTHY} then Inl (ReservationStale m)
                 else begin_drain_retry env (Suc n) k r1 name (m_state_version cur) retry)
      | Inl e \<Rightarrow> Inl e)"

fun complete_drain_retry ::
  "(nat \<Rightarrow> job_repo \<Rightarrow> job_repo) \<Rightarrow> nat \<Rightarrow> nat \<Rightarrow> job_repo \<Rightarrow> string \<Rightarrow> int \<Rightarrow> bool \<Rightarrow> (MemberSnapshot \<times> job_repo) repo_result" where
  "complete_drain_retry env n 0 r name version retry = stale"
| "complete_drain_retry env n (Suc k) r name version retry =
     (case complete_member_drain r name version of
        Inr x \<Rightarrow> Inr x
      | Inl (ReservationStale m) \<Rightarrow>
          if \<not> retry \<or> k = 0 then Inl (ReservationStale m)
          else let r1 = env n r in
            if \<not> jr_available r1 then Inl RepositoryUnavailable else
            (case jr_members r1 name of
               None \<Rightarrow> Inl (ReservationStale m)
             | Some cur \<Rightarrow>
                 if m_state cur \<noteq> M_DRAINING \<or> lease_count r1 name \<noteq> 0 then Inl (ReservationStale m)
                 else complete_drain_retry env (Suc n) k r1 name (m_state_version cur) retry)
      | Inl e \<Rightarrow> Inl e)"

text \<open>The waiting loop at the time \<open>t\<close> of the event loop's clock; the lease set is checked again every quarter of
  a second (a notification only makes the next check earlier).\<close>

function drain_wait ::
  "(nat \<Rightarrow> job_repo \<Rightarrow> job_repo) \<Rightarrow> nat \<Rightarrow> job_repo \<Rightarrow> string \<Rightarrow> MemberSnapshot \<Rightarrow> bool \<Rightarrow> time \<Rightarrow> time
     \<Rightarrow> (DrainResult \<times> job_repo) repo_result" where
  "drain_wait env n r name draining retry deadline t =
     (let r1 = env n r; leases = lease_count r1 name;
          current = (case jr_members r1 name of None \<Rightarrow> draining | Some m \<Rightarrow> m) in
      if \<not> jr_available r1 then Inl RepositoryUnavailable
      else if leases = 0
      then (case complete_drain_retry env (Suc n) 3 r1 name (m_state_version current) retry of
              Inl e \<Rightarrow> Inl e
            | Inr (off, r2) \<Rightarrow> Inr (\<lparr>dr_member = off, dr_drained = True, dr_lease_count = 0, dr_blockers = []\<rparr>, r2))
      else if deadline - t \<le> 0
      then Inr (\<lparr>dr_member = current, dr_drained = False, dr_lease_count = leases,
             dr_blockers = lease_blockers leases\<rparr>, r1)
      else drain_wait env (Suc n) r1 name draining retry deadline (t + min (deadline - t) (1 / 4)))"
  by pat_completeness auto

lemma drain_measure:
  fixes d t :: real
  assumes "0 < d - t"
  shows "nat \<lceil>(d - (t + min (d - t) (1 / 4))) * 4\<rceil> < nat \<lceil>(d - t) * 4\<rceil>"
proof -
  have pos: "0 < \<lceil>(d - t) * 4\<rceil>" using assms by simp
  have "\<lceil>(d - (t + min (d - t) (1 / 4))) * 4\<rceil> < \<lceil>(d - t) * 4\<rceil>"
  proof (cases "d - t \<le> 1 / 4")
    case True
    then show ?thesis using pos by (simp add: min_def)
  next
    case False
    then have eq: "(d - (t + min (d - t) (1 / 4))) * 4 = (d - t) * 4 - 1" by (simp add: min_def algebra_simps)
    show ?thesis unfolding eq ceiling_diff_one by simp
  qed
  then show ?thesis using pos by (simp only: zless_nat_conj simp_thms)
qed

termination drain_wait
proof (relation "measure (\<lambda>(env, n, r, name, draining, retry, deadline, t). nat \<lceil>(deadline - t) * 4\<rceil>)", goal_cases)
  case (2 env n r name draining retry deadline t x xa xb)
  then have "0 < deadline - t" by simp
  from drain_measure [OF this] show ?case by (simp only: in_measure prod.case)
qed simp

declare drain_wait.simps [simp del]

definition begin_and_wait ::
  "(nat \<Rightarrow> job_repo \<Rightarrow> job_repo) \<Rightarrow> job_repo \<Rightarrow> string \<Rightarrow> int \<Rightarrow> time \<Rightarrow> bool \<Rightarrow> time
     \<Rightarrow> (DrainResult \<times> job_repo) repo_result" where
  "begin_and_wait env r name version timeout retry t =
     (if timeout < 0 then Inl (ValueError ''timeout must be non-negative'')
      else if \<not> jr_available r then Inl RepositoryUnavailable
      else case jr_members r name of
        None \<Rightarrow> unknown_member
      | Some cur \<Rightarrow>
          if m_state cur = M_OFFLINE
          then Inr (\<lparr>dr_member = cur, dr_drained = (lease_count r name = 0), dr_lease_count = lease_count r name,
                  dr_blockers = lease_blockers (lease_count r name)\<rparr>, r)
          else (case begin_drain_retry env 0 3 r name version retry of
                  Inl e \<Rightarrow> Inl e
                | Inr (draining, r1) \<Rightarrow> drain_wait env 3 r1 name draining retry (t + timeout) t))"

section \<open>Rejoin\<close>

definition rejoin :: "job_repo \<Rightarrow> string \<Rightarrow> int \<Rightarrow> int \<Rightarrow> MemberSnapshot \<Rightarrow> (MemberSnapshot \<times> job_repo) repo_result" where
  "rejoin r name version generation_fence readiness =
     (if \<not> jr_available r then Inl RepositoryUnavailable else case jr_members r name of
        None \<Rightarrow> unknown_member
      | Some cur \<Rightarrow>
          if m_state cur = M_READY_ACCEPTING \<and> m_accepting cur then Inr (cur, r)
          else if m_state cur \<noteq> M_JOINING \<and> generation_fence \<le> m_generation_fence cur
          then Inl (ContractError ''GENERATION_FENCE_STALE'')
          else if m_name readiness \<noteq> name then Inl (ContractError ''READINESS_MEMBER_MISMATCH'')
          else if opt_true (m_gpu_id readiness) \<and> m_idle_service_effective readiness \<noteq> Some True
          then Inl (ContractError ''MEMBER_IDLE_SERVICE_NOT_EFFECTIVE'')
          else if m_state readiness \<noteq> M_READY_ACCEPTING \<or> \<not> m_accepting readiness
          then Inl (ContractError ''MEMBER_NOT_READY'')
          else if m_blockers readiness \<noteq> [] \<or> m_reason_codes readiness \<noteq> [] then Inl (ContractError ''MEMBER_NOT_READY'')
          else if m_state cur = M_JOINING
          then (if version \<noteq> m_state_version cur then stale
                else complete_member_rejoin r name (m_state_version cur) readiness)
          else (case begin_member_rejoin r name version generation_fence of
                  Inl e \<Rightarrow> Inl e
                | Inr (joining, r1) \<Rightarrow> complete_member_rejoin r1 name (m_state_version joining) readiness))"

section \<open>The acceptance boundary\<close>












section \<open>Drain and rejoin\<close>

lemma complete_member_drainD:
  assumes "complete_member_drain r name v = Inr (m, r')"
  shows "jr_leases r name = [] \<and> jr_members r' name = Some m \<and> m_state m = M_OFFLINE \<and> \<not> m_accepting m
     \<and> m_compatible_free_slots m = Some 0 \<and> jr_leases r' = jr_leases r"
  using assms by (auto simp: complete_member_drain_def broker_defs stale_def unknown_member_def Let_def
      split: if_splits option.splits)

lemma complete_drain_retryD:
  "complete_drain_retry env n k r name v retry = Inr (m, r') \<Longrightarrow>
     jr_members r' name = Some m \<and> m_state m = M_OFFLINE \<and> \<not> m_accepting m \<and> m_compatible_free_slots m = Some 0
     \<and> lease_count r' name = 0"
proof (induction env n k r name v retry rule: complete_drain_retry.induct)
  case (2 env n k r name v retry)
  show ?case
  proof (cases "complete_member_drain r name v")
    case (Inl e)
    then show ?thesis
      using 2 by (cases e) (auto simp: Let_def split: if_splits option.splits)
  next
    case (Inr x)
    then show ?thesis using 2(2) complete_member_drainD [of r name v m r'] by (simp add: lease_count_def)
  qed
qed (simp add: stale_def)

lemma drain_waitD:
  "drain_wait env n r name draining retry deadline t = Inr (res, r') \<Longrightarrow>
     (dr_drained res \<longrightarrow> dr_lease_count res = 0 \<and> jr_members r' name = Some (dr_member res)
        \<and> m_state (dr_member res) = M_OFFLINE \<and> \<not> m_accepting (dr_member res) \<and> lease_count r' name = 0)
     \<and> (\<not> dr_drained res \<longrightarrow> 0 < dr_lease_count res \<and> dr_lease_count res = lease_count r' name)"
proof (induction env n r name draining retry deadline t rule: drain_wait.induct)
  case (1 env n r name draining retry deadline t)
  note run = 1(2) [unfolded drain_wait.simps [of env n r name draining retry deadline t] Let_def]
  show ?case
  proof (cases "\<not> jr_available (env n r) \<or> lease_count (env n r) name = 0 \<or> deadline - t \<le> 0")
    case True
    then show ?thesis
      using run complete_drain_retryD by (auto split: if_splits sum.splits prod.splits)
  next
    case False
    then have "drain_wait env (Suc n) (env n r) name draining retry deadline (t + min (deadline - t) (1 / 4)) = Inr (res, r')"
      using run by simp
    from 1(1) [OF refl refl refl _ _ _ this] False show ?thesis by satx
  qed
qed

text \<open>A drain that reports success is real. When the coordinator returns \<open>drained\<close>, the member is offline, does not
  accept and holds no lease; when it returns without, at least one lease is still held.\<close>

theorem drained_member_is_idle:
  assumes "begin_and_wait env r name version timeout retry t = Inr (res, r')"
    and "\<forall>m. jr_members r name = Some m \<and> m_state m = M_OFFLINE \<longrightarrow> \<not> m_accepting m"
  shows "(dr_drained res \<longrightarrow> dr_lease_count res = 0 \<and> jr_members r' name = Some (dr_member res)
        \<and> m_state (dr_member res) = M_OFFLINE \<and> \<not> m_accepting (dr_member res) \<and> lease_count r' name = 0)
     \<and> (\<not> dr_drained res \<longrightarrow> 0 < dr_lease_count res \<and> dr_lease_count res = lease_count r' name)"
proof -
  obtain cur where cur: "jr_members r name = Some cur"
    using assms(1) by (auto simp: begin_and_wait_def unknown_member_def split: if_splits option.splits)
  show ?thesis
  proof (cases "m_state cur = M_OFFLINE")
    case True
    then show ?thesis
      using assms cur by (auto simp: begin_and_wait_def split: if_splits)
  next
    case False
    then obtain draining r1 where "drain_wait env 3 r1 name draining retry (t + timeout) t = Inr (res, r')"
      using assms(1) cur by (auto simp: begin_and_wait_def split: if_splits sum.splits)
    then show ?thesis by (rule drain_waitD)
  qed
qed

theorem drained_member_is_idle_witness:
  "\<exists>res r'. begin_and_wait (\<lambda>_. id) (set_member sample_repo ''m1'' sample_member) ''m1'' 3 5 False 0 = Inr (res, r')
     \<and> dr_drained res \<and> m_state (dr_member res) = M_OFFLINE \<and> lease_count r' ''m1'' = 0"
proof -
  let ?r = "set_member sample_repo ''m1'' sample_member"
  have "\<exists>res r'. begin_and_wait (\<lambda>_. id) ?r ''m1'' 3 5 False 0 = Inr (res, r') \<and> dr_drained res"
    by (simp add: begin_and_wait_def begin_member_drain_def sample_repo_def sample_member_def new_repo_def broker_defs
        drain_wait.simps lease_count_def complete_member_drain_def numeral_3_eq_3 member_transition_ok_def Let_def)
  then obtain res r' where run: "begin_and_wait (\<lambda>_. id) ?r ''m1'' 3 5 False 0 = Inr (res, r')" "dr_drained res"
    by blast
  with drained_member_is_idle [OF run(1)] show ?thesis
    by (simp add: sample_repo_def sample_member_def broker_defs)
qed

text \<open>A release under a claim made before the drain began is refused while the member drains, since the beginning
  of the drain moves the version: such a lease ends only by expiry.\<close>

lemma drain_refuses_earlier_claims:
  assumes "begin_member_drain r name v = Inr (m, r1)" and "m_state (the (jr_members r name)) \<noteq> M_DRAINING"
    and "attempt \<in> set (jr_leases r name)" and "claimed \<le> v"
  shows "release_member_lease r1 name attempt claimed = stale"
  using assms
  by (auto simp: begin_member_drain_def release_member_lease_def broker_defs stale_def unknown_member_def Let_def
      split: if_splits option.splits)

text \<open>A rejoin needs new evidence. A member that is not accepting comes back only as ready and accepting, with
  readiness evidence for this very member that is ready, accepting, free of blockers and reasons, and,
  on a GPU, shows the idle service effective; its version moves up, and unless it was already joining its process
  generation is a strictly newer one.\<close>

theorem rejoin_needs_new_generation:
  assumes "rejoin r name version generation readiness = Inr (m, r')" and "jr_members r name = Some cur"
    and "\<not> (m_state cur = M_READY_ACCEPTING \<and> m_accepting cur)"
  shows "jr_members r' name = Some m \<and> m_state m = M_READY_ACCEPTING \<and> m_accepting m
     \<and> m_state_version cur < m_state_version m \<and> version = m_state_version cur
     \<and> m_name readiness = name \<and> m_state readiness = M_READY_ACCEPTING \<and> m_accepting readiness
     \<and> m_blockers readiness = [] \<and> m_reason_codes readiness = []
     \<and> (\<not> opt_true (m_gpu_id readiness) \<or> m_idle_service_effective readiness = Some True)
     \<and> (m_state cur = M_JOINING \<and> m_generation_fence m = m_generation_fence cur
        \<or> m_generation_fence cur < generation \<and> m_generation_fence m = generation)"
  using assms
  by (auto simp: rejoin_def begin_member_rejoin_def complete_member_rejoin_def broker_defs stale_def
      unknown_member_def Let_def split: if_splits option.splits sum.splits)

theorem rejoin_needs_new_generation_witness:
  "\<exists>m r'. rejoin (set_member sample_repo ''m1'' (sample_member\<lparr>m_state := M_OFFLINE, m_accepting := False\<rparr>)) ''m1'' 3 1
       sample_member = Inr (m, r') \<and> m_generation_fence m = 1 \<and> m_accepting m"
proof -
  let ?off = "sample_member\<lparr>m_state := M_OFFLINE, m_accepting := False\<rparr>"
  let ?r = "set_member sample_repo ''m1'' ?off"
  have "\<exists>m r'. rejoin ?r ''m1'' 3 1 sample_member = Inr (m, r')"
    by (simp add: rejoin_def begin_member_rejoin_def complete_member_rejoin_def sample_repo_def sample_member_def
        new_repo_def broker_defs member_transition_ok_def Let_def)
  then obtain m r' where run: "rejoin ?r ''m1'' 3 1 sample_member = Inr (m, r')" by blast
  have "jr_members ?r ''m1'' = Some ?off" "\<not> (m_state ?off = M_READY_ACCEPTING \<and> m_accepting ?off)"
    by (simp_all add: broker_defs)
  from rejoin_needs_new_generation [OF run this] run show ?thesis by auto
qed

end
