(* ===== verification/Workflow_Contracts.thy ===== *)
theory Workflow_Contracts
  imports Prelude
begin

text \<open>
  \<open>scripts/workflow_contracts.py\<close>: validation of a workflow graph. The messages are constructors of
  \<open>workflow_def_error\<close>. A Python set of stage names is iterated in an unspecified order; the model takes the order of
  first occurrence (no message depends on it). A membership test against a set of strings is modelled for
  hashable values (a list or an object there raises \<open>TypeError\<close>).
\<close>

section \<open>The scan of the stages\<close>

datatype workflow_def_error =
    Workflow_not_an_object
  | Workflow_bad_schema
  | Workflow_bad_id
  | Workflow_bad_revision
  | No_stages
  | Stage_error nat string
  | Unknown_dependency string
  | Dependency_cycle
  | Workflow_bad_inputs
  | Workflow_bad_outputs

definition stage_kinds :: "string list" where
  "stage_kinds = [''preparation'', ''research'', ''validation'', ''generation'', ''transform'', ''qc'', ''delivery'']"

fun id_val :: "pyval \<Rightarrow> bool" where
  "id_val (PStr s) = is_id s"
| "id_val _ = False"

definition nonempty_strings :: "pyval \<Rightarrow> bool" where
  "nonempty_strings v = (case v of PList vs \<Rightarrow> list_all (\<lambda>x. case x of PStr s \<Rightarrow> s \<noteq> [] | _ \<Rightarrow> False) vs | _ \<Rightarrow> False)"

definition strings_of :: "pyval \<Rightarrow> string list" where
  "strings_of v = (case v of PList vs \<Rightarrow> concat (map (\<lambda>x. case x of PStr s \<Rightarrow> [s] | _ \<Rightarrow> []) vs) | _ \<Rightarrow> [])"

definition depends_on :: "pydict \<Rightarrow> pyval" where
  "depends_on stage = dget_or stage ''depends_on'' (PList [])"

text \<open>The set \<open>edges[stage_id]\<close>.\<close>

definition stage_deps :: "pydict \<Rightarrow> string list" where
  "stage_deps stage = (if nonempty_strings (depends_on stage) then remdups (strings_of (depends_on stage)) else [])"

definition stage_field_errors :: "nat \<Rightarrow> pydict \<Rightarrow> workflow_def_error list" where
  "stage_field_errors i stage =
     err_if (\<not> str_in (dget stage ''kind'') stage_kinds) (Stage_error i ''kind'')
     @ err_if (case dget stage ''operation'' of PStr s \<Rightarrow> blank s | _ \<Rightarrow> True) (Stage_error i ''operation'')
     @ concat (map (\<lambda>f. err_if (has_key stage f \<and> dget stage f \<noteq> PNone \<and> \<not> is_str (dget stage f)) (Stage_error i f))
         [''adapter'', ''provider'', ''service'', ''runtime_profile''])
     @ err_if (has_key stage ''bindings'' \<and> dget stage ''bindings'' \<noteq> PNone \<and> \<not> is_dict (dget stage ''bindings''))
         (Stage_error i ''bindings'')
     @ err_if (has_key stage ''enabled_by_default'' \<and> \<not> is_bool (dget stage ''enabled_by_default''))
         (Stage_error i ''enabled_by_default'')
     @ err_if (\<not> nonempty_strings (depends_on stage)) (Stage_error i ''depends_on'')
     @ err_if (dget stage ''retry'' \<noteq> PNone \<and> \<not> is_dict (dget stage ''retry'')) (Stage_error i ''retry'')"

text \<open>A stage of the list with its name, or the part of it that makes the loop skip it.\<close>

definition named_stage :: "pyval \<Rightarrow> string + string \<times> pydict" where
  "named_stage v =
     (case v of
        PDict stage \<Rightarrow> (case dget stage ''id'' of PStr s \<Rightarrow> if is_id s then Inr (s, stage) else Inl ''id'' | _ \<Rightarrow> Inl ''id'')
      | _ \<Rightarrow> Inl ''object'')"

text \<open>The loop over the stages: the messages, the stage names in order of first occurrence, and the dependencies of
  each (a later stage of the same name replaces them).\<close>

fun scan_stages ::
  "nat \<Rightarrow> pyval list \<Rightarrow> string list \<Rightarrow> (string \<Rightarrow> string list)
     \<Rightarrow> workflow_def_error list \<times> string list \<times> (string \<Rightarrow> string list)" where
  "scan_stages i [] ids edges = ([], ids, edges)"
| "scan_stages i (v # vs) ids edges =
     (case named_stage v of
        Inl what \<Rightarrow> apfst (Cons (Stage_error i what)) (scan_stages (Suc i) vs ids edges)
      | Inr (s, stage) \<Rightarrow>
          apfst (append (err_if (s \<in> set ids) (Stage_error i ''duplicate'') @ stage_field_errors i stage))
            (scan_stages (Suc i) vs (if s \<in> set ids then ids else ids @ [s]) (edges(s := stage_deps stage))))"

section \<open>Kahn's algorithm\<close>

definition indegrees :: "string list \<Rightarrow> (string \<Rightarrow> string list) \<Rightarrow> (string \<times> int) list" where
  "indegrees ids edges = map (\<lambda>s. (s, int (length (filter (\<lambda>d. d \<in> set ids) (edges s))))) ids"

definition children_of :: "string list \<Rightarrow> (string \<Rightarrow> string list) \<Rightarrow> string \<Rightarrow> string list" where
  "children_of ids edges d = filter (\<lambda>s. d \<in> set (edges s)) ids"

fun decrement :: "string \<Rightarrow> (string \<times> int) list \<Rightarrow> (string \<times> int) list" where
  "decrement c [] = []"
| "decrement c ((s, n) # deg) = (s, if s = c then n - 1 else n) # decrement c deg"

fun relax :: "string list \<Rightarrow> (string \<times> int) list \<Rightarrow> string list \<Rightarrow> (string \<times> int) list \<times> string list" where
  "relax [] deg ready = (deg, ready)"
| "relax (c # cs) deg ready =
     (let deg' = decrement c deg in relax cs deg' (if map_of deg' c = Some 0 then ready @ [c] else ready))"

text \<open>The number of stages with a positive count, for the termination of the loop.\<close>

fun positive :: "(string \<times> int) list \<Rightarrow> nat" where
  "positive [] = 0"
| "positive ((s, n) # deg) = (if 0 < n then 1 else 0) + positive deg"

lemma positive_decrement: "positive (decrement c deg) \<le> positive deg"
  by (induction c deg rule: decrement.induct) auto

lemma positive_decrement_0: "map_of (decrement c deg) c = Some 0 \<Longrightarrow> positive (decrement c deg) < positive deg"
proof (induction c deg rule: decrement.induct)
  case (2 c s n deg)
  then show ?case using positive_decrement [of c deg] by (auto split: if_splits)
qed simp

lemma relax_measure: "relax cs deg ready = (deg', ready') \<Longrightarrow>
    positive deg' + length ready' \<le> positive deg + length ready"
proof (induction cs arbitrary: deg ready)
  case (Cons c cs)
  let ?ready = "if map_of (decrement c deg) c = Some 0 then ready @ [c] else ready"
  have "positive deg' + length ready' \<le> positive (decrement c deg) + length ?ready"
    using Cons by (simp add: Let_def)
  also have "\<dots> \<le> positive deg + length ready"
    using positive_decrement [of c deg] positive_decrement_0 [of c deg] by auto
  finally show ?case .
qed simp

text \<open>The loop pops the last ready stage; every pop is counted.\<close>

function kahn :: "(string \<Rightarrow> string list) \<Rightarrow> (string \<times> int) list \<Rightarrow> string list \<Rightarrow> nat \<Rightarrow> nat" where
  "kahn children deg ready visited =
     (if ready = [] then visited
      else let (deg', ready') = relax (children (last ready)) deg (butlast ready)
           in kahn children deg' ready' (Suc visited))"
  by pat_completeness auto
termination
proof (relation "measure (\<lambda>(children, deg, ready, visited). positive deg + length ready)", goal_cases)
  case (2 children deg ready visited x deg' ready')
  then show ?case using relax_measure [of "children (last ready)" deg "butlast ready" deg' ready']
    by (cases ready rule: rev_cases) auto
qed simp

declare kahn.simps [simp del]

definition has_cycle :: "string list \<Rightarrow> (string \<Rightarrow> string list) \<Rightarrow> bool" where
  "has_cycle ids edges =
     (let deg = indegrees ids edges; ready = map fst (filter (\<lambda>p. snd p = 0) deg)
      in kahn (children_of ids edges) deg ready 0 \<noteq> length ids)"

definition unknown_dependencies :: "string list \<Rightarrow> (string \<Rightarrow> string list) \<Rightarrow> string list" where
  "unknown_dependencies ids edges = sort (concat (map (\<lambda>s. filter (\<lambda>d. d \<notin> set ids) (edges s)) ids))"

definition validate_workflow_definition :: "pyval \<Rightarrow> workflow_def_error list" where
  "validate_workflow_definition v =
     (case v of
        PDict d \<Rightarrow>
          err_if (dget d ''schema_version'' \<noteq> PStr ''workflow.v1'') Workflow_bad_schema
          @ err_if (\<not> id_val (dget d ''id'')) Workflow_bad_id
          @ err_if (\<not> pos_int (dget_or d ''revision'' (PInt 1))) Workflow_bad_revision
          @ (case dget d ''stages'' of
               PList (s # ss) \<Rightarrow>
                 (let (errs, ids, edges) = scan_stages 0 (s # ss) [] (\<lambda>_. []) in
                  errs
                  @ map Unknown_dependency (unknown_dependencies ids edges)
                  @ err_if (has_cycle ids edges) Dependency_cycle
                  @ err_if (dget d ''inputs'' \<noteq> PNone \<and> \<not> is_dict (dget d ''inputs'')) Workflow_bad_inputs
                  @ err_if (case dget d ''outputs'' of PNone \<Rightarrow> False | PList vs \<Rightarrow> \<not> list_all is_dict vs | _ \<Rightarrow> True)
                      Workflow_bad_outputs)
             | _ \<Rightarrow> [No_stages])
      | _ \<Rightarrow> [Workflow_not_an_object])"

section \<open>The cycle check is exact\<close>

definition dep_rel :: "string list \<Rightarrow> (string \<Rightarrow> string list) \<Rightarrow> (string \<times> string) set" where
  "dep_rel ids edges = {(d, s). s \<in> set ids \<and> d \<in> set ids \<and> d \<in> set (edges s)}"

text \<open>The dependencies of a stage that are not yet visited.\<close>

definition open_deps :: "string list \<Rightarrow> (string \<Rightarrow> string list) \<Rightarrow> string set \<Rightarrow> string \<Rightarrow> string set" where
  "open_deps ids edges D s = {d. (d, s) \<in> dep_rel ids edges} - D"

lemma finite_open_deps [simp]: "finite (open_deps ids edges D s)"
  by (rule finite_subset [of _ "set ids"]) (auto simp: open_deps_def dep_rel_def)

lemma map_of_decrement: "map_of (decrement c deg) s = map_option (\<lambda>n. if s = c then n - 1 else n) (map_of deg s)"
  by (induction c deg rule: decrement.induct) auto

lemma keys_decrement [simp]: "map fst (decrement c deg) = map fst deg"
  by (induction c deg rule: decrement.induct) auto

lemma relax_spec:
  "distinct cs \<Longrightarrow> relax cs deg ready = (deg', ready') \<Longrightarrow>
     map fst deg' = map fst deg
     \<and> (\<forall>s. map_of deg' s = map_option (\<lambda>n. if s \<in> set cs then n - 1 else n) (map_of deg s))
     \<and> ready' = ready @ filter (\<lambda>c. map_of deg' c = Some 0) cs"
proof (induction cs arbitrary: deg ready)
  case Nil
  then show ?case by (auto simp: option.map_ident)
next
  case (Cons c cs)
  let ?ready = "if map_of (decrement c deg) c = Some 0 then ready @ [c] else ready"
  have r: "relax cs (decrement c deg) ?ready = (deg', ready')" using Cons.prems(2) by (simp add: Let_def)
  from Cons.IH [OF _ this] Cons.prems(1)
  have ih: "map fst deg' = map fst deg"
      "\<And>s. map_of deg' s = map_option (\<lambda>n. if s \<in> set cs then n - 1 else n) (map_of (decrement c deg) s)"
      "ready' = ?ready @ filter (\<lambda>c. map_of deg' c = Some 0) cs"
    by simp_all
  have c: "map_of deg' c = map_of (decrement c deg) c" using ih(2) [of c] Cons.prems(1) by (simp add: option.map_ident)
  have s: "map_of deg' s = map_option (\<lambda>n. if s \<in> set (c # cs) then n - 1 else n) (map_of deg s)" for s
    using ih(2) [of s] Cons.prems(1) by (auto simp: map_of_decrement option.map_comp comp_def option.map_ident
        intro!: map_option_cong)
  have "ready' = ready @ filter (\<lambda>c. map_of deg' c = Some 0) (c # cs)"
    using ih(3) unfolding filter.simps c by (simp split: if_splits)
  with ih(1) s show ?case by blast
qed

text \<open>The invariant of the loop, for the set \<open>D\<close> of visited stages: the counts are the numbers of unvisited
  dependencies, the ready list holds the stages that have none, and \<open>D\<close> can be numbered along its dependencies.\<close>

definition kahn_inv ::
  "string list \<Rightarrow> (string \<Rightarrow> string list) \<Rightarrow> string set \<Rightarrow> (string \<times> int) list \<Rightarrow> string list \<Rightarrow> bool" where
  "kahn_inv ids edges D deg ready \<longleftrightarrow>
     D \<subseteq> set ids \<and> distinct ready
     \<and> (\<forall>s. map_of deg s = (if s \<in> set ids then Some (int (card (open_deps ids edges D s))) else None))
     \<and> set ready = {s \<in> set ids. s \<notin> D \<and> open_deps ids edges D s = {}}
     \<and> (\<forall>s\<in>D. open_deps ids edges D s = {})
     \<and> (\<exists>f :: string \<Rightarrow> nat. \<forall>s\<in>D. f s < card D \<and> (\<forall>d. (d, s) \<in> dep_rel ids edges \<longrightarrow> f d < f s))"

lemma kahn_inv_start:
  assumes "distinct ids" and "\<And>s. distinct (edges s)"
  shows "kahn_inv ids edges {} (indegrees ids edges) (map fst (filter (\<lambda>p. snd p = 0) (indegrees ids edges)))"
proof -
  have c: "card (open_deps ids edges {} s) = length (filter (\<lambda>d. d \<in> set ids) (edges s))" if "s \<in> set ids" for s
  proof -
    have "open_deps ids edges {} s = set (filter (\<lambda>d. d \<in> set ids) (edges s))"
      using that by (auto simp: open_deps_def dep_rel_def)
    then show ?thesis using assms(2) by (simp only: distinct_card distinct_filter)
  qed
  have z: "open_deps ids edges {} s = {} \<longleftrightarrow> filter (\<lambda>d. d \<in> set ids) (edges s) = []" if "s \<in> set ids" for s
    using c [OF that] by (metis card_0_eq finite_open_deps length_0_conv)
  have m: "map_of (map (\<lambda>s. (s, g s)) xs) s = (if s \<in> set xs then Some (g s) else None)" for g :: "string \<Rightarrow> int" and xs s
    by (induction xs) auto
  have d: "distinct (map fst (filter (\<lambda>p. snd p = 0) (indegrees ids edges)))"
    using assms(1) by (simp add: indegrees_def filter_map comp_def)
  have r: "set (map fst (filter (\<lambda>p. snd p = 0) (indegrees ids edges))) = {s \<in> set ids. open_deps ids edges {} s = {}}"
    using z by (auto simp: indegrees_def filter_map comp_def)
  show ?thesis unfolding kahn_inv_def r using d c by (auto simp: indegrees_def m)
qed

lemma kahn_inv_step:
  assumes ids: "distinct ids" and inv: "kahn_inv ids edges D deg ready" and ne: "ready \<noteq> []"
    and r: "relax (children_of ids edges (last ready)) deg (butlast ready) = (deg', ready')"
  shows "kahn_inv ids edges (insert (last ready) D) deg' ready' \<and> last ready \<notin> D"
proof -
  define v where "v = last ready"
  let ?o = "open_deps ids edges"
  have inv': "D \<subseteq> set ids" "distinct ready"
      "\<And>s. map_of deg s = (if s \<in> set ids then Some (int (card (?o D s))) else None)"
      "set ready = {s \<in> set ids. s \<notin> D \<and> ?o D s = {}}" "\<And>s. s \<in> D \<Longrightarrow> ?o D s = {}"
    using inv by (simp_all add: kahn_inv_def)
  obtain f :: "string \<Rightarrow> nat" where f: "\<forall>s\<in>D. f s < card D \<and> (\<forall>d. (d, s) \<in> dep_rel ids edges \<longrightarrow> f d < f s)"
    using inv unfolding kahn_inv_def by blast
  have v: "v \<in> set ids" "v \<notin> D" "?o D v = {}" using inv'(4) ne by (auto simp: v_def)
  have fin: "finite D" using inv'(1) by (rule finite_subset) simp
  have ch: "s \<in> set (children_of ids edges v) \<longleftrightarrow> v \<in> ?o D s" for s
    using v by (auto simp: children_of_def open_deps_def dep_rel_def)
  have o: "?o (insert v D) s = ?o D s - {v}" for s by (auto simp: open_deps_def)
  have dch: "distinct (children_of ids edges v)" using ids by (simp add: children_of_def)
  have rs: "\<And>s. map_of deg' s = map_option (\<lambda>n. if v \<in> ?o D s then n - 1 else n) (map_of deg s)"
      "ready' = butlast ready @ filter (\<lambda>c. map_of deg' c = Some 0) (children_of ids edges v)"
    using relax_spec [OF dch r [folded v_def]] by (simp_all only: ch)
  have deg': "map_of deg' s = (if s \<in> set ids then Some (int (card (?o (insert v D) s))) else None)" for s
  proof (cases "v \<in> ?o D s")
    case True
    then have "0 < card (?o D s)" by (auto simp: card_gt_0_iff)
    then show ?thesis using True by (simp add: rs(1) inv'(3) o of_nat_diff)
  qed (simp add: rs(1) inv'(3) o)
  have split: "ready = butlast ready @ [v]" using ne by (simp add: v_def)
  have bl: "set (butlast ready) = {s \<in> set ids. s \<notin> D \<and> ?o D s = {} \<and> s \<noteq> v}" "distinct (butlast ready)"
    using inv'(2,4) arg_cong [OF split, of set] arg_cong [OF split, of distinct] by auto
  have ready': "set ready' = {s \<in> set ids. s \<notin> insert v D \<and> ?o (insert v D) s = {}}" "distinct ready'"
  proof -
    have "c \<in> set (children_of ids edges v) \<Longrightarrow> map_of deg' c = Some 0 \<longleftrightarrow> ?o (insert v D) c = {}" for c
      by (auto simp: deg' children_of_def)
    then have "set ready' = set (butlast ready) \<union> {c \<in> set ids. v \<in> ?o D c \<and> ?o (insert v D) c = {}}"
      using ch by (auto simp: rs(2) children_of_def)
    then show "set ready' = {s \<in> set ids. s \<notin> insert v D \<and> ?o (insert v D) s = {}}"
      using bl(1) v inv'(5) by (auto simp: o)
    show "distinct ready'" using bl dch ch by (auto simp: rs(2))
  qed
  have "\<forall>s\<in>insert v D. ?o (insert v D) s = {}" using inv'(5) v(3) by (auto simp: o)
  moreover have "\<forall>s\<in>insert v D. (f(v := card D)) s < card (insert v D)
      \<and> (\<forall>d. (d, s) \<in> dep_rel ids edges \<longrightarrow> (f(v := card D)) d < (f(v := card D)) s)"
  proof
    fix s assume s: "s \<in> insert v D"
    have d: "d \<in> D \<and> d \<noteq> v" if "(d, s) \<in> dep_rel ids edges" for d
      using s that v inv'(5) by (auto simp: open_deps_def)
    show "(f(v := card D)) s < card (insert v D) \<and> (\<forall>d. (d, s) \<in> dep_rel ids edges \<longrightarrow> (f(v := card D)) d < (f(v := card D)) s)"
      using s d f fin v(2) by (auto simp: less_Suc_eq)
  qed
  ultimately show ?thesis
    using inv'(1) v ready' deg' unfolding kahn_inv_def v_def [symmetric] by blast
qed

lemma kahn_exact:
  assumes "distinct ids"
  shows "kahn_inv ids edges D deg ready \<Longrightarrow> card D = visited \<Longrightarrow>
    kahn (children_of ids edges) deg ready visited = length ids \<longleftrightarrow> acyclic (dep_rel ids edges)"
proof (induction "children_of ids edges" deg ready visited arbitrary: D rule: kahn.induct)
  case (1 deg ready visited)
  let ?E = "dep_rel ids edges"
  have sub: "D \<subseteq> set ids" using 1(2) by (simp add: kahn_inv_def)
  have fin: "finite D" using sub by (rule finite_subset) simp
  show ?case
  proof (cases "ready = []")
    case True
    have "card D = length ids \<longleftrightarrow> acyclic ?E"
    proof
      assume "card D = length ids"
      then have D: "D = set ids" using sub assms by (metis List.finite_set card_subset_eq distinct_card)
      obtain f :: "string \<Rightarrow> nat" where "\<forall>s\<in>D. f s < card D \<and> (\<forall>d. (d, s) \<in> ?E \<longrightarrow> f d < f s)"
        using 1(2) unfolding kahn_inv_def by blast
      then have "?E \<subseteq> measure f" by (auto simp: D dep_rel_def)
      then show "acyclic ?E" by (rule acyclic_subset [OF wf_acyclic [OF wf_measure]])
    next
      assume "acyclic ?E"
      moreover have "finite ?E"
        by (rule finite_subset [of _ "set ids \<times> set ids"]) (auto simp: dep_rel_def)
      ultimately have wf: "wf ?E" by (simp add: finite_acyclic_wf)
      have "set ids - D = {}"
      proof (rule ccontr)
        assume "set ids - D \<noteq> {}"
        then obtain s where s: "s \<in> set ids - D" "\<And>d. (d, s) \<in> ?E \<Longrightarrow> d \<notin> set ids - D"
          using wf_eq_minimal [THEN iffD1, OF wf] by (metis ex_in_conv)
        then have "open_deps ids edges D s = {}" by (auto simp: open_deps_def dep_rel_def)
        with s(1) 1(2) True show False by (auto simp: kahn_inv_def)
      qed
      then have "D = set ids" using sub by auto
      then show "card D = length ids" using assms by (simp add: distinct_card)
    qed
    then show ?thesis using True 1(3) by (simp add: kahn.simps)
  next
    case False
    obtain deg' ready' where r: "relax (children_of ids edges (last ready)) deg (butlast ready) = (deg', ready')"
      by fastforce
    from kahn_inv_step [OF assms 1(2) False r]
    have "kahn_inv ids edges (insert (last ready) D) deg' ready'" "card (insert (last ready) D) = Suc visited"
      using 1(3) fin by auto
    from 1(1) [OF False r [symmetric] refl this] False r show ?thesis by (simp add: kahn.simps [of _ deg ready])
  qed
qed

lemma has_cycle_iff:
  assumes "distinct ids" and "\<And>s. distinct (edges s)"
  shows "has_cycle ids edges \<longleftrightarrow> \<not> acyclic (dep_rel ids edges)"
  using kahn_exact [OF assms(1) kahn_inv_start [OF assms] card.empty] by (simp add: has_cycle_def Let_def)

section \<open>Valid definitions\<close>

text \<open>The stages of a definition that are objects, and the name of one.\<close>

definition workflow_stages :: "pydict \<Rightarrow> pydict list" where
  "workflow_stages d = (case dget d ''stages'' of
     PList vs \<Rightarrow> concat (map (\<lambda>v. case v of PDict s \<Rightarrow> [s] | _ \<Rightarrow> []) vs) | _ \<Rightarrow> [])"

definition stage_id :: "pydict \<Rightarrow> string" where
  "stage_id s = (case dget s ''id'' of PStr i \<Rightarrow> i | _ \<Rightarrow> [])"

lemma named_stageD: "named_stage v = Inr (s, stage) \<Longrightarrow> v = PDict stage \<and> dget stage ''id'' = PStr s \<and> stage_id stage = s"
  by (auto simp: named_stage_def stage_id_def split: pyval.splits if_splits)

lemma apfst_eq: "apfst f p = (a, b) \<longleftrightarrow> (\<exists>c. p = (c, b) \<and> a = f c)"
  by (cases p) auto

lemma scan_distinct:
  "scan_stages i vs ids edges = (errs, ids', edges') \<Longrightarrow> distinct ids \<Longrightarrow> (\<And>s. distinct (edges s)) \<Longrightarrow>
     distinct ids' \<and> (\<forall>s. distinct (edges' s))"
proof (induction vs arbitrary: i ids edges errs)
  case (Cons v vs)
  have d: "distinct ((edges(s := stage_deps stage)) x)" for s stage x using Cons.prems(3) by (simp add: stage_deps_def)
  from Cons.prems(1) show ?case
    using Cons.IH [OF _ Cons.prems(2,3)] Cons.IH [OF _ _ d] Cons.prems(2)
    by (auto simp: apfst_eq simp del: fun_upd_apply split: sum.splits prod.splits)
qed simp

lemma scan_ok:
  "scan_stages i vs ids edges = ([], ids', edges') \<Longrightarrow>
     \<exists>ss. vs = map PDict ss \<and> ids' = ids @ map stage_id ss
       \<and> distinct (map stage_id ss) \<and> set ids \<inter> stage_id ` set ss = {}
       \<and> (\<forall>s\<in>set ss. edges' (stage_id s) = stage_deps s \<and> nonempty_strings (depends_on s)
            \<and> dget s ''id'' = PStr (stage_id s))
       \<and> (\<forall>x. x \<notin> stage_id ` set ss \<longrightarrow> edges' x = edges x)"
proof (induction vs arbitrary: i ids edges)
  case (Cons v vs)
  obtain s stage where n: "named_stage v = Inr (s, stage)"
    using Cons.prems by (auto simp: apfst_eq split: sum.splits)
  note v = named_stageD [OF n]
  have run: "scan_stages (Suc i) vs (ids @ [s]) (edges(s := stage_deps stage)) = ([], ids', edges')" "s \<notin> set ids"
      "nonempty_strings (depends_on stage)"
    using Cons.prems n by (auto simp: apfst_eq stage_field_errors_def split: if_splits)
  from Cons.IH [OF run(1)] obtain ss where ss: "vs = map PDict ss" "ids' = (ids @ [s]) @ map stage_id ss"
      "distinct (map stage_id ss)" "set (ids @ [s]) \<inter> stage_id ` set ss = {}"
      "\<forall>s\<in>set ss. edges' (stage_id s) = stage_deps s \<and> nonempty_strings (depends_on s) \<and> dget s ''id'' = PStr (stage_id s)"
      "\<forall>x. x \<notin> stage_id ` set ss \<longrightarrow> edges' x = (edges(s := stage_deps stage)) x"
    by blast
  then show ?case using run(2,3) v by (intro exI [of _ "stage # ss"]) auto
qed simp

text \<open>What a definition without errors guarantees to the rest of the program.\<close>

lemma valid_workflowD:
  assumes "validate_workflow_definition (PDict d) = []"
  shows "workflow_stages d \<noteq> []" and "dget d ''stages'' = PList (map PDict (workflow_stages d))"
    and "distinct (map stage_id (workflow_stages d))"
    and "\<And>s. s \<in> set (workflow_stages d) \<Longrightarrow> nonempty_strings (depends_on s) \<and> dget s ''id'' = PStr (stage_id s)
           \<and> set (stage_deps s) \<subseteq> stage_id ` set (workflow_stages d)"
    and "acyclic {(p, stage_id s) |p s. s \<in> set (workflow_stages d) \<and> p \<in> set (stage_deps s)}"
    and "\<exists>i. dget d ''id'' = PStr i" and "\<exists>n\<ge>1. dget_or d ''revision'' (PInt 1) = PInt n"
proof -
  obtain v vs where vs: "dget d ''stages'' = PList (v # vs)"
    using assms by (auto simp: validate_workflow_definition_def split: pyval.splits list.splits)
  obtain errs ids edges where sc: "scan_stages 0 (v # vs) [] (\<lambda>_. []) = (errs, ids, edges)" by (rule prod_cases3)
  have e: "errs = []" "unknown_dependencies ids edges = []" "\<not> has_cycle ids edges"
      "id_val (dget d ''id'')" "pos_int (dget_or d ''revision'' (PInt 1))"
    using assms vs sc by (auto simp: validate_workflow_definition_def Let_def simp del: scan_stages.simps split: if_splits)
  from scan_ok [OF sc [unfolded e(1)]] obtain ss where ss: "v # vs = map PDict ss" "ids = map stage_id ss"
      "distinct (map stage_id ss)"
      "\<forall>s\<in>set ss. edges (stage_id s) = stage_deps s \<and> nonempty_strings (depends_on s) \<and> dget s ''id'' = PStr (stage_id s)"
    unfolding append_Nil by (elim exE conjE) (rule that; assumption)
  have w: "workflow_stages d = ss" by (simp add: workflow_stages_def vs ss(1) comp_def)
  show "workflow_stages d \<noteq> []" "dget d ''stages'' = PList (map PDict (workflow_stages d))"
      "distinct (map stage_id (workflow_stages d))"
    using ss vs by (auto simp: w)
  have known: "set (stage_deps s) \<subseteq> stage_id ` set ss" if "s \<in> set ss" for s
  proof -
    have "set (unknown_dependencies ids edges) = {}" using e(2) by simp
    then show ?thesis using that ss(2,4) by (auto simp: unknown_dependencies_def)
  qed
  then show "nonempty_strings (depends_on s) \<and> dget s ''id'' = PStr (stage_id s)
      \<and> set (stage_deps s) \<subseteq> stage_id ` set (workflow_stages d)" if "s \<in> set (workflow_stages d)" for s
    using that ss(4) by (auto simp: w)
  have "acyclic (dep_rel ids edges)"
    using e(3) has_cycle_iff [of ids edges] scan_distinct [OF sc] by auto
  moreover have "dep_rel ids edges = {(p, stage_id s) |p s. s \<in> set ss \<and> p \<in> set (stage_deps s)}"
    using ss(2,4) known by (auto simp: dep_rel_def)
  ultimately show "acyclic {(p, stage_id s) |p s. s \<in> set (workflow_stages d) \<and> p \<in> set (stage_deps s)}" by (simp add: w)
  show "\<exists>i. dget d ''id'' = PStr i" using e(4) by (cases "dget d ''id''") auto
  show "\<exists>n\<ge>1. dget_or d ''revision'' (PInt 1) = PInt n" using e(5) by (cases "dget_or d ''revision'' (PInt 1)") auto
qed

text \<open>C37. The validator's cycle check is exact. Kahn's algorithm ends on every graph, with self-loops and unknown
  names in it too, and it reports a cycle if and only if the dependency relation between the declared stages has one. A
  definition without errors is a directed acyclic graph: its stages have distinct names, every dependency is declared, and no stage depends
  on itself through others.\<close>

theorem cycle_check_exact:
  assumes "dget d ''stages'' = PList (v # vs)" and "scan_stages 0 (v # vs) [] (\<lambda>_. []) = (errs, ids, edges)"
  shows "(Dependency_cycle \<in> set (validate_workflow_definition (PDict d)) \<longleftrightarrow> \<not> acyclic (dep_rel ids edges))
     \<and> (validate_workflow_definition (PDict d) = [] \<longrightarrow>
          distinct (map stage_id (workflow_stages d)) \<and> length (workflow_stages d) = length (v # vs)
          \<and> (\<forall>s\<in>set (workflow_stages d). set (strings_of (depends_on s)) \<subseteq> stage_id ` set (workflow_stages d))
          \<and> acyclic {(p, stage_id s) |p s. s \<in> set (workflow_stages d) \<and> p \<in> set (strings_of (depends_on s))})"
proof
  have "Dependency_cycle \<notin> set errs"
  proof -
    have "Dependency_cycle \<notin> set (stage_field_errors i stage)" for i stage by (auto simp: stage_field_errors_def)
    then have "scan_stages i xs ids0 edges0 = (es, ids1, edges1) \<Longrightarrow> Dependency_cycle \<notin> set es" for i xs ids0 edges0 es ids1 edges1
      by (induction xs arbitrary: i ids0 edges0 es) (auto simp: apfst_eq split: sum.splits prod.splits if_splits)
    from this [OF assms(2)] show ?thesis .
  qed
  moreover have "has_cycle ids edges \<longleftrightarrow> \<not> acyclic (dep_rel ids edges)"
    using has_cycle_iff [of ids edges] scan_distinct [OF assms(2)] by auto
  ultimately show "Dependency_cycle \<in> set (validate_workflow_definition (PDict d)) \<longleftrightarrow> \<not> acyclic (dep_rel ids edges)"
    using assms by (auto simp: validate_workflow_definition_def Let_def simp del: scan_stages.simps)
  show "validate_workflow_definition (PDict d) = [] \<longrightarrow>
          distinct (map stage_id (workflow_stages d)) \<and> length (workflow_stages d) = length (v # vs)
          \<and> (\<forall>s\<in>set (workflow_stages d). set (strings_of (depends_on s)) \<subseteq> stage_id ` set (workflow_stages d))
          \<and> acyclic {(p, stage_id s) |p s. s \<in> set (workflow_stages d) \<and> p \<in> set (strings_of (depends_on s))}"
  proof
    assume ok: "validate_workflow_definition (PDict d) = []"
    note V = valid_workflowD [OF ok]
    have sd: "set (stage_deps s) = set (strings_of (depends_on s))" if "s \<in> set (workflow_stages d)" for s
      using V(4) [OF that] by (simp add: stage_deps_def)
    have "length (workflow_stages d) = length (v # vs)"
      using V(2) assms(1) by (metis length_map pyval.inject(5))
    moreover have "{(p, stage_id s) |p s. s \<in> set (workflow_stages d) \<and> p \<in> set (strings_of (depends_on s))}
        = {(p, stage_id s) |p s. s \<in> set (workflow_stages d) \<and> p \<in> set (stage_deps s)}"
      using sd by auto
    ultimately show "distinct (map stage_id (workflow_stages d)) \<and> length (workflow_stages d) = length (v # vs)
          \<and> (\<forall>s\<in>set (workflow_stages d). set (strings_of (depends_on s)) \<subseteq> stage_id ` set (workflow_stages d))
          \<and> acyclic {(p, stage_id s) |p s. s \<in> set (workflow_stages d) \<and> p \<in> set (strings_of (depends_on s))}"
      using V(3,4,5) sd by auto
  qed
qed

definition sample_stage :: "string \<Rightarrow> string list \<Rightarrow> pyval" where
  "sample_stage i deps = PDict [(''id'', PStr i), (''kind'', PStr ''qc''), (''operation'', PStr ''run''),
     (''depends_on'', PList (map PStr deps))]"

definition sample_workflow :: "pyval list \<Rightarrow> pydict" where
  "sample_workflow stages = [(''schema_version'', PStr ''workflow.v1''), (''id'', PStr ''w''), (''stages'', PList stages)]"

lemma sample_workflow_valid:
  "validate_workflow_definition (PDict (sample_workflow [sample_stage ''a'' [], sample_stage ''b'' [''a'']])) = []"
  by code_simp

theorem cycle_check_exact_witness:
  "Dependency_cycle \<in> set (validate_workflow_definition
      (PDict (sample_workflow [sample_stage ''a'' [''b''], sample_stage ''b'' [''a'']])))
   \<and> acyclic {(p, stage_id s) |p s. s \<in> set (workflow_stages (sample_workflow [sample_stage ''a'' [], sample_stage ''b'' [''a'']]))
        \<and> p \<in> set (strings_of (depends_on s))}"
proof -
  let ?st = "[sample_stage ''a'' [''b''], sample_stage ''b'' [''a'']]"
  let ?ok = "[sample_stage ''a'' [], sample_stage ''b'' [''a'']]"
  have s: "dget (sample_workflow vs) ''stages'' = PList vs" for vs by (simp add: sample_workflow_def dget_def)
  obtain errs ids edges where sc: "scan_stages 0 ?st [] (\<lambda>_. []) = (errs, ids, edges)" by (rule prod_cases3)
  obtain errs' ids' edges' where sc': "scan_stages 0 ?ok [] (\<lambda>_. []) = (errs', ids', edges')" by (rule prod_cases3)
  have ids: "ids = [''a'', ''b'']" "edges ''a'' = [''b'']" "edges ''b'' = [''a'']"
    using sc by (auto simp: named_stage_def sample_stage_def dget_def stage_deps_def depends_on_def dget_or_def
        nonempty_strings_def strings_of_def is_id_def is_alnum_def)
  have "(''a'', ''b'') \<in> dep_rel ids edges" "(''b'', ''a'') \<in> dep_rel ids edges" by (simp_all add: ids dep_rel_def)
  then have "\<not> acyclic (dep_rel ids edges)" unfolding acyclic_def by (meson r_into_trancl' trancl.trancl_into_trancl)
  with cycle_check_exact [OF s sc] cycle_check_exact [OF s sc'] sample_workflow_valid show ?thesis by blast
qed

end
