(* ===== verification/Workflow_Runtime.thy ===== *)
theory Workflow_Runtime
  imports Workflow_Contracts Priority_Contract
begin

text \<open>
  The transition functions of \<open>scripts/workflow_runtime.py\<close>: a workflow job pins a workflow definition and
  tracks its stages. A definition is a dictionary \<open>d\<close>; the SHA-256 of the canonical JSON text of a value is the parameter
  \<open>fp\<close>. A raised \<open>WorkflowRuntimeError\<close> is a left value. The functions that read a definition's
  dependencies are modelled for the definitions the validator accepts (on another one the code
  raises in \<open>_require_pinned_definition\<close> before it gets there).
\<close>

section \<open>Data\<close>

datatype StageStatus =
    S_PENDING | S_READY | S_SUBMITTED | S_IN_FLIGHT | S_SUCCEEDED | S_FAILED | S_CANCELLED | S_OUTCOME_UNKNOWN
  | S_AWAITING_REVIEW | S_SKIPPED

datatype WorkflowStatus =
    W_ACCEPTED | W_RUNNING | W_COMPLETED | W_FAILED | W_CANCELLED | W_OUTCOME_UNKNOWN | W_AWAITING_REVIEW

definition active_stage :: "StageStatus \<Rightarrow> bool" where
  "active_stage s \<longleftrightarrow> s \<in> {S_READY, S_SUBMITTED, S_IN_FLIGHT}"

definition terminal_workflow :: "WorkflowStatus \<Rightarrow> bool" where
  "terminal_workflow w \<longleftrightarrow> w \<in> {W_COMPLETED, W_FAILED, W_CANCELLED, W_OUTCOME_UNKNOWN, W_AWAITING_REVIEW}"

fun workflow_status_text :: "WorkflowStatus \<Rightarrow> string" where
  "workflow_status_text W_ACCEPTED = ''accepted''"
| "workflow_status_text W_RUNNING = ''running''"
| "workflow_status_text W_COMPLETED = ''completed''"
| "workflow_status_text W_FAILED = ''failed''"
| "workflow_status_text W_CANCELLED = ''cancelled''"
| "workflow_status_text W_OUTCOME_UNKNOWN = ''outcome_unknown''"
| "workflow_status_text W_AWAITING_REVIEW = ''awaiting_review''"

record StageRecord =
  sr_stage_id :: string
  sr_attempt :: int
  sr_status :: StageStatus
  sr_idempotency_key :: string
  sr_provider_handle :: "string option"
  sr_output_refs :: "string list"
  sr_error :: "string option"
  sr_updated_at :: time

definition new_stage :: "string \<Rightarrow> StageRecord" where
  "new_stage i = \<lparr>sr_stage_id = i, sr_attempt = 1, sr_status = S_PENDING, sr_idempotency_key = [],
     sr_provider_handle = None, sr_output_refs = [], sr_error = None, sr_updated_at = 0\<rparr>"

record WorkflowJob =
  wj_job_id :: string
  wj_service_name :: string
  wj_service_revision :: string
  wj_workflow_id :: string
  wj_workflow_revision :: int
  wj_workflow_fingerprint :: string
  wj_payload_digest :: string
  wj_idempotency_key :: string
  wj_priority :: int
  wj_priority_class :: string
  wj_broker_priority :: int
  wj_status :: WorkflowStatus
  wj_cancel_requested :: bool
  wj_terminal_reason :: "string option"
  wj_stages :: "StageRecord list"
  wj_created_at :: time
  wj_updated_at :: time

datatype workflow_error =
    Invalid_workflow "workflow_def_error list"
  | Empty_field string
  | Invalid_priority priority_error
  | Job_terminal WorkflowStatus
  | Workflow_revision_changed
  | Unknown_stage string
  | Not_dependency_ready string
  | Stage_not_ready string
  | Stage_not_submitted string
  | No_provider_attempt string
  | IdempotencyConflict
  | Job_exists string
  | Unknown_job string
  | Store_error string

type_synonym 'a workflow_result = "workflow_error + 'a"

section \<open>Reading a job\<close>

definition stage_map :: "pydict \<Rightarrow> string \<Rightarrow> pydict option" where
  "stage_map d = map_of (rev (map (\<lambda>s. (stage_id s, s)) (filter (\<lambda>s. is_str (dget s ''id'')) (workflow_stages d))))"

definition stage_enabled :: "pydict \<Rightarrow> bool" where
  "stage_enabled stage \<longleftrightarrow> dget_or stage ''enabled_by_default'' (PBool True) \<noteq> PBool False"

definition job_stage :: "WorkflowJob \<Rightarrow> string \<Rightarrow> StageRecord workflow_result" where
  "job_stage job i = (case find (\<lambda>r. sr_stage_id r = i) (wj_stages job) of None \<Rightarrow> Inl (Unknown_stage i) | Some r \<Rightarrow> Inr r)"

definition replace_stage :: "WorkflowJob \<Rightarrow> StageRecord \<Rightarrow> time \<Rightarrow> WorkflowJob" where
  "replace_stage job r now = job\<lparr>wj_stages := map (\<lambda>c. if sr_stage_id c = sr_stage_id r then r else c) (wj_stages job),
     wj_updated_at := now\<rparr>"

definition stage_done :: "StageStatus \<Rightarrow> bool" where
  "stage_done s \<longleftrightarrow> s \<in> {S_SUCCEEDED, S_SKIPPED}"

definition enabled_records :: "WorkflowJob \<Rightarrow> pydict \<Rightarrow> StageRecord list" where
  "enabled_records job d =
     filter (\<lambda>r. stage_enabled (case stage_map d (sr_stage_id r) of None \<Rightarrow> [] | Some s \<Rightarrow> s)) (wj_stages job)"

definition derive_status :: "WorkflowJob \<Rightarrow> pydict \<Rightarrow> WorkflowStatus" where
  "derive_status job d =
     (let statuses = sr_status ` set (wj_stages job) in
      if S_OUTCOME_UNKNOWN \<in> statuses then W_OUTCOME_UNKNOWN
      else if S_AWAITING_REVIEW \<in> statuses then W_AWAITING_REVIEW
      else if S_FAILED \<in> statuses then W_FAILED
      else if wj_cancel_requested job
      then (if \<exists>r\<in>set (wj_stages job). active_stage (sr_status r) then W_RUNNING else W_CANCELLED)
      else let enabled = enabled_records job d in
        if enabled \<noteq> [] \<and> (\<forall>r\<in>set enabled. stage_done (sr_status r)) then W_COMPLETED
        else if \<exists>r\<in>set (wj_stages job). active_stage (sr_status r) \<or> sr_status r = S_SUCCEEDED then W_RUNNING
        else W_ACCEPTED)"

definition with_status :: "WorkflowJob \<Rightarrow> pydict \<Rightarrow> time \<Rightarrow> WorkflowJob" where
  "with_status job d now =
     (let status = derive_status job d in
      job\<lparr>wj_status := status,
          wj_terminal_reason := (if terminal_workflow status \<and> wj_terminal_reason job = None
             then Some (workflow_status_text status) else wj_terminal_reason job),
          wj_updated_at := now\<rparr>)"

text \<open>The conjunction over the dependencies stops at the first one that is not done; a name the job does not know raises.\<close>

fun deps_done :: "WorkflowJob \<Rightarrow> string list \<Rightarrow> bool workflow_result" where
  "deps_done job [] = Inr True"
| "deps_done job (i # is) =
     (case job_stage job i of
        Inl e \<Rightarrow> Inl e
      | Inr r \<Rightarrow> if stage_done (sr_status r) then deps_done job is else Inr False)"

fun ready_from :: "WorkflowJob \<Rightarrow> pydict \<Rightarrow> StageRecord list \<Rightarrow> string list workflow_result" where
  "ready_from job d [] = Inr []"
| "ready_from job d (r # rs) =
     (case stage_map d (sr_stage_id r) of
        None \<Rightarrow> ready_from job d rs
      | Some stage \<Rightarrow>
          if sr_status r \<noteq> S_PENDING \<or> \<not> stage_enabled stage then ready_from job d rs
          else (case deps_done job (strings_of (depends_on stage)) of
                  Inl e \<Rightarrow> Inl e
                | Inr b \<Rightarrow> map_sum id (\<lambda>is. if b then sr_stage_id r # is else is) (ready_from job d rs)))"

definition ready_stage_ids :: "WorkflowJob \<Rightarrow> pydict \<Rightarrow> string list workflow_result" where
  "ready_stage_ids job d = ready_from job d (wj_stages job)"

section \<open>Transitions\<close>

definition int_of :: "pyval \<Rightarrow> int" where
  "int_of v = (case v of PInt i \<Rightarrow> i | _ \<Rightarrow> 0)"

definition text_of :: "pyval \<Rightarrow> string" where
  "text_of v = (case v of PStr s \<Rightarrow> s | _ \<Rightarrow> [])"

definition accept_workflow ::
  "(pyval \<Rightarrow> string) \<Rightarrow> pydict \<Rightarrow> string \<Rightarrow> string \<Rightarrow> string \<Rightarrow> pyval \<Rightarrow> string \<Rightarrow> pydict \<Rightarrow> time \<Rightarrow> WorkflowJob workflow_result" where
  "accept_workflow fp d job_id service_name service_revision payload key priority now =
     (if validate_workflow_definition (PDict d) \<noteq> [] then Inl (Invalid_workflow (validate_workflow_definition (PDict d)))
      else if blank job_id then Inl (Empty_field ''job_id'')
      else if blank service_name then Inl (Empty_field ''service_name'')
      else if blank service_revision then Inl (Empty_field ''service_revision'')
      else if blank key then Inl (Empty_field ''idempotency_key'')
      else case apply_priority_contract priority [] GENERATION_HIGHER_IS_URGENT False of
        Inl e \<Rightarrow> Inl (Invalid_priority e)
      | Inr contracted \<Rightarrow>
          Inr \<lparr>wj_job_id = job_id, wj_service_name = service_name, wj_service_revision = service_revision,
               wj_workflow_id = text_of (dget d ''id''), wj_workflow_revision = int_of (dget_or d ''revision'' (PInt 1)),
               wj_workflow_fingerprint = fp (PDict d), wj_payload_digest = fp payload, wj_idempotency_key = key,
               wj_priority = int_of (dget contracted ''priority''),
               wj_priority_class = text_of (dget contracted ''priority_class''),
               wj_broker_priority = int_of (dget contracted ''broker_priority''),
               wj_status = W_ACCEPTED, wj_cancel_requested = False, wj_terminal_reason = None,
               wj_stages = map (\<lambda>s. (new_stage (stage_id s))
                   \<lparr>sr_status := (if stage_enabled s then S_PENDING else S_SKIPPED), sr_updated_at := now\<rparr>) (workflow_stages d),
               wj_created_at = now, wj_updated_at = now\<rparr>)"

definition require_pinned :: "(pyval \<Rightarrow> string) \<Rightarrow> WorkflowJob \<Rightarrow> pydict \<Rightarrow> unit workflow_result" where
  "require_pinned fp job d =
     (if validate_workflow_definition (PDict d) \<noteq> [] then Inl (Invalid_workflow (validate_workflow_definition (PDict d)))
      else if dget d ''id'' \<noteq> PStr (wj_workflow_id job) \<or> int_of (dget_or d ''revision'' (PInt 1)) \<noteq> wj_workflow_revision job
        \<or> fp (PDict d) \<noteq> wj_workflow_fingerprint job then Inl Workflow_revision_changed
      else Inr ())"

text \<open>The guards every transition of a stage begins with, and the record of the stage.\<close>

definition guarded :: "(pyval \<Rightarrow> string) \<Rightarrow> WorkflowJob \<Rightarrow> pydict \<Rightarrow> (unit \<Rightarrow> 'a workflow_result) \<Rightarrow> 'a workflow_result" where
  "guarded fp job d k =
     (case require_pinned fp job d of
        Inl e \<Rightarrow> Inl e
      | Inr _ \<Rightarrow> if terminal_workflow (wj_status job) then Inl (Job_terminal (wj_status job)) else k ())"

definition on_stage :: "WorkflowJob \<Rightarrow> string \<Rightarrow> (StageRecord \<Rightarrow> 'a workflow_result) \<Rightarrow> 'a workflow_result" where
  "on_stage job i k = (case job_stage job i of Inl e \<Rightarrow> Inl e | Inr r \<Rightarrow> k r)"

definition write_stage :: "WorkflowJob \<Rightarrow> pydict \<Rightarrow> StageRecord \<Rightarrow> time \<Rightarrow> WorkflowJob workflow_result" where
  "write_stage job d r now = Inr (with_status (replace_stage job r now) d now)"

definition mark_stage_ready ::
  "(pyval \<Rightarrow> string) \<Rightarrow> WorkflowJob \<Rightarrow> pydict \<Rightarrow> string \<Rightarrow> time \<Rightarrow> WorkflowJob workflow_result" where
  "mark_stage_ready fp job d i now = guarded fp job d (\<lambda>_.
     case ready_stage_ids job d of
       Inl e \<Rightarrow> Inl e
     | Inr ready \<Rightarrow>
         if i \<notin> set ready then Inl (Not_dependency_ready i)
         else on_stage job i (\<lambda>r. write_stage job d (r\<lparr>sr_status := S_READY\<rparr>) now))"

definition submit_stage ::
  "(pyval \<Rightarrow> string) \<Rightarrow> WorkflowJob \<Rightarrow> pydict \<Rightarrow> string \<Rightarrow> string \<Rightarrow> time \<Rightarrow> WorkflowJob workflow_result" where
  "submit_stage fp job d i key now = guarded fp job d (\<lambda>_. on_stage job i (\<lambda>r.
     if sr_status r \<noteq> S_READY then Inl (Stage_not_ready i)
     else if blank key then Inl (Empty_field ''idempotency_key'')
     else write_stage job d (r\<lparr>sr_status := S_SUBMITTED, sr_idempotency_key := key, sr_error := None\<rparr>) now))"

definition accept_stage ::
  "(pyval \<Rightarrow> string) \<Rightarrow> WorkflowJob \<Rightarrow> pydict \<Rightarrow> string \<Rightarrow> string \<Rightarrow> time \<Rightarrow> WorkflowJob workflow_result" where
  "accept_stage fp job d i handle now = guarded fp job d (\<lambda>_. on_stage job i (\<lambda>r.
     if sr_status r \<noteq> S_SUBMITTED then Inl (Stage_not_submitted i)
     else if blank handle then Inl (Empty_field ''provider_handle'')
     else write_stage job d (r\<lparr>sr_status := S_IN_FLIGHT, sr_provider_handle := Some handle\<rparr>) now))"

definition complete_stage ::
  "(pyval \<Rightarrow> string) \<Rightarrow> WorkflowJob \<Rightarrow> pydict \<Rightarrow> string \<Rightarrow> string list \<Rightarrow> time \<Rightarrow> WorkflowJob workflow_result" where
  "complete_stage fp job d i outputs now = guarded fp job d (\<lambda>_. on_stage job i (\<lambda>r.
     if sr_status r \<notin> {S_SUBMITTED, S_IN_FLIGHT} then Inl (No_provider_attempt i)
     else write_stage job d (r\<lparr>sr_status := S_SUCCEEDED, sr_output_refs := outputs, sr_error := None\<rparr>) now))"

definition fail_stage ::
  "(pyval \<Rightarrow> string) \<Rightarrow> WorkflowJob \<Rightarrow> pydict \<Rightarrow> string \<Rightarrow> string \<Rightarrow> bool \<Rightarrow> time \<Rightarrow> WorkflowJob workflow_result" where
  "fail_stage fp job d i err retry now = guarded fp job d (\<lambda>_. on_stage job i (\<lambda>r.
     if sr_status r \<notin> {S_SUBMITTED, S_IN_FLIGHT} then Inl (No_provider_attempt i)
     else write_stage job d
       (if retry then (new_stage i)\<lparr>sr_attempt := sr_attempt r + 1, sr_status := S_READY, sr_error := Some (take 1000 err),
            sr_updated_at := now\<rparr>
        else r\<lparr>sr_status := S_FAILED, sr_error := Some (take 1000 err), sr_updated_at := now\<rparr>) now))"

definition mark_outcome_unknown ::
  "(pyval \<Rightarrow> string) \<Rightarrow> WorkflowJob \<Rightarrow> pydict \<Rightarrow> string \<Rightarrow> string \<Rightarrow> time \<Rightarrow> WorkflowJob workflow_result" where
  "mark_outcome_unknown fp job d i err now = guarded fp job d (\<lambda>_. on_stage job i (\<lambda>r.
     if sr_status r \<notin> {S_SUBMITTED, S_IN_FLIGHT} then Inl (No_provider_attempt i)
     else write_stage job d (r\<lparr>sr_status := S_OUTCOME_UNKNOWN, sr_error := Some (take 1000 err)\<rparr>) now))"

definition cancel_record :: "string \<Rightarrow> time \<Rightarrow> StageRecord \<Rightarrow> StageRecord" where
  "cancel_record reason now r =
     (if sr_status r \<in> {S_PENDING, S_READY} then r\<lparr>sr_status := S_CANCELLED, sr_error := Some reason, sr_updated_at := now\<rparr> else r)"

definition request_cancel ::
  "(pyval \<Rightarrow> string) \<Rightarrow> WorkflowJob \<Rightarrow> pydict \<Rightarrow> string \<Rightarrow> time \<Rightarrow> WorkflowJob workflow_result" where
  "request_cancel fp job d reason now =
     (case require_pinned fp job d of
        Inl e \<Rightarrow> Inl e
      | Inr _ \<Rightarrow>
          if terminal_workflow (wj_status job) then Inr job
          else Inr (with_status (job\<lparr>wj_cancel_requested := True, wj_terminal_reason := Some reason,
                 wj_stages := map (cancel_record reason now) (wj_stages job)\<rparr>) d now))"

lemmas stage_ops = mark_stage_ready_def submit_stage_def accept_stage_def complete_stage_def fail_stage_def
  mark_outcome_unknown_def

inductive workflow_step :: "(pyval \<Rightarrow> string) \<Rightarrow> pydict \<Rightarrow> WorkflowJob \<Rightarrow> WorkflowJob \<Rightarrow> bool" for fp d where
  w_ready: "mark_stage_ready fp job d i now = Inr job' \<Longrightarrow> workflow_step fp d job job'"
| w_submit: "submit_stage fp job d i key now = Inr job' \<Longrightarrow> workflow_step fp d job job'"
| w_accept: "accept_stage fp job d i handle now = Inr job' \<Longrightarrow> workflow_step fp d job job'"
| w_complete: "complete_stage fp job d i outputs now = Inr job' \<Longrightarrow> workflow_step fp d job job'"
| w_fail: "fail_stage fp job d i err retry now = Inr job' \<Longrightarrow> workflow_step fp d job job'"
| w_unknown: "mark_outcome_unknown fp job d i err now = Inr job' \<Longrightarrow> workflow_step fp d job job'"
| w_cancel: "request_cancel fp job d reason now = Inr job' \<Longrightarrow> workflow_step fp d job job'"

section \<open>The shape of a transition\<close>

text \<open>The moves of one stage. Only the first reads the dependencies.\<close>

inductive stage_move :: "StageStatus \<Rightarrow> StageStatus \<Rightarrow> bool" where
  "stage_move S_PENDING S_READY"
| "stage_move S_READY S_SUBMITTED"
| "stage_move S_SUBMITTED S_IN_FLIGHT"
| "s \<in> {S_SUBMITTED, S_IN_FLIGHT} \<Longrightarrow> t \<in> {S_SUCCEEDED, S_FAILED, S_READY, S_OUTCOME_UNKNOWN} \<Longrightarrow> stage_move s t"

inductive_simps stage_move_iff: "stage_move s t"

lemma guarded_Inr: "guarded fp job d k = Inr x \<longleftrightarrow>
    require_pinned fp job d = Inr () \<and> \<not> terminal_workflow (wj_status job) \<and> k () = Inr x"
  by (auto simp: guarded_def split: sum.splits)

lemma on_stage_Inr: "on_stage job i k = Inr x \<longleftrightarrow> (\<exists>r. job_stage job i = Inr r \<and> k r = Inr x)"
  by (auto simp: on_stage_def split: sum.splits)

lemma job_stageD: "job_stage job i = Inr r \<Longrightarrow> r \<in> set (wj_stages job) \<and> sr_stage_id r = i"
  by (auto simp: job_stage_def find_Some_iff split: option.splits)

lemma job_stage_record:
  assumes "distinct (map sr_stage_id (wj_stages job))" and "r \<in> set (wj_stages job)" and "sr_stage_id r = i"
  shows "job_stage job i = Inr r"
proof (cases "find (\<lambda>q. sr_stage_id q = i) (wj_stages job)")
  case None
  then show ?thesis using assms(2,3) by (auto simp: find_None_iff)
next
  case (Some q)
  then have "q \<in> set (wj_stages job)" "sr_stage_id q = i" by (auto simp: find_Some_iff)
  then have "q = r" using assms by (metis distinct_map inj_on_def)
  then show ?thesis using Some by (simp add: job_stage_def)
qed

definition wrote_stage :: "WorkflowJob \<Rightarrow> pydict \<Rightarrow> WorkflowJob \<Rightarrow> bool" where
  "wrote_stage job d job' \<longleftrightarrow> (\<exists>i r r' now. job_stage job i = Inr r \<and> sr_stage_id r' = i \<and> stage_move (sr_status r) (sr_status r')
     \<and> (sr_status r = S_PENDING \<longrightarrow> (\<exists>ready. ready_stage_ids job d = Inr ready \<and> i \<in> set ready))
     \<and> job' = with_status (replace_stage job r' now) d now)"

lemma wrote_stageI:
  "job_stage job i = Inr r \<Longrightarrow> sr_stage_id r' = i \<Longrightarrow> stage_move (sr_status r) (sr_status r') \<Longrightarrow>
    (sr_status r = S_PENDING \<Longrightarrow> \<exists>ready. ready_stage_ids job d = Inr ready \<and> i \<in> set ready) \<Longrightarrow>
    wrote_stage job d (with_status (replace_stage job r' now) d now)"
  unfolding wrote_stage_def by blast

definition ready_record :: "WorkflowJob \<Rightarrow> pydict \<Rightarrow> StageRecord \<Rightarrow> bool" where
  "ready_record job d r \<longleftrightarrow> sr_status r = S_PENDING \<and> (\<exists>stage. stage_map d (sr_stage_id r) = Some stage
     \<and> stage_enabled stage \<and> deps_done job (strings_of (depends_on stage)) = Inr True)"

lemma ready_from_set: "ready_from job d rs = Inr is \<Longrightarrow> set is = sr_stage_id ` {r \<in> set rs. ready_record job d r}"
proof (induction rs arbitrary: "is")
  case (Cons r rs)
  show ?case
  proof (cases "ready_from job d rs")
    case (Inr tail)
    have "is = (if ready_record job d r then sr_stage_id r # tail else tail)"
      using Cons.prems Inr by (auto simp: ready_record_def split: option.splits if_splits sum.splits)
    then show ?thesis using Cons.IH [OF Inr] by auto
  qed (use Cons.prems in \<open>auto split: option.splits if_splits sum.splits\<close>)
qed simp

lemma stage_op_wrote:
  assumes "distinct (map sr_stage_id (wj_stages job))"
  shows "mark_stage_ready fp job d i now = Inr job' \<Longrightarrow> wrote_stage job d job'"
    and "submit_stage fp job d i key now = Inr job' \<Longrightarrow> wrote_stage job d job'"
    and "accept_stage fp job d i handle now = Inr job' \<Longrightarrow> wrote_stage job d job'"
    and "complete_stage fp job d i outputs now = Inr job' \<Longrightarrow> wrote_stage job d job'"
    and "fail_stage fp job d i err retry now = Inr job' \<Longrightarrow> wrote_stage job d job'"
    and "mark_outcome_unknown fp job d i err now = Inr job' \<Longrightarrow> wrote_stage job d job'"
proof -
  show "wrote_stage job d job'" if "mark_stage_ready fp job d i now = Inr job'"
  proof -
    from that obtain ready r where r: "ready_stage_ids job d = Inr ready" "i \<in> set ready" "job_stage job i = Inr r"
        and j: "job' = with_status (replace_stage job (r\<lparr>sr_status := S_READY\<rparr>) now) d now"
      by (auto simp: mark_stage_ready_def guarded_Inr on_stage_Inr write_stage_def split: sum.splits if_splits)
    obtain q where q: "q \<in> set (wj_stages job)" "sr_stage_id q = i" "sr_status q = S_PENDING"
      using ready_from_set [OF r(1) [unfolded ready_stage_ids_def]] r(2) by (auto simp: ready_record_def)
    then have "q = r" using job_stageD [OF r(3)] assms by (metis eq_key_imp_eq_value inj_on_def distinct_map)
    then have "stage_move (sr_status r) S_READY" using q by (simp add: stage_move.intros)
    then show ?thesis unfolding j using r job_stageD [OF r(3)] by (intro wrote_stageI [OF r(3)]) auto
  qed
  have sid: "sr_stage_id r = i" if "job_stage job i = Inr r" for r using job_stageD [OF that] by simp
  show "wrote_stage job d job'" if "submit_stage fp job d i key now = Inr job'"
    using that sid unfolding submit_stage_def guarded_Inr on_stage_Inr
    by (auto simp: write_stage_def stage_move_iff split: if_splits intro!: wrote_stageI)
  show "wrote_stage job d job'" if "accept_stage fp job d i handle now = Inr job'"
    using that sid unfolding accept_stage_def guarded_Inr on_stage_Inr
    by (auto simp: write_stage_def stage_move_iff split: if_splits intro!: wrote_stageI)
  show "wrote_stage job d job'" if "complete_stage fp job d i outputs now = Inr job'"
    using that sid unfolding complete_stage_def guarded_Inr on_stage_Inr
    by (auto simp: write_stage_def stage_move_iff split: if_splits intro!: wrote_stageI)
  show "wrote_stage job d job'" if "fail_stage fp job d i err retry now = Inr job'"
    using that sid unfolding fail_stage_def guarded_Inr on_stage_Inr
    by (auto simp: write_stage_def stage_move_iff new_stage_def split: if_splits intro!: wrote_stageI)
  show "wrote_stage job d job'" if "mark_outcome_unknown fp job d i err now = Inr job'"
    using that sid unfolding mark_outcome_unknown_def guarded_Inr on_stage_Inr
    by (auto simp: write_stage_def stage_move_iff split: if_splits intro!: wrote_stageI)
qed

section \<open>The invariant of a job\<close>

definition deps_satisfied :: "WorkflowJob \<Rightarrow> pydict \<Rightarrow> bool" where
  "deps_satisfied job stage \<longleftrightarrow>
     (\<forall>i\<in>set (strings_of (depends_on stage)). \<exists>r\<in>set (wj_stages job). sr_stage_id r = i \<and> stage_done (sr_status r))"

definition record_inv :: "pydict \<Rightarrow> WorkflowJob \<Rightarrow> StageRecord \<Rightarrow> bool" where
  "record_inv d job r \<longleftrightarrow>
     (\<forall>s\<in>set (workflow_stages d). stage_id s = sr_stage_id r \<longrightarrow>
        (sr_status r = S_SKIPPED \<longleftrightarrow> \<not> stage_enabled s)
        \<and> (sr_status r \<notin> {S_PENDING, S_SKIPPED, S_CANCELLED} \<longrightarrow> deps_satisfied job s))
     \<and> (sr_status r = S_CANCELLED \<longrightarrow> wj_cancel_requested job) \<and> sr_status r \<noteq> S_AWAITING_REVIEW"

definition job_inv :: "pydict \<Rightarrow> WorkflowJob \<Rightarrow> bool" where
  "job_inv d job \<longleftrightarrow> map sr_stage_id (wj_stages job) = map stage_id (workflow_stages d)
     \<and> wj_status job = derive_status job d \<and> (\<forall>r\<in>set (wj_stages job). record_inv d job r)"

lemma derive_status_cong:
  "wj_stages job = wj_stages job' \<Longrightarrow> wj_cancel_requested job = wj_cancel_requested job' \<Longrightarrow>
     derive_status job d = derive_status job' d"
  by (simp only: derive_status_def enabled_records_def)

lemma with_status_simps [simp]:
  "wj_stages (with_status job d now) = wj_stages job"
  "wj_cancel_requested (with_status job d now) = wj_cancel_requested job"
  by (simp_all add: with_status_def Let_def)

lemma with_status_derived [simp]:
  "wj_status (with_status job d now) = derive_status job d" "derive_status (with_status job d now) d = derive_status job d"
  by (simp add: with_status_def Let_def) (rule derive_status_cong; simp)

lemma with_status_inv:
  "deps_satisfied (with_status job d now) = deps_satisfied job"
  "record_inv d (with_status job d now) = record_inv d job"
  by (intro ext; simp add: record_inv_def deps_satisfied_def)+

lemma deps_satisfied_mono:
  assumes "\<And>r. r \<in> set (wj_stages job) \<Longrightarrow> stage_done (sr_status r) \<Longrightarrow> r \<in> set (wj_stages job')"
  shows "deps_satisfied job s \<Longrightarrow> deps_satisfied job' s"
  using assms by (fastforce simp: deps_satisfied_def)

lemma stage_map_valid:
  assumes "validate_workflow_definition (PDict d) = []"
  shows "stage_map d i = Some s \<longleftrightarrow> s \<in> set (workflow_stages d) \<and> stage_id s = i"
proof -
  note V = valid_workflowD [OF assms]
  have "filter (\<lambda>s. is_str (dget s ''id'')) (workflow_stages d) = workflow_stages d"
    by (rule filter_True) (use V(4) in auto)
  moreover have "distinct (map fst (rev (map (\<lambda>s. (stage_id s, s)) (workflow_stages d))))"
    using V(3) by (simp add: rev_map [symmetric] comp_def)
  ultimately show ?thesis unfolding stage_map_def by (subst map_of_eq_Some_iff) auto
qed

lemma deps_done_satisfied:
  "deps_done job is = Inr True \<longleftrightarrow> (\<forall>i\<in>set is. \<exists>r. job_stage job i = Inr r \<and> stage_done (sr_status r))"
  by (induction job "is" rule: deps_done.induct) (auto split: sum.splits)

lemma replace_stage_simps [simp]:
  "wj_stages (replace_stage job r now) = map (\<lambda>c. if sr_stage_id c = sr_stage_id r then r else c) (wj_stages job)"
  "wj_cancel_requested (replace_stage job r now) = wj_cancel_requested job"
  by (simp_all add: replace_stage_def)

lemma wrote_stage_inv:
  assumes "validate_workflow_definition (PDict d) = []" and "job_inv d job" and "wrote_stage job d job'"
  shows "job_inv d job'"
proof -
  note V = valid_workflowD [OF assms(1)]
  obtain i r r' now where w: "job_stage job i = Inr r" "sr_stage_id r' = i" "stage_move (sr_status r) (sr_status r')"
      "sr_status r = S_PENDING \<longrightarrow> (\<exists>ready. ready_stage_ids job d = Inr ready \<and> i \<in> set ready)"
      and j: "job' = with_status (replace_stage job r' now) d now"
    using assms(3) unfolding wrote_stage_def by blast
  let ?job = "replace_stage job r' now"
  have r: "r \<in> set (wj_stages job)" "sr_stage_id r = i" using job_stageD [OF w(1)] by simp_all
  have ids: "map sr_stage_id (wj_stages job) = map stage_id (workflow_stages d)"
    and ri: "\<And>q. q \<in> set (wj_stages job) \<Longrightarrow> record_inv d job q"
    using assms(2) by (simp_all add: job_inv_def)
  have dist: "distinct (map sr_stage_id (wj_stages job))" using ids V(3) by simp
  have uniq: "q = r" if "q \<in> set (wj_stages job)" "sr_stage_id q = i" for q
    using that r dist by (metis distinct_map inj_on_def)
  have notdone: "\<not> stage_done (sr_status r)" using w(3) by (auto simp: stage_move_iff stage_done_def)
  have mono: "deps_satisfied job s \<Longrightarrow> deps_satisfied ?job s" for s
  proof (rule deps_satisfied_mono)
    fix q assume q: "q \<in> set (wj_stages job)" "stage_done (sr_status q)"
    then have "sr_stage_id q \<noteq> i" using uniq notdone by auto
    then show "q \<in> set (wj_stages ?job)" using q w(2) by force
  qed
  have new: "record_inv d ?job r'"
  proof -
    have "deps_satisfied job s" if s: "s \<in> set (workflow_stages d)" "stage_id s = i" for s
    proof (cases "sr_status r = S_PENDING")
      case True
      with w(4) obtain ready where "ready_from job d (wj_stages job) = Inr ready" "i \<in> set ready"
        by (auto simp: ready_stage_ids_def)
      from ready_from_set [OF this(1)] this(2) obtain q where q: "q \<in> set (wj_stages job)" "sr_stage_id q = i" "ready_record job d q"
        by auto
      have "stage_map d (sr_stage_id q) = Some s" using s q(2) by (simp add: stage_map_valid [OF assms(1)])
      with q(3) have "deps_done job (strings_of (depends_on s)) = Inr True" by (simp add: ready_record_def)
      then show ?thesis using job_stageD by (fastforce simp: deps_done_satisfied deps_satisfied_def)
    next
      case False
      then show ?thesis using ri [OF r(1)] s r(2) w(3) by (auto simp: record_inv_def stage_move_iff)
    qed
    with mono show ?thesis
      using w(2,3) ri [OF r(1)] r(2) unfolding record_inv_def by (auto simp: stage_move_iff)
  qed
  have old: "record_inv d ?job q" if "q \<in> set (wj_stages job)" for q
    using ri [OF that] mono by (auto simp: record_inv_def)
  have "map sr_stage_id (wj_stages ?job) = map sr_stage_id (wj_stages job)" using w(2) by (auto simp: comp_def)
  then show ?thesis
    unfolding job_inv_def j using ids new old by (auto simp: with_status_inv)
qed

lemma accept_inv:
  assumes "accept_workflow fp d job_id name revision payload key prio now = Inr job"
  shows "validate_workflow_definition (PDict d) = []" and "job_inv d job" and "require_pinned fp job d = Inr ()"
proof -
  show ok: "validate_workflow_definition (PDict d) = []"
    using assms by (auto simp: accept_workflow_def split: if_splits)
  note V = valid_workflowD [OF ok]
  let ?rec = "\<lambda>s. (new_stage (stage_id s))\<lparr>sr_status := (if stage_enabled s then S_PENDING else S_SKIPPED), sr_updated_at := now\<rparr>"
  have st: "wj_stages job = map ?rec (workflow_stages d)" "wj_status job = W_ACCEPTED" "\<not> wj_cancel_requested job"
      "wj_workflow_id job = text_of (dget d ''id'')" "wj_workflow_revision job = int_of (dget_or d ''revision'' (PInt 1))"
      "wj_workflow_fingerprint job = fp (PDict d)"
    using assms by (auto simp: accept_workflow_def split: if_splits sum.splits)
  have "stage_map d (stage_id s) = Some s" if "s \<in> set (workflow_stages d)" for s
    using that by (simp add: stage_map_valid [OF ok])
  then have en: "sr_status r = S_PENDING" if "r \<in> set (enabled_records job d)" for r
    using that by (auto simp: enabled_records_def st(1) new_stage_def split: if_splits)
  have s: "sr_status r \<in> {S_PENDING, S_SKIPPED}" if "r \<in> set (wj_stages job)" for r
    using that by (auto simp: st(1) split: if_splits)
  have "\<not> (enabled_records job d \<noteq> [] \<and> (\<forall>r\<in>set (enabled_records job d). stage_done (sr_status r)))"
    using en by (cases "enabled_records job d") (auto simp: stage_done_def)
  moreover have "S_OUTCOME_UNKNOWN \<notin> sr_status ` set (wj_stages job)" "S_AWAITING_REVIEW \<notin> sr_status ` set (wj_stages job)"
      "S_FAILED \<notin> sr_status ` set (wj_stages job)"
      "\<not> (\<exists>r\<in>set (wj_stages job). active_stage (sr_status r) \<or> sr_status r = S_SUCCEEDED)"
    using s by (fastforce simp: active_stage_def)+
  ultimately have "derive_status job d = W_ACCEPTED" using st(3) unfolding derive_status_def Let_def by (simp only: if_False)
  moreover have "record_inv d job r" if r: "r \<in> set (wj_stages job)" for r
  proof -
    obtain s where s: "s \<in> set (workflow_stages d)" "r = ?rec s" using r by (auto simp: st(1))
    have "s' = s" if "s' \<in> set (workflow_stages d)" "stage_id s' = stage_id s" for s'
      using that s(1) V(3) by (metis distinct_map inj_onD)
    then show ?thesis using s by (cases "stage_enabled s") (auto simp: record_inv_def new_stage_def)
  qed
  ultimately show "job_inv d job" by (simp add: job_inv_def st(1,2) new_stage_def comp_def)
  show "require_pinned fp job d = Inr ()"
    using ok V(6) by (auto simp: require_pinned_def st text_of_def)
qed

lemma cancel_inv:
  assumes "request_cancel fp job d reason now = Inr job'" and "job_inv d job"
  shows "job_inv d job'"
proof (cases "terminal_workflow (wj_status job)")
  case True
  then show ?thesis using assms by (auto simp: request_cancel_def split: sum.splits)
next
  case False
  let ?job = "job\<lparr>wj_cancel_requested := True, wj_terminal_reason := Some reason,
      wj_stages := map (cancel_record reason now) (wj_stages job)\<rparr>"
  have j: "job' = with_status ?job d now" using False assms(1) by (auto simp: request_cancel_def split: sum.splits)
  have mono: "deps_satisfied job s \<Longrightarrow> deps_satisfied ?job s" for s
    by (rule deps_satisfied_mono [of job]) (force simp: cancel_record_def stage_done_def image_iff)+
  have "record_inv d ?job (cancel_record reason now r)" if "r \<in> set (wj_stages job)" for r
    using that assms(2) mono by (fastforce simp: job_inv_def record_inv_def cancel_record_def)
  moreover have "sr_stage_id (cancel_record reason now r) = sr_stage_id r" for r by (simp add: cancel_record_def)
  ultimately show ?thesis using assms(2) unfolding j by (auto simp: job_inv_def with_status_inv comp_def)
qed

lemma step_inv:
  assumes "workflow_step fp d job job'" and "job_inv d job"
  shows "job_inv d job' \<and> require_pinned fp job d = Inr () \<and> require_pinned fp job' d = Inr ()
     \<and> (terminal_workflow (wj_status job) \<longrightarrow> job' = job)"
proof -
  have p: "require_pinned fp job d = Inr () \<and> (terminal_workflow (wj_status job) \<longrightarrow> job' = job)"
    using assms(1) by cases (auto simp: stage_ops guarded_Inr request_cancel_def split: sum.splits)
  then have ok: "validate_workflow_definition (PDict d) = []" by (auto simp: require_pinned_def split: if_splits)
  have dist: "distinct (map sr_stage_id (wj_stages job))"
    using assms(2) valid_workflowD(3) [OF ok] by (simp add: job_inv_def)
  have pin: "require_pinned fp job' d = Inr ()" if "wrote_stage job d job'"
    using that p by (auto simp: wrote_stage_def require_pinned_def with_status_def replace_stage_def Let_def split: if_splits)
  have w: "?thesis" if "wrote_stage job d job'"
    using wrote_stage_inv [OF ok assms(2) that] pin [OF that] p by simp
  show ?thesis
    using assms(1)
  proof cases
    case (w_cancel reason now)
    have "require_pinned fp job' d = Inr ()"
      using w_cancel p by (auto simp: request_cancel_def require_pinned_def with_status_def Let_def split: if_splits)
    then show ?thesis using cancel_inv [OF w_cancel assms(2)] p by simp
  qed (rule w, erule stage_op_wrote [OF dist])+
qed

lemma workflow_reach_inv:
  assumes "accept_workflow fp d job_id name revision payload key prio now = Inr job0" and "(workflow_step fp d)\<^sup>*\<^sup>* job0 job"
  shows "job_inv d job" and "require_pinned fp job d = Inr ()"
proof -
  from assms(2) have "job_inv d job \<and> require_pinned fp job d = Inr ()"
    by (induction rule: rtranclp_induct) (use accept_inv [OF assms(1)] step_inv in blast)+
  then show "job_inv d job" "require_pinned fp job d = Inr ()" by simp_all
qed

text \<open>C35. A stage runs only after its dependencies. In every state of a workflow job, a stage that was made ready, was submitted, or has an
  outcome has all its dependencies succeeded (or skipped, because they are disabled); only disabled stages are skipped;
  a completed job has every enabled stage succeeded, and a terminal job is never changed again.\<close>

theorem stages_run_in_dependency_order:
  assumes "accept_workflow fp d job_id name revision payload key prio now = Inr job0" and "(workflow_step fp d)\<^sup>*\<^sup>* job0 job"
    and "s \<in> set (workflow_stages d)" and "job_stage job (stage_id s) = Inr r"
  shows "(sr_status r \<notin> {S_PENDING, S_SKIPPED, S_CANCELLED} \<longrightarrow>
            (\<forall>i\<in>set (strings_of (depends_on s)). \<exists>q. job_stage job i = Inr q \<and> sr_status q \<in> {S_SUCCEEDED, S_SKIPPED}))
     \<and> (sr_status r = S_SKIPPED \<longleftrightarrow> \<not> stage_enabled s)
     \<and> (wj_status job = W_COMPLETED \<longrightarrow> stage_enabled s \<longrightarrow> sr_status r = S_SUCCEEDED)
     \<and> (terminal_workflow (wj_status job) \<longrightarrow> (\<forall>job'. workflow_step fp d job job' \<longrightarrow> job' = job))"
proof -
  note inv = workflow_reach_inv [OF assms(1,2)]
  note ok = accept_inv(1) [OF assms(1)]
  note r = job_stageD [OF assms(4)]
  have ri: "record_inv d job r" using inv(1) r by (simp add: job_inv_def)
  have dist: "distinct (map sr_stage_id (wj_stages job))"
    using inv(1) valid_workflowD(3) [OF ok] by (simp add: job_inv_def)
  note find = job_stage_record [OF dist]
  have deps: "deps_satisfied job s \<Longrightarrow>
      \<forall>i\<in>set (strings_of (depends_on s)). \<exists>q. job_stage job i = Inr q \<and> sr_status q \<in> {S_SUCCEEDED, S_SKIPPED}"
    using find by (fastforce simp: deps_satisfied_def stage_done_def)
  have completed: "sr_status r = S_SUCCEEDED" if c: "wj_status job = W_COMPLETED" "stage_enabled s"
  proof -
    have "derive_status job d = W_COMPLETED" using inv(1) c(1) by (simp add: job_inv_def)
    then have all: "\<forall>q\<in>set (enabled_records job d). stage_done (sr_status q)"
      by (auto simp: derive_status_def Let_def split: if_splits)
    have "stage_map d (sr_stage_id r) = Some s" using assms(3) r by (simp add: stage_map_valid [OF ok])
    then have "r \<in> set (enabled_records job d)" using r c(2) by (simp add: enabled_records_def)
    with all ri assms(3) r c(2) show ?thesis by (auto simp: stage_done_def record_inv_def)
  qed
  have "sr_status r = S_SKIPPED \<longleftrightarrow> \<not> stage_enabled s"
      "sr_status r \<notin> {S_PENDING, S_SKIPPED, S_CANCELLED} \<longrightarrow> deps_satisfied job s"
    using ri assms(3) r by (simp_all add: record_inv_def)
  with deps completed step_inv [OF _ inv(1)] show ?thesis by (intro conjI impI allI) simp_all
qed

definition sample_def :: pydict where
  "sample_def = sample_workflow [sample_stage ''a'' [], sample_stage ''b'' [''a'']]"

definition sample_workflow_job :: WorkflowJob where
  "sample_workflow_job = \<lparr>wj_job_id = ''j'', wj_service_name = ''s'', wj_service_revision = ''1'', wj_workflow_id = ''w'',
     wj_workflow_revision = 1, wj_workflow_fingerprint = ''h'', wj_payload_digest = ''h'', wj_idempotency_key = ''k'',
     wj_priority = 50, wj_priority_class = ''normal'', wj_broker_priority = 10, wj_status = W_ACCEPTED,
     wj_cancel_requested = False, wj_terminal_reason = None,
     wj_stages = [(new_stage ''a'')\<lparr>sr_updated_at := 1\<rparr>, (new_stage ''b'')\<lparr>sr_updated_at := 1\<rparr>], wj_created_at = 1, wj_updated_at = 1\<rparr>"

lemma sample_priority:
  "apply_priority_contract [] [] GENERATION_HIGHER_IS_URGENT False =
     Inr [(''priority'', PInt 50), (''priority_class'', PStr ''normal''), (''broker_priority'', PInt 10),
          (''priority_convention'', PStr ''generation_higher_is_urgent''), (''priority_source'', PStr ''request'')]"
  by (simp add: apply_priority_contract_def payload_envelope_def priority_envelope_def dget_def dget_or_def convention_of_def
      class_for_numeric_def has_key_def dict_update_fields set_key_def)

lemma sample_stages: "workflow_stages sample_def =
    [[(''id'', PStr ''a''), (''kind'', PStr ''qc''), (''operation'', PStr ''run''), (''depends_on'', PList [])],
     [(''id'', PStr ''b''), (''kind'', PStr ''qc''), (''operation'', PStr ''run''), (''depends_on'', PList [PStr ''a''])]]"
  by (simp add: sample_def_def sample_workflow_def sample_stage_def workflow_stages_def dget_def)

lemma sample_accept: "accept_workflow (\<lambda>_. ''h'') sample_def ''j'' ''s'' ''1'' PNone ''k'' [] 1 = Inr sample_workflow_job"
proof -
  have v: "validate_workflow_definition (PDict sample_def) = []"
    using sample_workflow_valid by (simp add: sample_def_def)
  have b: "\<not> blank ''j''" "\<not> blank ''s''" "\<not> blank ''1''" "\<not> blank ''k''" by (simp_all add: blank_iff is_space_def)
  show ?thesis
    by (simp add: accept_workflow_def v b sample_priority sample_stages)
      (simp add: sample_workflow_job_def sample_def_def sample_workflow_def dget_def dget_or_def text_of_def int_of_def stage_id_def
        stage_enabled_def new_stage_def)
qed

theorem stages_run_in_dependency_order_witness:
  "\<exists>r. job_stage sample_workflow_job ''b'' = Inr r \<and> sr_status r \<noteq> S_SKIPPED"
proof -
  obtain r where r: "job_stage sample_workflow_job ''b'' = Inr r" by (simp add: job_stage_def sample_workflow_job_def new_stage_def)
  let ?s = "[(''id'', PStr ''b''), (''kind'', PStr ''qc''), (''operation'', PStr ''run''), (''depends_on'', PList [PStr ''a''])]"
  have s: "?s \<in> set (workflow_stages sample_def)" "stage_id ?s = ''b''" "stage_enabled ?s"
    by (simp_all add: sample_stages stage_id_def stage_enabled_def dget_def dget_or_def)
  from stages_run_in_dependency_order [OF sample_accept rtranclp.rtrancl_refl s(1)] r s show ?thesis by auto
qed

section \<open>Progress\<close>

lemma ready_from_total:
  "(\<And>r stage i. r \<in> set rs \<Longrightarrow> stage_map d (sr_stage_id r) = Some stage \<Longrightarrow> i \<in> set (strings_of (depends_on stage)) \<Longrightarrow>
      \<exists>q. job_stage job i = Inr q) \<Longrightarrow> \<exists>is. ready_from job d rs = Inr is"
proof (induction rs)
  case (Cons r rs)
  have known: "(\<And>i. i \<in> set is \<Longrightarrow> \<exists>q. job_stage job i = Inr q) \<Longrightarrow> \<exists>b. deps_done job is = Inr b" for "is"
    by (induction "is") (auto split: sum.splits, force)
  have "\<exists>is. ready_from job d rs = Inr is" by (rule Cons.IH) (rule Cons.prems; simp)
  then obtain tail where tail: "ready_from job d rs = Inr tail" by blast
  show ?case
  proof (cases "stage_map d (sr_stage_id r)")
    case (Some stage)
    then obtain b where "deps_done job (strings_of (depends_on stage)) = Inr b"
      using known Cons.prems [of r stage] by auto
    then show ?thesis using Some tail by simp
  qed (simp add: tail)
qed simp

lemma job_not_stuck:
  assumes ok: "validate_workflow_definition (PDict d) = []" and inv: "job_inv d job"
    and live: "\<not> terminal_workflow (wj_status job)" and en: "\<exists>s\<in>set (workflow_stages d). stage_enabled s"
    and idle: "\<And>r. r \<in> set (wj_stages job) \<Longrightarrow> \<not> active_stage (sr_status r)"
  shows "\<exists>r\<in>set (wj_stages job). ready_record job d r"
proof -
  note V = valid_workflowD [OF ok]
  have ids: "map sr_stage_id (wj_stages job) = map stage_id (workflow_stages d)"
    and ri: "\<And>r. r \<in> set (wj_stages job) \<Longrightarrow> record_inv d job r" and st: "wj_status job = derive_status job d"
    using inv by (auto simp: job_inv_def)
  have dist: "distinct (map sr_stage_id (wj_stages job))" using ids V(3) by simp
  have live': "S_OUTCOME_UNKNOWN \<notin> sr_status ` set (wj_stages job)" "S_FAILED \<notin> sr_status ` set (wj_stages job)"
      "\<not> wj_cancel_requested job" "\<not> (enabled_records job d \<noteq> [] \<and> (\<forall>r\<in>set (enabled_records job d). stage_done (sr_status r)))"
    using live idle by (auto simp: st derive_status_def terminal_workflow_def Let_def split: if_splits)
  define N where "N = {sr_stage_id r |r. r \<in> set (wj_stages job) \<and> \<not> stage_done (sr_status r)}"
  let ?E = "{(p, stage_id s) |p s. s \<in> set (workflow_stages d) \<and> p \<in> set (stage_deps s)}"
  have rec: "\<exists>r\<in>set (wj_stages job). sr_stage_id r = stage_id s" if "s \<in> set (workflow_stages d)" for s
  proof -
    have "stage_id s \<in> sr_stage_id ` set (wj_stages job)" using that arg_cong [OF ids, of set] by simp
    then show ?thesis by auto
  qed
  have "finite ?E"
    by (rule finite_subset [of _ "stage_id ` set (workflow_stages d) \<times> stage_id ` set (workflow_stages d)"]) (use V(4) in auto)
  then have wf: "wf ?E" using V(5) by (rule finite_acyclic_wf)
  have "N \<noteq> {}"
  proof -
    obtain s where s: "s \<in> set (workflow_stages d)" "stage_enabled s" using en by blast
    then obtain r where "r \<in> set (wj_stages job)" "sr_stage_id r = stage_id s" using rec by blast
    moreover have "stage_map d (stage_id s) = Some s" using s by (simp add: stage_map_valid [OF ok])
    ultimately have "r \<in> set (enabled_records job d)" using s by (simp add: enabled_records_def)
    then obtain q where "q \<in> set (enabled_records job d)" "\<not> stage_done (sr_status q)" using live'(4) by auto
    then show ?thesis by (auto simp: N_def enabled_records_def)
  qed
  then obtain i where i: "i \<in> N" "\<And>p. (p, i) \<in> ?E \<Longrightarrow> p \<notin> N"
    using wf_eq_minimal [THEN iffD1, OF wf] by (metis (no_types, lifting) ex_in_conv)
  then obtain r where r: "r \<in> set (wj_stages job)" "sr_stage_id r = i" "\<not> stage_done (sr_status r)" by (auto simp: N_def)
  have "i \<in> stage_id ` set (workflow_stages d)" using r arg_cong [OF ids, of set] by auto
  then obtain s where s: "s \<in> set (workflow_stages d)" "stage_id s = i" by auto
  have pending: "sr_status r = S_PENDING"
    using r live' idle [OF r(1)] ri [OF r(1)]
    by (cases "sr_status r") (auto simp: record_inv_def active_stage_def stage_done_def image_iff)
  have "\<exists>q. job_stage job p = Inr q \<and> stage_done (sr_status q)" if p: "p \<in> set (strings_of (depends_on s))" for p
  proof -
    have pd: "p \<in> set (stage_deps s)" using p V(4) [OF s(1)] by (simp add: stage_deps_def)
    then have "(p, i) \<in> ?E" using s by blast
    then have np: "p \<notin> N" by (rule i(2))
    obtain s' where "s' \<in> set (workflow_stages d)" "stage_id s' = p" using pd V(4) [OF s(1)] by auto
    then obtain q where "q \<in> set (wj_stages job)" "sr_stage_id q = p" using rec by blast
    then show ?thesis using np job_stage_record [OF dist] by (auto simp: N_def)
  qed
  then have "deps_done job (strings_of (depends_on s)) = Inr True" by (simp add: deps_done_satisfied)
  moreover have "stage_enabled s" using ri [OF r(1)] s r(2) pending by (simp add: record_inv_def)
  moreover have "stage_map d i = Some s" using s by (simp add: stage_map_valid [OF ok])
  ultimately have "ready_record job d r" using pending r(2) by (simp add: ready_record_def)
  with r(1) show ?thesis by blast
qed

text \<open>C36. A workflow is never stuck. As long as a job with an enabled stage is not terminal, some stage is in progress (ready, submitted or in
  flight) or some pending stage can be made ready right away: because the validated dependencies have no cycle, waiting for each other is impossible.\<close>

theorem workflow_never_stuck:
  assumes "accept_workflow fp d job_id name revision payload key prio now = Inr job0" and "(workflow_step fp d)\<^sup>*\<^sup>* job0 job"
    and "\<not> terminal_workflow (wj_status job)" and "\<exists>s\<in>set (workflow_stages d). stage_enabled s"
  shows "(\<exists>r\<in>set (wj_stages job). active_stage (sr_status r)) \<or> (\<exists>i job'. mark_stage_ready fp job d i t = Inr job')"
proof (cases "\<exists>r\<in>set (wj_stages job). active_stage (sr_status r)")
  case False
  note inv = workflow_reach_inv [OF assms(1,2)]
  note ok = accept_inv(1) [OF assms(1)]
  have ids: "map sr_stage_id (wj_stages job) = map stage_id (workflow_stages d)" using inv(1) by (simp add: job_inv_def)
  have dist: "distinct (map sr_stage_id (wj_stages job))" using ids valid_workflowD(3) [OF ok] by simp
  have known: "\<exists>q. job_stage job p = Inr q" if "stage_map d j = Some s" "p \<in> set (strings_of (depends_on s))" for j s p
  proof -
    have "s \<in> set (workflow_stages d)" using that(1) by (simp add: stage_map_valid [OF ok])
    then have "p \<in> stage_id ` set (workflow_stages d)" using valid_workflowD(4) [OF ok] that(2) by (auto simp: stage_deps_def)
    then obtain q where "q \<in> set (wj_stages job)" "sr_stage_id q = p"
      using arg_cong [OF ids, of set] by (metis (no_types, lifting) imageE list.set_map)
    then show ?thesis using job_stage_record [OF dist] by blast
  qed
  then obtain ready where ready: "ready_stage_ids job d = Inr ready"
    using ready_from_total [of "wj_stages job" d job] by (auto simp: ready_stage_ids_def)
  obtain r where r: "r \<in> set (wj_stages job)" "ready_record job d r"
    using job_not_stuck [OF ok inv(1) assms(3,4)] False by blast
  then have "sr_stage_id r \<in> set ready" using ready_from_set [OF ready [unfolded ready_stage_ids_def]] by blast
  then have "\<exists>job'. mark_stage_ready fp job d (sr_stage_id r) t = Inr job'"
    using inv(2) assms(3) ready job_stage_record [OF dist r(1) refl]
    by (simp add: mark_stage_ready_def guarded_def on_stage_def write_stage_def)
  then show ?thesis by blast
qed simp

theorem workflow_never_stuck_witness:
  "\<exists>i job'. mark_stage_ready (\<lambda>_. ''h'') sample_workflow_job sample_def i 2 = Inr job'"
proof -
  have "\<not> terminal_workflow (wj_status sample_workflow_job)" "\<exists>s\<in>set (workflow_stages sample_def). stage_enabled s"
      "\<not> (\<exists>r\<in>set (wj_stages sample_workflow_job). active_stage (sr_status r))"
    by (simp_all add: sample_workflow_job_def terminal_workflow_def sample_stages stage_enabled_def dget_or_def new_stage_def active_stage_def)
  with workflow_never_stuck [OF sample_accept rtranclp.rtrancl_refl] show ?thesis by blast
qed

end
