(* ===== verification/Workflow_Store.thy ===== *)
theory Workflow_Store
  imports Workflow_Runtime "HOL-Library.AList"
begin

text \<open>
  The two stores of \<open>scripts/workflow_runtime.py\<close>. A Python dictionary is an association list with distinct keys,
  updated in place; the calls hold the store's lock, so each is one atomic step. The file of \<open>FileWorkflowStore\<close> holds a JSON
  value; \<open>json.dump\<close> and \<open>json.loads\<close> are inverse on the documents written (the order of the keys of an object, which
  \<open>sort_keys\<close> changes, is not read back). \<open>str()\<close> of a value that is not a string and \<open>float()\<close> of a string,
  which matter only for a file the store did not write, are the parameters \<open>strf\<close> and \<open>readf\<close>.
\<close>

section \<open>Admission\<close>

type_synonym idem_key = "string \<times> string"

record workflow_store =
  ws_jobs :: "(string \<times> WorkflowJob) list"
  ws_idempotency :: "(idem_key \<times> string \<times> string) list"

definition empty_workflow_store :: workflow_store where
  "empty_workflow_store = \<lparr>ws_jobs = [], ws_idempotency = []\<rparr>"

text \<open>\<open>InMemoryWorkflowStore\<close>. The flag says whether the job is new.\<close>

definition mem_create ::
  "(pyval \<Rightarrow> string) \<Rightarrow> workflow_store \<Rightarrow> pydict \<Rightarrow> string \<Rightarrow> string \<Rightarrow> string \<Rightarrow> pyval \<Rightarrow> string \<Rightarrow> pydict \<Rightarrow> time
     \<Rightarrow> (WorkflowJob \<times> bool) workflow_result \<times> workflow_store" where
  "mem_create fp s d job_id name revision payload key prio now =
     (case map_of (ws_idempotency s) (name, key) of
        Some (h, i) \<Rightarrow>
          if h \<noteq> fp payload then (Inl IdempotencyConflict, s) else (Inr (the (map_of (ws_jobs s) i), False), s)
      | None \<Rightarrow>
          if map_of (ws_jobs s) job_id \<noteq> None then (Inl (Job_exists job_id), s)
          else case accept_workflow fp d job_id name revision payload key prio now of
            Inl e \<Rightarrow> (Inl e, s)
          | Inr job \<Rightarrow> (Inr (job, True), \<lparr>ws_jobs = AList.update job_id job (ws_jobs s),
              ws_idempotency = AList.update (name, key) (fp payload, job_id) (ws_idempotency s)\<rparr>))"

definition mem_get :: "workflow_store \<Rightarrow> string \<Rightarrow> WorkflowJob workflow_result" where
  "mem_get s i = (case map_of (ws_jobs s) i of None \<Rightarrow> Inl (Unknown_job i) | Some job \<Rightarrow> Inr job)"

definition mem_put :: "workflow_store \<Rightarrow> WorkflowJob \<Rightarrow> WorkflowJob workflow_result \<times> workflow_store" where
  "mem_put s job =
     (if map_of (ws_jobs s) (wj_job_id job) = None then (Inl (Unknown_job (wj_job_id job)), s)
      else (Inr job, s\<lparr>ws_jobs := AList.update (wj_job_id job) job (ws_jobs s)\<rparr>))"

section \<open>The document of the file\<close>

fun stage_status_text :: "StageStatus \<Rightarrow> string" where
  "stage_status_text S_PENDING = ''pending''"
| "stage_status_text S_READY = ''ready''"
| "stage_status_text S_SUBMITTED = ''submitted''"
| "stage_status_text S_IN_FLIGHT = ''in_flight''"
| "stage_status_text S_SUCCEEDED = ''succeeded''"
| "stage_status_text S_FAILED = ''failed''"
| "stage_status_text S_CANCELLED = ''cancelled''"
| "stage_status_text S_OUTCOME_UNKNOWN = ''outcome_unknown''"
| "stage_status_text S_AWAITING_REVIEW = ''awaiting_review''"
| "stage_status_text S_SKIPPED = ''skipped''"

definition stage_statuses :: "StageStatus list" where
  "stage_statuses = [S_PENDING, S_READY, S_SUBMITTED, S_IN_FLIGHT, S_SUCCEEDED, S_FAILED, S_CANCELLED, S_OUTCOME_UNKNOWN,
     S_AWAITING_REVIEW, S_SKIPPED]"

definition workflow_statuses :: "WorkflowStatus list" where
  "workflow_statuses = [W_ACCEPTED, W_RUNNING, W_COMPLETED, W_FAILED, W_CANCELLED, W_OUTCOME_UNKNOWN, W_AWAITING_REVIEW]"

definition opt_text :: "string option \<Rightarrow> pyval" where
  "opt_text x = (case x of None \<Rightarrow> PNone | Some s \<Rightarrow> PStr s)"

definition stage_to_dict :: "StageRecord \<Rightarrow> pyval" where
  "stage_to_dict r = PDict [(''stage_id'', PStr (sr_stage_id r)), (''attempt'', PInt (sr_attempt r)),
     (''status'', PStr (stage_status_text (sr_status r))), (''idempotency_key'', PStr (sr_idempotency_key r)),
     (''provider_handle'', opt_text (sr_provider_handle r)), (''output_refs'', PList (map PStr (sr_output_refs r))),
     (''error'', opt_text (sr_error r)), (''updated_at'', PFloat (sr_updated_at r))]"

definition job_to_dict :: "WorkflowJob \<Rightarrow> pyval" where
  "job_to_dict j = PDict [(''job_id'', PStr (wj_job_id j)), (''service_name'', PStr (wj_service_name j)),
     (''service_revision'', PStr (wj_service_revision j)), (''workflow_id'', PStr (wj_workflow_id j)),
     (''workflow_revision'', PInt (wj_workflow_revision j)), (''workflow_fingerprint'', PStr (wj_workflow_fingerprint j)),
     (''payload_digest'', PStr (wj_payload_digest j)), (''idempotency_key'', PStr (wj_idempotency_key j)),
     (''priority'', PInt (wj_priority j)), (''priority_class'', PStr (wj_priority_class j)),
     (''broker_priority'', PInt (wj_broker_priority j)), (''status'', PStr (workflow_status_text (wj_status j))),
     (''cancel_requested'', PBool (wj_cancel_requested j)), (''terminal_reason'', opt_text (wj_terminal_reason j)),
     (''stages'', PList (map stage_to_dict (wj_stages j))), (''created_at'', PFloat (wj_created_at j)),
     (''updated_at'', PFloat (wj_updated_at j))]"

definition opt_str_of :: "(pyval \<Rightarrow> string) \<Rightarrow> pyval \<Rightarrow> string option" where
  "opt_str_of strf v = (if v = PNone then None else Some (py_str strf v))"

fun map_opt :: "('a \<Rightarrow> 'b option) \<Rightarrow> 'a list \<Rightarrow> 'b list option" where
  "map_opt f [] = Some []"
| "map_opt f (x # xs) = (case (f x, map_opt f xs) of (Some y, Some ys) \<Rightarrow> Some (y # ys) | _ \<Rightarrow> None)"

definition stage_keys :: "string list" where
  "stage_keys = [''output_refs'', ''stage_id'', ''attempt'', ''status'', ''idempotency_key'', ''updated_at'']"

definition stage_from_dict :: "(pyval \<Rightarrow> string) \<Rightarrow> (string \<Rightarrow> real option) \<Rightarrow> pyval \<Rightarrow> StageRecord option" where
  "stage_from_dict strf readf v =
     (case v of
        PDict d \<Rightarrow>
          if \<not> list_all (has_key d) stage_keys then None
          else (case (py_iter (dget d ''output_refs''), py_int (dget d ''attempt''),
                      find (\<lambda>s. stage_status_text s = py_str strf (dget d ''status'')) stage_statuses,
                      py_float readf (dget d ''updated_at'')) of
                  (Some refs, Some attempt, Some status, Some t) \<Rightarrow>
                    Some \<lparr>sr_stage_id = py_str strf (dget d ''stage_id''), sr_attempt = attempt, sr_status = status,
                      sr_idempotency_key = py_str strf (dget d ''idempotency_key''),
                      sr_provider_handle = opt_str_of strf (dget d ''provider_handle''),
                      sr_output_refs = map (py_str strf) refs, sr_error = opt_str_of strf (dget d ''error''), sr_updated_at = t\<rparr>
                | _ \<Rightarrow> None)
      | _ \<Rightarrow> None)"

definition job_keys :: "string list" where
  "job_keys = [''stages'', ''job_id'', ''service_name'', ''service_revision'', ''workflow_id'', ''workflow_revision'',
     ''workflow_fingerprint'', ''payload_digest'', ''idempotency_key'', ''priority'', ''priority_class'', ''broker_priority'',
     ''status'', ''cancel_requested'', ''created_at'', ''updated_at'']"

definition job_from_dict :: "(pyval \<Rightarrow> string) \<Rightarrow> (string \<Rightarrow> real option) \<Rightarrow> pyval \<Rightarrow> WorkflowJob option" where
  "job_from_dict strf readf v =
     (case v of
        PDict d \<Rightarrow>
          if \<not> list_all (has_key d) job_keys then None
          else (case (Option.bind (py_iter (dget d ''stages'')) (map_opt (stage_from_dict strf readf)),
                      py_int (dget d ''workflow_revision''), py_int (dget d ''priority''), py_int (dget d ''broker_priority''),
                      find (\<lambda>s. workflow_status_text s = py_str strf (dget d ''status'')) workflow_statuses,
                      py_float readf (dget d ''created_at''), py_float readf (dget d ''updated_at'')) of
                  (Some stages, Some revision, Some prio, Some broker, Some status, Some created, Some updated) \<Rightarrow>
                    Some \<lparr>wj_job_id = py_str strf (dget d ''job_id''), wj_service_name = py_str strf (dget d ''service_name''),
                      wj_service_revision = py_str strf (dget d ''service_revision''),
                      wj_workflow_id = py_str strf (dget d ''workflow_id''), wj_workflow_revision = revision,
                      wj_workflow_fingerprint = py_str strf (dget d ''workflow_fingerprint''),
                      wj_payload_digest = py_str strf (dget d ''payload_digest''),
                      wj_idempotency_key = py_str strf (dget d ''idempotency_key''), wj_priority = prio,
                      wj_priority_class = py_str strf (dget d ''priority_class''), wj_broker_priority = broker,
                      wj_status = status, wj_cancel_requested = truthy (dget d ''cancel_requested''),
                      wj_terminal_reason = opt_str_of strf (dget d ''terminal_reason''), wj_stages = stages,
                      wj_created_at = created, wj_updated_at = updated\<rparr>
                | _ \<Rightarrow> None)
      | _ \<Rightarrow> None)"

definition idem_to_dict :: "idem_key \<times> string \<times> string \<Rightarrow> pyval" where
  "idem_to_dict e = (case e of ((name, key), (h, i)) \<Rightarrow>
     PDict [(''service_name'', PStr name), (''idempotency_key'', PStr key), (''payload_digest'', PStr h), (''job_id'', PStr i)])"

definition store_document :: "workflow_store \<Rightarrow> pyval" where
  "store_document s = PDict [(''schema'', PStr ''workflow-runtime-store.v1''),
     (''jobs'', PDict (map (\<lambda>(i, j). (i, job_to_dict j)) (ws_jobs s))),
     (''idempotency'', PList (map idem_to_dict (ws_idempotency s)))]"

text \<open>A dictionary comprehension: a later entry of the same key replaces the earlier one.\<close>

definition dict_of :: "('k \<times> 'v) list \<Rightarrow> ('k \<times> 'v) list" where
  "dict_of xs = foldl (\<lambda>m (k, v). AList.update k v m) [] xs"

fun read_idempotency ::
  "(pyval \<Rightarrow> string) \<Rightarrow> (string \<times> WorkflowJob) list \<Rightarrow> pyval list \<Rightarrow> (idem_key \<times> string \<times> string) list
     \<Rightarrow> (idem_key \<times> string \<times> string) list workflow_result" where
  "read_idempotency strf jobs [] acc = Inr acc"
| "read_idempotency strf jobs (v # vs) acc =
     (case v of
        PDict d \<Rightarrow>
          if \<not> list_all (has_key d) [''service_name'', ''idempotency_key'', ''payload_digest'', ''job_id'']
          then Inl (Store_error ''workflow store record is missing a key'')
          else let name = py_str strf (dget d ''service_name''); key = py_str strf (dget d ''idempotency_key'');
                   h = py_str strf (dget d ''payload_digest''); i = py_str strf (dget d ''job_id'') in
            (case map_of jobs i of
               None \<Rightarrow> Inl (Store_error ''idempotency record references an unknown job'')
             | Some job \<Rightarrow>
                 if name \<noteq> wj_service_name job \<or> key \<noteq> wj_idempotency_key job \<or> h \<noteq> wj_payload_digest job
                 then Inl (Store_error ''workflow idempotency record does not match job'')
                 else if map_of acc (name, key) \<noteq> None then Inl (Store_error ''duplicate workflow idempotency record'')
                 else read_idempotency strf jobs vs (AList.update (name, key) (h, i) acc))
      | _ \<Rightarrow> Inl (Store_error ''invalid workflow idempotency record''))"

definition read_document ::
  "(pyval \<Rightarrow> string) \<Rightarrow> (string \<Rightarrow> real option) \<Rightarrow> pyval \<Rightarrow> workflow_store workflow_result" where
  "read_document strf readf v =
     (case v of
        PDict d \<Rightarrow>
          if dget d ''schema'' \<noteq> PStr ''workflow-runtime-store.v1'' then Inl (Store_error ''unsupported workflow store schema'')
          else (case (dget d ''jobs'', dget d ''idempotency'') of
                  (PDict raw, PList items) \<Rightarrow>
                    (case map_opt (\<lambda>(i, w). map_option (Pair i) (job_from_dict strf readf w)) raw of
                       None \<Rightarrow> Inl (Store_error ''invalid workflow store job record'')
                     | Some entries \<Rightarrow>
                         let jobs = dict_of entries in
                         if \<exists>e\<in>set jobs. fst e \<noteq> wj_job_id (snd e)
                         then Inl (Store_error ''workflow store job key does not match record'')
                         else map_sum id (\<lambda>idem. \<lparr>ws_jobs = jobs, ws_idempotency = idem\<rparr>)
                                (read_idempotency strf jobs items []))
                | _ \<Rightarrow> Inl (Store_error ''invalid workflow store envelope''))
      | _ \<Rightarrow> Inl (Store_error ''unsupported workflow store schema''))"

section \<open>The file store\<close>

datatype store_file = No_file | Unreadable | Not_json | Document pyval

record file_workflow_store =
  fw_store :: workflow_store
  fw_loaded :: bool
  fw_file :: store_file

definition open_file_store :: "store_file \<Rightarrow> file_workflow_store" where
  "open_file_store f = \<lparr>fw_store = empty_workflow_store, fw_loaded = False, fw_file = f\<rparr>"

text \<open>\<open>_read_locked\<close>: the flag is set before the file is read.\<close>

definition read_locked ::
  "(pyval \<Rightarrow> string) \<Rightarrow> (string \<Rightarrow> real option) \<Rightarrow> file_workflow_store \<Rightarrow> unit workflow_result \<times> file_workflow_store" where
  "read_locked strf readf f =
     (if fw_loaded f then (Inr (), f)
      else let f1 = f\<lparr>fw_loaded := True\<rparr> in
        case fw_file f of
          No_file \<Rightarrow> (Inr (), f1)
        | Unreadable \<Rightarrow> (Inl (Store_error ''unable to read workflow store''), f1)
        | Not_json \<Rightarrow> (Inl (Store_error ''workflow store is not valid JSON''), f1)
        | Document v \<Rightarrow>
            (case read_document strf readf v of
               Inl e \<Rightarrow> (Inl e, f1)
             | Inr s \<Rightarrow> (Inr (), f1\<lparr>fw_store := s\<rparr>)))"

text \<open>What the operating system does to a write: the replacement of the file is atomic, and an error comes either before it or
  after it (the synchronisation of the directory).\<close>

datatype disk = Disk_ok | Fails_before_replace | Fails_after_replace

definition write_locked :: "disk \<Rightarrow> file_workflow_store \<Rightarrow> workflow_store \<Rightarrow> unit workflow_result \<times> file_workflow_store" where
  "write_locked disk f s =
     (case disk of
        Disk_ok \<Rightarrow> (Inr (), f\<lparr>fw_file := Document (store_document s)\<rparr>)
      | Fails_before_replace \<Rightarrow> (Inl (Store_error ''unable to persist workflow store''), f)
      | Fails_after_replace \<Rightarrow>
          (Inl (Store_error ''unable to persist workflow store''), f\<lparr>fw_file := Document (store_document s)\<rparr>))"

definition file_create ::
  "(pyval \<Rightarrow> string) \<Rightarrow> (pyval \<Rightarrow> string) \<Rightarrow> (string \<Rightarrow> real option) \<Rightarrow> disk \<Rightarrow> file_workflow_store \<Rightarrow> pydict \<Rightarrow> string \<Rightarrow> string \<Rightarrow> string
     \<Rightarrow> pyval \<Rightarrow> string \<Rightarrow> pydict \<Rightarrow> time \<Rightarrow> (WorkflowJob \<times> bool) workflow_result \<times> file_workflow_store" where
  "file_create fp strf readf disk f d job_id name revision payload key prio now =
     (case read_locked strf readf f of
        (Inl e, f1) \<Rightarrow> (Inl e, f1)
      | (Inr _, f1) \<Rightarrow>
          (case mem_create fp (fw_store f1) d job_id name revision payload key prio now of
             (Inr (job, True), s) \<Rightarrow>
               (case write_locked disk f1 s of
                  (Inl e, f2) \<Rightarrow> (Inl e, f2)
                | (Inr _, f2) \<Rightarrow> (Inr (job, True), f2\<lparr>fw_store := s\<rparr>))
           | (r, _) \<Rightarrow> (r, f1)))"

definition file_get ::
  "(pyval \<Rightarrow> string) \<Rightarrow> (string \<Rightarrow> real option) \<Rightarrow> file_workflow_store \<Rightarrow> string \<Rightarrow> WorkflowJob workflow_result \<times> file_workflow_store" where
  "file_get strf readf f i =
     (case read_locked strf readf f of
        (Inl e, f1) \<Rightarrow> (Inl e, f1)
      | (Inr _, f1) \<Rightarrow> (mem_get (fw_store f1) i, f1))"

definition same_identity :: "WorkflowJob \<Rightarrow> WorkflowJob \<Rightarrow> bool" where
  "same_identity j c \<longleftrightarrow> wj_service_name j = wj_service_name c \<and> wj_service_revision j = wj_service_revision c
     \<and> wj_workflow_id j = wj_workflow_id c \<and> wj_workflow_revision j = wj_workflow_revision c
     \<and> wj_workflow_fingerprint j = wj_workflow_fingerprint c \<and> wj_payload_digest j = wj_payload_digest c
     \<and> wj_idempotency_key j = wj_idempotency_key c"

definition file_put ::
  "(pyval \<Rightarrow> string) \<Rightarrow> (string \<Rightarrow> real option) \<Rightarrow> disk \<Rightarrow> file_workflow_store \<Rightarrow> WorkflowJob
     \<Rightarrow> WorkflowJob workflow_result \<times> file_workflow_store" where
  "file_put strf readf disk f job =
     (case read_locked strf readf f of
        (Inl e, f1) \<Rightarrow> (Inl e, f1)
      | (Inr _, f1) \<Rightarrow>
          let s = fw_store f1 in
          (case map_of (ws_jobs s) (wj_job_id job) of
             None \<Rightarrow> (Inl (Unknown_job (wj_job_id job)), f1)
           | Some current \<Rightarrow>
               if \<not> same_identity job current then (Inl (Store_error ''workflow identity field cannot change''), f1)
               else if map_option snd (map_of (ws_idempotency s) (wj_service_name job, wj_idempotency_key job)) \<noteq> Some (wj_job_id job)
               then (Inl (Store_error ''workflow idempotency index does not match job''), f1)
               else let s' = s\<lparr>ws_jobs := AList.update (wj_job_id job) job (ws_jobs s)\<rparr> in
                 (case write_locked disk f1 s' of
                    (Inl e, f2) \<Rightarrow> (Inl e, f2)
                  | (Inr _, f2) \<Rightarrow> (Inr job, f2\<lparr>fw_store := s'\<rparr>))))"

section \<open>Round trips\<close>

lemma update_fresh: "k \<notin> fst ` set xs \<Longrightarrow> AList.update k v xs = xs @ [(k, v)]"
  by (induction xs) auto

lemma distinct_update_keys [simp]: "distinct (map fst xs) \<Longrightarrow> distinct (map fst (AList.update k v xs))"
  by (rule distinct_update)

lemma dict_of_fold: "distinct (map fst (acc @ xs)) \<Longrightarrow> foldl (\<lambda>m (k, v). AList.update k v m) acc xs = acc @ xs"
proof (induction xs arbitrary: acc)
  case (Cons x xs)
  obtain k v where x: "x = (k, v)" by (cases x)
  have "k \<notin> fst ` set acc" using Cons.prems by (auto simp: x)
  then show ?case using Cons.IH [of "acc @ [(k, v)]"] Cons.prems by (simp add: x update_fresh)
qed simp

lemma dict_of_distinct: "distinct (map fst xs) \<Longrightarrow> dict_of xs = xs"
  using dict_of_fold [of "[]" xs] by (simp add: dict_of_def)

lemma distinct_dict_of: "distinct (map fst (dict_of xs))"
proof -
  have "distinct (map fst acc) \<Longrightarrow> distinct (map fst (foldl (\<lambda>m (k, v). AList.update k v m) acc xs))" for acc :: "('a \<times> 'b) list"
    by (induction xs arbitrary: acc) auto
  then show ?thesis by (simp add: dict_of_def)
qed

lemma map_opt_map: "(\<And>x. x \<in> set xs \<Longrightarrow> f (g x) = Some (h x)) \<Longrightarrow> map_opt f (map g xs) = Some (map h xs)"
  by (induction xs) auto

lemma find_text:
  "find (\<lambda>s. stage_status_text s = stage_status_text t) stage_statuses = Some t"
  "find (\<lambda>s. workflow_status_text s = workflow_status_text u) workflow_statuses = Some u"
  by (cases t; simp add: stage_statuses_def) (cases u; simp add: workflow_statuses_def)

lemma opt_str_of_text [simp]: "opt_str_of strf (opt_text x) = x"
  by (cases x) (simp_all add: opt_str_of_def opt_text_def py_str_def)

lemma stage_round_trip: "stage_from_dict strf readf (stage_to_dict r) = Some r"
  by (simp add: stage_from_dict_def stage_to_dict_def stage_keys_def has_key_def dget_def py_iter_def py_int_def py_str_def
      py_float_def find_text comp_def)

lemma job_round_trip: "job_from_dict strf readf (job_to_dict j) = Some j"
proof -
  have "map_opt (stage_from_dict strf readf) (map stage_to_dict rs) = Some rs" for rs
    using map_opt_map [of rs "stage_from_dict strf readf" stage_to_dict "\<lambda>r. r"] by (simp add: stage_round_trip)
  then show ?thesis
    by (simp add: job_from_dict_def job_to_dict_def job_keys_def has_key_def dget_def py_iter_def py_int_def py_str_def
        py_float_def find_text)
qed

definition idem_entry_ok :: "(string \<times> WorkflowJob) list \<Rightarrow> idem_key \<times> string \<times> string \<Rightarrow> bool" where
  "idem_entry_ok jobs e = (case e of ((name, key), (h, i)) \<Rightarrow>
     (case map_of jobs i of None \<Rightarrow> False
      | Some j \<Rightarrow> name = wj_service_name j \<and> key = wj_idempotency_key j \<and> h = wj_payload_digest j))"

definition store_inv :: "workflow_store \<Rightarrow> bool" where
  "store_inv s \<longleftrightarrow> distinct (map fst (ws_jobs s)) \<and> distinct (map fst (ws_idempotency s))
     \<and> (\<forall>e\<in>set (ws_jobs s). fst e = wj_job_id (snd e)) \<and> (\<forall>e\<in>set (ws_idempotency s). idem_entry_ok (ws_jobs s) e)"

lemma read_idempotency_document:
  "distinct (map fst (acc @ es)) \<Longrightarrow> (\<And>e. e \<in> set es \<Longrightarrow> idem_entry_ok jobs e) \<Longrightarrow>
     read_idempotency strf jobs (map idem_to_dict es) acc = Inr (acc @ es)"
proof (induction es arbitrary: acc)
  case (Cons e es)
  obtain name key h i where e: "e = ((name, key), (h, i))" by (cases e) auto
  have f: "(name, key) \<notin> fst ` set acc" using Cons.prems(1) by (force simp: e)
  then have "map_of acc (name, key) = None" by (simp add: map_of_eq_None_iff)
  moreover have "idem_entry_ok jobs e" by (rule Cons.prems(2)) simp
  ultimately show ?case
    using Cons.IH [of "acc @ [e]"] Cons.prems
    by (auto simp: e idem_to_dict_def has_key_def dget_def py_str_def idem_entry_ok_def update_fresh split: option.splits)
qed simp

lemma document_round_trip:
  assumes "store_inv s"
  shows "read_document strf readf (store_document s) = Inr s"
proof -
  have "map_opt (\<lambda>(i, w). map_option (Pair i) (job_from_dict strf readf w)) (map (\<lambda>(i, j). (i, job_to_dict j)) (ws_jobs s))
      = Some (map (\<lambda>e. e) (ws_jobs s))"
    by (rule map_opt_map) (auto simp: job_round_trip)
  moreover have "dict_of (ws_jobs s) = ws_jobs s" using assms by (simp add: dict_of_distinct store_inv_def)
  moreover have "\<not> (\<exists>e\<in>set (ws_jobs s). fst e \<noteq> wj_job_id (snd e))" using assms by (auto simp: store_inv_def)
  moreover have "read_idempotency strf (ws_jobs s) (map idem_to_dict (ws_idempotency s)) [] = Inr (ws_idempotency s)"
    using read_idempotency_document [of "[]" "ws_idempotency s" "ws_jobs s"] assms by (simp add: store_inv_def)
  ultimately show ?thesis by (simp add: read_document_def store_document_def dget_def)
qed

lemma read_idempotency_ok:
  "read_idempotency strf jobs vs acc = Inr es \<Longrightarrow> distinct (map fst acc) \<Longrightarrow> (\<And>e. e \<in> set acc \<Longrightarrow> idem_entry_ok jobs e) \<Longrightarrow>
     distinct (map fst es) \<and> (\<forall>e\<in>set es. idem_entry_ok jobs e)"
proof (induction vs arbitrary: acc)
  case (Cons v vs)
  from Cons.prems(1) obtain name key h i j where s: "read_idempotency strf jobs vs (AList.update (name, key) (h, i) acc) = Inr es"
      "map_of acc (name, key) = None" "map_of jobs i = Some j" "name = wj_service_name j" "key = wj_idempotency_key j" "h = wj_payload_digest j"
    by (auto simp: Let_def split: pyval.splits if_splits option.splits)
  have "AList.update (name, key) (h, i) acc = acc @ [((name, key), (h, i))]"
    by (rule update_fresh) (use s(2) in \<open>simp add: map_of_eq_None_iff\<close>)
  moreover have "idem_entry_ok jobs ((name, key), (h, i))" using s by (simp add: idem_entry_ok_def)
  ultimately show ?case using Cons.IH [OF s(1)] Cons.prems(2,3) s(2) by (auto simp: map_of_eq_None_iff)
qed simp

lemma read_document_inv: "read_document strf readf v = Inr s \<Longrightarrow> store_inv s"
  by (auto simp: read_document_def store_inv_def map_sum_Inr distinct_dict_of Let_def split: pyval.splits if_splits option.splits
      dest!: read_idempotency_ok)

section \<open>Idempotent admission as an interface\<close>

text \<open>What a client of either store relies on: \<open>create\<close> answers a known key from the index and otherwise enters a new job, and no
  operation forgets a key. The state is only observed through the index of keys and the jobs.\<close>

locale admission_store =
  fixes create :: "'s \<Rightarrow> pydict \<Rightarrow> string \<Rightarrow> string \<Rightarrow> string \<Rightarrow> pyval \<Rightarrow> string \<Rightarrow> pydict \<Rightarrow> time
      \<Rightarrow> (WorkflowJob \<times> bool) workflow_result \<times> 's"
    and step :: "'s \<Rightarrow> 's \<Rightarrow> bool" and inv :: "'s \<Rightarrow> bool"
    and index :: "'s \<Rightarrow> idem_key \<Rightarrow> (string \<times> string) option" and jobs :: "'s \<Rightarrow> string \<Rightarrow> WorkflowJob option"
    and digest :: "pyval \<Rightarrow> string"
  assumes known: "inv s \<Longrightarrow> index s (name, key) = Some (h, i) \<Longrightarrow>
      create s d job_id name revision payload key prio now =
        (if h \<noteq> digest payload then (Inl IdempotencyConflict, s) else (Inr (the (jobs s i), False), s))"
    and new: "inv s \<Longrightarrow> index s (name, key) = None \<Longrightarrow>
      create s d job_id name revision payload key prio now = (Inr (job, b), s') \<Longrightarrow>
      b \<and> index s' (name, key) = Some (digest payload, job_id) \<and> wj_job_id job = job_id \<and> step s s'"
    and step_inv: "step s s' \<Longrightarrow> inv s \<Longrightarrow> inv s'"
    and step_index: "step s s' \<Longrightarrow> inv s \<Longrightarrow> index s k = Some v \<Longrightarrow> index s' k = Some v"
    and index_jobs: "inv s \<Longrightarrow> index s k = Some (h, i) \<Longrightarrow> \<exists>job. jobs s i = Some job \<and> wj_job_id job = i"
begin

lemma steps_keep: "step\<^sup>*\<^sup>* s s' \<Longrightarrow> inv s \<Longrightarrow> inv s' \<and> (\<forall>k v. index s k = Some v \<longrightarrow> index s' k = Some v)"
  by (induction rule: rtranclp_induct) (use step_inv step_index in blast)+

lemma create_once:
  assumes "inv s" and "create s d job_id name revision payload key prio now = (Inr (job, True), s1)" and "step\<^sup>*\<^sup>* s1 s2"
  shows "\<exists>job'. wj_job_id job' = job_id \<and> jobs s2 job_id = Some job'
     \<and> create s2 d' job_id' name revision' payload' key prio' now' =
         (if digest payload \<noteq> digest payload' then (Inl IdempotencyConflict, s2) else (Inr (job', False), s2))"
proof -
  have none: "index s (name, key) = None"
    using known [OF assms(1), of name key] assms(2) by (cases "index s (name, key)") (auto split: if_splits)
  note n = new [OF assms(1) none assms(2)]
  have "inv s1" using step_inv n assms(1) by blast
  then have "inv s2" "index s2 (name, key) = Some (digest payload, job_id)" using steps_keep [OF assms(3)] n by auto
  with known [OF this] index_jobs [OF this] show ?thesis by fastforce
qed

end

text \<open>The in-memory store: an index entry refers to a job with its name.\<close>

definition mem_inv :: "workflow_store \<Rightarrow> bool" where
  "mem_inv s \<longleftrightarrow> (\<forall>k h i. map_of (ws_idempotency s) k = Some (h, i) \<longrightarrow>
     (\<exists>job. map_of (ws_jobs s) i = Some job \<and> wj_job_id job = i))"

inductive mem_store_step :: "(pyval \<Rightarrow> string) \<Rightarrow> workflow_store \<Rightarrow> workflow_store \<Rightarrow> bool" for fp where
  ms_create: "mem_create fp s d job_id name revision payload key prio now = (r, s') \<Longrightarrow> mem_store_step fp s s'"
| ms_put: "mem_put s job = (r, s') \<Longrightarrow> mem_store_step fp s s'"

lemma accept_job_fields:
  "accept_workflow fp d job_id name revision payload key prio now = Inr job \<Longrightarrow>
     wj_job_id job = job_id \<and> wj_service_name job = name \<and> wj_idempotency_key job = key \<and> wj_payload_digest job = fp payload"
  by (auto simp: accept_workflow_def split: if_splits sum.splits)

lemma mem_create_cases:
  assumes "mem_create fp s d job_id name revision payload key prio now = (r, s')"
  shows "s' = s \<and> (\<forall>job. r \<noteq> Inr (job, True)) \<or>
     (\<exists>job. r = Inr (job, True) \<and> map_of (ws_idempotency s) (name, key) = None \<and> map_of (ws_jobs s) job_id = None
        \<and> accept_workflow fp d job_id name revision payload key prio now = Inr job
        \<and> s' = \<lparr>ws_jobs = AList.update job_id job (ws_jobs s),
              ws_idempotency = AList.update (name, key) (fp payload, job_id) (ws_idempotency s)\<rparr>)"
  using assms by (auto simp: mem_create_def split: option.splits if_splits sum.splits)

interpretation mem_store: admission_store "mem_create fp" "mem_store_step fp" mem_inv "\<lambda>s. map_of (ws_idempotency s)"
  "\<lambda>s. map_of (ws_jobs s)" fp for fp
proof (unfold_locales, goal_cases)
  case (1 s name key h i d job_id revision payload prio now)
  then show ?case by (simp add: mem_create_def)
next
  case (2 s name key d job_id revision payload prio now job b s')
  from mem_create_cases [OF 2(3)] 2(2,3) ms_create [OF 2(3)] show ?case
    by (auto simp: update_conv' mem_create_def accept_job_fields split: option.splits if_splits sum.splits)
next
  case (3 s s')
  then show ?case
  proof cases
    case (ms_create d job_id name revision payload key prio now r)
    from mem_create_cases [OF this] 3(2) show ?thesis
      by (auto simp: mem_inv_def update_conv' accept_job_fields split: if_splits)
  next
    case (ms_put job r)
    then show ?thesis using 3(2) by (auto simp: mem_put_def mem_inv_def update_conv' split: if_splits)
  qed
next
  case (4 s s' k v)
  from 4(1) show ?case
  proof cases
    case (ms_create d job_id name revision payload key prio now r)
    from mem_create_cases [OF this] 4(3) show ?thesis by (auto simp: update_conv')
  next
    case (ms_put job r)
    then show ?thesis using 4(3) by (auto simp: mem_put_def split: if_splits)
  qed
next
  case (5 s k h i)
  then show ?case by (cases k) (simp add: mem_inv_def)
qed

section \<open>The durable store\<close>

text \<open>A loaded store that agrees with its file: whatever is in memory is in the file, which may be ahead by one write that failed after
  the replacement.\<close>

definition file_inv :: "(pyval \<Rightarrow> string) \<Rightarrow> (string \<Rightarrow> real option) \<Rightarrow> file_workflow_store \<Rightarrow> bool" where
  "file_inv strf readf f \<longleftrightarrow> fw_loaded f \<and> store_inv (fw_store f)
     \<and> (case fw_file f of
           No_file \<Rightarrow> fw_store f = empty_workflow_store
         | Document v \<Rightarrow> \<exists>s. read_document strf readf v = Inr s
             \<and> map_of (ws_idempotency (fw_store f)) \<subseteq>\<^sub>m map_of (ws_idempotency s)
         | _ \<Rightarrow> False)"

definition restart :: "(pyval \<Rightarrow> string) \<Rightarrow> (string \<Rightarrow> real option) \<Rightarrow> file_workflow_store \<Rightarrow> file_workflow_store" where
  "restart strf readf f = snd (read_locked strf readf (open_file_store (fw_file f)))"

inductive file_store_step ::
  "(pyval \<Rightarrow> string) \<Rightarrow> (pyval \<Rightarrow> string) \<Rightarrow> (string \<Rightarrow> real option) \<Rightarrow> file_workflow_store \<Rightarrow> file_workflow_store \<Rightarrow> bool" for fp strf readf where
  fs_create: "file_create fp strf readf disk f d job_id name revision payload key prio now = (r, f') \<Longrightarrow> file_store_step fp strf readf f f'"
| fs_put: "file_put strf readf disk f job = (r, f') \<Longrightarrow> file_store_step fp strf readf f f'"
| fs_get: "file_get strf readf f i = (r, f') \<Longrightarrow> file_store_step fp strf readf f f'"
| fs_restart: "file_store_step fp strf readf f (restart strf readf f)"

lemma read_locked_loaded [simp]: "fw_loaded f \<Longrightarrow> read_locked strf readf f = (Inr (), f)"
  by (simp add: read_locked_def)

lemma store_inv_empty [simp]: "store_inv empty_workflow_store"
  by (simp add: store_inv_def empty_workflow_store_def)

lemma store_inv_create:
  assumes "store_inv s" and "mem_create fp s d job_id name revision payload key prio now = (Inr (job, True), s')"
  shows "store_inv s'" and "map_of (ws_idempotency s) \<subseteq>\<^sub>m map_of (ws_idempotency s')"
proof -
  from mem_create_cases [OF assms(2)] have c: "map_of (ws_idempotency s) (name, key) = None" "map_of (ws_jobs s) job_id = None"
      "accept_workflow fp d job_id name revision payload key prio now = Inr job"
      and s': "s' = \<lparr>ws_jobs = AList.update job_id job (ws_jobs s),
              ws_idempotency = AList.update (name, key) (fp payload, job_id) (ws_idempotency s)\<rparr>"
    by auto
  have u: "AList.update job_id job (ws_jobs s) = ws_jobs s @ [(job_id, job)]"
      "AList.update (name, key) (fp payload, job_id) (ws_idempotency s) = ws_idempotency s @ [((name, key), (fp payload, job_id))]"
    using c(1,2) by (auto intro!: update_fresh simp: map_of_eq_None_iff)
  have "idem_entry_ok (ws_jobs s @ [(job_id, job)]) e" if "idem_entry_ok (ws_jobs s) e" for e
    using that c(2) by (auto simp: idem_entry_ok_def map_add_def split: option.splits)
  moreover have "idem_entry_ok (ws_jobs s @ [(job_id, job)]) ((name, key), (fp payload, job_id))"
    using c(2) accept_job_fields [OF c(3)] by (auto simp: idem_entry_ok_def map_add_def split: option.splits)
  moreover have "(name, key) \<notin> fst ` set (ws_idempotency s)" "job_id \<notin> fst ` set (ws_jobs s)"
    using c(1,2) by (simp_all add: map_of_eq_None_iff)
  ultimately show "store_inv s'" using assms(1) accept_job_fields [OF c(3)] by (auto simp: store_inv_def s' u)
  show "map_of (ws_idempotency s) \<subseteq>\<^sub>m map_of (ws_idempotency s')" using c(1) by (auto simp: s' update_conv' map_le_def)
qed

lemma store_inv_put:
  assumes "store_inv s" and "map_of (ws_jobs s) (wj_job_id job) = Some current" and "same_identity job current"
  shows "store_inv (s\<lparr>ws_jobs := AList.update (wj_job_id job) job (ws_jobs s)\<rparr>)"
proof -
  let ?jobs = "AList.update (wj_job_id job) job (ws_jobs s)"
  have d: "distinct (map fst ?jobs)" using assms(1) by (simp add: store_inv_def)
  have "idem_entry_ok ?jobs e" if "idem_entry_ok (ws_jobs s) e" for e
    using that assms(2,3) by (auto simp: idem_entry_ok_def update_conv' same_identity_def split: option.splits if_splits)
  moreover have "fst e = wj_job_id (snd e)" if "e \<in> set ?jobs" for e
  proof -
    have "map_of ?jobs (fst e) = Some (snd e)" using that d by simp
    then show ?thesis using assms(1) by (auto simp: update_conv' store_inv_def split: if_splits dest!: map_of_SomeD)
  qed
  ultimately show ?thesis using assms(1) d by (simp add: store_inv_def)
qed

text \<open>The outcomes of a write of a well-formed store.\<close>

lemma write_locked_inv:
  assumes "file_inv strf readf f" and "store_inv s" and "map_of (ws_idempotency (fw_store f)) \<subseteq>\<^sub>m map_of (ws_idempotency s)"
    and "write_locked disk f s = (r, f')"
  shows "file_inv strf readf f'" and "r = Inr () \<Longrightarrow> file_inv strf readf (f'\<lparr>fw_store := s\<rparr>)" and "fw_store f' = fw_store f"
  using assms document_round_trip [OF assms(2)] by (auto simp: write_locked_def file_inv_def split: disk.splits)

lemma file_create_loaded:
  assumes "file_inv strf readf f" and "file_create fp strf readf disk f d job_id name revision payload key prio now = (r, f')"
  shows "file_inv strf readf f' \<and> map_of (ws_idempotency (fw_store f)) \<subseteq>\<^sub>m map_of (ws_idempotency (fw_store f'))
     \<and> (\<forall>job. r = Inr (job, True) \<longrightarrow> mem_create fp (fw_store f) d job_id name revision payload key prio now = (Inr (job, True), fw_store f')
          \<and> fw_file f' = Document (store_document (fw_store f')))"
proof -
  have l: "fw_loaded f" "store_inv (fw_store f)" using assms(1) by (simp_all add: file_inv_def)
  obtain q s where c: "mem_create fp (fw_store f) d job_id name revision payload key prio now = (q, s)" by fastforce
  show ?thesis
  proof (cases "\<exists>job. q = Inr (job, True)")
    case True
    then obtain job where q: "q = Inr (job, True)" by blast
    note s = store_inv_create [OF l(2) c [unfolded q]]
    obtain w f2 where w: "write_locked disk f s = (w, f2)" by fastforce
    note wi = write_locked_inv [OF assms(1) s w]
    from assms(2) l c q w have "(case w of Inl e \<Rightarrow> (Inl e, f2) | Inr _ \<Rightarrow> (Inr (job, True), f2\<lparr>fw_store := s\<rparr>)) = (r, f')"
      by (simp add: file_create_def)
    then show ?thesis
      using wi s(2) c q w by (auto simp: write_locked_def split: sum.splits disk.splits)
  next
    case False
    then have "f' = f" "r = q"
      using assms(2) l c by (auto simp: file_create_def split: sum.splits prod.splits bool.splits)
    then show ?thesis using assms(1) False by auto
  qed
qed

lemma file_put_loaded:
  assumes "file_inv strf readf f" and "file_put strf readf disk f job = (r, f')"
  shows "file_inv strf readf f' \<and> map_of (ws_idempotency (fw_store f)) \<subseteq>\<^sub>m map_of (ws_idempotency (fw_store f'))
     \<and> (\<forall>j. r = Inr j \<longrightarrow> j = job \<and> map_of (ws_jobs (fw_store f')) (wj_job_id job) = Some job
          \<and> fw_file f' = Document (store_document (fw_store f')))"
proof -
  have l: "fw_loaded f" "store_inv (fw_store f)" using assms(1) by (simp_all add: file_inv_def)
  let ?s = "(fw_store f)\<lparr>ws_jobs := AList.update (wj_job_id job) job (ws_jobs (fw_store f))\<rparr>"
  obtain w f2 where w: "write_locked disk f ?s = (w, f2)" by fastforce
  consider "f' = f" "\<forall>j. r \<noteq> Inr j"
    | current where "map_of (ws_jobs (fw_store f)) (wj_job_id job) = Some current" "same_identity job current"
        "(case w of Inl e \<Rightarrow> (Inl e, f2) | Inr _ \<Rightarrow> (Inr job, f2\<lparr>fw_store := ?s\<rparr>)) = (r, f')"
    using assms(2) l w by (auto simp: file_put_def Let_def split: option.splits if_splits)
  then show ?thesis
  proof cases
    case 1
    then show ?thesis using assms(1) by auto
  next
    case 2
    have "map_of (ws_idempotency (fw_store f)) \<subseteq>\<^sub>m map_of (ws_idempotency ?s)" by simp
    note wi = write_locked_inv [OF assms(1) store_inv_put [OF l(2) 2(1,2)] this w]
    show ?thesis using 2(3) wi w by (auto simp: write_locked_def update_conv' split: sum.splits disk.splits)
  qed
qed

lemma restart_loaded:
  assumes "file_inv strf readf f"
  shows "file_inv strf readf (restart strf readf f)
     \<and> map_of (ws_idempotency (fw_store f)) \<subseteq>\<^sub>m map_of (ws_idempotency (fw_store (restart strf readf f)))"
proof (cases "fw_file f")
  case No_file
  then show ?thesis using assms by (simp add: file_inv_def restart_def read_locked_def open_file_store_def)
next
  case (Document v)
  then obtain s where s: "read_document strf readf v = Inr s" "map_of (ws_idempotency (fw_store f)) \<subseteq>\<^sub>m map_of (ws_idempotency s)"
    using assms by (auto simp: file_inv_def)
  then show ?thesis
    using Document read_document_inv [OF s(1)] by (simp add: file_inv_def restart_def read_locked_def open_file_store_def)
qed (use assms in \<open>simp_all add: file_inv_def\<close>)

lemma file_step_keeps:
  assumes "file_store_step fp strf readf f f'" and "file_inv strf readf f"
  shows "file_inv strf readf f' \<and> map_of (ws_idempotency (fw_store f)) \<subseteq>\<^sub>m map_of (ws_idempotency (fw_store f'))"
  using assms(1)
proof cases
  case fs_create
  then show ?thesis using file_create_loaded [OF assms(2)] by blast
next
  case fs_put
  then show ?thesis using file_put_loaded [OF assms(2)] by blast
next
  case (fs_get i r)
  then show ?thesis using assms(2) by (auto simp: file_get_def file_inv_def)
next
  case fs_restart
  then show ?thesis using restart_loaded [OF assms(2)] by simp
qed

interpretation file_store: admission_store "file_create fp strf readf disk" "file_store_step fp strf readf" "file_inv strf readf"
  "\<lambda>f. map_of (ws_idempotency (fw_store f))" "\<lambda>f. map_of (ws_jobs (fw_store f))" fp for fp strf readf disk
proof (unfold_locales, goal_cases)
  case (1 s name key h i d job_id revision payload prio now)
  then show ?case by (simp add: file_inv_def file_create_def mem_create_def)
next
  case (2 s name key d job_id revision payload prio now job b s')
  have b: b
    using 2 by (auto simp: file_inv_def file_create_def mem_create_def split: option.splits if_splits sum.splits prod.splits)
  with file_create_loaded [OF 2(1,3)]
  have c: "mem_create fp (fw_store s) d job_id name revision payload key prio now = (Inr (job, True), fw_store s')" by simp
  from mem_create_cases [OF c] b show ?case using fs_create [OF 2(3)] by (auto simp: update_conv' accept_job_fields)
next
  case (3 s s')
  then show ?case using file_step_keeps by blast
next
  case (4 s s' k v)
  then show ?case using file_step_keeps [OF 4(1,2)] by (metis domI map_le_def)
next
  case (5 s k h i)
  then have "(k, (h, i)) \<in> set (ws_idempotency (fw_store s))" "store_inv (fw_store s)" by (auto simp: file_inv_def dest: map_of_SomeD)
  then have "idem_entry_ok (ws_jobs (fw_store s)) (k, (h, i))" by (simp add: store_inv_def)
  then obtain j where "map_of (ws_jobs (fw_store s)) i = Some j" by (auto simp: idem_entry_ok_def split: option.splits prod.splits)
  then show ?case using \<open>store_inv (fw_store s)\<close> by (auto simp: store_inv_def dest: map_of_SomeD)
qed

lemma fresh_file_inv: "file_inv strf readf (restart strf readf (open_file_store No_file))"
  by (simp add: restart_def read_locked_def open_file_store_def file_inv_def)

lemma restart_document:
  assumes "file_inv strf readf f" and "fw_file f = Document (store_document (fw_store f))"
  shows "restart strf readf f = f"
  using assms document_round_trip [of "fw_store f" strf readf]
  by (simp add: restart_def read_locked_def open_file_store_def file_inv_def)

text \<open>C38. Admission is durable and idempotent. Once a workflow job was created under a service and an idempotency key, then
  after any further operations of the file store, failed writes and restarts, a second admission under that key
  returns that very job and creates nothing, or is refused as a conflict when its payload is a different one; and right after the creation was
  acknowledged, or an update was, a restart restores exactly the state of the store.\<close>

theorem durable_admission_is_idempotent:
  assumes "(file_store_step fp strf readf)\<^sup>*\<^sup>* (restart strf readf (open_file_store No_file)) f"
    and "file_create fp strf readf disk f d job_id name revision payload key prio now = (Inr (job, True), f1)"
    and "(file_store_step fp strf readf)\<^sup>*\<^sup>* f1 f2"
  shows "(\<exists>job'. wj_job_id job' = job_id \<and> map_of (ws_jobs (fw_store f2)) job_id = Some job'
       \<and> file_create fp strf readf disk' f2 d' job_id' name revision' payload' key prio' now' =
           (if fp payload \<noteq> fp payload' then (Inl IdempotencyConflict, f2) else (Inr (job', False), f2)))
     \<and> restart strf readf f1 = f1 \<and> map_of (ws_jobs (fw_store f1)) job_id = Some job
     \<and> (\<forall>disk'' job'' f3. file_put strf readf disk'' f2 job'' = (Inr job'', f3) \<longrightarrow> restart strf readf f3 = f3)"
proof -
  have inv: "file_inv strf readf f" using file_store.steps_keep [OF assms(1) fresh_file_inv] by blast
  note c = file_create_loaded [OF inv assms(2)]
  have inv2: "file_inv strf readf f2" using file_store.steps_keep [OF assms(3)] c by blast
  have put: "restart strf readf f3 = f3" if "file_put strf readf disk'' f2 job'' = (Inr job'', f3)" for disk'' job'' f3
    using file_put_loaded [OF inv2 that] restart_document by blast
  have "map_of (ws_jobs (fw_store f1)) job_id = Some job"
    using mem_create_cases [of fp "fw_store f" d job_id name revision payload key prio now "Inr (job, True)" "fw_store f1"] c
    by (auto simp: update_conv')
  moreover have "restart strf readf f1 = f1" using c restart_document by blast
  moreover have "\<exists>job'. wj_job_id job' = job_id \<and> map_of (ws_jobs (fw_store f2)) job_id = Some job'
       \<and> file_create fp strf readf disk f2 d' job_id' name revision' payload' key prio' now' =
           (if fp payload \<noteq> fp payload' then (Inl IdempotencyConflict, f2) else (Inr (job', False), f2))" for disk
  proof -
    from file_store.new [OF inv _ assms(2)] file_store.known [OF inv, of name key] assms(2)
    have "map_of (ws_idempotency (fw_store f1)) (name, key) = Some (fp payload, job_id)"
      by (cases "map_of (ws_idempotency (fw_store f)) (name, key)") (auto split: if_splits)
    with file_store.steps_keep [OF assms(3)] c
    have k: "map_of (ws_idempotency (fw_store f2)) (name, key) = Some (fp payload, job_id)" by blast
    from file_store.known [OF inv2 k] file_store.index_jobs [OF inv2 k] show ?thesis by fastforce
  qed
  ultimately show ?thesis using put by blast
qed

definition sample_create :: "file_workflow_store \<Rightarrow> (WorkflowJob \<times> bool) workflow_result \<times> file_workflow_store" where
  "sample_create f = file_create (\<lambda>_. ''h'') (\<lambda>_. []) (\<lambda>_. None) Disk_ok f sample_def ''j'' ''s'' ''1'' PNone ''k'' [] 1"

definition sample_files :: workflow_store where
  "sample_files = \<lparr>ws_jobs = [(''j'', sample_workflow_job)], ws_idempotency = [((''s'', ''k''), (''h'', ''j''))]\<rparr>"

lemma sample_create_run:
  assumes "fw_loaded f" and "fw_store f = empty_workflow_store"
  shows "sample_create f = (Inr (sample_workflow_job, True), f\<lparr>fw_store := sample_files, fw_file := Document (store_document sample_files)\<rparr>)"
  using assms
  by (simp add: sample_create_def file_create_def mem_create_def empty_workflow_store_def sample_accept write_locked_def sample_files_def)

theorem durable_admission_is_idempotent_witness:
  "\<exists>f1. sample_create (restart (\<lambda>_. []) (\<lambda>_. None) (open_file_store No_file)) = (Inr (sample_workflow_job, True), f1)
     \<and> restart (\<lambda>_. []) (\<lambda>_. None) f1 = f1 \<and> (\<exists>job'. sample_create f1 = (Inr (job', False), f1))"
proof -
  let ?f = "restart (\<lambda>_. []) (\<lambda>_. None) (open_file_store No_file)"
  have "fw_loaded ?f" "fw_store ?f = empty_workflow_store"
    by (simp_all add: restart_def read_locked_def open_file_store_def)
  from sample_create_run [OF this] obtain f1 where run: "sample_create ?f = (Inr (sample_workflow_job, True), f1)" by blast
  from durable_admission_is_idempotent [OF rtranclp.rtrancl_refl run [unfolded sample_create_def] rtranclp.rtrancl_refl]
  show ?thesis using run unfolding sample_create_def by fastforce
qed

text \<open>A file that cannot be read is overwritten by the second call. When the first call on a file store finds the file unreadable or invalid it
  raises, but the store is then taken as loaded and empty: the same call made again succeeds, and the new file holds
  that one job and nothing of what the file held before.\<close>

theorem failed_load_loses_the_store:
  assumes "read_locked strf readf (open_file_store file) = (Inl e, g)"
    and "accept_workflow fp d job_id name revision payload key prio now = Inr job"
  shows "\<exists>f1 f2. file_create fp strf readf Disk_ok (open_file_store file) d job_id name revision payload key prio now = (Inl e, f1)
     \<and> fw_file f1 = file
     \<and> file_create fp strf readf Disk_ok f1 d job_id name revision payload key prio now = (Inr (job, True), f2)
     \<and> fw_file f2 = Document (store_document \<lparr>ws_jobs = [(job_id, job)], ws_idempotency = [((name, key), (fp payload, job_id))]\<rparr>)"
proof -
  have g: "g = \<lparr>fw_store = empty_workflow_store, fw_loaded = True, fw_file = file\<rparr>"
    using assms(1) by (auto simp: read_locked_def open_file_store_def Let_def split: store_file.splits sum.splits)
  show ?thesis
    by (simp add: file_create_def assms(1) g mem_create_def empty_workflow_store_def assms(2) write_locked_def)
qed

theorem failed_load_loses_the_store_witness:
  "\<exists>f1 f2. sample_create (open_file_store Not_json) = (Inl (Store_error ''workflow store is not valid JSON''), f1)
     \<and> sample_create f1 = (Inr (sample_workflow_job, True), f2) \<and> fw_file f2 = Document (store_document sample_files)"
proof -
  have "\<exists>g. read_locked (\<lambda>_. []) (\<lambda>_. None) (open_file_store Not_json) = (Inl (Store_error ''workflow store is not valid JSON''), g)"
    by (simp add: read_locked_def open_file_store_def)
  then obtain g where "read_locked (\<lambda>_. []) (\<lambda>_. None) (open_file_store Not_json) = (Inl (Store_error ''workflow store is not valid JSON''), g)" ..
  from failed_load_loses_the_store [OF this sample_accept] show ?thesis unfolding sample_create_def sample_files_def by blast
qed

end
