(* ===== verification/Runtime_Controller.thy ===== *)
theory Runtime_Controller
  imports Runtime_Supervisor "HOL-Library.Sublist"
begin

text \<open>
  \<open>scripts/runtime_controller.py\<close>: a bundle of the configuration is bound to a checked runtime profile, its model
  set and the GPUs of all bundles linked to it, and its transitions run through the supervisor on the durable
  store. The configuration is an untyped value; \<open>fp\<close> is the SHA-256 fingerprint, \<open>strf\<close> is \<open>str()\<close> of a value that is not a string.
  A Python set is iterated in an unspecified order, of which the results do not depend. The adapter that \<open>adapter_factory\<close> makes is a parameter.
\<close>

section \<open>The topology of linked bundles\<close>

text \<open>\<open>v or {}\<close>.\<close>

definition or_empty :: "pyval \<Rightarrow> pyval" where
  "or_empty v = (if truthy v then v else PDict [])"

definition link_fields :: "string list" where
  "link_fields = [''linked_to'', ''linked_from'', ''linked_bundles'']"

text \<open>The names a bundle lists itself, and the test \<open>current in (other.get(field) or [])\<close>: in a list by equality, in a string as a part of it,
  in an object as a key. On another value that is true the test raises \<open>TypeError\<close>.\<close>

definition listed_links :: "(pyval \<Rightarrow> string) \<Rightarrow> pydict \<Rightarrow> string list" where
  "listed_links strf b = concat (map (\<lambda>f. case dget b f of PList vs \<Rightarrow> map (py_str strf) vs | _ \<Rightarrow> []) link_fields)"

fun py_in :: "string \<Rightarrow> pyval \<Rightarrow> bool" where
  "py_in x (PList vs) = (PStr x \<in> set vs)"
| "py_in x (PStr s) = (s \<noteq> [] \<and> sublist x s)"
| "py_in x (PDict d) = (x \<in> set (map fst d))"
| "py_in x _ = False"

fun not_iterable :: "pyval \<Rightarrow> bool" where
  "not_iterable (PBool b) = b"
| "not_iterable (PInt i) = (i \<noteq> 0)"
| "not_iterable (PFloat x) = (x \<noteq> 0)"
| "not_iterable _ = False"

definition mentions :: "string \<Rightarrow> pyval \<Rightarrow> bool" where
  "mentions current other = (case other of PDict b \<Rightarrow> list_ex (\<lambda>f. py_in current (dget b f)) link_fields | _ \<Rightarrow> False)"

definition bundle_entry :: "pydict \<Rightarrow> string \<Rightarrow> pydict option" where
  "bundle_entry bundles name = (case or_empty (dget bundles name) of PDict b \<Rightarrow> Some b | _ \<Rightarrow> None)"

definition neighbours :: "(pyval \<Rightarrow> string) \<Rightarrow> pydict \<Rightarrow> string \<Rightarrow> string list" where
  "neighbours strf bundles current =
     (case bundle_entry bundles current of
        None \<Rightarrow> []
      | Some b \<Rightarrow> remdups (filter (has_key bundles) (listed_links strf b @ map fst (filter (\<lambda>e. mentions current (snd e)) bundles))))"

lemma neighbours_known: "set (neighbours strf bundles c) \<subseteq> set (map fst bundles)" "distinct (neighbours strf bundles c)"
  by (auto simp: neighbours_def has_key_def split: option.splits dest!: map_of_SomeD intro: rev_image_eqI)

function connect :: "(pyval \<Rightarrow> string) \<Rightarrow> pydict \<Rightarrow> string list \<Rightarrow> string list \<Rightarrow> string list" where
  "connect strf bundles seen pending =
     (if pending = [] then seen
      else let new = filter (\<lambda>n. n \<notin> set seen) (neighbours strf bundles (last pending))
           in connect strf bundles (seen @ new) (butlast pending @ new))"
  by pat_completeness auto

termination
proof (relation "measure (\<lambda>(strf, bundles, seen, pending). card (set (map fst bundles) - set seen) + length pending)",
    goal_cases)
  case (2 strf bundles seen pending new)
  let ?K = "set (map fst bundles)"
  have new: "set new \<subseteq> ?K - set seen" "distinct new"
    using neighbours_known [of strf bundles "last pending"] by (auto simp: 2(2))
  have "card (?K - set (seen @ new)) = card ((?K - set seen) - set new)" by (simp add: set_diff_eq)
  also have "\<dots> = card (?K - set seen) - length new" using new by (simp add: card_Diff_subset distinct_card)
  finally have "card (?K - set (seen @ new)) + length new = card (?K - set seen)"
    using card_mono [OF _ new(1)] new(2) by (simp add: distinct_card)
  then show ?case using 2(1) by (cases pending rule: rev_cases) auto
qed simp

declare connect.simps [simp del]

text \<open>\<open>_bundle_gpu_ids\<close>; \<open>None\<close> is a \<open>TypeError\<close> of the membership test or an \<open>AttributeError\<close> on a linked entry that is not an object.\<close>

definition bundle_gpu_ids :: "(pyval \<Rightarrow> string) \<Rightarrow> pyval \<Rightarrow> string \<Rightarrow> string list option" where
  "bundle_gpu_ids strf bundles_val name =
     (case bundles_val of
        PDict bundles \<Rightarrow>
          let seen = connect strf bundles [name] [name] in
          if bundle_entry bundles name \<noteq> None
             \<and> list_ex (\<lambda>e. case snd e of PDict b \<Rightarrow> list_ex (\<lambda>f. not_iterable (dget b f)) link_fields | _ \<Rightarrow> False) bundles
          then None
          else if \<not> list_all (\<lambda>n. bundle_entry bundles n \<noteq> None) seen then None
          else Some (concat (map (\<lambda>n. let g = dget (the (bundle_entry bundles n)) ''gpu_id'' in
                 if truthy g then [py_str strf g] else []) seen))
      | _ \<Rightarrow> Some [])"

section \<open>The checked binding\<close>

record CheckedRuntimeBinding =
  cb_instance_id :: string
  cb_profile_name :: string
  cb_profile :: pydict

datatype binding_error =
    Unknown_bundle
  | No_runtime_instance
  | No_runtime_profile
  | Unknown_runtime_profile
  | Invalid_runtime_profile "contract_error list"
  | No_model_sets_registry
  | No_resolved_model_set
  | Invalid_model_set "contract_error list"
  | Model_set_not_qualified
  | Model_set_binding_stale
  | Missing_actions "string list"
  | Topology_mismatch
  | Topology_type_error

definition required_capabilities :: "string list" where
  "required_capabilities = [''inspect'', ''prepare'', ''load'', ''health'', ''drain'', ''unload'', ''stop'', ''reconcile'']"

definition lookup_dict :: "pyval \<Rightarrow> pyval \<Rightarrow> pydict option" where
  "lookup_dict m k = (case (m, k) of (PDict d, PStr s) \<Rightarrow> (case dget d s of PDict e \<Rightarrow> Some e | _ \<Rightarrow> None) | _ \<Rightarrow> None)"

definition profile_gpus :: "(pyval \<Rightarrow> string) \<Rightarrow> pydict \<Rightarrow> string list option" where
  "profile_gpus strf profile =
     (case or_empty (dget profile ''resource_requirements'') of
        PDict r \<Rightarrow> (let v = dget r ''gpu_ids'' in if truthy v then map_option (map (py_str strf)) (py_iter v) else Some [])
      | _ \<Rightarrow> Some [])"

text \<open>The checks on the profile and its model set, then on the topology.\<close>

definition check_model_set :: "(pyval \<Rightarrow> string) \<Rightarrow> pyval \<Rightarrow> pydict \<Rightarrow> binding_error + unit" where
  "check_model_set fp model_sets profile =
     (if \<not> is_dict model_sets then Inl No_model_sets_registry
      else case lookup_dict model_sets (dget profile ''model_set'') of
        None \<Rightarrow> Inl No_resolved_model_set
      | Some ms \<Rightarrow>
          let errs = validate_model_set (case dget profile ''model_set'' of PStr n \<Rightarrow> n | _ \<Rightarrow> []) (PDict ms) in
          if errs \<noteq> [] then Inl (Invalid_model_set errs)
          else if dget ms ''status'' \<noteq> PStr ''qualified'' then Inl Model_set_not_qualified
          else if \<not> py_eq (dget profile ''model_set_revision'') (dget ms ''revision'')
             \<or> dget profile ''model_set_fingerprint'' \<noteq> PStr (fp (PDict ms)) then Inl Model_set_binding_stale
          else Inr ())"

definition check_topology :: "(pyval \<Rightarrow> string) \<Rightarrow> pyval \<Rightarrow> string \<Rightarrow> pydict \<Rightarrow> binding_error + unit" where
  "check_topology strf bundles name profile =
     (let capabilities = (case dget profile ''capabilities'' of PList vs \<Rightarrow> vs | _ \<Rightarrow> []);
          missing = sort (filter (\<lambda>c. PStr c \<notin> set capabilities) required_capabilities) in
      if missing \<noteq> [] then Inl (Missing_actions missing)
      else case (bundle_gpu_ids strf bundles name, profile_gpus strf profile) of
        (Some topology, Some gpus) \<Rightarrow> if set topology \<noteq> set gpus then Inl Topology_mismatch else Inr ()
      | _ \<Rightarrow> Inl Topology_type_error)"

definition resolve_checked_runtime_binding ::
  "(pyval \<Rightarrow> string) \<Rightarrow> (pyval \<Rightarrow> string) \<Rightarrow> pydict \<Rightarrow> string \<Rightarrow> binding_error + CheckedRuntimeBinding option" where
  "resolve_checked_runtime_binding fp strf config bundle_name =
     (let bundles = or_empty (dget config ''bundles'') in
      case lookup_dict bundles (PStr bundle_name) of
        None \<Rightarrow> Inl Unknown_bundle
      | Some bundle \<Rightarrow>
          (case (dget bundle ''runtime_instance'', dget bundle ''runtime_profile'') of
             (PNone, PNone) \<Rightarrow> Inr None
           | (PStr i, p) \<Rightarrow>
               if blank i then Inl No_runtime_instance
               else (case p of
                  PStr pn \<Rightarrow>
                    if blank pn then Inl No_runtime_profile
                    else (case lookup_dict (or_empty (dget config ''runtime_profiles'')) (PStr pn) of
                            None \<Rightarrow> Inl Unknown_runtime_profile
                          | Some profile \<Rightarrow>
                              let errs = validate_runtime_profile pn (PDict profile) in
                              if errs \<noteq> [] then Inl (Invalid_runtime_profile errs)
                              else (case check_model_set fp (dget config ''model_sets'') profile of
                                      Inl e \<Rightarrow> Inl e
                                    | Inr _ \<Rightarrow>
                                        (case check_topology strf bundles bundle_name profile of
                                           Inl e \<Rightarrow> Inl e
                                         | Inr _ \<Rightarrow> Inr (Some \<lparr>cb_instance_id = i, cb_profile_name = pn, cb_profile = profile\<rparr>))))
                | _ \<Rightarrow> Inl No_runtime_profile)
           | _ \<Rightarrow> Inl No_runtime_instance))"

section \<open>The controller\<close>



definition admission_errors_if_configured ::
  "(pyval \<Rightarrow> string) \<Rightarrow> (pyval \<Rightarrow> string) \<Rightarrow> file_store \<Rightarrow> pydict \<Rightarrow> string \<Rightarrow> time \<Rightarrow> binding_error + admission_error list option" where
  "admission_errors_if_configured fp strf s config bundle_name t =
     map_sum id (map_option (\<lambda>b. admission_errors fp (fs_records s) (cb_instance_id b) (cb_profile_name b) (cb_profile b) t))
       (resolve_checked_runtime_binding fp strf config bundle_name)"

datatype fleet_status = Fleet_idle | Fleet_blocked | Fleet_transitioning | Fleet_ready

text \<open>\<open>health_summary\<close>: one item for each record (the record itself stands for the fields copied from it), the status and the counts;
  \<open>round3\<close> is \<open>round(x, 3)\<close> on floats.\<close>

record RuntimeHealthItem =
  hi_record :: RuntimeInstanceRecord
  hi_transition_active :: bool
  hi_transition_expires_in_seconds :: time
  hi_observation_age_seconds :: "time option"
  hi_last_error :: "string option"

definition health_item :: "(time \<Rightarrow> time) \<Rightarrow> time \<Rightarrow> RuntimeInstanceRecord \<Rightarrow> RuntimeHealthItem" where
  "health_item round3 now r =
     \<lparr>hi_record = r, hi_transition_active = (opt_true (rt_transition_owner r) \<and> rt_transition_expires_at r > now),
      hi_transition_expires_in_seconds = round3 (max 0 (rt_transition_expires_at r - now)),
      hi_observation_age_seconds = (if rt_observed_at r \<noteq> 0 then Some (round3 (max 0 (now - rt_observed_at r))) else None),
      hi_last_error = (if opt_true (rt_last_error r) then map_option (take 500) (rt_last_error r) else None)\<rparr>"

record RuntimeHealth =
  rh_status :: fleet_status
  rh_instance_count :: nat
  rh_blocked_count :: nat
  rh_transitioning_count :: nat
  rh_instances :: "RuntimeHealthItem list"

definition health_summary :: "(time \<Rightarrow> time) \<Rightarrow> file_store \<Rightarrow> time \<Rightarrow> RuntimeHealth" where
  "health_summary round3 s now =
     (let items = map (health_item round3 now) (snapshots (fs_records s));
          blocked = length (filter (\<lambda>i. rt_state (hi_record i) = RT_BLOCKED) items);
          transitioning = length (filter hi_transition_active items)
      in \<lparr>rh_status = (if items = [] then Fleet_idle else if blocked > 0 then Fleet_blocked
            else if transitioning > 0 then Fleet_transitioning else Fleet_ready),
          rh_instance_count = length items, rh_blocked_count = blocked, rh_transitioning_count = transitioning, rh_instances = items\<rparr>)"

section \<open>The topology is the connected component\<close>














end
