(* ===== verification/Redis_Repository.thy ===== *)
theory Redis_Repository
  imports Broker_Repository "HOL-Library.List_Lexorder" "HOL-Library.Char_ord"
begin

text \<open>
  \<open>RedisJobRepository\<close> of \<open>scripts/gemma_broker/redis_store.py\<close> with its Lua scripts (\<open>gemma_broker/lua\<close>). The keys under the
  prefix of the repository are the fields of a record, one for each kind of key. The JSON text of a record is the record
  itself; fields of a hash that no script and no method reads are left out. A script runs atomically; an error reply of a script comes before its first write, and is its left result.
  A method is a sequence of commands with the other clients at work in between (\<open>others n\<close>), and each command may be lost or
  its reply may be (\<open>bd_faults\<close>). \<open>digest\<close> is the hex SHA-256 of a text, the identifiers of \<open>uuid4\<close> are arguments.
\<close>

section \<open>Attempts\<close>

record AttemptRecord =
  at_attempt_id :: string
  at_job_id :: string
  at_member_name :: string
  at_reservation_fence :: int
  at_backend_url :: string
  at_state :: AttemptState
  at_reserved_at :: time
  at_forward_started_at :: "time option"
  at_accepted_at :: "time option"
  at_terminal_at :: "time option"
  at_accepted_boundary_crossed :: bool
  at_error_category :: "ReasonCode option"
  at_transition_history :: "string list"
  at_schema_version :: int

text \<open>\<open>__post_init__\<close>: the message of the \<open>ContractError\<close>, if any.\<close>

definition attempt_error :: "AttemptRecord \<Rightarrow> string option" where
  "attempt_error a =
     (if at_attempt_id a = [] then Some ''ATTEMPT_ATTEMPT_ID_INVALID''
      else if at_job_id a = [] then Some ''ATTEMPT_JOB_ID_INVALID''
      else if at_member_name a = [] then Some ''ATTEMPT_MEMBER_NAME_INVALID''
      else if at_backend_url a = [] then Some ''ATTEMPT_BACKEND_URL_INVALID''
      else if at_reservation_fence a \<le> 0 then Some ''ATTEMPT_RESERVATION_FENCE_INVALID''
      else if [] \<in> set (at_transition_history a) then Some ''ATTEMPT_TRANSITION_HISTORY_INVALID''
      else None)"

definition attempt_state_text :: "AttemptState \<Rightarrow> string" where
  "attempt_state_text s = (case s of A_RESERVED \<Rightarrow> ''reserved'' | A_FORWARDING \<Rightarrow> ''forwarding'' | A_ACCEPTED \<Rightarrow> ''accepted''
     | A_COMPLETED \<Rightarrow> ''completed'' | A_FAILED \<Rightarrow> ''failed'' | A_CANCELLED \<Rightarrow> ''cancelled'' | A_OUTCOME_UNKNOWN \<Rightarrow> ''outcome_unknown'')"

definition end_attempt :: "AttemptRecord \<Rightarrow> AttemptState \<Rightarrow> time option \<Rightarrow> ReasonCode option \<Rightarrow> AttemptRecord" where
  "end_attempt a st terminal_at category = a\<lparr>at_state := st, at_terminal_at := terminal_at, at_error_category := category,
     at_transition_history := at_transition_history a @ [attempt_state_text st]\<rparr>"

section \<open>The keys\<close>

text \<open>The job hash. No script writes its field \<open>accepted_boundary_crossed\<close>, which one script reads.\<close>

record job_hash =
  jh_record :: JobRecord
  jh_state :: JobState
  jh_state_version :: int
  jh_accepted_field :: bool

text \<open>The record of a member may be damaged: only in its generation fence, or altogether.\<close>

datatype stored_member = Stored MemberSnapshot | Bad_fence MemberSnapshot | Unreadable

definition member_state_text :: "MemberState \<Rightarrow> string" where
  "member_state_text s = (case s of M_OFFLINE \<Rightarrow> ''offline'' | M_JOINING \<Rightarrow> ''joining'' | M_READY_ACCEPTING \<Rightarrow> ''ready_accepting''
     | M_READY_BUSY \<Rightarrow> ''ready_busy'' | M_DRAINING \<Rightarrow> ''draining'' | M_UNHEALTHY \<Rightarrow> ''unhealthy'' | M_FAULTED \<Rightarrow> ''faulted'')"

definition member_states :: "MemberState list" where
  "member_states = [M_OFFLINE, M_JOINING, M_READY_ACCEPTING, M_READY_BUSY, M_DRAINING, M_UNHEALTHY, M_FAULTED]"

definition read_member_state :: "string \<Rightarrow> MemberState option" where
  "read_member_state t = find (\<lambda>s. member_state_text s = t) member_states"

definition flag :: "bool \<Rightarrow> string" where
  "flag b = (if b then ''1'' else ''0'')"

record member_hash =
  mh_record :: stored_member
  mh_state :: string
  mh_accepting :: string
  mh_state_version :: int
  mh_generation_fence :: int
  mh_free :: int
  mh_configured :: int

record attempt_hash =
  ah_record :: AttemptRecord
  ah_state :: AttemptState
  ah_job_id :: string

record leader_hash =
  lh_owner :: string
  lh_token :: int
  lh_expires_at :: time

record repair_hash =
  rh_owner :: string
  rh_fence :: int
  rh_completed :: bool

datatype command_fault = Reply_ok | Command_lost | Answer_lost

record broker_db =
  bd_jobs :: "string \<rightharpoonup> job_hash"
  bd_queues :: "Priority \<Rightarrow> (int \<times> string) list"
  bd_idempotency :: "string \<rightharpoonup> string \<times> string"
  bd_members :: "string \<rightharpoonup> member_hash"
  bd_leases :: "string \<Rightarrow> string list"
  bd_attempts :: "string \<rightharpoonup> attempt_hash \<times> time option"
  bd_repairs :: "string \<rightharpoonup> repair_hash"
  bd_leader :: "leader_hash option"
  bd_fence_counter :: int
  bd_clock :: time
  bd_notified :: "string list"
  bd_faults :: "command_fault list"

definition new_db :: broker_db where
  "new_db = \<lparr>bd_jobs = Map.empty, bd_queues = (\<lambda>_. []), bd_idempotency = Map.empty, bd_members = Map.empty, bd_leases = (\<lambda>_. []),
     bd_attempts = Map.empty, bd_repairs = Map.empty, bd_leader = None, bd_fence_counter = 0, bd_clock = 0, bd_notified = [], bd_faults = []\<rparr>"

text \<open>A queue is a sorted set: by score, then by identifier.\<close>

definition zadd :: "int \<Rightarrow> string \<Rightarrow> (int \<times> string) list \<Rightarrow> (int \<times> string) list" where
  "zadd score i q = insort (score, i) (filter (\<lambda>p. snd p \<noteq> i) q)"

definition zrem :: "string \<Rightarrow> (int \<times> string) list \<Rightarrow> (int \<times> string) list" where
  "zrem i q = filter (\<lambda>p. snd p \<noteq> i) q"

definition attempt_at :: "broker_db \<Rightarrow> string \<Rightarrow> attempt_hash option" where
  "attempt_at d a = (case bd_attempts d a of
     None \<Rightarrow> None | Some (h, e) \<Rightarrow> if (case e of None \<Rightarrow> False | Some x \<Rightarrow> x \<le> bd_clock d) then None else Some h)"

definition put_job :: "string \<Rightarrow> job_hash \<Rightarrow> broker_db \<Rightarrow> broker_db" where
  "put_job i h d = d\<lparr>bd_jobs := (bd_jobs d)(i \<mapsto> h)\<rparr>"

definition write_job :: "string \<Rightarrow> job_hash \<Rightarrow> JobRecord \<Rightarrow> JobState \<Rightarrow> int \<Rightarrow> broker_db \<Rightarrow> broker_db" where
  "write_job i h j st v = put_job i (h\<lparr>jh_record := j, jh_state := st, jh_state_version := v\<rparr>)"

definition put_queue :: "Priority \<Rightarrow> (int \<times> string) list \<Rightarrow> broker_db \<Rightarrow> broker_db" where
  "put_queue p q d = d\<lparr>bd_queues := (bd_queues d)(p := q)\<rparr>"

definition put_member_hash :: "string \<Rightarrow> member_hash \<Rightarrow> broker_db \<Rightarrow> broker_db" where
  "put_member_hash n h d = d\<lparr>bd_members := (bd_members d)(n \<mapsto> h)\<rparr>"

definition put_leases :: "string \<Rightarrow> string list \<Rightarrow> broker_db \<Rightarrow> broker_db" where
  "put_leases n ls d = d\<lparr>bd_leases := (bd_leases d)(n := ls)\<rparr>"

definition put_attempt :: "string \<Rightarrow> attempt_hash \<Rightarrow> time option \<Rightarrow> broker_db \<Rightarrow> broker_db" where
  "put_attempt a h e d = d\<lparr>bd_attempts := (bd_attempts d)(a \<mapsto> (h, e))\<rparr>"

lemmas db_updates = put_job_def write_job_def put_queue_def put_member_hash_def put_leases_def put_attempt_def

section \<open>Commands\<close>

type_synonym 'a bcomp = "broker_db \<Rightarrow> 'a repo_result \<times> broker_db"
type_synonym 'a script = "broker_db \<Rightarrow> string + 'a \<times> broker_db"

definition after_script :: "'a script \<Rightarrow> broker_db \<Rightarrow> broker_db" where
  "after_script f d = (case f d of Inl _ \<Rightarrow> d | Inr (_, d') \<Rightarrow> d')"

text \<open>One script: a lost command or reply is a \<open>RedisError\<close>, which every method turns into \<open>RepositoryUnavailable\<close>; an error reply is a \<open>ResponseError\<close>.\<close>

definition beval :: "'a script \<Rightarrow> (string + 'a) bcomp" where
  "beval f d =
     (let d' = d\<lparr>bd_faults := tl (bd_faults d)\<rparr> in
      case bd_faults d of
        Command_lost # _ \<Rightarrow> (Inl RepositoryUnavailable, d')
      | Answer_lost # _ \<Rightarrow> (Inl RepositoryUnavailable, after_script f d')
      | _ \<Rightarrow> (Inr (case f d' of Inl m \<Rightarrow> Inl m | Inr (x, _) \<Rightarrow> Inr x), after_script f d'))"

definition bret :: "'a \<Rightarrow> 'a bcomp" where
  "bret x d = (Inr x, d)"

definition braise :: "repo_error \<Rightarrow> 'a bcomp" where
  "braise e d = (Inl e, d)"

definition bbind :: "'a bcomp \<Rightarrow> ('a \<Rightarrow> 'b bcomp) \<Rightarrow> 'b bcomp" where
  "bbind m k d = (case m d of (Inl e, d') \<Rightarrow> (Inl e, d') | (Inr x, d') \<Rightarrow> k x d')"

definition bothers :: "(broker_db \<Rightarrow> broker_db) \<Rightarrow> unit bcomp" where
  "bothers f d = (Inr (), f d)"

text \<open>A read command, followed by whatever the other clients do next.\<close>

definition bread :: "(broker_db \<Rightarrow> broker_db) \<Rightarrow> (broker_db \<Rightarrow> 'a) \<Rightarrow> 'a bcomp" where
  "bread others f = bbind (beval (\<lambda>d. Inr (f d, d))) (\<lambda>r. case r of Inl m \<Rightarrow> braise RepositoryUnavailable | Inr x \<Rightarrow>
     bbind (bothers others) (\<lambda>_. bret x))"

text \<open>A script whose error replies become exceptions.\<close>

definition brun :: "(string \<Rightarrow> repo_error) \<Rightarrow> 'a script \<Rightarrow> 'a bcomp" where
  "brun handler f = bbind (beval f) (\<lambda>r. case r of Inl m \<Rightarrow> braise (handler m) | Inr x \<Rightarrow> bret x)"

text \<open>The terminal notifier of the process.\<close>

definition notify :: "string \<Rightarrow> unit bcomp" where
  "notify i d = (Inr (), d\<lparr>bd_notified := bd_notified d @ [i]\<rparr>)"

section \<open>Leadership\<close>

definition acquire_leader_script :: "string \<Rightarrow> time \<Rightarrow> time \<Rightarrow> int script" where
  "acquire_leader_script owner now ttl d =
     (let fresh = (let token = bd_fence_counter d + 1 in
            Inr (token, d\<lparr>bd_fence_counter := token, bd_leader := Some \<lparr>lh_owner = owner, lh_token = token, lh_expires_at = now + ttl\<rparr>\<rparr>))
      in case bd_leader d of
           None \<Rightarrow> fresh
         | Some l \<Rightarrow>
             if lh_expires_at l > now
             then (if lh_owner l \<noteq> owner then Inl ''DISPATCHER_LEASE_HELD'' else Inr (lh_token l, d))
             else fresh)"

definition db_acquire_leadership :: "string \<Rightarrow> time \<Rightarrow> time \<Rightarrow> int bcomp" where
  "db_acquire_leadership owner lease_now ttl =
     (if owner = [] \<or> ttl \<le> 0 then braise (ValueError ''acquire_leadership'')
      else brun (\<lambda>m. if m = ''DISPATCHER_LEASE_HELD'' then LeadershipLost else RepositoryUnavailable)
        (acquire_leader_script owner lease_now ttl))"

text \<open>The test of the leader that renewing and reserving share.\<close>

definition leads :: "broker_db \<Rightarrow> string \<Rightarrow> int \<Rightarrow> time \<Rightarrow> bool" where
  "leads d owner token now = (case bd_leader d of
     None \<Rightarrow> False | Some l \<Rightarrow> lh_owner l = owner \<and> lh_token l = token \<and> lh_expires_at l > now)"

definition renew_leader_script :: "string \<Rightarrow> int \<Rightarrow> time \<Rightarrow> time \<Rightarrow> int script" where
  "renew_leader_script owner token now ttl d =
     (if \<not> leads d owner token now then Inl ''DISPATCHER_FENCE_STALE''
      else Inr (token, d\<lparr>bd_leader := map_option (\<lambda>l. l\<lparr>lh_expires_at := now + ttl\<rparr>) (bd_leader d)\<rparr>))"

definition db_renew_leadership :: "string \<Rightarrow> int \<Rightarrow> time \<Rightarrow> time \<Rightarrow> int bcomp" where
  "db_renew_leadership owner token lease_now ttl =
     (if owner = [] \<or> token \<le> 0 \<or> ttl \<le> 0 then braise (ValueError ''renew_leadership'')
      else brun (\<lambda>m. if m = ''DISPATCHER_FENCE_STALE'' then LeadershipLost else RepositoryUnavailable)
        (renew_leader_script owner token lease_now ttl))"

section \<open>Submission and the queues\<close>

definition db_idempotency_key :: "(string \<Rightarrow> string) \<Rightarrow> string \<Rightarrow> string \<Rightarrow> string" where
  "db_idempotency_key digest scope key = digest (scope @ [CHR 0x00] @ key)"

definition db_get :: "(broker_db \<Rightarrow> broker_db) \<Rightarrow> string \<Rightarrow> JobRecord option bcomp" where
  "db_get others i = bread others (\<lambda>d. map_option jh_record (bd_jobs d i))"

text \<open>\<open>submit_job.lua\<close>: \<open>Inl\<close> the job that was submitted under the key before, or the new one.\<close>

definition submit_script :: "string \<Rightarrow> JobRecord \<Rightarrow> (string + unit) script" where
  "submit_script key stored d =
     (case bd_idempotency d key of
        Some (prior_hash, prior_job) \<Rightarrow>
          if prior_hash \<noteq> j_request_sha256 stored then Inl ''IDEMPOTENCY_KEY_REUSED'' else Inr (Inl prior_job, d)
      | None \<Rightarrow>
          if bd_jobs d (j_job_id stored) \<noteq> None then Inl ''DUPLICATE_JOB_ID''
          else let p = j_base_priority stored; i = j_job_id stored in
            Inr (Inr (), put_queue p (zadd (j_enqueue_sequence stored) i (bd_queues d p))
              (put_job i \<lparr>jh_record = stored, jh_state = J_QUEUED, jh_state_version = j_state_version stored, jh_accepted_field = False\<rparr>
                (d\<lparr>bd_idempotency := (bd_idempotency d)(key \<mapsto> (j_request_sha256 stored, i))\<rparr>))))"

definition db_submit :: "(string \<Rightarrow> string) \<Rightarrow> (broker_db \<Rightarrow> broker_db) \<Rightarrow> JobRecord \<Rightarrow> string \<Rightarrow> JobRecord bcomp" where
  "db_submit digest others job caller_scope =
     (let stored = job\<lparr>j_effective_priority := priority_value (j_base_priority job)\<rparr> in
      bbind (brun (\<lambda>m. if m = ''IDEMPOTENCY_KEY_REUSED'' \<or> m = ''DUPLICATE_JOB_ID'' then ContractError m else RepositoryUnavailable)
        (submit_script (db_idempotency_key digest caller_scope (j_idempotency_key stored)) stored)) (\<lambda>r.
      case r of
        Inr _ \<Rightarrow> bret stored
      | Inl prior \<Rightarrow> bbind (bothers others) (\<lambda>_. bbind (db_get id prior) (\<lambda>existing.
          case existing of None \<Rightarrow> braise RepositoryUnavailable | Some j \<Rightarrow> bret j))))"

text \<open>\<open>_queue_head\<close>: a head that is no longer queued is skipped when it has left the queue meanwhile.\<close>

definition queue_head :: "(nat \<Rightarrow> broker_db \<Rightarrow> broker_db) \<Rightarrow> Priority \<Rightarrow> JobRecord option bcomp" where
  "queue_head others p =
     bbind (bread (others 0) (\<lambda>d. case bd_queues d p of [] \<Rightarrow> None | q # _ \<Rightarrow> Some (snd q))) (\<lambda>row.
     case row of
       None \<Rightarrow> bret None
     | Some i \<Rightarrow> bbind (db_get (others 1) i) (\<lambda>job.
         case job of
           None \<Rightarrow> braise RepositoryUnavailable
         | Some j \<Rightarrow>
             if j_state j \<noteq> J_QUEUED
             then bbind (bread (others 2) (\<lambda>d. i \<in> snd ` set (bd_queues d p))) (\<lambda>still_queued.
                  if \<not> still_queued then bret None else braise RepositoryUnavailable)
             else bret (Some j)))"

definition aged :: "time \<Rightarrow> time \<Rightarrow> JobRecord \<Rightarrow> int" where
  "aged aging now j = effective_priority (j_base_priority j) (j_submitted_at j) now aging"

definition select_head :: "time \<Rightarrow> time \<Rightarrow> JobRecord list \<Rightarrow> JobRecord option" where
  "select_head aging now hs =
     (if hs = [] then None
      else let selected = arg_min_list (\<lambda>j. (aged aging now j, j_enqueue_sequence j)) hs
           in Some (selected\<lparr>j_effective_priority := aged aging now selected\<rparr>))"

definition db_peek_next :: "time \<Rightarrow> (Priority \<Rightarrow> nat \<Rightarrow> broker_db \<Rightarrow> broker_db) \<Rightarrow> time \<Rightarrow> JobRecord option bcomp" where
  "db_peek_next aging others now =
     bbind (queue_head (others INTERACTIVE) INTERACTIVE) (\<lambda>h0.
     bbind (queue_head (others NORMAL) NORMAL) (\<lambda>h1.
     bbind (queue_head (others BACKGROUND) BACKGROUND) (\<lambda>h2.
     bret (select_head aging now (concat (map (case_option [] (\<lambda>j. [j])) [h0, h1, h2]))))))"

section \<open>Reservation\<close>

record reserve_args =
  ra_selected :: JobRecord
  ra_claimed :: JobRecord
  ra_member :: MemberSnapshot
  ra_reserved :: MemberSnapshot
  ra_attempt :: AttemptRecord
  ra_owner :: string
  ra_token :: int
  ra_now :: time

definition record_slots :: "stored_member \<Rightarrow> int option" where
  "record_slots r = (case r of Stored m \<Rightarrow> Some (m_configured_slots m) | Bad_fence m \<Rightarrow> Some (m_configured_slots m) | Unreadable \<Rightarrow> None)"

text \<open>\<open>reserve_job.lua\<close>.\<close>

definition reserved_hash :: "member_hash \<Rightarrow> MemberSnapshot \<Rightarrow> int \<Rightarrow> int \<Rightarrow> member_hash" where
  "reserved_hash mh reserved live configured =
     (let new_free = max 0 (min (mh_free mh - 1) (configured - live)) in
      mh\<lparr>mh_record := Stored (reserved\<lparr>m_state := (case read_member_state (mh_state mh) of None \<Rightarrow> m_state reserved | Some st \<Rightarrow> st),
             m_accepting := (mh_accepting mh = ''1''), m_state_version := mh_state_version mh, m_generation_fence := mh_generation_fence mh,
             m_dispatcher_leases := live, m_compatible_free_slots := Some new_free\<rparr>),
          mh_free := new_free, mh_configured := configured\<rparr>)"

definition reserve_script :: "reserve_args \<Rightarrow> unit script" where
  "reserve_script a d =
     (let sel = ra_selected a; i = j_job_id sel; p = j_base_priority sel; n = m_name (ra_member a); aid = at_attempt_id (ra_attempt a) in
      if \<not> leads d (ra_owner a) (ra_token a) (ra_now a) then Inl ''DISPATCHER_FENCE_STALE''
      else case bd_members d n of
        None \<Rightarrow> Inl ''RESERVATION_MEMBER_VERSION_STALE''
      | Some mh \<Rightarrow>
          (case (if mh_configured mh \<le> 0 then record_slots (mh_record mh) else Some (mh_configured mh)) of
             None \<Rightarrow> Inl ''cjson''
           | Some configured \<Rightarrow>
               if mh_state_version mh \<noteq> m_state_version (ra_member a) then Inl ''RESERVATION_MEMBER_VERSION_STALE''
               else if mh_state mh \<noteq> ''ready_accepting'' \<or> mh_accepting mh \<noteq> ''1'' \<or> mh_free mh \<le> 0
                  \<or> configured \<le> 0 \<or> int (length (bd_leases d n)) \<ge> configured then Inl ''RESERVATION_MEMBER_UNAVAILABLE''
               else case bd_jobs d i of
                 None \<Rightarrow> Inl ''JOB_NOT_QUEUED''
               | Some jh \<Rightarrow>
                   if jh_state jh \<noteq> J_QUEUED then Inl ''JOB_NOT_QUEUED''
                   else if jh_state_version jh \<noteq> j_state_version sel then Inl ''JOB_STATE_VERSION_STALE''
                   else if bd_queues d p = [] \<or> snd (hd (bd_queues d p)) \<noteq> i then Inl ''QUEUE_HEAD_STALE''
                   else if attempt_at d aid \<noteq> None then Inl ''ATTEMPT_EXISTS''
                   else let ls = List.insert aid (bd_leases d n) in
                     Inr ((), put_member_hash n (reserved_hash mh (ra_reserved a) (int (length ls)) configured)
                       (put_leases n ls
                       (put_attempt aid \<lparr>ah_record = ra_attempt a, ah_state = A_RESERVED, ah_job_id = i\<rparr> None
                       (write_job i jh (ra_claimed a) J_CLAIMED (j_state_version sel + 1)
                       (put_queue p (zrem i (bd_queues d p)) d)))))))"

definition reserve_args_of :: "JobRecord \<Rightarrow> MemberSnapshot \<Rightarrow> string \<Rightarrow> time \<Rightarrow> string \<Rightarrow> int \<Rightarrow> string option \<Rightarrow> time \<Rightarrow> reserve_args" where
  "reserve_args_of selected m attempt_id now owner token backend_url leadership_now =
     \<lparr>ra_selected = selected,
      ra_claimed = claim_job selected m attempt_id now (j_effective_priority selected),
      ra_member = m,
      ra_reserved = m\<lparr>m_dispatcher_leases := m_dispatcher_leases m + 1,
        m_compatible_free_slots := Some (max 0 (or_0 (m_compatible_free_slots m) - 1))\<rparr>,
      ra_attempt = \<lparr>at_attempt_id = attempt_id, at_job_id = j_job_id selected, at_member_name = m_name m, at_reservation_fence = token,
        at_backend_url = (if opt_true backend_url then the backend_url else ''member://'' @ m_name m), at_state = A_RESERVED, at_reserved_at = now,
        at_forward_started_at = None, at_accepted_at = None, at_terminal_at = None, at_accepted_boundary_crossed = False,
        at_error_category = None, at_transition_history = [''reserved''], at_schema_version = 1\<rparr>,
      ra_owner = owner, ra_token = token, ra_now = leadership_now\<rparr>"

type_synonym db_reservation = "JobRecord \<times> MemberSnapshot \<times> AttemptRecord"

text \<open>The loop over the compatible members; \<open>ids\<close> are the identifiers drawn, one for each of them.\<close>

fun reserve_candidates ::
  "(nat \<Rightarrow> broker_db \<Rightarrow> broker_db) \<Rightarrow> (MemberSnapshot \<Rightarrow> string \<Rightarrow> reserve_args) \<Rightarrow> bool \<Rightarrow> (MemberSnapshot \<times> string) list \<Rightarrow> db_reservation option bcomp" where
  "reserve_candidates others args stale_seen [] = (if stale_seen then braise (ReservationStale ''RESERVATION_STATE_STALE'') else bret None)"
| "reserve_candidates others args stale_seen ((m, aid) # rest) =
     (let a = args m aid in
      case attempt_error (ra_attempt a) of
        Some msg \<Rightarrow> braise (ContractError msg)
      | None \<Rightarrow>
          bbind (beval (reserve_script a)) (\<lambda>r.
          case r of
            Inr _ \<Rightarrow> bret (Some (ra_claimed a, ra_reserved a, ra_attempt a))
          | Inl msg \<Rightarrow>
              if msg = ''DISPATCHER_FENCE_STALE'' then braise LeadershipLost
              else if msg = ''RESERVATION_MEMBER_VERSION_STALE'' then braise (ReservationStale ''RESERVATION_STATE_STALE'')
              else if msg = ''RESERVATION_MEMBER_UNAVAILABLE''
              then bbind (bothers (others (length rest))) (\<lambda>_. reserve_candidates others args True rest)
              else if msg = ''QUEUE_HEAD_STALE'' then braise (ReservationStale ''QUEUE_HEAD_STALE'')
              else if msg = ''JOB_STATE_VERSION_STALE'' \<or> msg = ''ATTEMPT_EXISTS'' then braise (ReservationStale ''RESERVATION_STATE_STALE'')
              else if msg = ''JOB_NOT_QUEUED'' then bret None
              else braise RepositoryUnavailable))"

definition db_reserve_next ::
  "time \<Rightarrow> (Priority \<Rightarrow> nat \<Rightarrow> broker_db \<Rightarrow> broker_db) \<Rightarrow> (nat \<Rightarrow> broker_db \<Rightarrow> broker_db) \<Rightarrow> (nat \<Rightarrow> string) \<Rightarrow> time \<Rightarrow> MemberSnapshot list
     \<Rightarrow> RequestRequirements \<Rightarrow> string \<Rightarrow> int \<Rightarrow> string option \<Rightarrow> time \<Rightarrow> db_reservation option bcomp" where
  "db_reserve_next aging others others' uuid now ordered_members req owner token backend_url leadership_now =
     bbind (db_peek_next aging others now) (\<lambda>selected.
     case selected of
       None \<Rightarrow> bret None
     | Some j \<Rightarrow>
         let candidates = filter (\<lambda>m. m_accepting m \<and> compatible req m) ordered_members in
         reserve_candidates others' (\<lambda>m aid. reserve_args_of j m aid now owner token backend_url leadership_now) False
           (zip candidates (map uuid [0..<length candidates])))"

section \<open>Cancellation, requeue, replacement\<close>

definition job_handler :: "string \<Rightarrow> repo_error" where
  "job_handler m = (if m = ''UNKNOWN_JOB_ID'' then ContractError m else if m = ''JOB_STATE_VERSION_STALE'' then ReservationStale m else RepositoryUnavailable)"

text \<open>\<open>cancel_queued.lua\<close>: whether the job was cancelled (else it was no longer queued).\<close>

definition cancel_job :: "JobRecord \<Rightarrow> time \<Rightarrow> JobRecord" where
  "cancel_job j completed_at = j\<lparr>j_state := J_CANCELLED, j_completed_at := Some completed_at,
     j_reason_code := Some CANCELLED_BEFORE_ACCEPTANCE, j_state_version := j_state_version j + 1\<rparr>"

definition db_cancel_script :: "JobRecord \<Rightarrow> JobRecord \<Rightarrow> string \<Rightarrow> bool script" where
  "db_cancel_script current cancelled i d =
     (case bd_jobs d i of
        None \<Rightarrow> Inl ''UNKNOWN_JOB_ID''
      | Some jh \<Rightarrow>
          let p = j_base_priority current in
          if jh_state jh \<noteq> J_QUEUED then Inr (False, d)
          else if jh_state_version jh \<noteq> j_state_version current then Inl ''JOB_STATE_VERSION_STALE''
          else if i \<notin> snd ` set (bd_queues d p) then Inl ''REDIS_STATE_UNKNOWN''
          else Inr (True, write_job i jh cancelled J_CANCELLED (j_state_version cancelled) (put_queue p (zrem i (bd_queues d p)) d)))"

definition db_cancel_queued :: "(nat \<Rightarrow> broker_db \<Rightarrow> broker_db) \<Rightarrow> string \<Rightarrow> time \<Rightarrow> JobRecord bcomp" where
  "db_cancel_queued others i completed_at =
     bbind (db_get (others 0) i) (\<lambda>job.
     case job of
       None \<Rightarrow> braise (ContractError ''UNKNOWN_JOB_ID'')
     | Some current \<Rightarrow>
         if j_state current \<noteq> J_QUEUED then bret current
         else bbind (brun job_handler (db_cancel_script current (cancel_job current completed_at) i)) (\<lambda>hit.
              if \<not> hit then bbind (bothers (others 1)) (\<lambda>_. bbind (db_get id i) (\<lambda>r. bret (case r of None \<Rightarrow> current | Some j \<Rightarrow> j)))
              else bbind (notify (j_job_id current)) (\<lambda>_. bret (cancel_job current completed_at))))"

text \<open>The key of the member in \<open>requeue_claim\<close>; a job without a member passes the leader's key.\<close>

datatype member_key = Member_key string | Leader_key

definition key_version :: "broker_db \<Rightarrow> member_key \<Rightarrow> int option option" where
  "key_version d k = (case k of
     Member_key n \<Rightarrow> map_option (\<lambda>h. Some (mh_state_version h)) (bd_members d n)
   | Leader_key \<Rightarrow> map_option (\<lambda>_. None) (bd_leader d))"

record requeue_args =
  qa_current :: JobRecord
  qa_queued :: JobRecord
  qa_key :: member_key
  qa_member :: "(MemberSnapshot \<times> MemberSnapshot) option"
  qa_attempt_id :: string
  qa_attempt :: AttemptRecord
  qa_retention :: time

definition requeued_hash :: "(MemberSnapshot \<times> MemberSnapshot) option \<Rightarrow> member_hash \<Rightarrow> member_hash" where
  "requeued_hash mm mh = (case mm of
     Some (_, m') \<Rightarrow> mh\<lparr>mh_record := Stored m', mh_state := member_state_text (m_state m'), mh_accepting := flag (m_accepting m'),
       mh_free := or_0 (m_compatible_free_slots m'), mh_state_version := m_state_version m', mh_generation_fence := m_generation_fence m'\<rparr>
   | None \<Rightarrow> mh\<lparr>mh_record := Unreadable, mh_state := [], mh_accepting := ''0'', mh_free := 0, mh_state_version := 0, mh_generation_fence := 0\<rparr>)"

definition release_key :: "requeue_args \<Rightarrow> broker_db \<Rightarrow> broker_db" where
  "release_key a d = (case qa_key a of
     Leader_key \<Rightarrow> d
   | Member_key n \<Rightarrow>
       (case bd_members d n of
          None \<Rightarrow> d
        | Some mh \<Rightarrow> put_member_hash n (requeued_hash (qa_member a) mh)
            (put_leases n (removeAll (qa_attempt_id a) (bd_leases d n)) d)))"

text \<open>\<open>requeue_claim.lua\<close>. When the leader's key stands for the member and there is a leader, the version test fails, as its hash has no version.\<close>

definition requeue_script :: "requeue_args \<Rightarrow> unit script" where
  "requeue_script a d =
     (let current = qa_current a; i = j_job_id current; p = j_base_priority current; aid = qa_attempt_id a;
          expected = (case qa_member a of None \<Rightarrow> 0 | Some (m, _) \<Rightarrow> m_state_version m) in
      case bd_jobs d i of
        None \<Rightarrow> Inl ''UNKNOWN_JOB_ID''
      | Some jh \<Rightarrow>
          if jh_state_version jh \<noteq> j_state_version current then Inl ''JOB_STATE_VERSION_STALE''
          else if jh_state jh \<notin> {J_CLAIMED, J_ACCEPTED, J_IN_FLIGHT} then Inl ''REQUEUE_INVALID_STATE''
          else if jh_accepted_field jh then Inl ''CANCEL_UNSAFE_AFTER_ACCEPTANCE''
          else if key_version d (qa_key a) \<noteq> None \<and> key_version d (qa_key a) \<noteq> Some (Some expected) then Inl ''RESERVATION_STATE_STALE''
          else case attempt_at d aid of
            None \<Rightarrow> Inl ''UNKNOWN_ATTEMPT_ID''
          | Some ah \<Rightarrow>
              if ah_state ah \<noteq> A_RESERVED \<or> ah_job_id ah \<noteq> i then Inl ''ATTEMPT_STATE_STALE''
              else Inr ((), put_attempt aid (ah\<lparr>ah_record := qa_attempt a, ah_state := A_FAILED\<rparr>) (Some (bd_clock d + qa_retention a))
                (release_key a
                (write_job i jh (qa_queued a) J_QUEUED (j_state_version (qa_queued a))
                (put_queue p (zadd (j_enqueue_sequence current) i (bd_queues d p)) d)))))"

definition db_get_attempt :: "(broker_db \<Rightarrow> broker_db) \<Rightarrow> string \<Rightarrow> AttemptRecord option bcomp" where
  "db_get_attempt others aid = bread others (\<lambda>d. map_option ah_record (attempt_at d aid))"

definition db_get_member :: "(broker_db \<Rightarrow> broker_db) \<Rightarrow> string \<Rightarrow> MemberSnapshot option bcomp" where
  "db_get_member others n = bbind (bread others (\<lambda>d. map_option mh_record (bd_members d n))) (\<lambda>r.
     case r of None \<Rightarrow> bret None | Some (Stored m) \<Rightarrow> bret (Some m) | _ \<Rightarrow> braise RepositoryUnavailable)"

definition returned_member :: "MemberSnapshot \<Rightarrow> MemberSnapshot" where
  "returned_member m = m\<lparr>m_dispatcher_leases := max 0 (m_dispatcher_leases m - 1),
     m_compatible_free_slots := Some (min (m_configured_slots m) (or_0 (m_compatible_free_slots m) + 1)),
     m_state_version := m_state_version m + 1\<rparr>"

definition requeue_handler :: "string \<Rightarrow> repo_error" where
  "requeue_handler m =
     (if m = ''UNKNOWN_JOB_ID'' \<or> m = ''REQUEUE_INVALID_STATE'' \<or> m = ''CANCEL_UNSAFE_AFTER_ACCEPTANCE'' then ContractError m
      else if m = ''JOB_STATE_VERSION_STALE'' \<or> m = ''RESERVATION_STATE_STALE'' then ReservationStale ''RESERVATION_STATE_STALE''
      else RepositoryUnavailable)"

text \<open>The last part: the member is read and the script runs.\<close>

definition requeue_commit ::
  "time \<Rightarrow> (broker_db \<Rightarrow> broker_db) \<Rightarrow> ReasonCode \<Rightarrow> time \<Rightarrow> JobRecord \<Rightarrow> AttemptRecord \<Rightarrow> JobRecord bcomp" where
  "requeue_commit retention_s others reason t current attempt =
     (let n = (case j_selected_member current of None \<Rightarrow> [] | Some n \<Rightarrow> n) in
      bbind (if n = [] then bret None else db_get_member others n) (\<lambda>member.
      bbind (brun requeue_handler (requeue_script
        \<lparr>qa_current = current, qa_queued = requeue_job current reason, qa_key = (if n = [] then Leader_key else Member_key n),
         qa_member = map_option (\<lambda>m. (m, returned_member m)) member, qa_attempt_id = the (j_current_attempt_id current),
         qa_attempt = end_attempt attempt A_FAILED (Some t) (Some reason), qa_retention = retention_s\<rparr>)) (\<lambda>_.
      bret (requeue_job current reason))))"

definition attempt_ended_at :: "time option \<Rightarrow> JobRecord \<Rightarrow> time" where
  "attempt_ended_at terminal_at current = (case terminal_at of Some t \<Rightarrow> t | None \<Rightarrow> (case j_queue_claimed_at current of
     Some t \<Rightarrow> if t = 0 then j_submitted_at current else t | None \<Rightarrow> j_submitted_at current))"

definition db_requeue_claim ::
  "time \<Rightarrow> (nat \<Rightarrow> broker_db \<Rightarrow> broker_db) \<Rightarrow> string \<Rightarrow> ReasonCode \<Rightarrow> time option \<Rightarrow> JobRecord bcomp" where
  "db_requeue_claim retention_s others i reason terminal_at =
     bbind (db_get (others 0) i) (\<lambda>job.
     case job of
       None \<Rightarrow> braise (ContractError ''UNKNOWN_JOB_ID'')
     | Some current \<Rightarrow>
         if j_state current \<notin> {J_CLAIMED, J_ACCEPTED, J_IN_FLIGHT} then braise (ContractError ''REQUEUE_INVALID_STATE'')
         else if j_accepted_boundary_crossed current then braise (ContractError ''CANCEL_UNSAFE_AFTER_ACCEPTANCE'')
         else if \<not> opt_true (j_current_attempt_id current) then braise RepositoryUnavailable
         else bbind (db_get_attempt (others 1) (the (j_current_attempt_id current))) (\<lambda>att.
           case att of
             None \<Rightarrow> braise RepositoryUnavailable
           | Some attempt \<Rightarrow>
               if at_accepted_boundary_crossed attempt then braise RepositoryUnavailable
               else requeue_commit retention_s (others 2) reason (attempt_ended_at terminal_at current) current attempt))"

definition attempt_state_of :: "JobState \<Rightarrow> AttemptState option" where
  "attempt_state_of s = (case s of J_ACCEPTED \<Rightarrow> Some A_ACCEPTED | J_IN_FLIGHT \<Rightarrow> Some A_FORWARDING | J_COMPLETED \<Rightarrow> Some A_COMPLETED
     | J_FAILED \<Rightarrow> Some A_FAILED | J_CANCELLED \<Rightarrow> Some A_FAILED | J_OUTCOME_UNKNOWN \<Rightarrow> Some A_OUTCOME_UNKNOWN | _ \<Rightarrow> None)"

text \<open>\<open>_attempt_for_job\<close>: the attempt as it is to be written with the job.\<close>

definition attempt_for_job :: "(broker_db \<Rightarrow> broker_db) \<Rightarrow> JobRecord \<Rightarrow> AttemptRecord option bcomp" where
  "attempt_for_job others job =
     (case attempt_state_of (j_state job) of
        Some st \<Rightarrow>
          if \<not> opt_true (j_current_attempt_id job) then bret None
          else bbind (db_get_attempt others (the (j_current_attempt_id job))) (\<lambda>att.
            case att of
              None \<Rightarrow> braise RepositoryUnavailable
            | Some a \<Rightarrow> bret (Some (a\<lparr>at_state := st, at_terminal_at := (if terminal_job (j_state job) then j_completed_at job else at_terminal_at a),
                at_transition_history := at_transition_history a @ [attempt_state_text st]\<rparr>)))
      | None \<Rightarrow> bret None)"

definition ended_attempt :: "AttemptState \<Rightarrow> bool" where
  "ended_attempt s \<longleftrightarrow> s \<in> {A_COMPLETED, A_FAILED, A_CANCELLED, A_OUTCOME_UNKNOWN}"

definition attempt_expiry :: "broker_db \<Rightarrow> string \<Rightarrow> time option" where
  "attempt_expiry d aid = (case bd_attempts d aid of None \<Rightarrow> None | Some (_, e) \<Rightarrow> e)"

text \<open>\<open>replace_job.lua\<close>.\<close>

definition replace_script :: "time \<Rightarrow> JobRecord \<Rightarrow> AttemptRecord option \<Rightarrow> unit script" where
  "replace_script retention_s job attempt d =
     (let i = j_job_id job in
      case bd_jobs d i of
        None \<Rightarrow> Inl ''UNKNOWN_JOB_ID''
      | Some jh \<Rightarrow>
          if jh_state_version jh \<noteq> j_state_version job - 1 then Inl ''JOB_STATE_VERSION_STALE''
          else let d1 = write_job i jh job (j_state job) (j_state_version job) d in
            case attempt of
              None \<Rightarrow> Inr ((), d1)
            | Some a \<Rightarrow>
                (case attempt_at d (at_attempt_id a) of
                   None \<Rightarrow> Inl ''UNKNOWN_ATTEMPT_ID''
                 | Some ah \<Rightarrow> Inr ((), put_attempt (at_attempt_id a) (ah\<lparr>ah_record := a, ah_state := at_state a\<rparr>)
                     (if ended_attempt (at_state a) then Some (bd_clock d + retention_s) else attempt_expiry d (at_attempt_id a)) d1)))"

definition db_replace_job :: "time \<Rightarrow> (broker_db \<Rightarrow> broker_db) \<Rightarrow> JobRecord \<Rightarrow> JobRecord bcomp" where
  "db_replace_job retention_s others job =
     (if j_state_version job - 1 < 1 then braise (ContractError ''JOB_STATE_VERSION_INVALID'')
      else bbind (attempt_for_job others job) (\<lambda>attempt.
        bbind (brun job_handler (replace_script retention_s job attempt)) (\<lambda>_.
        bbind (if terminal_job (j_state job) then notify (j_job_id job) else bret ()) (\<lambda>_. bret job))))"

section \<open>Recovery of abandoned jobs\<close>

datatype repair_outcome = Already_repaired | Already_terminal | Repaired

text \<open>\<open>repair_dead_job.lua\<close>. A repair that was completed is never repeated for the same job.\<close>

definition repair_script ::
  "time \<Rightarrow> string \<Rightarrow> int \<Rightarrow> JobRecord \<Rightarrow> JobRecord \<Rightarrow> string \<Rightarrow> AttemptRecord \<Rightarrow> repair_outcome script" where
  "repair_script retention_s owner fence current repaired i attempt d =
     (case bd_jobs d i of
        None \<Rightarrow> Inl ''UNKNOWN_JOB_ID''
      | Some jh \<Rightarrow>
          if (case bd_repairs d i of None \<Rightarrow> 0 \<ge> fence | Some r \<Rightarrow> rh_completed r \<or> rh_fence r \<ge> fence) then Inr (Already_repaired, d)
          else if jh_state_version jh \<noteq> j_state_version current then Inl ''JOB_STATE_VERSION_STALE''
          else if jh_state jh \<notin> {J_CLAIMED, J_ACCEPTED, J_IN_FLIGHT} then Inr (Already_terminal, d)
          else let aid = at_attempt_id attempt; p = j_base_priority current; n = the (j_selected_member current);
                   d1 = write_job i jh repaired (j_state repaired) (j_state_version repaired) d;
                   d2 = (if j_state repaired = J_QUEUED then put_queue p (zadd (j_enqueue_sequence repaired) i (bd_queues d p)) d1 else d1);
                   d3 = put_leases n (removeAll aid (bd_leases d n)) d2;
                   d4 = (case attempt_at d aid of
                           None \<Rightarrow> d3
                         | Some ah \<Rightarrow> put_attempt aid (ah\<lparr>ah_record := attempt, ah_state := at_state attempt\<rparr>) (Some (bd_clock d + retention_s)) d3)
               in Inr (Repaired, d4\<lparr>bd_repairs := (bd_repairs d)(i \<mapsto> \<lparr>rh_owner = owner, rh_fence = fence, rh_completed = True\<rparr>)\<rparr>))"

definition unknown_outcome :: "JobRecord \<Rightarrow> JobRecord" where
  "unknown_outcome j = j\<lparr>j_state := J_OUTCOME_UNKNOWN, j_reason_code := Some POST_ACCEPTANCE_OUTCOME_UNKNOWN,
     j_error := Some ''proven_dead_after_acceptance'', j_state_version := j_state_version j + 1\<rparr>"

definition post_acceptance :: "JobRecord \<Rightarrow> bool" where
  "post_acceptance j \<longleftrightarrow> j_accepted_boundary_crossed j \<or> j_state j \<in> {J_ACCEPTED, J_IN_FLIGHT}"

definition repaired_job :: "JobRecord \<Rightarrow> JobRecord" where
  "repaired_job j = (if post_acceptance j then unknown_outcome j else requeue_job j PRE_ACCEPTANCE_REQUEUE)"

definition repaired_attempt :: "JobRecord \<Rightarrow> AttemptRecord \<Rightarrow> AttemptRecord" where
  "repaired_attempt j a = (if post_acceptance j then end_attempt a A_OUTCOME_UNKNOWN (Some 0) (Some POST_ACCEPTANCE_OUTCOME_UNKNOWN)
     else end_attempt a A_FAILED (Some 0) (Some PRE_ACCEPTANCE_REQUEUE))"

definition reconcile_commit :: "time \<Rightarrow> (broker_db \<Rightarrow> broker_db) \<Rightarrow> string \<Rightarrow> string \<Rightarrow> int \<Rightarrow> JobRecord \<Rightarrow> AttemptRecord \<Rightarrow> JobRecord bcomp" where
  "reconcile_commit retention_s others i owner fence current attempt =
     bbind (brun job_handler (repair_script retention_s owner fence current (repaired_job current) i (repaired_attempt current attempt))) (\<lambda>outcome.
     if outcome \<noteq> Repaired
     then bbind (bothers others) (\<lambda>_. bbind (db_get id i) (\<lambda>r. bret (case r of None \<Rightarrow> current | Some j \<Rightarrow> j)))
     else bbind (if terminal_job (j_state (repaired_job current)) then notify (j_job_id current) else bret ()) (\<lambda>_. bret (repaired_job current)))"

definition db_reconcile_dead_job ::
  "time \<Rightarrow> (nat \<Rightarrow> broker_db \<Rightarrow> broker_db) \<Rightarrow> string \<Rightarrow> string \<Rightarrow> int \<Rightarrow> JobRecord bcomp" where
  "db_reconcile_dead_job retention_s others i owner fence =
     (if owner = [] \<or> fence \<le> 0 then braise (ValueError ''reconcile_dead_job'')
      else bbind (db_get (others 0) i) (\<lambda>job.
      case job of
        None \<Rightarrow> braise (ContractError ''UNKNOWN_JOB_ID'')
      | Some current \<Rightarrow>
          if j_state current = J_QUEUED \<or> terminal_job (j_state current) then bret current
          else if \<not> opt_true (j_selected_member current) \<or> \<not> opt_true (j_current_attempt_id current) then braise RepositoryUnavailable
          else bbind (db_get_attempt (others 1) (the (j_current_attempt_id current))) (\<lambda>att.
            case att of
              None \<Rightarrow> braise RepositoryUnavailable
            | Some attempt \<Rightarrow> reconcile_commit retention_s (others 2) i owner fence current attempt)))"

text \<open>\<open>recover_stale_pre_acceptance_claims\<close>: \<open>ids\<close> are the identifiers in the keys the scan yields; the part after the last colon is used.
  \<open>others k n\<close> is what happens in the round with \<open>k\<close> keys left.\<close>

definition after_last_colon :: "string \<Rightarrow> string" where
  "after_last_colon i = rev (takeWhile (\<lambda>c. c \<noteq> CHR '':'') (rev i))"

definition abandoned_claim :: "time \<Rightarrow> time \<Rightarrow> JobRecord \<Rightarrow> bool" where
  "abandoned_claim now max_age j \<longleftrightarrow> j_state j = J_CLAIMED \<and> \<not> j_accepted_boundary_crossed j \<and> j_forward_started_at j = None
     \<and> opt_true (j_current_attempt_id j) \<and> (case j_queue_claimed_at j of None \<Rightarrow> False | Some t \<Rightarrow> now - t \<ge> max_age)"

definition catch_conflict :: "'a bcomp \<Rightarrow> 'a option bcomp" where
  "catch_conflict m d = (case m d of
     (Inr x, d') \<Rightarrow> (Inr (Some x), d')
   | (Inl (ReservationStale _), d') \<Rightarrow> (Inr None, d')
   | (Inl (ContractError _), d') \<Rightarrow> (Inr None, d')
   | (Inl e, d') \<Rightarrow> (Inl e, d'))"

fun recover_claims ::
  "time \<Rightarrow> (nat \<Rightarrow> nat \<Rightarrow> broker_db \<Rightarrow> broker_db) \<Rightarrow> time \<Rightarrow> time \<Rightarrow> nat \<Rightarrow> string list \<Rightarrow> JobRecord list bcomp" where
  "recover_claims retention_s others now max_age limit [] = bret []"
| "recover_claims retention_s others now max_age limit (k # ks) =
     (if limit = 0 then bret []
      else bbind (db_get (others (length ks) 3) (after_last_colon k)) (\<lambda>job.
        case job of
          None \<Rightarrow> recover_claims retention_s others now max_age limit ks
        | Some current \<Rightarrow>
            if \<not> abandoned_claim now max_age current then recover_claims retention_s others now max_age limit ks
            else bbind (catch_conflict (db_requeue_claim retention_s (others (length ks)) (j_job_id current) PRE_ACCEPTANCE_REQUEUE (Some now))) (\<lambda>r.
              bbind (bothers (others (length ks) 4)) (\<lambda>_.
              case r of
                None \<Rightarrow> recover_claims retention_s others now max_age limit ks
              | Some j \<Rightarrow> bbind (recover_claims retention_s others now max_age (limit - 1) ks) (\<lambda>rest. bret (j # rest))))))"

definition db_recover_stale_claims ::
  "time \<Rightarrow> (nat \<Rightarrow> nat \<Rightarrow> broker_db \<Rightarrow> broker_db) \<Rightarrow> time \<Rightarrow> time \<Rightarrow> int \<Rightarrow> string list \<Rightarrow> JobRecord list bcomp" where
  "db_recover_stale_claims retention_s others now max_age limit ids =
     (if max_age \<le> 0 \<or> limit \<le> 0 then braise (ValueError ''positive recovery age and limit are required'')
      else recover_claims retention_s others now max_age (nat limit) ids)"

text \<open>\<open>reconcile_stale_post_acceptance_jobs\<close>.\<close>

fun reconcile_stale ::
  "time \<Rightarrow> (nat \<Rightarrow> nat \<Rightarrow> broker_db \<Rightarrow> broker_db) \<Rightarrow> string \<Rightarrow> int \<Rightarrow> nat \<Rightarrow> string list \<Rightarrow> JobRecord list bcomp" where
  "reconcile_stale retention_s others owner fence limit [] = bret []"
| "reconcile_stale retention_s others owner fence limit (i # ids) =
     (if limit = 0 then bret []
      else if i = [] then reconcile_stale retention_s others owner fence limit ids
      else bbind (db_get (others (length ids) 3) i) (\<lambda>job.
        case job of
          None \<Rightarrow> reconcile_stale retention_s others owner fence limit ids
        | Some current \<Rightarrow>
            if j_state current \<notin> {J_ACCEPTED, J_IN_FLIGHT} \<or> \<not> j_accepted_boundary_crossed current
               \<or> \<not> opt_true (j_selected_member current) \<or> \<not> opt_true (j_current_attempt_id current)
            then reconcile_stale retention_s others owner fence limit ids
            else bbind (db_get_attempt (others (length ids) 4) (the (j_current_attempt_id current))) (\<lambda>att.
              if (case att of None \<Rightarrow> True | Some a \<Rightarrow> at_state a \<notin> {A_ACCEPTED, A_FORWARDING} \<or> at_reservation_fence a \<ge> fence)
              then reconcile_stale retention_s others owner fence limit ids
              else bbind (db_reconcile_dead_job retention_s (others (length ids)) i owner fence) (\<lambda>repaired.
                bbind (bothers (others (length ids) 5)) (\<lambda>_.
                if j_state repaired = J_OUTCOME_UNKNOWN
                then bbind (reconcile_stale retention_s others owner fence (limit - 1) ids) (\<lambda>rest. bret (repaired # rest))
                else reconcile_stale retention_s others owner fence limit ids)))))"

definition db_reconcile_stale_jobs ::
  "time \<Rightarrow> (nat \<Rightarrow> nat \<Rightarrow> broker_db \<Rightarrow> broker_db) \<Rightarrow> string \<Rightarrow> int \<Rightarrow> int \<Rightarrow> string list \<Rightarrow> JobRecord list bcomp" where
  "db_reconcile_stale_jobs retention_s others owner fence limit ids =
     (if owner = [] \<or> fence \<le> 0 \<or> limit \<le> 0 then braise (ValueError ''reconcile_stale_post_acceptance_jobs'')
      else reconcile_stale retention_s others owner fence (nat limit) ids)"

section \<open>Members\<close>

text \<open>\<open>REFRESH_MEMBER_MIRROR_LUA\<close>: the live leases and the free slots written.\<close>

definition refresh_script :: "MemberSnapshot \<Rightarrow> string \<Rightarrow> bool \<Rightarrow> int \<Rightarrow> (int \<times> int) script" where
  "refresh_script m state_text accepting initial_free d =
     (let n = m_name m; live = int (length (bd_leases d n));
          current_free = (case bd_members d n of None \<Rightarrow> -1 | Some mh \<Rightarrow> mh_free mh);
          free = (if live > 0 \<and> current_free \<ge> 0 then current_free else initial_free)
      in Inr ((live, free), put_member_hash n
           \<lparr>mh_record = Stored (m\<lparr>m_dispatcher_leases := live, m_compatible_free_slots := Some free\<rparr>), mh_state = state_text,
            mh_accepting = flag accepting, mh_state_version = m_state_version m, mh_generation_fence = m_generation_fence m,
            mh_free = free, mh_configured = m_configured_slots m\<rparr> d))"

text \<open>The capacity a refresh starts from.\<close>

definition member_slots :: "MemberSnapshot \<Rightarrow> int" where
  "member_slots m = (case m_backend_slots_total m of Some n \<Rightarrow> if m_configured_slots m \<le> 0 then n else m_configured_slots m | None \<Rightarrow> m_configured_slots m)"

definition initial_free_slots :: "MemberSnapshot \<Rightarrow> int option \<Rightarrow> int \<Rightarrow> int" where
  "initial_free_slots m current_free live =
     (let configured = member_slots m; proved = (configured > 0 \<and> m_backend_slots_busy m \<noteq> None);
          runtime_free = (if proved then derive_compatible_free_slots configured (m_backend_slots_total m) (or_0 (m_backend_slots_busy m)) live
                          else max 0 (or_0 (m_compatible_free_slots m)))
      in if live = 0 \<and> m_accepting m \<and> proved then runtime_free
         else case current_free of
           None \<Rightarrow> runtime_free
         | Some f \<Rightarrow> if f \<le> 0 \<and> m_accepting m \<and> proved then runtime_free else f)"

definition hget_member :: "(broker_db \<Rightarrow> broker_db) \<Rightarrow> string \<Rightarrow> (member_hash \<Rightarrow> 'a) \<Rightarrow> 'a option bcomp" where
  "hget_member others n f = bread others (\<lambda>d. map_option f (bd_members d n))"

definition db_put_member :: "(nat \<Rightarrow> broker_db \<Rightarrow> broker_db) \<Rightarrow> MemberSnapshot \<Rightarrow> MemberSnapshot bcomp" where
  "db_put_member others m =
     (let n = m_name m in
      bbind (hget_member (others 0) n mh_free) (\<lambda>current_free.
      bbind (hget_member (others 1) n mh_state_version) (\<lambda>current_version.
      bbind (bread (others 2) (\<lambda>d. int (length (bd_leases d n)))) (\<lambda>live.
      bbind (hget_member (others 3) n mh_state) (\<lambda>current_state.
      bbind (hget_member (others 4) n mh_accepting) (\<lambda>current_accepting.
      let version = max (case current_version of None \<Rightarrow> 0 | Some v \<Rightarrow> v) (m_state_version m);
          fenced = (current_version \<noteq> None \<and> version > m_state_version m \<and> current_state = Some ''draining''
             \<or> current_state = Some ''faulted'' \<and> current_accepting = Some ''0'');
          state_text = (if fenced then the current_state else member_state_text (m_state m));
          accepting = (\<not> fenced \<and> m_accepting m);
          record_member = m\<lparr>m_state := (case read_member_state state_text of Some st \<Rightarrow> st | None \<Rightarrow> m_state m), m_accepting := accepting,
            m_state_version := version, m_dispatcher_leases := live, m_compatible_free_slots := Some (initial_free_slots m current_free live)\<rparr>
      in bbind (brun (\<lambda>_. RepositoryUnavailable)
           (refresh_script record_member state_text accepting (initial_free_slots m current_free live))) (\<lambda>(leases, free).
         bret (record_member\<lparr>m_dispatcher_leases := leases, m_compatible_free_slots := Some free\<rparr>))))))))"

text \<open>\<open>REPAIR_MEMBER_FENCE_LUA\<close>, and the repair of a record whose generation fence is damaged. \<open>seen\<close> is the record text read before.\<close>

definition repair_fence_script :: "string \<Rightarrow> int \<Rightarrow> stored_member \<Rightarrow> MemberSnapshot \<Rightarrow> MemberSnapshot script" where
  "repair_fence_script n expected seen repaired d =
     (case bd_members d n of
        None \<Rightarrow> Inl ''UNKNOWN_MEMBER''
      | Some mh \<Rightarrow>
          if mh_record mh \<noteq> seen then Inl ''MEMBER_RECORD_CHANGED''
          else if mh_state_version mh \<noteq> expected then Inl ''RESERVATION_STATE_STALE''
          else if bd_leases d n \<noteq> [] then Inl ''MEMBER_LEASES_REMAIN''
          else Inr (repaired, put_member_hash n
            \<lparr>mh_record = Stored repaired, mh_state = member_state_text (m_state repaired), mh_accepting = flag (m_accepting repaired),
             mh_state_version = m_state_version repaired, mh_generation_fence = 0, mh_free = or_0 (m_compatible_free_slots repaired),
             mh_configured = m_configured_slots repaired\<rparr> d))"

definition db_repair_fence :: "(nat \<Rightarrow> broker_db \<Rightarrow> broker_db) \<Rightarrow> string \<Rightarrow> int \<Rightarrow> MemberSnapshot bcomp" where
  "db_repair_fence others n expected =
     (if expected < 0 then braise (ContractError ''MEMBER_STATE_VERSION_INVALID'')
      else bbind (bread (others 0) (\<lambda>d. map_option mh_record (bd_members d n))) (\<lambda>raw.
      case raw of
        None \<Rightarrow> braise (ContractError ''UNKNOWN_MEMBER'')
      | Some Unreadable \<Rightarrow> braise RepositoryUnavailable
      | Some (Stored m) \<Rightarrow> braise (ContractError ''MEMBER_GENERATION_FENCE_REPAIR_NOT_NEEDED'')
      | Some (Bad_fence m) \<Rightarrow>
          if m_state_version m \<noteq> expected then braise (ReservationStale ''RESERVATION_STATE_STALE'')
          else if m_state m \<notin> {M_OFFLINE, M_UNHEALTHY, M_FAULTED, M_DRAINING, M_JOINING} \<or> m_accepting m
          then braise (ContractError ''MEMBER_REPAIR_STATE_INVALID'')
          else bbind (bread (others 1) (\<lambda>d. bd_leases d n)) (\<lambda>ls.
            if ls \<noteq> [] then braise (ReservationStale ''MEMBER_LEASES_REMAIN'')
            else brun (\<lambda>e. if e = ''UNKNOWN_MEMBER'' then ContractError e
                   else if e = ''RESERVATION_STATE_STALE'' \<or> e = ''MEMBER_LEASES_REMAIN'' \<or> e = ''MEMBER_RECORD_CHANGED'' then ReservationStale e
                   else RepositoryUnavailable)
                 (repair_fence_script n expected (Bad_fence m) (m\<lparr>m_generation_fence := 0\<rparr>)))))"

definition db_repair_malformed_fence :: "(nat \<Rightarrow> broker_db \<Rightarrow> broker_db) \<Rightarrow> string \<Rightarrow> MemberSnapshot bcomp" where
  "db_repair_malformed_fence others n =
     bbind (bread (others 2) (\<lambda>d. map_option mh_record (bd_members d n))) (\<lambda>raw.
     case raw of
       None \<Rightarrow> braise (ContractError ''UNKNOWN_MEMBER'')
     | Some Unreadable \<Rightarrow> braise RepositoryUnavailable
     | Some (Stored m) \<Rightarrow> if m_state_version m < 0 then braise RepositoryUnavailable else db_repair_fence others n (m_state_version m)
     | Some (Bad_fence m) \<Rightarrow> if m_state_version m < 0 then braise RepositoryUnavailable else db_repair_fence others n (m_state_version m))"

text \<open>\<open>MEMBER_RESERVATION_VIEW_LUA\<close> and \<open>get_reservation_member\<close>: the record with the fields the reservation looks at.\<close>

definition reservation_view :: "string \<Rightarrow> broker_db \<Rightarrow> (member_hash \<times> int) option" where
  "reservation_view n d = map_option (\<lambda>mh. (mh, int (length (bd_leases d n)))) (bd_members d n)"

definition db_get_reservation_member :: "string \<Rightarrow> MemberSnapshot option bcomp" where
  "db_get_reservation_member n =
     bbind (bread id (reservation_view n)) (\<lambda>r.
     case r of
       None \<Rightarrow> bret None
     | Some (mh, leases) \<Rightarrow>
         (case (mh_record mh, read_member_state (mh_state mh)) of
            (Stored m, Some st) \<Rightarrow>
              if mh_accepting mh \<notin> {''0'', ''1''} \<or> m_name m \<noteq> n \<or> mh_state_version mh < 0 \<or> mh_generation_fence mh < 0 \<or> mh_free mh < 0 \<or> mh_configured mh < 0
              then braise RepositoryUnavailable
              else bret (Some (m\<lparr>m_state := st, m_accepting := (mh_accepting mh = ''1''), m_state_version := mh_state_version mh,
                m_generation_fence := mh_generation_fence mh, m_configured_slots := mh_configured mh,
                m_compatible_free_slots := Some (mh_free mh), m_dispatcher_leases := leases\<rparr>))
          | _ \<Rightarrow> braise RepositoryUnavailable))"

definition db_add_member_lease :: "(broker_db \<Rightarrow> broker_db) \<Rightarrow> string \<Rightarrow> string \<Rightarrow> unit bcomp" where
  "db_add_member_lease others n aid =
     bbind (db_get_member others n) (\<lambda>m.
     if m = None then braise (ContractError ''UNKNOWN_MEMBER'')
     else brun (\<lambda>_. RepositoryUnavailable) (\<lambda>d. Inr ((), put_leases n (List.insert aid (bd_leases d n)) d)))"

section \<open>Drain and rejoin\<close>

datatype drain_mode = D_begin | D_release | D_release_v2 | D_complete | D_begin_rejoin | D_complete_rejoin

text \<open>The guards of \<open>member_drain.lua\<close> for each mode.\<close>

definition drain_guard :: "drain_mode \<Rightarrow> MemberSnapshot \<Rightarrow> MemberSnapshot \<Rightarrow> int \<Rightarrow> string \<Rightarrow> member_hash \<Rightarrow> string list \<Rightarrow> string option" where
  "drain_guard mode current updated claimed aid mh leases =
     (case mode of
        D_begin \<Rightarrow> if mh_state mh \<notin> {''ready_accepting'', ''ready_busy'', ''joining'', ''unhealthy''} then Some ''DRAIN_INVALID_STATE'' else None
      | D_release \<Rightarrow> if claimed \<noteq> m_state_version current then Some ''RESERVATION_STATE_STALE''
                     else if aid \<notin> set leases then Some ''LEASE_NOT_OWNED'' else None
      | D_release_v2 \<Rightarrow> if aid \<notin> set leases then Some ''LEASE_NOT_OWNED'' else None
      | D_complete \<Rightarrow> if mh_state mh \<noteq> ''draining'' then Some ''DRAIN_INVALID_STATE''
                      else if leases \<noteq> [] then Some ''MEMBER_LEASES_REMAIN'' else None
      | D_begin_rejoin \<Rightarrow> if mh_state mh \<noteq> ''offline'' then Some ''REJOIN_INVALID_STATE''
                          else if m_generation_fence updated \<le> mh_generation_fence mh then Some ''GENERATION_FENCE_STALE'' else None
      | D_complete_rejoin \<Rightarrow> if mh_state mh \<noteq> ''joining'' then Some ''REJOIN_INVALID_STATE''
                             else if leases \<noteq> [] then Some ''MEMBER_LEASES_REMAIN'' else None)"

definition is_release :: "drain_mode \<Rightarrow> bool" where
  "is_release mode \<longleftrightarrow> mode = D_release \<or> mode = D_release_v2"

definition released_free :: "MemberSnapshot \<Rightarrow> MemberSnapshot \<Rightarrow> int \<Rightarrow> int" where
  "released_free current updated live =
     (if m_state updated = M_DRAINING then 0
      else if m_configured_slots current > 0
      then min (m_configured_slots current) (min (max 0 (m_configured_slots current - or_0 (m_backend_slots_busy current)))
             (max 0 (m_configured_slots current - live)))
      else or_0 (m_compatible_free_slots updated))"

definition drained_hash :: "MemberSnapshot \<Rightarrow> MemberSnapshot \<Rightarrow> int \<Rightarrow> member_hash \<Rightarrow> member_hash" where
  "drained_hash m rec free mh = mh\<lparr>mh_record := Stored rec, mh_state := member_state_text (m_state m), mh_accepting := flag (m_accepting m),
     mh_free := free, mh_state_version := m_state_version m, mh_generation_fence := m_generation_fence m\<rparr>"

definition drain_script :: "drain_mode \<Rightarrow> MemberSnapshot \<Rightarrow> MemberSnapshot \<Rightarrow> int \<Rightarrow> string \<Rightarrow> (int \<times> int) option script" where
  "drain_script mode current updated claimed aid d =
     (let n = m_name current; leases = bd_leases d n in
      case bd_members d n of
        None \<Rightarrow> Inl ''UNKNOWN_MEMBER''
      | Some mh \<Rightarrow>
          if mode \<noteq> D_release_v2 \<and> mh_state_version mh \<noteq> m_state_version current then Inl ''RESERVATION_STATE_STALE''
          else if m_state_version updated \<noteq> m_state_version current + 1 then Inl ''MEMBER_STATE_VERSION_INVALID''
          else case drain_guard mode current updated claimed aid mh leases of
            Some msg \<Rightarrow> Inl msg
          | None \<Rightarrow>
              if is_release mode
              then let ls = removeAll aid leases; live = int (length ls); free = released_free current updated live in
                Inr (Some (live, free), put_member_hash n
                  (drained_hash updated (updated\<lparr>m_dispatcher_leases := live, m_compatible_free_slots := Some free\<rparr>) free mh) (put_leases n ls d))
              else Inr (None, put_member_hash n (drained_hash updated updated (or_0 (m_compatible_free_slots updated)) mh) d))"

definition drain_handler :: "string \<Rightarrow> repo_error" where
  "drain_handler m =
     (if m = ''RESERVATION_STATE_STALE'' \<or> m = ''LEASE_NOT_OWNED'' \<or> m = ''MEMBER_LEASES_REMAIN'' then ReservationStale m
      else ContractError m)"

definition commit_member_drain :: "drain_mode \<Rightarrow> MemberSnapshot \<Rightarrow> MemberSnapshot \<Rightarrow> int \<Rightarrow> string \<Rightarrow> MemberSnapshot bcomp" where
  "commit_member_drain mode current updated claimed aid =
     bbind (brun drain_handler (drain_script mode current updated claimed aid)) (\<lambda>r.
     bret (case r of None \<Rightarrow> updated | Some (live, free) \<Rightarrow> updated\<lparr>m_dispatcher_leases := live, m_compatible_free_slots := Some free\<rparr>))"

text \<open>The opening the lifecycle operations share: the member at the expected version.\<close>

definition with_member :: "(broker_db \<Rightarrow> broker_db) \<Rightarrow> string \<Rightarrow> (MemberSnapshot \<Rightarrow> 'a bcomp) \<Rightarrow> 'a bcomp" where
  "with_member others n k = bbind (db_get_member others n) (\<lambda>m. case m of None \<Rightarrow> braise (ContractError ''UNKNOWN_MEMBER'') | Some current \<Rightarrow> k current)"

definition at_version :: "(broker_db \<Rightarrow> broker_db) \<Rightarrow> string \<Rightarrow> int \<Rightarrow> (MemberSnapshot \<Rightarrow> 'a bcomp) \<Rightarrow> 'a bcomp" where
  "at_version others n expected k = with_member others n (\<lambda>current.
     if m_state_version current \<noteq> expected then braise (ReservationStale ''RESERVATION_STATE_STALE'') else k current)"

definition legal_move :: "MemberSnapshot \<Rightarrow> MemberState \<Rightarrow> 'a bcomp \<Rightarrow> 'a bcomp" where
  "legal_move current target k = (if \<not> member_transition_ok (m_state current) target then braise (ContractError ''ILLEGAL_MEMBER_TRANSITION'') else k)"

definition db_begin_member_drain :: "(broker_db \<Rightarrow> broker_db) \<Rightarrow> string \<Rightarrow> int \<Rightarrow> MemberSnapshot bcomp" where
  "db_begin_member_drain others n expected = at_version others n expected (\<lambda>current.
     if m_state current = M_DRAINING then bret current
     else legal_move current M_DRAINING (commit_member_drain D_begin current
       (current\<lparr>m_state := M_DRAINING, m_accepting := False, m_compatible_free_slots := Some 0, m_state_version := m_state_version current + 1,
          m_blockers := dict_fromkeys (m_blockers current @ [''member_draining'']),
          m_reason_codes := dict_fromkeys (m_reason_codes current @ [MEMBER_DRAINING])\<rparr>) 0 []))"

definition db_release_member_lease :: "(broker_db \<Rightarrow> broker_db) \<Rightarrow> string \<Rightarrow> string \<Rightarrow> int \<Rightarrow> bool \<Rightarrow> MemberSnapshot bcomp" where
  "db_release_member_lease others n aid claimed enforce = with_member others n (\<lambda>current.
     commit_member_drain (if enforce then D_release else D_release_v2) current
       (current\<lparr>m_dispatcher_leases := 0,
          m_drain_disabled_slots := m_drain_disabled_slots current + (if m_state current = M_DRAINING then 1 else 0),
          m_compatible_free_slots := Some 0, m_state_version := m_state_version current + 1\<rparr>) claimed aid)"

definition db_complete_member_drain :: "(broker_db \<Rightarrow> broker_db) \<Rightarrow> string \<Rightarrow> int \<Rightarrow> MemberSnapshot bcomp" where
  "db_complete_member_drain others n expected = at_version others n expected (\<lambda>current.
     legal_move current M_OFFLINE (commit_member_drain D_complete current
       (current\<lparr>m_state := M_OFFLINE, m_accepting := False, m_compatible_free_slots := Some 0, m_state_version := m_state_version current + 1\<rparr>) 0 []))"

definition db_begin_member_rejoin :: "(broker_db \<Rightarrow> broker_db) \<Rightarrow> string \<Rightarrow> int \<Rightarrow> int \<Rightarrow> MemberSnapshot bcomp" where
  "db_begin_member_rejoin others n expected fence = at_version others n expected (\<lambda>current.
     if fence \<le> m_generation_fence current then braise (ContractError ''GENERATION_FENCE_STALE'')
     else legal_move current M_JOINING (commit_member_drain D_begin_rejoin current
       (current\<lparr>m_state := M_JOINING, m_accepting := False, m_compatible_free_slots := Some 0, m_generation_fence := fence,
          m_state_version := m_state_version current + 1\<rparr>) 0 []))"

definition db_complete_member_rejoin :: "(broker_db \<Rightarrow> broker_db) \<Rightarrow> string \<Rightarrow> int \<Rightarrow> MemberSnapshot \<Rightarrow> MemberSnapshot bcomp" where
  "db_complete_member_rejoin others n expected readiness = at_version others n expected (\<lambda>current.
     if m_name readiness \<noteq> n then braise (ContractError ''READINESS_MEMBER_MISMATCH'')
     else if m_state readiness \<noteq> M_READY_ACCEPTING \<or> \<not> m_accepting readiness \<or> m_blockers readiness \<noteq> [] \<or> m_reason_codes readiness \<noteq> []
     then braise (ContractError ''MEMBER_NOT_READY'')
     else legal_move current M_READY_ACCEPTING (commit_member_drain D_complete_rejoin current
       (readiness\<lparr>m_state := M_READY_ACCEPTING, m_accepting := True, m_generation_fence := m_generation_fence current,
          m_state_version := m_state_version current + 1, m_drain_disabled_slots := 0, m_dispatcher_leases := 0\<rparr>) 0 []))"

end
