(* ===== verification/Repository_Evolution.thy ===== *)
theory Repository_Evolution
  imports Redis_Repository
begin

text \<open>
  How the Redis repository may change under any number of clients. One preorder on databases is both what a call may rely on
  between its commands and what it guarantees: \<open>evolution\<close> keeps an invariant, raises the version of a job with every change, and never lowers a fencing token.
  The compare-and-set of the scripts is exact because of it: a record read earlier whose version is still current is the current record.
\<close>

section \<open>Rely and guarantee\<close>

locale rely_guarantee =
  fixes R :: "broker_db \<Rightarrow> broker_db \<Rightarrow> bool"
  assumes R_refl [simp]: "R d d"
    and R_trans [trans]: "R a b \<Longrightarrow> R b c \<Longrightarrow> R a c"
    and R_local: "R d (d\<lparr>bd_faults := x\<rparr>)" "R (d\<lparr>bd_faults := x\<rparr>) d" "R d (d\<lparr>bd_notified := y\<rparr>)"
begin

definition guar :: "'a bcomp \<Rightarrow> broker_db \<Rightarrow> bool" where
  "guar m d \<longleftrightarrow> R d (snd (m d))"

definition relies :: "(broker_db \<Rightarrow> broker_db) \<Rightarrow> bool" where
  "relies f \<longleftrightarrow> (\<forall>d. R d (f d))"

lemma relies_id [simp]: "relies id" "relies (\<lambda>d. d)"
  by (simp_all add: relies_def)

lemma guar_ends [simp]: "guar (bret x) d" "guar (braise e) d" "guar (notify i) d"
  by (simp_all add: guar_def bret_def braise_def notify_def R_local)

lemma guar_others: "relies f \<Longrightarrow> guar (bothers f) d"
  by (simp add: guar_def bothers_def relies_def)

lemma guar_bind: "guar m d \<Longrightarrow> (\<And>x d'. m d = (Inr x, d') \<Longrightarrow> R d d' \<Longrightarrow> guar (k x) d') \<Longrightarrow> guar (bbind m k) d"
  unfolding guar_def by (cases "m d"; cases "fst (m d)") (auto simp: bbind_def intro: R_trans)

lemma guar_bind_others: "relies f \<Longrightarrow> (\<And>d'. R d d' \<Longrightarrow> guar (k ()) d') \<Longrightarrow> guar (bbind (bothers f) k) d"
  by (rule guar_bind) (auto simp: guar_others bothers_def)

lemma after_script_R: "(\<And>x d'. f d = Inr (x, d') \<Longrightarrow> R d d') \<Longrightarrow> R d (after_script f d)"
  by (auto simp: after_script_def split: sum.splits)

lemma guar_eval:
  assumes "\<And>x e d'. e = d\<lparr>bd_faults := tl (bd_faults d)\<rparr> \<Longrightarrow> f e = Inr (x, d') \<Longrightarrow> R e d'"
  shows "guar (beval f) d"
proof -
  have "R d (after_script f (d\<lparr>bd_faults := tl (bd_faults d)\<rparr>))"
    by (rule R_trans [OF R_local(1) [of d "tl (bd_faults d)"]]) (rule after_script_R, rule assms [OF refl])
  then show ?thesis using R_local(1) by (auto simp: guar_def beval_def Let_def split: list.splits command_fault.splits)
qed

lemma guar_run: "guar (beval f) d \<Longrightarrow> guar (brun h f) d"
  unfolding brun_def by (rule guar_bind) (auto split: sum.splits)

lemma bread_result:
  assumes "relies others" and "\<And>x. f (d\<lparr>bd_faults := x\<rparr>) = f d"
  shows "guar (bread others f) d" and "bread others f d = (Inr x, d') \<Longrightarrow> x = f d \<and> R d d'"
proof -
  let ?d = "d\<lparr>bd_faults := tl (bd_faults d)\<rparr>"
  have d: "R d ?d" and o: "R ?d (others ?d)" using assms(1) by (auto simp: relies_def R_local)
  have "R d (others ?d)" by (rule R_trans [OF d o])
  then show "guar (bread others f) d" "bread others f d = (Inr x, d') \<Longrightarrow> x = f d \<and> R d d'"
    using d assms(2) by (auto simp: guar_def bread_def beval_def bbind_def bothers_def bret_def braise_def after_script_def Let_def
        split: list.splits command_fault.splits)
qed

lemma guar_bind_read:
  assumes "relies others" and "\<And>x. f (d\<lparr>bd_faults := x\<rparr>) = f d" and "\<And>d'. R d d' \<Longrightarrow> guar (k (f d)) d'"
  shows "guar (bbind (bread others f) k) d"
  by (rule guar_bind) (use bread_result [OF assms(1,2)] assms(3) in blast)+

text \<open>A guarantee together with a fact about the value returned.\<close>

definition sat :: "'a bcomp \<Rightarrow> broker_db \<Rightarrow> ('a \<Rightarrow> broker_db \<Rightarrow> bool) \<Rightarrow> bool" where
  "sat m d Q \<longleftrightarrow> guar m d \<and> (\<forall>x d'. m d = (Inr x, d') \<longrightarrow> Q x d')"

lemma satD: "sat m d Q \<Longrightarrow> m d = (Inr x, d') \<Longrightarrow> Q x d' \<and> R d d'"
  by (auto simp: sat_def guar_def)

lemma sat_ends: "Q x d \<Longrightarrow> sat (bret x) d Q" "sat (braise e) d Q"
  by (simp_all add: sat_def bret_def braise_def guar_def)

lemma sat_bind: "sat m d P \<Longrightarrow> (\<And>x d'. P x d' \<Longrightarrow> R d d' \<Longrightarrow> sat (k x) d' Q) \<Longrightarrow> sat (bbind m k) d Q"
proof -
  assume m: "sat m d P" and k: "\<And>x d'. P x d' \<Longrightarrow> R d d' \<Longrightarrow> sat (k x) d' Q"
  have "guar (bbind m k) d" by (rule guar_bind) (use m k in \<open>auto simp: sat_def\<close>)
  moreover have "Q y e" if b: "bbind m k d = (Inr y, e)" for y e
  proof (cases "m d")
    case (Pair r d')
    then obtain x where x: "m d = (Inr x, d')" "k x d' = (Inr y, e)" using b by (cases r) (auto simp: bbind_def)
    then show ?thesis using satD [OF m x(1)] k [of x d'] by (simp add: sat_def)
  qed
  ultimately show ?thesis by (simp add: sat_def)
qed

lemma sat_read:
  assumes "relies others" and "\<And>x. f (d\<lparr>bd_faults := x\<rparr>) = f d" and "\<And>d'. R d d' \<Longrightarrow> Q (f d) d'"
  shows "sat (bread others f) d Q"
  using bread_result [OF assms(1,2)] assms(3) by (auto simp: sat_def)

lemma guar_sat: "guar m d \<longleftrightarrow> sat m d (\<lambda>_ _. True)"
  by (simp add: sat_def)

lemma guar_catch: "guar m d \<Longrightarrow> guar (catch_conflict m) d"
  by (auto simp: guar_def catch_conflict_def split: prod.splits sum.splits repo_error.splits)

end

section \<open>Evolution\<close>

text \<open>What a later record of the same job may look like.\<close>

definition succeeds :: "JobRecord \<Rightarrow> JobRecord \<Rightarrow> bool" where
  "succeeds j j' \<longleftrightarrow> j_job_id j' = j_job_id j \<and> j_base_priority j' = j_base_priority j \<and> j_request_sha256 j' = j_request_sha256 j
     \<and> j_enqueue_sequence j' = j_enqueue_sequence j
     \<and> (j_accepted_boundary_crossed j \<longrightarrow> j_accepted_boundary_crossed j' \<and> j_state j' \<noteq> J_QUEUED)
     \<and> (terminal_job (j_state j) \<longrightarrow> j' = j)"

definition wf_job :: "string \<Rightarrow> job_hash \<Rightarrow> bool" where
  "wf_job i jh \<longleftrightarrow> j_job_id (jh_record jh) = i \<and> jh_state jh = j_state (jh_record jh) \<and> jh_state_version jh = j_state_version (jh_record jh)
     \<and> (j_accepted_boundary_crossed (jh_record jh) \<longrightarrow> jh_state jh \<noteq> J_QUEUED) \<and> \<not> jh_accepted_field jh"

definition queued_in :: "broker_db \<Rightarrow> Priority \<Rightarrow> int \<times> string \<Rightarrow> bool" where
  "queued_in d p x \<longleftrightarrow> (\<exists>jh. bd_jobs d (snd x) = Some jh \<and> jh_state jh = J_QUEUED \<and> j_base_priority (jh_record jh) = p
     \<and> j_enqueue_sequence (jh_record jh) = fst x)"

definition wf_db :: "broker_db \<Rightarrow> bool" where
  "wf_db d \<longleftrightarrow> (\<forall>i jh. bd_jobs d i = Some jh \<longrightarrow> wf_job i jh)
     \<and> (\<forall>p. sorted (bd_queues d p) \<and> distinct (bd_queues d p) \<and> (\<forall>x. x \<in> set (bd_queues d p) \<longleftrightarrow> queued_in d p x))
     \<and> (\<forall>k h i. bd_idempotency d k = Some (h, i) \<longrightarrow> (\<exists>jh. bd_jobs d i = Some jh \<and> j_request_sha256 (jh_record jh) = h))
     \<and> (\<forall>l. bd_leader d = Some l \<longrightarrow> lh_token l \<le> bd_fence_counter d)"

definition job_moves :: "broker_db \<Rightarrow> broker_db \<Rightarrow> bool" where
  "job_moves d d' \<longleftrightarrow> (\<forall>i jh. bd_jobs d i = Some jh \<longrightarrow>
     (\<exists>jh'. bd_jobs d' i = Some jh' \<and> (jh' = jh \<or> jh_state_version jh < jh_state_version jh') \<and> succeeds (jh_record jh) (jh_record jh')))"

definition leader_moves :: "broker_db \<Rightarrow> broker_db \<Rightarrow> bool" where
  "leader_moves d d' \<longleftrightarrow> bd_fence_counter d \<le> bd_fence_counter d'
     \<and> (\<forall>l. bd_leader d = Some l \<longrightarrow> (\<exists>l'. bd_leader d' = Some l' \<and> lh_token l \<le> lh_token l' \<and> (lh_token l' = lh_token l \<longrightarrow> lh_owner l' = lh_owner l)))"

definition evolution :: "broker_db \<Rightarrow> broker_db \<Rightarrow> bool" where
  "evolution d d' \<longleftrightarrow> (wf_db d \<longrightarrow> wf_db d' \<and> job_moves d d' \<and> leader_moves d d'
     \<and> (\<forall>k v. bd_idempotency d k = Some v \<longrightarrow> bd_idempotency d' k = Some v))"

lemma succeeds_refl [simp]: "wf_job i jh \<Longrightarrow> succeeds (jh_record jh) (jh_record jh)"
  by (auto simp: succeeds_def wf_job_def)

lemma succeeds_trans: "succeeds a b \<Longrightarrow> succeeds b c \<Longrightarrow> succeeds a c"
  by (auto simp: succeeds_def)

lemma wf_dbD: "wf_db d \<Longrightarrow> bd_jobs d i = Some jh \<Longrightarrow> wf_job i jh"
  by (simp add: wf_db_def)

lemma job_movesD:
  assumes "job_moves d d'" and "bd_jobs d i = Some jh"
  obtains jh' where "bd_jobs d' i = Some jh'" "jh' = jh \<or> jh_state_version jh < jh_state_version jh'" "succeeds (jh_record jh) (jh_record jh')"
  using assms unfolding job_moves_def by blast

lemma job_moves_refl: "wf_db d \<Longrightarrow> job_moves d d"
  by (auto simp: job_moves_def dest: wf_dbD)

lemma job_moves_trans:
  assumes "job_moves a b" and "job_moves b c" shows "job_moves a c"
  unfolding job_moves_def
proof (intro allI impI)
  fix i jh assume "bd_jobs a i = Some jh"
  then obtain jh1 where 1: "bd_jobs b i = Some jh1" "jh1 = jh \<or> jh_state_version jh < jh_state_version jh1" "succeeds (jh_record jh) (jh_record jh1)"
    using assms(1) unfolding job_moves_def by blast
  then obtain jh2 where 2: "bd_jobs c i = Some jh2" "jh2 = jh1 \<or> jh_state_version jh1 < jh_state_version jh2" "succeeds (jh_record jh1) (jh_record jh2)"
    using assms(2) unfolding job_moves_def by blast
  have "jh2 = jh \<or> jh_state_version jh < jh_state_version jh2" using 1(2) 2(2) by auto
  then show "\<exists>jh'. bd_jobs c i = Some jh' \<and> (jh' = jh \<or> jh_state_version jh < jh_state_version jh') \<and> succeeds (jh_record jh) (jh_record jh')"
    using 2(1) succeeds_trans [OF 1(3) 2(3)] by blast
qed

lemma leader_moves_trans:
  assumes "leader_moves a b" and "leader_moves b c" shows "leader_moves a c"
proof -
  have "\<exists>l2. bd_leader c = Some l2 \<and> lh_token l \<le> lh_token l2 \<and> (lh_token l2 = lh_token l \<longrightarrow> lh_owner l2 = lh_owner l)" if a: "bd_leader a = Some l" for l
  proof -
    obtain l1 where 1: "bd_leader b = Some l1" "lh_token l \<le> lh_token l1" "lh_token l1 = lh_token l \<longrightarrow> lh_owner l1 = lh_owner l"
      using assms(1) a unfolding leader_moves_def by blast
    then obtain l2 where 2: "bd_leader c = Some l2" "lh_token l1 \<le> lh_token l2" "lh_token l2 = lh_token l1 \<longrightarrow> lh_owner l2 = lh_owner l1"
      using assms(2) unfolding leader_moves_def by blast
    then show ?thesis using 1(2,3) by (intro exI [of _ l2]) auto
  qed
  then show ?thesis using assms by (auto simp: leader_moves_def)
qed

text \<open>Only these parts matter.\<close>

definition same_core :: "broker_db \<Rightarrow> broker_db \<Rightarrow> bool" where
  "same_core d d' \<longleftrightarrow> bd_jobs d' = bd_jobs d \<and> bd_queues d' = bd_queues d \<and> bd_idempotency d' = bd_idempotency d
     \<and> bd_leader d' = bd_leader d \<and> bd_fence_counter d' = bd_fence_counter d"

lemma wf_db_core: "same_core d d' \<Longrightarrow> wf_db d \<Longrightarrow> wf_db d'"
  by (simp add: same_core_def wf_db_def queued_in_def)

lemma evolution_core: "same_core d d' \<Longrightarrow> evolution d d'"
  using wf_db_core [of d d'] job_moves_refl [of d] by (auto simp: evolution_def job_moves_def leader_moves_def same_core_def)

interpretation ev: rely_guarantee evolution
proof
  show "evolution d d" for d by (simp add: evolution_core same_core_def)
  show "evolution a c" if "evolution a b" "evolution b c" for a b c
    using that job_moves_trans [of a b c] leader_moves_trans [of a b c] by (simp add: evolution_def)
  show "evolution d (d\<lparr>bd_faults := x\<rparr>)" "evolution (d\<lparr>bd_faults := x\<rparr>) d" "evolution d (d\<lparr>bd_notified := y\<rparr>)" for d x y
    by (simp_all add: evolution_core same_core_def)
qed

section \<open>Records read earlier\<close>

text \<open>The record was stored at some earlier moment.\<close>

definition was :: "broker_db \<Rightarrow> JobRecord \<Rightarrow> bool" where
  "was d j \<longleftrightarrow> (\<exists>e jh. wf_db e \<and> evolution e d \<and> bd_jobs e (j_job_id j) = Some jh \<and> jh_record jh = j)"

lemma was_stable: "was d j \<Longrightarrow> evolution d d' \<Longrightarrow> was d' j"
  unfolding was_def by (elim exE conjE) (blast intro: ev.R_trans)

lemma was_stored: "wf_db d \<Longrightarrow> bd_jobs d i = Some jh \<Longrightarrow> was d (jh_record jh)"
  using wf_dbD [of d i jh] by (auto simp: was_def wf_job_def intro!: exI [of _ d])

text \<open>The compare-and-set is exact.\<close>

lemma cas_exact:
  assumes "was d j" and "bd_jobs d (j_job_id j) = Some jh" and "jh_state_version jh = j_state_version j"
  shows "jh_record jh = j"
proof -
  obtain e jh0 where e: "wf_db e" "evolution e d" "bd_jobs e (j_job_id j) = Some jh0" "jh_record jh0 = j" using assms(1) unfolding was_def by blast
  then have "job_moves e d" by (simp add: evolution_def)
  then have "jh = jh0 \<or> jh_state_version jh0 < jh_state_version jh" using e(3) assms(2) by (elim job_movesD) auto
  moreover have "jh_state_version jh0 = j_state_version j" using wf_dbD [OF e(1,3)] e(4) by (simp add: wf_job_def)
  ultimately show ?thesis using assms(3) e(4) by auto
qed

lemma guar_wfI: "(wf_db d \<Longrightarrow> ev.guar m d) \<Longrightarrow> ev.guar m d"
  by (auto simp: ev.guar_def evolution_def)

lemma wf_db_evolution: "wf_db d \<Longrightarrow> evolution d d' \<Longrightarrow> wf_db d'"
  by (simp add: evolution_def)

lemma wf_db_faults [simp]: "wf_db (d\<lparr>bd_faults := x\<rparr>) \<longleftrightarrow> wf_db d"
  by (simp add: wf_db_def queued_in_def)

lemma guar_get:
  assumes "ev.relies others" and "\<And>d'. evolution d d' \<Longrightarrow> ev.guar (k None) d'"
    and "\<And>j d'. evolution d d' \<Longrightarrow> was d' j \<Longrightarrow> j_job_id j = i \<Longrightarrow> ev.guar (k (Some j)) d'"
  shows "ev.guar (bbind (db_get others i) k) d"
proof (rule guar_wfI)
  assume wf: "wf_db d"
  show ?thesis unfolding db_get_def
  proof (rule ev.guar_bind_read [OF assms(1)])
    fix d' assume e: "evolution d d'"
    show "ev.guar (k (map_option jh_record (bd_jobs d i))) d'"
    proof (cases "bd_jobs d i")
      case (Some jh)
      then have "was d' (jh_record jh)" "j_job_id (jh_record jh) = i"
        using was_stable [OF was_stored [OF wf Some] e] wf_dbD [OF wf Some] by (auto simp: wf_job_def)
      then show ?thesis using assms(3) [OF e] Some by simp
    qed (use assms(2) [OF e] in simp)
  qed simp
qed

section \<open>The scripts\<close>

lemma zset_facts [simp]:
  "x \<in> set (zadd s i q) \<longleftrightarrow> x = (s, i) \<or> x \<in> set q \<and> snd x \<noteq> i" "x \<in> set (zrem i q) \<longleftrightarrow> x \<in> set q \<and> snd x \<noteq> i"
  "sorted q \<Longrightarrow> sorted (zadd s i q)" "sorted q \<Longrightarrow> sorted (zrem i q)"
  "distinct q \<Longrightarrow> distinct (zadd s i q)" "distinct q \<Longrightarrow> distinct (zrem i q)"
proof -
  show "sorted (zadd s i q)" "sorted (zrem i q)" if "sorted q"
    using sorted_filter [of "\<lambda>x. x" q "\<lambda>p. snd p \<noteq> i"] that by (simp_all add: zadd_def zrem_def sorted_insort)
qed (auto simp: zadd_def zrem_def set_insort_key distinct_insort)

text \<open>Every change of a job is of this form.\<close>

definition job_write :: "broker_db \<Rightarrow> string \<Rightarrow> job_hash \<Rightarrow> JobRecord \<Rightarrow> broker_db \<Rightarrow> bool" where
  "job_write d i jh j d' \<longleftrightarrow> bd_jobs d i = Some jh \<and> succeeds (jh_record jh) j \<and> j_state_version j = jh_state_version jh + 1
     \<and> (j_accepted_boundary_crossed j \<longrightarrow> j_state j \<noteq> J_QUEUED)
     \<and> bd_jobs d' = (bd_jobs d)(i \<mapsto> jh\<lparr>jh_record := j, jh_state := j_state j, jh_state_version := j_state_version j\<rparr>)
     \<and> bd_queues d' = (bd_queues d)(j_base_priority j :=
          (let q = bd_queues d (j_base_priority j) in if j_state j = J_QUEUED then zadd (j_enqueue_sequence j) i q else zrem i q))
     \<and> bd_idempotency d' = bd_idempotency d \<and> bd_leader d' = bd_leader d \<and> bd_fence_counter d' = bd_fence_counter d"

lemma job_write_queues:
  assumes "job_write d i jh j d'" and "wf_db d"
  shows "sorted (bd_queues d' p) \<and> distinct (bd_queues d' p) \<and> (\<forall>x. x \<in> set (bd_queues d' p) \<longleftrightarrow> queued_in d' p x)"
proof -
  let ?b = "j_base_priority j"
  let ?jh = "jh\<lparr>jh_record := j, jh_state := j_state j, jh_state_version := j_state_version j\<rparr>"
  have jobs: "bd_jobs d i = Some jh" "bd_jobs d' = (bd_jobs d)(i \<mapsto> ?jh)" and s: "j_base_priority (jh_record jh) = ?b"
      "j_enqueue_sequence (jh_record jh) = j_enqueue_sequence j"
    and q: "bd_queues d' p = (if p = ?b then (if j_state j = J_QUEUED then zadd (j_enqueue_sequence j) i (bd_queues d ?b) else zrem i (bd_queues d ?b)) else bd_queues d p)"
    using assms(1) by (auto simp: job_write_def succeeds_def Let_def)
  have wf: "sorted (bd_queues d p)" "distinct (bd_queues d p)" "x \<in> set (bd_queues d p) \<longleftrightarrow> queued_in d p x" for p x
    using assms(2) unfolding wf_db_def by blast+
  have other: "queued_in d' p x \<longleftrightarrow> queued_in d p x" if "snd x \<noteq> i" for x using that jobs(2) by (simp add: queued_in_def)
  have mine: "queued_in d' p x \<longleftrightarrow> j_state j = J_QUEUED \<and> p = ?b \<and> fst x = j_enqueue_sequence j" if "snd x = i" for x
    using that jobs(2) by (auto simp: queued_in_def)
  have left: "x \<notin> set (bd_queues d p)" if "snd x = i" "p \<noteq> ?b" for x using that wf(3) jobs(1) s by (auto simp: queued_in_def)
  have "x \<in> set (bd_queues d' p) \<longleftrightarrow> queued_in d' p x" for x
    using other [of x] mine [of x] left [of x] wf(3) [of x p] unfolding q by (cases "snd x = i"; cases x) auto
  moreover have "sorted (bd_queues d' p)" "distinct (bd_queues d' p)" unfolding q using wf by simp_all
  ultimately show ?thesis by blast
qed

lemma job_write_evolution:
  assumes "job_write d i jh j d'" shows "evolution d d'"
proof (unfold evolution_def, intro impI)
  assume wf: "wf_db d"
  let ?jh = "jh\<lparr>jh_record := j, jh_state := j_state j, jh_state_version := j_state_version j\<rparr>"
  note W = assms [unfolded job_write_def]
  have w: "wf_job i jh" using wf W by (simp add: wf_db_def)
  then have w': "wf_job i ?jh" using W by (simp add: wf_job_def succeeds_def)
  have sha: "j_request_sha256 j = j_request_sha256 (jh_record jh)" using W by (simp add: succeeds_def)
  have "wf_db d'" unfolding wf_db_def
  proof (intro conjI allI impI)
    show "wf_job k h" if "bd_jobs d' k = Some h" for k h using that W w' wf by (auto simp: wf_db_def split: if_splits)
    show "\<exists>jh. bd_jobs d' k = Some jh \<and> j_request_sha256 (jh_record jh) = h" if "bd_idempotency d' key = Some (h, k)" for key h k
    proof -
      have "bd_idempotency d key = Some (h, k)" using that W by simp
      then obtain jh0 where "bd_jobs d k = Some jh0" "j_request_sha256 (jh_record jh0) = h" using wf unfolding wf_db_def by blast
      then show ?thesis using W sha by (cases "k = i") auto
    qed
    show "lh_token l \<le> bd_fence_counter d'" if "bd_leader d' = Some l" for l using that W wf by (simp add: wf_db_def)
  qed (use job_write_queues [OF assms wf] in blast)+
  moreover have "job_moves d d'" unfolding job_moves_def
  proof (intro allI impI)
    fix k h assume k: "bd_jobs d k = Some h"
    show "\<exists>jh'. bd_jobs d' k = Some jh' \<and> (jh' = h \<or> jh_state_version h < jh_state_version jh') \<and> succeeds (jh_record h) (jh_record jh')"
      using W k wf_dbD [OF wf k] by (cases "k = i") auto
  qed
  ultimately show "wf_db d' \<and> job_moves d d' \<and> leader_moves d d' \<and> (\<forall>k v. bd_idempotency d k = Some v \<longrightarrow> bd_idempotency d' k = Some v)"
    using W by (auto simp: leader_moves_def)
qed

lemma zrem_absent: "wf_db d \<Longrightarrow> bd_jobs d i = Some jh \<Longrightarrow> jh_state jh \<noteq> J_QUEUED \<Longrightarrow> zrem i (bd_queues d p) = bd_queues d p"
  unfolding zrem_def by (rule filter_True) (auto simp: wf_db_def queued_in_def)

lemma submit_evolution:
  assumes "submit_script key stored d = Inr (x, d')" and "j_state stored = J_QUEUED" and "\<not> j_accepted_boundary_crossed stored"
  shows "evolution d d'"
proof (cases "bd_idempotency d key")
  case (Some v)
  then show ?thesis using assms(1) by (auto simp: submit_script_def split: prod.splits if_splits)
next
  case None
  let ?i = "j_job_id stored" and ?p = "j_base_priority stored"
  have new: "bd_jobs d ?i = None" and d': "bd_jobs d' = (bd_jobs d)(?i \<mapsto> \<lparr>jh_record = stored, jh_state = J_QUEUED, jh_state_version = j_state_version stored, jh_accepted_field = False\<rparr>)"
      "bd_queues d' = (bd_queues d)(?p := zadd (j_enqueue_sequence stored) ?i (bd_queues d ?p))"
      "bd_idempotency d' = (bd_idempotency d)(key \<mapsto> (j_request_sha256 stored, ?i))" "bd_leader d' = bd_leader d" "bd_fence_counter d' = bd_fence_counter d"
    using assms(1) None by (auto simp: submit_script_def Let_def db_updates split: if_splits)
  show ?thesis
  proof (unfold evolution_def, intro impI)
    assume wf: "wf_db d"
    have q: "sorted (bd_queues d p)" "distinct (bd_queues d p)" "x \<in> set (bd_queues d p) \<longleftrightarrow> queued_in d p x" for p x
      using wf unfolding wf_db_def by blast+
    have "x \<in> set (bd_queues d' p) \<longleftrightarrow> queued_in d' p x" for p x
      using q(3) [of x p] new unfolding d' queued_in_def by (cases x) (auto simp: d')
    then have queues: "sorted (bd_queues d' p) \<and> distinct (bd_queues d' p) \<and> (\<forall>x. x \<in> set (bd_queues d' p) \<longleftrightarrow> queued_in d' p x)" for p
      using q by (simp add: d')
    have "wf_db d'" unfolding wf_db_def
    proof (intro conjI allI impI)
      show "wf_job k h" if "bd_jobs d' k = Some h" for k h using that assms(2,3) wf by (auto simp: d' wf_db_def wf_job_def [of "?i"] split: if_splits)
      show "\<exists>jh. bd_jobs d' k = Some jh \<and> j_request_sha256 (jh_record jh) = h" if "bd_idempotency d' c = Some (h, k)" for c h k
      proof (cases "c = key")
        case False
        then have "bd_idempotency d c = Some (h, k)" using that by (simp add: d')
        then obtain jh where "bd_jobs d k = Some jh" "j_request_sha256 (jh_record jh) = h" using wf unfolding wf_db_def by blast
        then show ?thesis using new by (auto simp: d')
      qed (use that in \<open>auto simp: d'\<close>)
      show "lh_token l \<le> bd_fence_counter d'" if "bd_leader d' = Some l" for l using that wf by (simp add: d' wf_db_def)
    qed (use queues in blast)+
    moreover have "job_moves d d'" unfolding job_moves_def d'
    proof (intro allI impI)
      fix k h assume k: "bd_jobs d k = Some h"
      then have "k \<noteq> ?i" using new by auto
      then show "\<exists>jh'. ((bd_jobs d)(?i \<mapsto> \<lparr>jh_record = stored, jh_state = J_QUEUED, jh_state_version = j_state_version stored, jh_accepted_field = False\<rparr>)) k = Some jh'
          \<and> (jh' = h \<or> jh_state_version h < jh_state_version jh') \<and> succeeds (jh_record h) (jh_record jh')"
        using k wf_dbD [OF wf k] by simp
    qed
    ultimately show "wf_db d' \<and> job_moves d d' \<and> leader_moves d d' \<and> (\<forall>k v. bd_idempotency d k = Some v \<longrightarrow> bd_idempotency d' k = Some v)"
      using None by (auto simp: leader_moves_def d')
  qed
qed

lemma acquire_evolution:
  assumes "acquire_leader_script owner now ttl d = Inr (x, d')"
  shows "evolution d d'"
proof -
  let ?t = "bd_fence_counter d + 1"
  have d': "d' = d \<or> d' = d\<lparr>bd_fence_counter := ?t, bd_leader := Some \<lparr>lh_owner = owner, lh_token = ?t, lh_expires_at = now + ttl\<rparr>\<rparr>"
    using assms by (cases "bd_leader d") (auto simp: acquire_leader_script_def Let_def split: if_splits)
  have "evolution d (d\<lparr>bd_fence_counter := ?t, bd_leader := Some \<lparr>lh_owner = owner, lh_token = ?t, lh_expires_at = e\<rparr>\<rparr>)" for e
  proof (unfold evolution_def, intro impI conjI)
    assume wf: "wf_db d"
    then show "wf_db (d\<lparr>bd_fence_counter := ?t, bd_leader := Some \<lparr>lh_owner = owner, lh_token = ?t, lh_expires_at = e\<rparr>\<rparr>)"
      by (simp add: wf_db_def queued_in_def)
    show "job_moves d (d\<lparr>bd_fence_counter := ?t, bd_leader := Some \<lparr>lh_owner = owner, lh_token = ?t, lh_expires_at = e\<rparr>\<rparr>)"
      using job_moves_refl [OF wf] by (simp add: job_moves_def)
    have "lh_token l \<le> bd_fence_counter d" if "bd_leader d = Some l" for l using wf that by (simp add: wf_db_def)
    then show "leader_moves d (d\<lparr>bd_fence_counter := ?t, bd_leader := Some \<lparr>lh_owner = owner, lh_token = ?t, lh_expires_at = e\<rparr>\<rparr>)"
      by (fastforce simp: leader_moves_def)
  qed simp
  then show ?thesis using d' by auto
qed

lemma renew_evolution: "renew_leader_script owner token now ttl d = Inr (x, d') \<Longrightarrow> evolution d d'"
  using job_moves_refl [of d] by (auto simp: renew_leader_script_def leads_def evolution_def wf_db_def queued_in_def job_moves_def leader_moves_def split: if_splits option.splits)

text \<open>The changes of jobs.\<close>

lemma cas_job_write:
  assumes "was d j" and "wf_db d" and "bd_jobs d (j_job_id j) = Some jh" and "jh_state_version jh = j_state_version j" and "succeeds j j'"
    and "j_state_version j' = j_state_version j + 1" and "j_accepted_boundary_crossed j' \<longrightarrow> j_state j' \<noteq> J_QUEUED"
    and "bd_jobs d' = (bd_jobs d)(j_job_id j \<mapsto> jh\<lparr>jh_record := j', jh_state := j_state j', jh_state_version := j_state_version j'\<rparr>)"
    and "bd_queues d' = (bd_queues d)(j_base_priority j :=
          (let q = bd_queues d (j_base_priority j) in if j_state j' = J_QUEUED then zadd (j_enqueue_sequence j) (j_job_id j) q else zrem (j_job_id j) q))"
    and "bd_idempotency d' = bd_idempotency d" and "bd_leader d' = bd_leader d" and "bd_fence_counter d' = bd_fence_counter d"
  shows "evolution d d'"
proof (rule job_write_evolution)
  have "jh_record jh = j" using cas_exact [OF assms(1,3,4)] .
  then show "job_write d (j_job_id j) jh j' d'" using assms(3-) by (auto simp: job_write_def succeeds_def Let_def)
qed

lemma reserve_evolution:
  assumes "reserve_script a d = Inr (x, d')" and "wf_db d" and "was d j" and "ra_selected a = j\<lparr>j_effective_priority := pr\<rparr>" and "j_state j = J_QUEUED"
    and "ra_claimed a = claim_job (ra_selected a) m aid now pr'" and "\<not> j_accepted_boundary_crossed j"
  shows "evolution d d'"
proof -
  obtain mh configured jh where jh: "bd_jobs d (j_job_id j) = Some jh" "jh_state_version jh = j_state_version j"
    and d': "d' = put_member_hash (m_name (ra_member a)) (reserved_hash mh (ra_reserved a) (int (length (List.insert (at_attempt_id (ra_attempt a)) (bd_leases d (m_name (ra_member a)))))) configured)
        (put_leases (m_name (ra_member a)) (List.insert (at_attempt_id (ra_attempt a)) (bd_leases d (m_name (ra_member a))))
        (put_attempt (at_attempt_id (ra_attempt a)) \<lparr>ah_record = ra_attempt a, ah_state = A_RESERVED, ah_job_id = j_job_id j\<rparr> None
        (write_job (j_job_id j) jh (ra_claimed a) J_CLAIMED (j_state_version j + 1) (put_queue (j_base_priority j) (zrem (j_job_id j) (bd_queues d (j_base_priority j))) d))))"
    using assms(1,4) by (auto simp: reserve_script_def Let_def split: if_splits option.splits)
  show ?thesis
    by (rule cas_job_write [OF assms(3,2) jh, of "ra_claimed a"])
      (use assms(4-7) in \<open>auto simp: d' db_updates claim_job_def succeeds_def terminal_job_def Let_def\<close>)
qed

lemma cancel_evolution:
  assumes "db_cancel_script j (cancel_job j t) i d = Inr (x, d')" and "wf_db d" and "was d j" and "j_job_id j = i" and "j_state j = J_QUEUED" and "\<not> j_accepted_boundary_crossed j"
  shows "evolution d d'"
proof (cases x)
  case True
  obtain jh where jh: "bd_jobs d (j_job_id j) = Some jh" "jh_state_version jh = j_state_version j"
    and d': "d' = write_job i jh (cancel_job j t) J_CANCELLED (j_state_version (cancel_job j t)) (put_queue (j_base_priority j) (zrem i (bd_queues d (j_base_priority j))) d)"
    using assms(1,4) True by (auto simp: db_cancel_script_def Let_def split: if_splits option.splits)
  show ?thesis
    by (rule cas_job_write [OF assms(3,2) jh, of "cancel_job j t"])
      (use assms(4-6) in \<open>auto simp: d' db_updates cancel_job_def succeeds_def terminal_job_def Let_def\<close>)
next
  case False
  then show ?thesis using assms(1) by (auto simp: db_cancel_script_def Let_def split: if_splits option.splits)
qed

lemma release_key_core [simp]:
  "bd_jobs (release_key a d) = bd_jobs d" "bd_queues (release_key a d) = bd_queues d" "bd_idempotency (release_key a d) = bd_idempotency d"
  "bd_leader (release_key a d) = bd_leader d" "bd_fence_counter (release_key a d) = bd_fence_counter d"
  by (simp_all add: release_key_def db_updates split: member_key.splits option.splits)

text \<open>A claimed job that has not been accepted goes back to its queue.\<close>

lemma requeue_succeeds:
  assumes "j_state j \<in> {J_CLAIMED, J_ACCEPTED, J_IN_FLIGHT}" and "\<not> j_accepted_boundary_crossed j"
  shows "succeeds j (requeue_job j reason)"
  using assms by (auto simp: succeeds_def requeue_job_def terminal_job_def)

lemma requeue_evolution:
  assumes "requeue_script a d = Inr (x, d')" and "wf_db d" and "was d (qa_current a)" and "qa_queued a = requeue_job (qa_current a) reason"
    and "j_state (qa_current a) \<in> {J_CLAIMED, J_ACCEPTED, J_IN_FLIGHT}" and "\<not> j_accepted_boundary_crossed (qa_current a)"
  shows "evolution d d'"
proof -
  let ?j = "qa_current a"
  obtain jh ah where jh: "bd_jobs d (j_job_id ?j) = Some jh" "jh_state_version jh = j_state_version ?j"
    and d': "d' = put_attempt (qa_attempt_id a) (ah\<lparr>ah_record := qa_attempt a, ah_state := A_FAILED\<rparr>) (Some (bd_clock d + qa_retention a)) (release_key a
        (write_job (j_job_id ?j) jh (qa_queued a) J_QUEUED (j_state_version (qa_queued a))
        (put_queue (j_base_priority ?j) (zadd (j_enqueue_sequence ?j) (j_job_id ?j) (bd_queues d (j_base_priority ?j))) d)))"
    using assms(1) by (auto simp: requeue_script_def Let_def split: if_splits option.splits)
  show ?thesis
    by (rule cas_job_write [OF assms(3,2) jh, of "qa_queued a"])
      (use assms(4) requeue_succeeds [OF assms(5,6)] assms(6) in \<open>simp_all add: d' db_updates requeue_job_def Let_def\<close>)
qed

text \<open>What the dispatcher may write over a record it has read: one version later.\<close>

definition db_update :: "JobRecord \<Rightarrow> JobRecord \<Rightarrow> bool" where
  "db_update old new \<longleftrightarrow> dispatch_update old new \<and> j_enqueue_sequence new = j_enqueue_sequence old \<and> j_state_version new = j_state_version old + 1"

lemma replace_evolution:
  assumes "replace_script rt job att d = Inr (x, d')" and "wf_db d" and "was d old" and "db_update old job"
  shows "evolution d d'"
proof -
  have id: "j_job_id job = j_job_id old" and v: "j_state_version job = j_state_version old + 1" using assms(4) by (auto simp: db_update_def dispatch_update_def)
  obtain jh where jh: "bd_jobs d (j_job_id old) = Some jh" "jh_state_version jh = j_state_version old"
    and d': "bd_jobs d' = (bd_jobs d)(j_job_id old \<mapsto> jh\<lparr>jh_record := job, jh_state := j_state job, jh_state_version := j_state_version job\<rparr>)"
      "bd_queues d' = bd_queues d" "bd_idempotency d' = bd_idempotency d" "bd_leader d' = bd_leader d" "bd_fence_counter d' = bd_fence_counter d"
    using assms(1) id v by (auto simp: replace_script_def db_updates Let_def split: if_splits option.splits)
  have "jh_record jh = old" by (rule cas_exact [OF assms(3) jh])
  then have "jh_state jh \<noteq> J_QUEUED" using wf_dbD [OF assms(2) jh(1)] assms(4) by (auto simp: wf_job_def db_update_def dispatch_update_def)
  then have q: "zrem (j_job_id old) (bd_queues d (j_base_priority old)) = bd_queues d (j_base_priority old)" by (rule zrem_absent [OF assms(2) jh(1)])
  show ?thesis
    by (rule cas_job_write [OF assms(3,2) jh, of job])
      (use assms(4) d' q in \<open>auto simp: db_update_def dispatch_update_def succeeds_def terminal_job_def Let_def\<close>)
qed

lemma repair_evolution:
  assumes "repair_script rt owner fence j repaired i att d = Inr (x, d')" and "wf_db d" and "was d j" and "j_job_id j = i"
    and "j_state j \<noteq> J_QUEUED" and "\<not> terminal_job (j_state j)"
    and "repaired = unknown_outcome j \<or> repaired = requeue_job j reason \<and> \<not> j_accepted_boundary_crossed j"
  shows "evolution d d'"
proof (cases "x = Repaired")
  case True
  obtain jh where jh: "bd_jobs d (j_job_id j) = Some jh" "jh_state_version jh = j_state_version j"
    and d': "bd_jobs d' = (bd_jobs d)(i \<mapsto> jh\<lparr>jh_record := repaired, jh_state := j_state repaired, jh_state_version := j_state_version repaired\<rparr>)"
      "bd_queues d' = (if j_state repaired = J_QUEUED then (bd_queues d)(j_base_priority j := zadd (j_enqueue_sequence repaired) i (bd_queues d (j_base_priority j))) else bd_queues d)"
      "bd_idempotency d' = bd_idempotency d" "bd_leader d' = bd_leader d" "bd_fence_counter d' = bd_fence_counter d"
    using assms(1,4) True by (auto simp: repair_script_def db_updates Let_def split: if_splits option.splits)
  have "jh_record jh = j" by (rule cas_exact [OF assms(3) jh])
  then have "jh_state jh \<noteq> J_QUEUED" using wf_dbD [OF assms(2) jh(1)] assms(5) by (auto simp: wf_job_def)
  then have q: "zrem i (bd_queues d (j_base_priority j)) = bd_queues d (j_base_priority j)" using zrem_absent [OF assms(2) jh(1)] assms(4) by simp
  have s: "succeeds j repaired" using assms(5-7) by (auto simp: succeeds_def unknown_outcome_def requeue_job_def)
  show ?thesis
    by (rule cas_job_write [OF assms(3,2) jh s])
      (use assms(4,7) d' q in \<open>auto simp: unknown_outcome_def requeue_job_def Let_def\<close>)
next
  case False
  then show ?thesis using assms(1) by (auto simp: repair_script_def Let_def split: if_splits option.splits)
qed

lemma member_scripts_evolution:
  "refresh_script m st acc fr d = Inr (y, d') \<Longrightarrow> evolution d d'" "repair_fence_script n v seen m d = Inr (y', d') \<Longrightarrow> evolution d d'"
  "drain_script mode m m' claimed aid d = Inr (y'', d') \<Longrightarrow> evolution d d'" "evolution d (put_leases n ls d)"
  by (rule evolution_core; auto simp: refresh_script_def repair_fence_script_def drain_script_def same_core_def db_updates Let_def split: if_splits option.splits)+

section \<open>The methods\<close>

lemma guar_script: "(\<And>x e d'. (wf_db d \<Longrightarrow> wf_db e) \<Longrightarrow> (\<And>j. was d j \<Longrightarrow> was e j) \<Longrightarrow> f e = Inr (x, d') \<Longrightarrow> evolution e d') \<Longrightarrow> ev.guar (beval f) d"
  using was_stable [of d] ev.R_local(1) [of d] by (intro ev.guar_eval) auto

lemmas guar_run_script = ev.guar_run [OF guar_script]

text \<open>Reads alone.\<close>

lemma attempt_at_faults [simp]: "attempt_at (d\<lparr>bd_faults := x\<rparr>) a = attempt_at d a"
  by (simp add: attempt_at_def split: option.splits)

lemma guar_reads:
  assumes "ev.relies others"
  shows "ev.guar (db_get others i) d" "ev.guar (db_get_attempt others aid) d" "ev.guar (hget_member others n f) d" "ev.guar (db_get_member others n) d"
    "ev.guar (bread others (\<lambda>d. bd_leases d n)) d" "ev.guar (bread others (\<lambda>d. int (length (bd_leases d n)))) d"
    "ev.guar (bread others (\<lambda>d. map_option mh_record (bd_members d n))) d"
proof -
  show m: "ev.guar (bread others (\<lambda>d. map_option mh_record (bd_members d n))) d" by (rule ev.bread_result(1) [OF assms]) simp
  show "ev.guar (db_get_member others n) d" unfolding db_get_member_def
    by (rule ev.guar_bind [OF m]) (auto split: option.splits stored_member.splits)
qed (unfold db_get_def db_get_attempt_def hget_member_def, (rule ev.bread_result(1) [OF assms], simp)+)

lemma guar_leadership: "ev.guar (db_acquire_leadership owner now ttl) d" "ev.guar (db_renew_leadership owner tok now ttl) d"
  unfolding db_acquire_leadership_def db_renew_leadership_def
  by (auto intro!: guar_run_script dest: acquire_evolution renew_evolution)

lemma guar_bind_get_last: "ev.guar (bbind (db_get id i) (\<lambda>r. case r of None \<Rightarrow> braise e | Some j \<Rightarrow> bret (g j))) d"
    "ev.guar (bbind (db_get id i) (\<lambda>r. bret (h r))) d'"
  by (rule guar_get; simp)+

lemma guar_submit:
  assumes "ev.relies others" and "j_state job = J_QUEUED" and "\<not> j_accepted_boundary_crossed job"
  shows "ev.guar (db_submit digest others job scope) d"
  unfolding db_submit_def Let_def
proof (rule ev.guar_bind)
  show "ev.guar (brun h (submit_script key (job\<lparr>j_effective_priority := pr\<rparr>))) d" for h key pr
    by (rule guar_run_script) (use assms(2,3) in \<open>auto dest: submit_evolution\<close>)
  fix x d'
  show "ev.guar (case x of Inl prior \<Rightarrow> bbind (bothers others) (\<lambda>_. bbind (db_get id prior) (\<lambda>existing. case existing of None \<Rightarrow> braise RepositoryUnavailable | Some j \<Rightarrow> bret j))
      | Inr _ \<Rightarrow> bret (job\<lparr>j_effective_priority := pr\<rparr>)) d'" for pr
    using guar_bind_get_last(1) [where g = "\<lambda>j. j"] by (auto split: sum.splits intro!: ev.guar_bind_others [OF assms(1)])
qed

text \<open>The queues. A head that was found is a queued job read at some moment.\<close>

definition found :: "broker_db \<Rightarrow> JobRecord \<Rightarrow> bool" where
  "found d j \<longleftrightarrow> was d j \<and> j_state j = J_QUEUED \<and> \<not> j_accepted_boundary_crossed j"

lemma was_queued: "was d j \<Longrightarrow> j_state j = J_QUEUED \<Longrightarrow> found d j"
  unfolding found_def was_def by (auto dest: wf_dbD simp: wf_job_def)

lemma found_stable: "found d j \<Longrightarrow> evolution d d' \<Longrightarrow> found d' j"
  using was_stable by (auto simp: found_def)

lemma sat_get:
  assumes "ev.relies others" and "wf_db d"
  shows "ev.sat (db_get others i) d (\<lambda>r d'. \<forall>j. r = Some j \<longrightarrow> was d' j \<and> j_job_id j = i)"
  unfolding db_get_def
proof (rule ev.sat_read [OF assms(1)])
  fix d' assume e: "evolution d d'"
  show "\<forall>j. map_option jh_record (bd_jobs d i) = Some j \<longrightarrow> was d' j \<and> j_job_id j = i"
    using wf_dbD [OF assms(2)] by (auto simp: wf_job_def intro: was_stable [OF was_stored [OF assms(2)] e])
qed simp

lemma sat_queue_head:
  assumes "\<And>n. ev.relies (others n)" and "wf_db d"
  shows "ev.sat (queue_head others p) d (\<lambda>r d'. \<forall>j. r = Some j \<longrightarrow> found d' j)"
  unfolding queue_head_def
proof (rule ev.sat_bind [OF ev.sat_read [OF assms(1), where Q = "\<lambda>_ _. True"]])
  fix row d1 assume "evolution d d1"
  then have wf: "wf_db d1" using assms(2) by (rule wf_db_evolution [rotated])
  show "ev.sat (case row of None \<Rightarrow> bret None | Some i \<Rightarrow> bbind (db_get (others 1) i) (\<lambda>job. case job of None \<Rightarrow> braise RepositoryUnavailable
      | Some j \<Rightarrow> if j_state j \<noteq> J_QUEUED then bbind (bread (others 2) (\<lambda>d. i \<in> snd ` set (bd_queues d p))) (\<lambda>still_queued. if \<not> still_queued then bret None else braise RepositoryUnavailable)
         else bret (Some j))) d1 (\<lambda>r d'. \<forall>j. r = Some j \<longrightarrow> found d' j)"
  proof (cases row)
    case (Some i)
    have "ev.sat (bbind (db_get (others 1) i) (\<lambda>job. case job of None \<Rightarrow> braise RepositoryUnavailable
      | Some j \<Rightarrow> if j_state j \<noteq> J_QUEUED then bbind (bread (others 2) (\<lambda>d. i \<in> snd ` set (bd_queues d p))) (\<lambda>still_queued. if \<not> still_queued then bret None else braise RepositoryUnavailable)
         else bret (Some j))) d1 (\<lambda>r d'. \<forall>j. r = Some j \<longrightarrow> found d' j)"
      by (rule ev.sat_bind [OF sat_get [OF assms(1) wf]])
        (auto split: option.splits intro!: ev.sat_ends ev.sat_bind [OF ev.sat_read [OF assms(1), where Q = "\<lambda>_ _. True"]] was_queued)
    then show ?thesis using Some by simp
  qed (simp add: ev.sat_ends)
qed simp_all

lemma sat_peek:
  assumes "\<And>q n. ev.relies (others q n)" and "wf_db d"
  shows "ev.sat (db_peek_next aging others now) d (\<lambda>r d'. \<forall>s. r = Some s \<longrightarrow> (\<exists>j. found d' j \<and> s = j\<lparr>j_effective_priority := aged aging now j\<rparr>))"
  unfolding db_peek_next_def
proof (rule ev.sat_bind [OF sat_queue_head [OF assms]])
  fix h0 d1 assume h0: "\<forall>j. h0 = Some j \<longrightarrow> found d1 j" and e1: "evolution d d1"
  note wf1 = wf_db_evolution [OF assms(2) e1]
  show "ev.sat (bbind (queue_head (others NORMAL) NORMAL) (\<lambda>h1. bbind (queue_head (others BACKGROUND) BACKGROUND) (\<lambda>h2.
      bret (select_head aging now (concat (map (case_option [] (\<lambda>j. [j])) [h0, h1, h2])))))) d1
    (\<lambda>r d'. \<forall>s. r = Some s \<longrightarrow> (\<exists>j. found d' j \<and> s = j\<lparr>j_effective_priority := aged aging now j\<rparr>))"
  proof (rule ev.sat_bind [OF sat_queue_head [OF assms(1) wf1]])
    fix h1 d2 assume h1: "\<forall>j. h1 = Some j \<longrightarrow> found d2 j" and e2: "evolution d1 d2"
    show "ev.sat (bbind (queue_head (others BACKGROUND) BACKGROUND) (\<lambda>h2. bret (select_head aging now (concat (map (case_option [] (\<lambda>j. [j])) [h0, h1, h2]))))) d2
      (\<lambda>r d'. \<forall>s. r = Some s \<longrightarrow> (\<exists>j. found d' j \<and> s = j\<lparr>j_effective_priority := aged aging now j\<rparr>))"
    proof (rule ev.sat_bind [OF sat_queue_head [OF assms(1) wf_db_evolution [OF wf1 e2]]], rule ev.sat_ends, intro allI impI)
      fix h2 d3 s assume h2: "\<forall>j. h2 = Some j \<longrightarrow> found d3 j" and e3: "evolution d2 d3"
        and s: "select_head aging now (concat (map (case_option [] (\<lambda>j. [j])) [h0, h1, h2])) = Some s"
      let ?hs = "concat (map (case_option [] (\<lambda>j. [j])) [h0, h1, h2])" and ?k = "\<lambda>j. (aged aging now j, j_enqueue_sequence j)"
      have ne: "?hs \<noteq> []" and sel: "s = (arg_min_list ?k ?hs)\<lparr>j_effective_priority := aged aging now (arg_min_list ?k ?hs)\<rparr>"
        using s by (auto simp: select_head_def Let_def simp del: concat.simps list.map split: if_splits)
      have "found d3 j" if "j \<in> set ?hs" for j
        using that h0 h1 h2 by (auto split: option.splits intro: found_stable [OF _ e3] found_stable [OF found_stable [OF _ e2] e3])
      then show "\<exists>j. found d3 j \<and> s = j\<lparr>j_effective_priority := aged aging now j\<rparr>" using sel arg_min_list_in [OF ne, of ?k] by blast
    qed
  qed
qed

lemma guar_reserve_candidates:
  assumes "\<And>n. ev.relies (others n)" and "found d j" and "s = j\<lparr>j_effective_priority := pr\<rparr>"
  shows "ev.guar (reserve_candidates others (\<lambda>m aid. reserve_args_of s m aid now owner token url lnow) seen cs) d"
  using assms(2)
proof (induction cs arbitrary: seen d)
  case (Cons c cs)
  obtain m aid where c: "c = (m, aid)" by (cases c)
  let ?a = "reserve_args_of s m aid now owner token url lnow"
  have e: "ev.guar (beval (reserve_script ?a)) d"
  proof (rule guar_wfI, rule guar_script)
    fix x e d' assume "wf_db d" "wf_db d \<Longrightarrow> wf_db e" "\<And>j. was d j \<Longrightarrow> was e j" "reserve_script ?a e = Inr (x, d')"
    then show "evolution e d'" using Cons.prems assms(3)
      by (intro reserve_evolution [of ?a e x d' j pr m aid now]) (auto simp: found_def reserve_args_of_def)
  qed
  have "ev.guar (bbind (bothers (others (length cs))) (\<lambda>_. reserve_candidates others (\<lambda>m aid. reserve_args_of s m aid now owner token url lnow) True cs)) d1"
    if "evolution d d1" for d1
    by (rule ev.guar_bind_others [OF assms(1)], rule Cons.IH, rule found_stable [OF found_stable [OF Cons.prems that]])
  then show ?case using c e by (auto simp: Let_def split: option.splits sum.splits intro!: ev.guar_bind)
qed simp

lemma guar_reserve:
  assumes "\<And>q n. ev.relies (others q n)" and "\<And>n. ev.relies (others' n)"
  shows "ev.guar (db_reserve_next aging others others' uuid now ms req owner token url lnow) d"
proof (rule guar_wfI)
  assume wf: "wf_db d"
  show ?thesis unfolding db_reserve_next_def ev.guar_sat
  proof (rule ev.sat_bind [OF sat_peek [OF assms(1) wf]])
    fix r d' assume r: "\<forall>s. r = Some s \<longrightarrow> (\<exists>j. found d' j \<and> s = j\<lparr>j_effective_priority := aged aging now j\<rparr>)"
    then show "ev.sat (case r of None \<Rightarrow> bret None | Some j \<Rightarrow> let candidates = filter (\<lambda>m. m_accepting m \<and> compatible req m) ms in
        reserve_candidates others' (\<lambda>m aid. reserve_args_of j m aid now owner token url lnow) False (zip candidates (map uuid [0..<length candidates]))) d' (\<lambda>_ _. True)"
      by (cases r) (auto simp: ev.guar_sat [symmetric] Let_def intro!: guar_reserve_candidates [OF assms(2)])
  qed
qed

lemma guar_cancel:
  assumes "\<And>n. ev.relies (others n)"
  shows "ev.guar (db_cancel_queued others i t) d"
  unfolding db_cancel_queued_def
proof (rule guar_get [OF assms], simp, unfold option.case)
  fix j d' assume j: "evolution d d'" "was d' j" "j_job_id j = i"
  show "ev.guar (if j_state j \<noteq> J_QUEUED then bret j else bbind (brun h (db_cancel_script j (cancel_job j t) i)) (\<lambda>hit.
      if \<not> hit then bbind (bothers (others 1)) (\<lambda>_. bbind (db_get id i) (\<lambda>r. bret (case r of None \<Rightarrow> j | Some j \<Rightarrow> j)))
      else bbind (notify (j_job_id j)) (\<lambda>_. bret (cancel_job j t)))) d'" for h
  proof (cases "j_state j = J_QUEUED")
    case True
    have q: "\<not> j_accepted_boundary_crossed j" using was_queued [OF j(2) True] by (simp add: found_def)
    have "ev.guar (brun h (db_cancel_script j (cancel_job j t) i)) d'"
      by (rule guar_wfI, rule guar_run_script) (use cancel_evolution j q True in blast)
    then show ?thesis using True by (auto intro!: ev.guar_bind ev.guar_bind_others [OF assms] guar_reads)
  qed simp
qed

lemma guar_requeue_commit:
  assumes "ev.relies others" and "was d j" and "j_state j \<in> {J_CLAIMED, J_ACCEPTED, J_IN_FLIGHT}" and "\<not> j_accepted_boundary_crossed j"
  shows "ev.guar (requeue_commit rt others reason t j att) d"
  unfolding requeue_commit_def Let_def
proof (rule ev.guar_bind)
  fix mem d1 assume e: "evolution d d1"
  show "ev.guar (bbind (brun requeue_handler (requeue_script \<lparr>qa_current = j, qa_queued = requeue_job j reason, qa_key = k,
      qa_member = mm, qa_attempt_id = aid, qa_attempt = a, qa_retention = rt\<rparr>)) (\<lambda>_. bret (requeue_job j reason))) d1" for k mm aid a
  proof (rule ev.guar_bind, rule guar_wfI, rule guar_run_script)
    let ?a = "\<lparr>qa_current = j, qa_queued = requeue_job j reason, qa_key = k, qa_member = mm, qa_attempt_id = aid, qa_attempt = a, qa_retention = rt\<rparr>"
    fix x e d3 assume "wf_db d1" "wf_db d1 \<Longrightarrow> wf_db e" "\<And>j. was d1 j \<Longrightarrow> was e j" "requeue_script ?a e = Inr (x, d3)"
    then show "evolution e d3" using assms(3,4) was_stable [OF assms(2) \<open>evolution d d1\<close>] by (intro requeue_evolution [of ?a e x d3 reason]) auto
  qed simp
qed (simp add: guar_reads [OF assms(1)])

lemma guar_requeue:
  assumes "\<And>n. ev.relies (others n)"
  shows "ev.guar (db_requeue_claim rt others i reason t) d"
  unfolding db_requeue_claim_def
  by (rule guar_get [OF assms])
    (auto split: option.splits intro!: ev.guar_bind guar_reads [OF assms] guar_requeue_commit [OF assms] intro: was_stable)

lemma guar_replace:
  assumes "ev.relies others" and "was d old" and "db_update old job"
  shows "ev.guar (db_replace_job rt others job) d"
proof -
  have s: "ev.guar (brun job_handler (replace_script rt job att)) d1" if "evolution d d1" for att d1
    by (rule guar_wfI, rule guar_run_script) (use replace_evolution [OF _ _ _ assms(3)] was_stable [OF assms(2) that] in blast)
  have a: "ev.guar (attempt_for_job others job) d" unfolding attempt_for_job_def
    by (auto split: option.splits intro!: ev.guar_bind guar_reads [OF assms(1)])
  show ?thesis unfolding db_replace_job_def by (auto intro!: ev.guar_bind [OF a] ev.guar_bind s)
qed

lemma guar_reconcile:
  assumes "\<And>n. ev.relies (others n)"
  shows "ev.guar (db_reconcile_dead_job rt others i owner fence) d"
proof -
  have c: "ev.guar (reconcile_commit rt (others 2) i owner fence j a) d1"
    if j: "was d1 j" "j_job_id j = i" "j_state j \<noteq> J_QUEUED" "\<not> terminal_job (j_state j)" for d1 j a i
  proof -
    have r: "repaired_job j = unknown_outcome j \<or> repaired_job j = requeue_job j PRE_ACCEPTANCE_REQUEUE \<and> \<not> j_accepted_boundary_crossed j"
      by (simp add: repaired_job_def post_acceptance_def)
    have "ev.guar (brun job_handler (repair_script rt owner fence j (repaired_job j) i (repaired_attempt j a))) d1"
      by (rule guar_wfI, rule guar_run_script) (use repair_evolution [OF _ _ _ j(2-4) r] j(1) in blast)
    then show ?thesis unfolding reconcile_commit_def by (auto intro!: ev.guar_bind ev.guar_bind_others [OF assms] guar_reads)
  qed
  show ?thesis unfolding db_reconcile_dead_job_def
    by (auto split: option.splits intro!: guar_get [OF assms] ev.guar_bind [OF guar_reads(2) [OF assms]] c) (erule (1) was_stable)
qed

lemma guar_recover:
  assumes "\<And>k n. ev.relies (others k n)"
  shows "ev.guar (db_recover_stale_claims rt others now age limit ids) d"
proof -
  have "ev.guar (recover_claims rt others now age n ids) d" for n
  proof (induction ids arbitrary: n d)
    case (Cons k ks)
    then show ?case by (auto split: option.splits
      intro!: ev.guar_bind [OF guar_reads(1) [OF assms]] ev.guar_bind [OF ev.guar_catch [OF guar_requeue [OF assms]]] ev.guar_bind_others [OF assms] ev.guar_bind)
  qed simp
  then show ?thesis by (simp add: db_recover_stale_claims_def)
qed

lemma guar_reconcile_stale:
  assumes "\<And>k n. ev.relies (others k n)"
  shows "ev.guar (db_reconcile_stale_jobs rt others owner fence limit ids) d"
proof -
  have "ev.guar (reconcile_stale rt others owner fence n ids) d" for n
  proof (induction ids arbitrary: n d)
    case (Cons k ks)
    then show ?case by (auto split: option.splits
      intro!: ev.guar_bind [OF guar_reads(1) [OF assms]] ev.guar_bind [OF guar_reads(2) [OF assms]] ev.guar_bind [OF guar_reconcile [OF assms]]
        ev.guar_bind_others [OF assms] ev.guar_bind)
  qed simp
  then show ?thesis by (simp add: db_reconcile_stale_jobs_def)
qed

lemma guar_put_member:
  assumes "\<And>n. ev.relies (others n)"
  shows "ev.guar (db_put_member others m) d"
proof -
  have s: "ev.guar (brun h (refresh_script m' st acc fr)) d1" for h m' st acc fr d1 by (rule guar_run_script) (rule member_scripts_evolution(1))
  show ?thesis unfolding db_put_member_def Let_def by (auto intro!: ev.guar_bind guar_reads [OF assms] s)
qed

lemma guar_repair_fence:
  assumes "\<And>n. ev.relies (others n)"
  shows "ev.guar (db_repair_fence others n v) d" and "ev.guar (db_repair_malformed_fence others n) d"
proof -
  have s: "ev.guar (brun h (repair_fence_script n w seen m)) d1" for h w seen m d1 by (rule guar_run_script) (rule member_scripts_evolution(2))
  show r: "ev.guar (db_repair_fence others n v) d" for v d unfolding db_repair_fence_def
    by (auto split: option.splits stored_member.splits intro!: ev.guar_bind guar_reads [OF assms] s)
  show "ev.guar (db_repair_malformed_fence others n) d" unfolding db_repair_malformed_fence_def
    by (auto split: option.splits stored_member.splits intro!: ev.guar_bind guar_reads [OF assms] r)
qed

lemma guar_commit: "ev.guar (commit_member_drain mode m m' v aid) d"
  unfolding commit_member_drain_def by (auto intro!: ev.guar_bind guar_run_script dest: member_scripts_evolution(3))

lemma guar_with_member: "ev.relies others \<Longrightarrow> (\<And>m d'. ev.guar (k m) d') \<Longrightarrow> ev.guar (with_member others n k) d"
  unfolding with_member_def by (auto split: option.splits intro!: ev.guar_bind guar_reads)

lemma guar_at_version: "ev.relies others \<Longrightarrow> (\<And>m d'. ev.guar (k m) d') \<Longrightarrow> ev.guar (at_version others n v k) d"
  unfolding at_version_def by (rule guar_with_member) auto

lemma guar_members:
  assumes "ev.relies others"
  shows "ev.guar (db_begin_member_drain others n v) d" "ev.guar (db_release_member_lease others n aid v b) d" "ev.guar (db_complete_member_drain others n v) d"
    "ev.guar (db_begin_member_rejoin others n v g) d" "ev.guar (db_complete_member_rejoin others n v rd) d" "ev.guar (db_add_member_lease others n aid) d"
proof -
  note defs = db_begin_member_drain_def db_release_member_lease_def db_complete_member_drain_def db_begin_member_rejoin_def db_complete_member_rejoin_def
  have l: "ev.guar (legal_move m st (commit_member_drain mode m m' w a)) d" for m st mode m' w a d by (simp add: legal_move_def guar_commit)
  show "ev.guar (db_begin_member_drain others n v) d" "ev.guar (db_release_member_lease others n aid v b) d" "ev.guar (db_complete_member_drain others n v) d"
    "ev.guar (db_begin_member_rejoin others n v g) d" "ev.guar (db_complete_member_rejoin others n v rd) d"
    unfolding defs by (intro guar_with_member [OF assms] guar_at_version [OF assms]; simp add: l guar_commit)+
  have "ev.guar (brun h (\<lambda>d. Inr ((), put_leases n (List.insert aid (bd_leases d n)) d))) d" for h d
    by (rule guar_run_script) (auto simp: member_scripts_evolution(4))
  then show "ev.guar (db_add_member_lease others n aid) d" unfolding db_add_member_lease_def by (auto intro!: ev.guar_bind guar_reads [OF assms])
qed

section \<open>All clients\<close>

text \<open>One call of any client, while the others make any calls between its commands; every call may lose commands and replies. The dispatcher replaces a record it had
  read (\<open>before\<close> stands for what happened since) by its successor. Time passes, and connections fail in new ways.\<close>

inductive db_call :: "broker_db \<Rightarrow> broker_db \<Rightarrow> bool" where
  dc_acquire: "db_call d (snd (db_acquire_leadership owner now ttl d))"
| dc_renew: "db_call d (snd (db_renew_leadership owner tok now ttl d))"
| dc_submit: "(\<And>t. db_call\<^sup>*\<^sup>* t (others t)) \<Longrightarrow> j_state job = J_QUEUED \<Longrightarrow> \<not> j_accepted_boundary_crossed job \<Longrightarrow>
     db_call d (snd (db_submit digest others job scope d))"
| dc_reserve: "(\<And>q n t. db_call\<^sup>*\<^sup>* t (others2 q n t)) \<Longrightarrow> (\<And>n t. db_call\<^sup>*\<^sup>* t (others1 n t)) \<Longrightarrow>
     db_call d (snd (db_reserve_next aging others2 others1 uuid now ms req owner tok url lnow d))"
| dc_cancel: "(\<And>n t. db_call\<^sup>*\<^sup>* t (others1 n t)) \<Longrightarrow> db_call d (snd (db_cancel_queued others1 i now d))"
| dc_requeue: "(\<And>n t. db_call\<^sup>*\<^sup>* t (others1 n t)) \<Longrightarrow> db_call d (snd (db_requeue_claim rt others1 i reason ended d))"
| dc_replace: "(\<And>t. db_call\<^sup>*\<^sup>* t (before t)) \<Longrightarrow> (\<And>t. db_call\<^sup>*\<^sup>* t (others t)) \<Longrightarrow> bd_jobs d i = Some jh \<Longrightarrow> db_update (jh_record jh) job \<Longrightarrow>
     db_call d (snd (db_replace_job rt others job (before d)))"
| dc_reconcile: "(\<And>n t. db_call\<^sup>*\<^sup>* t (others1 n t)) \<Longrightarrow> db_call d (snd (db_reconcile_dead_job rt others1 i owner fence d))"
| dc_recover: "(\<And>k n t. db_call\<^sup>*\<^sup>* t (others3 k n t)) \<Longrightarrow> db_call d (snd (db_recover_stale_claims rt others3 now age limit ids d))"
| dc_reconcile_stale: "(\<And>k n t. db_call\<^sup>*\<^sup>* t (others3 k n t)) \<Longrightarrow> db_call d (snd (db_reconcile_stale_jobs rt others3 owner fence limit ids d))"
| dc_put_member: "(\<And>n t. db_call\<^sup>*\<^sup>* t (others1 n t)) \<Longrightarrow> db_call d (snd (db_put_member others1 m d))"
| dc_repair_fence: "(\<And>n t. db_call\<^sup>*\<^sup>* t (others1 n t)) \<Longrightarrow> db_call d (snd (db_repair_fence others1 nm v d))"
| dc_repair_malformed: "(\<And>n t. db_call\<^sup>*\<^sup>* t (others1 n t)) \<Longrightarrow> db_call d (snd (db_repair_malformed_fence others1 nm d))"
| dc_lease: "(\<And>t. db_call\<^sup>*\<^sup>* t (others t)) \<Longrightarrow> db_call d (snd (db_add_member_lease others nm aid d))"
| dc_drain: "(\<And>t. db_call\<^sup>*\<^sup>* t (others t)) \<Longrightarrow> db_call d (snd (db_begin_member_drain others nm v d))"
| dc_release: "(\<And>t. db_call\<^sup>*\<^sup>* t (others t)) \<Longrightarrow> db_call d (snd (db_release_member_lease others nm aid v b d))"
| dc_drained: "(\<And>t. db_call\<^sup>*\<^sup>* t (others t)) \<Longrightarrow> db_call d (snd (db_complete_member_drain others nm v d))"
| dc_rejoin: "(\<And>t. db_call\<^sup>*\<^sup>* t (others t)) \<Longrightarrow> db_call d (snd (db_begin_member_rejoin others nm v g d))"
| dc_rejoined: "(\<And>t. db_call\<^sup>*\<^sup>* t (others t)) \<Longrightarrow> db_call d (snd (db_complete_member_rejoin others nm v rd d))"
| dc_time: "db_call d (d\<lparr>bd_clock := c\<rparr>)"
| dc_faults: "db_call d (d\<lparr>bd_faults := fl\<rparr>)"

lemma rtranclp_evolution: "(\<lambda>x y. db_call x y \<and> evolution x y)\<^sup>*\<^sup>* d d' \<Longrightarrow> evolution d d'"
  by (induction rule: rtranclp_induct) (auto intro: ev.R_trans)

lemma relies_calls: "(\<And>t. (\<lambda>x y. db_call x y \<and> evolution x y)\<^sup>*\<^sup>* t (f t)) \<Longrightarrow> ev.relies f"
  by (simp add: ev.relies_def rtranclp_evolution)

lemmas guar_calls = guar_leadership guar_submit guar_reserve guar_cancel guar_requeue guar_reconcile guar_recover guar_reconcile_stale guar_put_member
  guar_repair_fence guar_members

lemma db_call_evolution: "db_call d d' \<Longrightarrow> evolution d d'"
proof (induction rule: db_call.induct)
  case (dc_replace before others d i jh job rt)
  have b: "evolution d (before d)" using dc_replace(1) by (simp add: rtranclp_evolution)
  have "evolution d (snd (db_replace_job rt others job (before d)))" if wf: "wf_db d"
  proof -
    have "was (before d) (jh_record jh)" by (rule was_stable [OF was_stored [OF wf dc_replace(3)] b])
    then have "ev.guar (db_replace_job rt others job) (before d)" using dc_replace(2,4) by (intro guar_replace [OF relies_calls]) auto
    then show ?thesis unfolding ev.guar_def by (rule ev.R_trans [OF b])
  qed
  then show ?case by (auto simp: evolution_def)
next
  case (dc_time d c)
  then show ?case by (simp add: evolution_core same_core_def)
next
  case (dc_faults d fl)
  then show ?case by (rule ev.R_local)
qed (rule guar_calls [unfolded ev.guar_def]; (rule relies_calls)?; assumption?)+

lemma db_calls_evolution: "db_call\<^sup>*\<^sup>* d d' \<Longrightarrow> evolution d d'"
  by (induction rule: rtranclp_induct) (auto intro: ev.R_trans db_call_evolution)

end
