(* ===== verification/Pipeline_Coordinator.thy ===== *)
theory Pipeline_Coordinator
  imports Prelude "HOL-Library.AList"
begin

text \<open>
  \<open>scripts/pipeline_coordinator.py\<close>: the coordinator that runs a compiled pipeline stage by stage, with retries, the quality
  loop, cancellation and recovery after a crash. A compiled pipeline and its stages are the dictionaries the compilers emit.
  The adapters (stage authority, external executor, leaf client) are the fields of \<open>coord_env\<close>, one value for each call of a method;
  \<open>None\<close> and \<open>Inl\<close> stand for an exception. A method yields its result, or the exception that escapes, and the sequence of its effects in order,
  among them every state it saves: after a crash the run goes on from the last one. Time stamps that are only recorded are left out,
  and texts of errors are abbreviated where the code quotes a value in them.
\<close>

section \<open>Data\<close>

datatype TerminalCode =
    SUCCESS | QC_EXHAUSTED | PROVIDER_TIMEOUT | PROVIDER_ERROR | LEAF_ERROR | COORDINATOR_ERROR | COORDINATOR_CANCELLED | UNSAFE_RESUME | NO_ARTIFACT

datatype PipelineStageStatus = S_PENDING | S_RUNNING | S_COMPLETED | S_FAILED | S_SKIPPED

datatype RunStatus = Run_running | Run_completed | Run_failed | Run_cancelled

record ArtifactRef =
  af_path_or_url :: string
  af_sha256 :: string
  af_producer_stage_id :: string
  af_produced_at :: string

record QCVerdict =
  qv_stage_id :: string
  qv_passed :: bool
  qv_report :: string
  qv_raw_data :: "string option"

record ChildJobRef =
  cj_child_job_id :: string
  cj_stage_id :: string
  cj_idempotency_key :: string
  cj_status :: string
  cj_cancelled :: bool

record StageAttempt =
  sa_attempt :: nat
  sa_status :: PipelineStageStatus
  sa_error :: "string option"
  sa_output :: pyval
  sa_qc_verdict :: "QCVerdict option"
  sa_idempotency_key :: string
  sa_provider_handle :: "string option"

record PipelineRunState =
  ps_parent_job_id :: string
  ps_run_id :: string
  ps_pipeline_id :: string
  ps_revision_hash :: string
  ps_status :: RunStatus
  ps_current_stage_id :: "string option"
  ps_cursor_note :: "string option"
  ps_request_params :: pydict
  ps_compiled_pipeline :: pydict
  ps_child_jobs :: "ChildJobRef list"
  ps_stage_attempts :: "(string \<times> StageAttempt list) list"
  ps_stage_qc_verdicts :: "(string \<times> QCVerdict list) list"
  ps_correction_count :: nat
  ps_max_corrections :: int
  ps_loop_iterations :: "string \<Rightarrow> nat"
  ps_pending_stage_ids :: "string list"
  ps_artifact :: "ArtifactRef option"
  ps_initial_artifact :: "ArtifactRef option"
  ps_last_good_artifact :: "ArtifactRef option"
  ps_cancelled :: bool
  ps_cancellation_intent :: bool
  ps_cancelled_children :: "string list"
  ps_terminal_code :: "TerminalCode option"
  ps_terminal_reason :: "string option"
  ps_resume_count :: nat

definition run_over :: "PipelineRunState \<Rightarrow> bool" where
  "run_over s \<longleftrightarrow> ps_status s \<noteq> Run_running"

section \<open>Reading the compiled plan\<close>

definition str_at :: "pydict \<Rightarrow> string \<Rightarrow> string" where
  "str_at d k = (case dget d k of PStr t \<Rightarrow> t | _ \<Rightarrow> [])"

definition strs_at :: "pydict \<Rightarrow> string \<Rightarrow> string list" where
  "strs_at d k = (case dget d k of PList vs \<Rightarrow> concat (map (\<lambda>v. case v of PStr t \<Rightarrow> [t] | _ \<Rightarrow> []) vs) | _ \<Rightarrow> [])"

definition dicts_at :: "pydict \<Rightarrow> string \<Rightarrow> pydict list" where
  "dicts_at d k = (case dget d k of PList vs \<Rightarrow> concat (map (\<lambda>v. case v of PDict x \<Rightarrow> [x] | _ \<Rightarrow> []) vs) | _ \<Rightarrow> [])"

definition int_at :: "pydict \<Rightarrow> string \<Rightarrow> int" where
  "int_at d k = (case dget d k of PInt i \<Rightarrow> i | _ \<Rightarrow> 0)"

abbreviation stage_name :: "pydict \<Rightarrow> string" where
  "stage_name s \<equiv> str_at s ''id''"

abbreviation stage_kind :: "pydict \<Rightarrow> string" where
  "stage_kind s \<equiv> str_at s ''kind''"

definition default_enabled :: "pydict \<Rightarrow> bool" where
  "default_enabled s \<longleftrightarrow> dget_or s ''enabled_by_default'' (PBool True) \<noteq> PBool False"

definition plan_stages :: "PipelineRunState \<Rightarrow> pydict list" where
  "plan_stages s = dicts_at (ps_compiled_pipeline s) ''stages''"

definition plan_loops :: "PipelineRunState \<Rightarrow> pydict list" where
  "plan_loops s = dicts_at (ps_compiled_pipeline s) ''loops''"

text \<open>\<open>{s["id"]: s for s in stage_list}\<close>.\<close>

definition stage_map_of :: "pydict list \<Rightarrow> (string \<times> pydict) list" where
  "stage_map_of stages = fold (\<lambda>s m. AList.update (stage_name s) s m) stages []"

section \<open>Keys, handles and the sanitizer\<close>

definition stage_idempotency_key :: "(string \<Rightarrow> string) \<Rightarrow> string \<Rightarrow> string \<Rightarrow> nat \<Rightarrow> string" where
  "stage_idempotency_key digest run_id stage_id attempt = digest (run_id @ '':'' @ stage_id @ '':'' @ show_nat attempt)"

definition provider_handle :: "pyval \<Rightarrow> string + string" where
  "provider_handle v = (case v of
     PStr t \<Rightarrow> if strip t = [] then Inl ''provider_handle must be a non-empty string''
               else if length (strip t) > 1024 then Inl ''provider_handle exceeds 1024 characters'' else Inr (strip t)
   | _ \<Rightarrow> Inl ''provider_handle must be a non-empty string'')"

definition ends_with :: "string \<Rightarrow> string \<Rightarrow> bool" where
  "ends_with k suffix \<longleftrightarrow> length suffix \<le> length k \<and> drop (length k - length suffix) k = suffix"

definition has_prefix :: "string \<Rightarrow> string \<Rightarrow> bool" where
  "has_prefix k p \<longleftrightarrow> take (length p) k = p"

definition MAX_STR_LEN :: nat where "MAX_STR_LEN = 10000"

definition MAX_COLLECTION_ITEMS :: nat where "MAX_COLLECTION_ITEMS = 1000"

definition SANITIZE_REJECT_KEYS :: "string list" where
  "SANITIZE_REJECT_KEYS = [''base64'', ''blob'', ''bytes'', ''password'', ''api_key'', ''authorization'', ''secret'', ''private_key'']"

definition SANITIZE_REJECT_SUFFIXES :: "string list" where
  "SANITIZE_REJECT_SUFFIXES = [''_base64'', ''_blob'', ''_bytes'']"

text \<open>A key that may not be stored, with the value at hand: byte counts are let through.\<close>

definition rejected_field :: "string \<times> pyval \<Rightarrow> bool" where
  "rejected_field kv = (case kv of (k, v) \<Rightarrow>
     list_ex (ends_with k) SANITIZE_REJECT_SUFFIXES
     \<and> \<not> (ends_with k ''_bytes'' \<and> (case v of PInt n \<Rightarrow> 0 \<le> n \<and> n \<le> 2 ^ 63 - 1 | _ \<Rightarrow> False)))"

fun deep_sanitize :: "string \<Rightarrow> pyval \<Rightarrow> string + pyval"
  and sanitize_items :: "string \<Rightarrow> nat \<Rightarrow> pyval list \<Rightarrow> string + pyval list"
  and sanitize_fields :: "string \<Rightarrow> pydict \<Rightarrow> string + pydict" where
  "deep_sanitize path (PStr t) =
     Inr (PStr (if length t > MAX_STR_LEN then path @ '': string value exceeds 10000 chars (truncated for persistence safety)'' else t))"
| "deep_sanitize path (PDict d) =
     (case find (has_key d) SANITIZE_REJECT_KEYS of
        Some k \<Rightarrow> Inl (path @ ''.'' @ k @ '': rejected key '' @ [CHR 39] @ k @ [CHR 39] @ '' for persistence safety'')
      | None \<Rightarrow>
          (case find rejected_field d of
             Some (k, _) \<Rightarrow> Inl (path @ ''.'' @ k @ '': key suffix rejected for persistence safety'')
           | None \<Rightarrow> (case sanitize_fields path d of Inl e \<Rightarrow> Inl e | Inr d' \<Rightarrow> Inr (PDict d'))))"
| "deep_sanitize path (PList vs) =
     (if length vs > MAX_COLLECTION_ITEMS then Inl (path @ '': collection exceeds 1000 items for persistence safety'')
      else case sanitize_items path 0 vs of Inl e \<Rightarrow> Inl e | Inr vs' \<Rightarrow> Inr (PList vs'))"
| "deep_sanitize path v = Inr v"
| "sanitize_items path i [] = Inr []"
| "sanitize_items path i (v # vs) =
     (case deep_sanitize (path @ ''['' @ show_nat i @ '']'') v of
        Inl e \<Rightarrow> Inl e
      | Inr v' \<Rightarrow> (case sanitize_items path (Suc i) vs of Inl e \<Rightarrow> Inl e | Inr vs' \<Rightarrow> Inr (v' # vs')))"
| "sanitize_fields path [] = Inr []"
| "sanitize_fields path ((k, v) # d) =
     (case deep_sanitize (path @ ''.'' @ k) v of
        Inl e \<Rightarrow> Inl e
      | Inr v' \<Rightarrow> (case sanitize_fields path d of Inl e \<Rightarrow> Inl e | Inr d' \<Rightarrow> Inr ((k, v') # d')))"

section \<open>Effects\<close>

text \<open>What an adapter answers, and what the leaf client answers when it is polled.\<close>

record stage_result =
  sr_status :: string
  sr_output :: pyval
  sr_error :: "string option"
  sr_qc_verdict :: "QCVerdict option"
  sr_artifact :: "(string \<times> string) option"
  sr_provider_handle :: pyval

record leaf_poll =
  lp_status :: string
  lp_output :: pyval
  lp_error :: "string option"
  lp_qc_verdict :: "QCVerdict option"
  lp_artifact :: "(string \<times> string) option"

record coord_env =
  ce_now :: string
  ce_text :: "pyval \<Rightarrow> string"
  ce_digest :: "string \<Rightarrow> string"
  ce_resolve :: "pydict \<Rightarrow> string option"
  ce_execute :: "pydict \<Rightarrow> PipelineRunState \<Rightarrow> string \<Rightarrow> string + stage_result"
  ce_poll :: "pydict \<Rightarrow> PipelineRunState \<Rightarrow> string \<Rightarrow> string \<Rightarrow> string + stage_result"
  ce_cancel :: "string \<Rightarrow> string \<Rightarrow> bool option"
  ce_leaf_submit :: "pydict \<Rightarrow> PipelineRunState \<Rightarrow> string \<Rightarrow> pydict \<Rightarrow> string option"
  ce_leaf_poll :: "nat \<Rightarrow> string \<Rightarrow> leaf_poll option"
  ce_leaf_cancel :: "string \<Rightarrow> bool option"

datatype action =
    Saved PipelineRunState
  | Event string
  | Executed string nat string
  | Polled string string
  | Cancel_stage string
  | Submitted_leaf string string
  | Polled_leaf string
  | Cancel_leaf string

type_synonym 'a coord = "(string + 'a) \<times> action list"

definition cret :: "'a \<Rightarrow> 'a coord" where
  "cret x = (Inr x, [])"

definition craise :: "string \<Rightarrow> 'a coord" where
  "craise e = (Inl e, [])"

definition cdo :: "action \<Rightarrow> unit coord" where
  "cdo a = (Inr (), [a])"

definition cbind :: "'a coord \<Rightarrow> ('a \<Rightarrow> 'b coord) \<Rightarrow> 'b coord" where
  "cbind m k = (case m of (Inl e, t) \<Rightarrow> (Inl e, t) | (Inr x, t) \<Rightarrow> (case k x of (r, t') \<Rightarrow> (r, t @ t')))"

text \<open>\<open>save_state(state)\<close> as the last effect before the state is returned.\<close>

definition csave :: "PipelineRunState \<Rightarrow> PipelineRunState coord" where
  "csave s = (Inr s, [Saved s])"

definition csave_event :: "PipelineRunState \<Rightarrow> string \<Rightarrow> PipelineRunState coord" where
  "csave_event s e = (Inr s, [Saved s, Event e])"

section \<open>Attempts and readiness\<close>

definition attempts_of :: "PipelineRunState \<Rightarrow> string \<Rightarrow> StageAttempt list" where
  "attempts_of s i = (case map_of (ps_stage_attempts s) i of None \<Rightarrow> [] | Some as \<Rightarrow> as)"

definition put_attempts :: "string \<Rightarrow> StageAttempt list \<Rightarrow> PipelineRunState \<Rightarrow> PipelineRunState" where
  "put_attempts i as s = s\<lparr>ps_stage_attempts := AList.update i as (ps_stage_attempts s)\<rparr>"

text \<open>The attempt record at hand is the last one of its stage.\<close>

definition on_attempt :: "string \<Rightarrow> (StageAttempt \<Rightarrow> StageAttempt) \<Rightarrow> PipelineRunState \<Rightarrow> PipelineRunState" where
  "on_attempt i f s = (let as = attempts_of s i in if as = [] then s else put_attempts i (butlast as @ [f (last as)]) s)"

definition latest_stage_status :: "PipelineRunState \<Rightarrow> string \<Rightarrow> PipelineStageStatus option" where
  "latest_stage_status s i = (let as = attempts_of s i in if as = [] then None else Some (sa_status (last as)))"

definition stage_settled :: "PipelineRunState \<Rightarrow> string \<Rightarrow> bool" where
  "stage_settled s i \<longleftrightarrow> latest_stage_status s i \<in> {Some S_COMPLETED, Some S_SKIPPED}"

definition dependency_met :: "PipelineRunState \<Rightarrow> (string \<times> pydict) list \<Rightarrow> string \<Rightarrow> bool" where
  "dependency_met s m d \<longleftrightarrow> (case map_of m d of None \<Rightarrow> False | Some x \<Rightarrow> \<not> default_enabled x \<or> stage_settled s d)"

definition stage_ready :: "PipelineRunState \<Rightarrow> pydict \<Rightarrow> (string \<times> pydict) list \<Rightarrow> bool" where
  "stage_ready s stage m \<longleftrightarrow> default_enabled stage \<and> stage_name stage \<noteq> [] \<and> \<not> stage_settled s (stage_name stage)
     \<and> list_all (dependency_met s m) (strs_at stage ''depends_on'')"

definition first_ready_stage_id :: "PipelineRunState \<Rightarrow> (string \<times> pydict) list \<Rightarrow> string option" where
  "first_ready_stage_id s m = map_option stage_name (find (\<lambda>stage. stage_kind stage \<noteq> ''correct'' \<and> stage_ready s stage m) (map snd m))"

section \<open>The end of a run\<close>

definition status_of_code :: "TerminalCode \<Rightarrow> RunStatus" where
  "status_of_code c = (if c = SUCCESS then Run_completed else if c = COORDINATOR_CANCELLED then Run_cancelled else Run_failed)"

definition fallback_artifact :: "PipelineRunState \<Rightarrow> ArtifactRef option" where
  "fallback_artifact s = (case ps_last_good_artifact s of Some a \<Rightarrow> Some a | None \<Rightarrow> ps_initial_artifact s)"

definition terminalize :: "PipelineRunState \<Rightarrow> TerminalCode \<Rightarrow> string \<Rightarrow> PipelineRunState coord" where
  "terminalize s code reason =
     (if run_over s then cret s
      else let (art, why) = (case fallback_artifact s of
             Some f \<Rightarrow> if code \<noteq> SUCCESS \<and> ps_artifact s \<noteq> Some f then (Some f, reason @ ''; fallback_artifact='' @ af_producer_stage_id f)
                       else (ps_artifact s, reason)
           | None \<Rightarrow> (ps_artifact s, reason))
      in csave_event (s\<lparr>ps_artifact := art, ps_status := status_of_code code, ps_terminal_code := Some code, ps_terminal_reason := Some why\<rparr>) ''terminalized'')"

section \<open>Moving on\<close>

definition advance_to_next_stage :: "PipelineRunState \<Rightarrow> (string \<times> pydict) list \<Rightarrow> PipelineRunState coord" where
  "advance_to_next_stage s m =
     (if ps_pending_stage_ids s \<noteq> [] then csave (s\<lparr>ps_current_stage_id := None\<rparr>)
      else case first_ready_stage_id s m of
        None \<Rightarrow>
          if list_all (\<lambda>x. stage_settled s (stage_name x)) (filter (\<lambda>x. default_enabled x \<and> stage_kind x \<noteq> ''correct'') (plan_stages s))
          then terminalize s SUCCESS ''All stages completed''
          else terminalize s COORDINATOR_ERROR ''no dependency-ready stage remains; workflow state is inconsistent''
      | Some n \<Rightarrow>
          if ps_current_stage_id s = Some n then csave s
          else if n \<notin> fst ` set m then terminalize s SUCCESS ''All stages completed''
          else csave_event (s\<lparr>ps_current_stage_id := Some n, ps_cursor_note := None\<rparr>) ''stage_advanced'')"

text \<open>\<open>_handle_qc_result\<close>: the loop of a failed check, the bound on its rounds and its continuation.\<close>

definition qc_loop :: "PipelineRunState \<Rightarrow> string \<Rightarrow> (string \<times> string \<times> int \<times> string list) option" where
  "qc_loop s i = (case find (\<lambda>l. dget l ''trigger_stage_id'' = PStr i) (plan_loops s) of
     Some l \<Rightarrow> Some (str_at l ''id'', str_at l ''correction_stage_id'', int_at l ''max_iterations'', strs_at l ''on_correction'')
   | None \<Rightarrow> map_option (\<lambda>c. (stage_name c, stage_name c, ps_max_corrections s, [])) (find (\<lambda>x. stage_kind x = ''correct'') (plan_stages s)))"

definition correction_note :: "nat \<Rightarrow> string" where
  "correction_note n = ''correction iteration '' @ show_nat n"

definition start_correction :: "PipelineRunState \<Rightarrow> string \<Rightarrow> string \<Rightarrow> string list \<Rightarrow> PipelineRunState" where
  "start_correction s loop_id correction_stage on_correction =
     (let n = ps_loop_iterations s loop_id + 1 in
      s\<lparr>ps_loop_iterations := (ps_loop_iterations s)(loop_id := n), ps_correction_count := ps_correction_count s + 1,
        ps_pending_stage_ids := correction_stage # on_correction, ps_current_stage_id := None, ps_cursor_note := Some (correction_note n)\<rparr>)"

definition handle_qc_result :: "PipelineRunState \<Rightarrow> QCVerdict \<Rightarrow> (string \<times> pydict) list \<Rightarrow> PipelineRunState coord" where
  "handle_qc_result s v m =
     cbind (cdo (Event ''qc_result'')) (\<lambda>_.
     if qv_passed v
     then (case ps_artifact s of
             None \<Rightarrow> advance_to_next_stage s m
           | Some a \<Rightarrow> cbind (csave (s\<lparr>ps_last_good_artifact := Some a\<rparr>)) (\<lambda>s'. advance_to_next_stage s' m))
     else case qc_loop s (qv_stage_id v) of
       None \<Rightarrow> terminalize s QC_EXHAUSTED ''QC failed but no correct stage defined''
     | Some (loop_id, correction_stage, loop_max, on_correction) \<Rightarrow>
         if int (ps_loop_iterations s loop_id) \<ge> loop_max
         then terminalize s QC_EXHAUSTED (''QC failed after '' @ show_nat (ps_loop_iterations s loop_id) @ ''/'' @ show_int loop_max @ '' correction iterations'')
         else csave_event (start_correction s loop_id correction_stage on_correction) ''correction_started'')"

text \<open>\<open>_handle_stage_failure\<close>.\<close>

fun occurs_in :: "string \<Rightarrow> string \<Rightarrow> bool" where
  "occurs_in w [] \<longleftrightarrow> w = []"
| "occurs_in w (c # cs) \<longleftrightarrow> has_prefix (c # cs) w \<or> occurs_in w cs"

definition to_int :: "pyval \<Rightarrow> int" where
  "to_int v = (case v of PInt i \<Rightarrow> i | PBool b \<Rightarrow> (if b then 1 else 0) | PFloat x \<Rightarrow> (if x \<ge> 0 then \<lfloor>x\<rfloor> else \<lceil>x\<rceil>)
     | PStr t \<Rightarrow> (case int_text t of Some i \<Rightarrow> i | None \<Rightarrow> 1) | _ \<Rightarrow> 1)"

definition max_attempts :: "pydict \<Rightarrow> nat" where
  "max_attempts stage =
     (let declared = (case dget stage ''retry'' of
            PDict r \<Rightarrow> to_int (dget_or r ''max_attempts'' (PInt 1))
          | _ \<Rightarrow> (case dget_or stage ''retries'' (PInt 0) of PInt n \<Rightarrow> n + 1 | PBool b \<Rightarrow> (if b then 2 else 1) | _ \<Rightarrow> 1))
      in nat (max 1 (min declared 11)))"

definition current_attempt :: "PipelineRunState \<Rightarrow> string \<Rightarrow> nat" where
  "current_attempt s i = (let as = attempts_of s i in if as = [] then 1 else sa_attempt (last as))"

definition failure_code :: "pydict \<Rightarrow> string \<Rightarrow> TerminalCode" where
  "failure_code stage text =
     (if stage_kind stage \<in> {''generate'', ''generation''} then LEAF_ERROR
      else if occurs_in ''timeout'' (lower text) then PROVIDER_TIMEOUT else PROVIDER_ERROR)"

definition handle_stage_failure :: "PipelineRunState \<Rightarrow> pydict \<Rightarrow> string option \<Rightarrow> PipelineRunState coord" where
  "handle_stage_failure s stage err =
     (let text = (case err of Some t \<Rightarrow> if t = [] then ''unknown'' else t | None \<Rightarrow> ''unknown''); i = stage_name stage; n = current_attempt s i in
      if occurs_in ''unsafe_external_resume'' text
      then terminalize s UNSAFE_RESUME (''Stage '' @ i @ '' outcome is unknown: '' @ text)
      else if n < max_attempts stage
      then csave_event (s\<lparr>ps_current_stage_id := Some i,
             ps_cursor_note := Some (''retry attempt '' @ show_nat (n + 1) @ ''/'' @ show_nat (max_attempts stage))\<rparr>) ''stage_retry_scheduled''
      else terminalize s (failure_code stage text) (''Stage '' @ i @ '' failed: '' @ text))"

section \<open>Inputs of a stage\<close>

text \<open>The value a binding names: of the request, a default of the plan, or an output of a stage; \<open>None\<close> when there is none.\<close>

definition workflow_input :: "PipelineRunState \<Rightarrow> string \<Rightarrow> pyval option" where
  "workflow_input s name = (case map_of (ps_request_params s) name of
     Some v \<Rightarrow> Some v
   | None \<Rightarrow> (case dget_or (ps_compiled_pipeline s) ''inputs'' (PDict []) of
       PDict defs \<Rightarrow> (case dget defs name of PDict i \<Rightarrow> map_of i ''default'' | _ \<Rightarrow> None)
     | _ \<Rightarrow> None))"

definition stage_output :: "PipelineRunState \<Rightarrow> string \<Rightarrow> string \<Rightarrow> pyval option" where
  "stage_output s i name = (let as = attempts_of s i in
     if as = [] then None else (case sa_output (last as) of PDict out \<Rightarrow> map_of out name | _ \<Rightarrow> None))"

definition resolve_binding :: "PipelineRunState \<Rightarrow> pyval \<Rightarrow> string + pyval option" where
  "resolve_binding s source = (case source of
     PStr t \<Rightarrow>
       if has_prefix t ''workflow.'' then Inr (workflow_input s (drop 9 t))
       else if has_prefix t ''stage.''
       then let rest = drop 6 t in
         if CHR ''.'' \<notin> set rest then Inl (''invalid stage binding source '' @ t)
         else Inr (stage_output s (takeWhile (\<lambda>c. c \<noteq> CHR ''.'') rest) (tl (dropWhile (\<lambda>c. c \<noteq> CHR ''.'') rest)))
       else Inl (''unsupported binding source '' @ t)
   | _ \<Rightarrow> Inl ''unsupported binding source'')"

fun resolve_bindings :: "PipelineRunState \<Rightarrow> pydict \<Rightarrow> string + pydict" where
  "resolve_bindings s [] = Inr []"
| "resolve_bindings s ((name, b) # bs) =
     (case b of
        PDict bd \<Rightarrow>
          (case resolve_binding s (dget bd ''source'') of
             Inl e \<Rightarrow> Inl e
           | Inr None \<Rightarrow> if dget bd ''optional'' = PBool True then resolve_bindings s bs
                         else Inl (''required input '' @ name @ '' has no resolved value'')
           | Inr (Some v) \<Rightarrow>
               (case deep_sanitize ''$'' v of
                  Inl e \<Rightarrow> Inl e
                | Inr v' \<Rightarrow> (case resolve_bindings s bs of Inl e \<Rightarrow> Inl e | Inr r \<Rightarrow> Inr ((name, v') # r))))
      | _ \<Rightarrow> Inl (''input binding '' @ name @ '' is not an object''))"

definition materialize_stage_inputs :: "pydict \<Rightarrow> PipelineRunState \<Rightarrow> string + pydict" where
  "materialize_stage_inputs stage s = (case dget stage ''params'' of
     PDict params \<Rightarrow> (case dget params ''bindings'' of
       PDict bindings \<Rightarrow> (case dget bindings ''inputs'' of
         PDict inputs \<Rightarrow> (case resolve_bindings s inputs of
           Inl e \<Rightarrow> Inl (''binding_resolution_failed: '' @ e)
         | Inr resolved \<Rightarrow> Inr (set_key stage ''resolved_inputs'' (PDict resolved)))
       | _ \<Rightarrow> Inr stage)
     | _ \<Rightarrow> Inr stage)
   | _ \<Rightarrow> Inr stage)"

section \<open>The trusted configuration of a leaf\<close>

definition LEAF_STRIP_PREFIXES :: "string list" where
  "LEAF_STRIP_PREFIXES = [''endpoint'', ''unit'', ''command'', ''routing_group'', ''bypass'', ''skip_pipeline'', ''internal_leaf'']"

definition LEAF_STRIP_KEYS :: "string list" where
  "LEAF_STRIP_KEYS = [''endpoint'', ''unit'', ''command'', ''routing_group'', ''bypass'', ''skip_pipeline'', ''internal_leaf'', ''routing'', ''url'', ''host'']"

definition routing_key :: "string \<Rightarrow> bool" where
  "routing_key k \<longleftrightarrow> k \<in> set LEAF_STRIP_KEYS \<or> list_ex (has_prefix k) LEAF_STRIP_PREFIXES"

definition stripped_key :: "string \<Rightarrow> bool" where
  "stripped_key k \<longleftrightarrow> routing_key k \<or> list_ex (ends_with k) [''_base64'', ''_blob'', ''_bytes'', ''_data'']"

fun deep_strip :: "pyval \<Rightarrow> pyval" and strip_items :: "pyval list \<Rightarrow> pyval list" and strip_fields :: "pydict \<Rightarrow> pydict" where
  "deep_strip (PDict d) = PDict (strip_fields d)"
| "deep_strip (PList vs) = PList (strip_items vs)"
| "deep_strip v = v"
| "strip_items [] = []"
| "strip_items (v # vs) = deep_strip v # strip_items vs"
| "strip_fields [] = []"
| "strip_fields ((k, v) # d) = (if stripped_key k then strip_fields d else (k, deep_strip v) # strip_fields d)"

text \<open>\<open>str(v)\<close>; \<open>other\<close> is the text of a float or a container.\<close>

definition py_text :: "(pyval \<Rightarrow> string) \<Rightarrow> pyval \<Rightarrow> string" where
  "py_text other v = (case v of PStr t \<Rightarrow> t | PInt i \<Rightarrow> show_int i | PBool b \<Rightarrow> (if b then ''True'' else ''False'') | PNone \<Rightarrow> ''None'' | _ \<Rightarrow> other v)"

text \<open>The prompt a prompt stage produced: of the last completed attempt that has one.\<close>

definition enhanced_prompt :: "StageAttempt list \<Rightarrow> pyval option" where
  "enhanced_prompt as = (case concat (map (\<lambda>a. if sa_status a \<noteq> S_COMPLETED then []
       else case sa_output a of
         PDict out \<Rightarrow> filter truthy [if truthy (dget out ''enhanced_prompt'') then dget out ''enhanced_prompt'' else dget out ''prompt'']
       | _ \<Rightarrow> []) (rev as)) of [] \<Rightarrow> None | v # _ \<Rightarrow> Some v)"

definition effective_prompt :: "(pyval \<Rightarrow> string) \<Rightarrow> PipelineRunState \<Rightarrow> string" where
  "effective_prompt other s = fold (\<lambda>(i, as) p.
       case map_of (stage_map_of (plan_stages s)) i of
         None \<Rightarrow> p
       | Some x \<Rightarrow> if stage_kind x \<noteq> ''prompt_enhance'' then p
                   else (case enhanced_prompt as of None \<Rightarrow> p | Some v \<Rightarrow> py_text other v))
     (ps_stage_attempts s)
     (let p = dget (ps_request_params s) ''prompt'' in if truthy p then py_text other p else [])"

definition artifact_dict :: "ArtifactRef \<Rightarrow> pyval" where
  "artifact_dict a = PDict [(''path_or_url'', PStr (af_path_or_url a)), (''sha256'', PStr (af_sha256 a)),
     (''producer_stage_id'', PStr (af_producer_stage_id a)), (''produced_at'', PStr (af_produced_at a))]"

definition verdict_dict :: "QCVerdict \<Rightarrow> pyval" where
  "verdict_dict v = PDict [(''stage_id'', PStr (qv_stage_id v)), (''passed'', PBool (qv_passed v)), (''report'', PStr (qv_report v)),
     (''raw_data'', case qv_raw_data v of None \<Rightarrow> PNone | Some t \<Rightarrow> PStr t)]"

definition latest_qc :: "PipelineRunState \<Rightarrow> pyval" where
  "latest_qc s = (case concat (map (\<lambda>(i, vs). if vs = [] then [] else [last vs]) (ps_stage_qc_verdicts s)) of
     [] \<Rightarrow> PNone | vs \<Rightarrow> verdict_dict (last vs))"

definition build_trusted_config :: "(pyval \<Rightarrow> string) \<Rightarrow> pydict \<Rightarrow> PipelineRunState \<Rightarrow> pydict" where
  "build_trusted_config other stage s =
     set_key (map (\<lambda>(k, v). (k, deep_strip v)) (filter (\<lambda>(k, v). \<not> routing_key k) stage)) ''context''
       (deep_strip (PDict [(''request_params'', PDict (ps_request_params s)), (''effective_prompt'', PStr (effective_prompt other s)),
          (''artifact'', case ps_artifact s of None \<Rightarrow> PNone | Some a \<Rightarrow> artifact_dict a), (''qc_verdict'', latest_qc s)]))"

section \<open>Running a stage\<close>

definition failed_result :: "string \<Rightarrow> stage_result" where
  "failed_result e = \<lparr>sr_status = ''failed'', sr_output = PDict [], sr_error = Some e, sr_qc_verdict = None, sr_artifact = None, sr_provider_handle = PNone\<rparr>"

text \<open>The child of this attempt, or a child of an earlier one that is still of use.\<close>

definition own_child :: "PipelineRunState \<Rightarrow> string \<Rightarrow> string \<Rightarrow> nat option" where
  "own_child s i key = find (\<lambda>n. let c = ps_child_jobs s ! n in cj_stage_id c = i \<and> cj_idempotency_key c = key \<and> \<not> cj_cancelled c)
     (rev [0..<length (ps_child_jobs s)])"

fun earlier_child :: "coord_env \<Rightarrow> PipelineRunState \<Rightarrow> string \<Rightarrow> nat list \<Rightarrow> nat option coord" where
  "earlier_child env s i [] = cret None"
| "earlier_child env s i (n # ns) =
     (let c = ps_child_jobs s ! n in
      if cj_stage_id c \<noteq> i \<or> cj_cancelled c then earlier_child env s i ns
      else cbind (cdo (Polled_leaf (cj_child_job_id c))) (\<lambda>_.
        case ce_leaf_poll env 0 (cj_child_job_id c) of
          None \<Rightarrow> earlier_child env s i ns
        | Some p \<Rightarrow> if lp_status p \<in> {''queued'', ''in_flight'', ''completed''} then cret (Some n) else earlier_child env s i ns))"

definition submit_child :: "coord_env \<Rightarrow> PipelineRunState \<Rightarrow> pydict \<Rightarrow> string \<Rightarrow> (PipelineRunState \<times> nat) coord" where
  "submit_child env s stage key =
     cbind (cdo (Submitted_leaf (stage_name stage) key)) (\<lambda>_.
     case ce_leaf_submit env stage s key (build_trusted_config (ce_text env) stage s) of
       None \<Rightarrow> craise ''leaf submit''
     | Some child \<Rightarrow>
         let s' = s\<lparr>ps_child_jobs := ps_child_jobs s @ [\<lparr>cj_child_job_id = child, cj_stage_id = stage_name stage, cj_idempotency_key = key,
               cj_status = ''queued'', cj_cancelled = False\<rparr>]\<rparr>
         in cbind (cdo (Saved s')) (\<lambda>_. cret (s', length (ps_child_jobs s))))"

definition child_of_attempt :: "coord_env \<Rightarrow> PipelineRunState \<Rightarrow> pydict \<Rightarrow> string \<Rightarrow> (PipelineRunState \<times> nat) coord" where
  "child_of_attempt env s stage key = (case own_child s (stage_name stage) key of
     Some n \<Rightarrow> cret (s, n)
   | None \<Rightarrow> cbind (earlier_child env s (stage_name stage) (rev [0..<length (ps_child_jobs s)])) (\<lambda>found.
       case found of Some n \<Rightarrow> cret (s, n) | None \<Rightarrow> submit_child env s stage key))"

definition leaf_result :: "leaf_poll \<Rightarrow> stage_result" where
  "leaf_result p =
     (if lp_status p = ''completed''
      then let out = (case lp_output p of PDict d \<Rightarrow> d | _ \<Rightarrow> []) in
        \<lparr>sr_status = ''completed'',
         sr_output = PDict (case lp_artifact p of None \<Rightarrow> out
           | Some (path, sha) \<Rightarrow> set_key out ''artifact'' (PDict [(''path_or_url'', PStr path), (''sha256'', PStr sha)])),
         sr_error = None, sr_qc_verdict = lp_qc_verdict p, sr_artifact = lp_artifact p, sr_provider_handle = PNone\<rparr>
      else if lp_status p = ''failed''
      then failed_result (case lp_error p of None \<Rightarrow> ''leaf generation failed'' | Some e \<Rightarrow> e)
      else if lp_status p \<in> {''queued'', ''in_flight''} then (failed_result [])\<lparr>sr_status := lp_status p, sr_error := None\<rparr>
      else failed_result (''Unknown child status: '' @ lp_status p))"

definition execute_leaf :: "coord_env \<Rightarrow> PipelineRunState \<Rightarrow> pydict \<Rightarrow> string \<Rightarrow> (PipelineRunState \<times> stage_result) coord" where
  "execute_leaf env s stage key =
     cbind (child_of_attempt env s stage key) (\<lambda>(s1, n).
     let c = ps_child_jobs s1 ! n in
     cbind (cdo (Polled_leaf (cj_child_job_id c))) (\<lambda>_.
     case ce_leaf_poll env 1 (cj_child_job_id c) of
       None \<Rightarrow> craise ''leaf poll''
     | Some p \<Rightarrow>
         let s2 = s1\<lparr>ps_child_jobs := (ps_child_jobs s1)[n := c\<lparr>cj_status := lp_status p\<rparr>]\<rparr>
         in cbind (cdo (Saved s2)) (\<lambda>_. cret (s2, leaf_result p))))"

text \<open>A stage of an external provider: a new attempt executes it; an attempt found running is polled, or its outcome is unknown.\<close>

definition execute_external :: "coord_env \<Rightarrow> PipelineRunState \<Rightarrow> pydict \<Rightarrow> string \<Rightarrow> bool \<Rightarrow> string \<Rightarrow> stage_result coord" where
  "execute_external env s stage i resuming key =
     (let a = last (attempts_of s i) in
      if \<not> resuming
      then cbind (cdo (Executed i (sa_attempt a) key)) (\<lambda>_.
             cret (case ce_execute env stage s key of Inl e \<Rightarrow> failed_result (''external_adapter_failed: '' @ take 1000 e) | Inr r \<Rightarrow> r))
      else case sa_provider_handle a of
        None \<Rightarrow> cret (failed_result (''unsafe_external_resume: prior delivery outcome is unknown for stage '' @ i))
      | Some h \<Rightarrow>
          if h = [] then cret (failed_result (''unsafe_external_resume: prior delivery outcome is unknown for stage '' @ i))
          else cbind (cdo (Polled i h)) (\<lambda>_.
             cret (case ce_poll env stage s key h of Inl e \<Rightarrow> failed_result (''external_adapter_failed: '' @ take 1000 e) | Inr r \<Rightarrow> r)))"

definition execute_stage :: "coord_env \<Rightarrow> PipelineRunState \<Rightarrow> pydict \<Rightarrow> string \<Rightarrow> string \<Rightarrow> bool \<Rightarrow> string \<Rightarrow> (PipelineRunState \<times> stage_result) coord" where
  "execute_stage env s stage i authority resuming key =
     (case materialize_stage_inputs stage s of
        Inl e \<Rightarrow> cret (s, failed_result e)
      | Inr stage' \<Rightarrow>
          if authority = ''external'' then cbind (execute_external env s stage' i resuming key) (\<lambda>r. cret (s, r))
          else if authority = ''leaf'' then execute_leaf env s stage' key
          else cret (s, failed_result (''Unknown authority: '' @ authority)))"

text \<open>An answer that is not final: the handle of an external operation is saved with the attempt.\<close>

definition hold_attempt :: "PipelineRunState \<Rightarrow> string \<Rightarrow> string \<Rightarrow> stage_result \<Rightarrow> (PipelineRunState coord, stage_result) sum" where
  "hold_attempt s i authority r =
     (if sr_status r \<notin> {''queued'', ''in_flight'', ''pending''} then Inr r
      else if authority \<noteq> ''external'' then Inl (csave s)
      else case provider_handle (sr_provider_handle r) of
        Inl e \<Rightarrow> Inr (failed_result (''unsafe_external_resume: '' @ e))
      | Inr h \<Rightarrow> Inl (csave_event (on_attempt i (\<lambda>a. a\<lparr>sa_provider_handle := Some h\<rparr>) s) ''external_handle_saved''))"

text \<open>The final result of an attempt: the attempt record, the verdict and the artifact. The sanitizer may reject the output.\<close>

definition checked_handle :: "stage_result \<Rightarrow> stage_result \<times> string option" where
  "checked_handle r = (if sr_provider_handle r = PNone then (r, None)
     else case provider_handle (sr_provider_handle r) of
       Inl e \<Rightarrow> (r\<lparr>sr_status := ''failed'', sr_error := Some (''invalid provider_handle: '' @ e)\<rparr>, None)
     | Inr h \<Rightarrow> (r, Some h))"

definition end_of_attempt :: "stage_result \<Rightarrow> pyval \<Rightarrow> string option \<Rightarrow> StageAttempt \<Rightarrow> StageAttempt" where
  "end_of_attempt r out h a = a\<lparr>sa_status := (if sr_status r = ''completed'' then S_COMPLETED else S_FAILED), sa_error := sr_error r, sa_output := out,
     sa_provider_handle := (case h of None \<Rightarrow> sa_provider_handle a | Some _ \<Rightarrow> h),
     sa_qc_verdict := (case sr_qc_verdict r of None \<Rightarrow> sa_qc_verdict a | Some v \<Rightarrow> Some v)\<rparr>"

definition note_verdict :: "string \<Rightarrow> QCVerdict option \<Rightarrow> PipelineRunState \<Rightarrow> PipelineRunState" where
  "note_verdict i v s = (case v of None \<Rightarrow> s
     | Some q \<Rightarrow> s\<lparr>ps_stage_qc_verdicts := AList.update i ((case map_of (ps_stage_qc_verdicts s) i of None \<Rightarrow> [] | Some vs \<Rightarrow> vs) @ [q]) (ps_stage_qc_verdicts s)\<rparr>)"

definition note_artifact :: "string \<Rightarrow> pydict \<Rightarrow> string \<Rightarrow> (string \<times> string) option \<Rightarrow> PipelineRunState \<Rightarrow> PipelineRunState" where
  "note_artifact now stage i a s = (case a of None \<Rightarrow> s
     | Some (path, sha) \<Rightarrow>
         let art = \<lparr>af_path_or_url = path, af_sha256 = sha, af_producer_stage_id = i, af_produced_at = now\<rparr> in
         s\<lparr>ps_artifact := Some art,
           ps_initial_artifact := (if stage_kind stage \<in> {''generate'', ''generation''} \<and> ps_initial_artifact s = None then Some art else ps_initial_artifact s)\<rparr>)"

definition conclude_attempt :: "coord_env \<Rightarrow> PipelineRunState \<Rightarrow> pydict \<Rightarrow> string \<Rightarrow> stage_result \<Rightarrow> (string \<times> pydict) list \<Rightarrow> PipelineRunState coord" where
  "conclude_attempt env s stage i r0 m =
     (case deep_sanitize ''$'' (sr_output r0) of
        Inl e \<Rightarrow> craise e
      | Inr out \<Rightarrow>
          let (r, h) = checked_handle r0;
              s' = note_artifact (ce_now env) stage i (sr_artifact r) (note_verdict i (sr_qc_verdict r) (on_attempt i (end_of_attempt r out h) s))
          in cbind (cdo (Saved s')) (\<lambda>_.
             if sr_status r = ''failed'' then handle_stage_failure s' stage (sr_error r)
             else case sr_qc_verdict r of
               Some v \<Rightarrow> if stage_kind stage = ''qc'' then handle_qc_result s' v m else advance_to_next_stage s' m
             | None \<Rightarrow> advance_to_next_stage s' m))"

section \<open>One step of a run\<close>

definition is_running :: "PipelineRunState \<Rightarrow> string \<Rightarrow> bool" where
  "is_running s i \<longleftrightarrow> latest_stage_status s i = Some S_RUNNING"

text \<open>A completed stage is left alone, unless its check failed or a declared loop runs it again.\<close>

definition rerun_allowed :: "PipelineRunState \<Rightarrow> string \<Rightarrow> bool" where
  "rerun_allowed s i \<longleftrightarrow> (case sa_qc_verdict (last (attempts_of s i)) of None \<Rightarrow> False | Some v \<Rightarrow> \<not> qv_passed v)
     \<or> (ps_correction_count s > 0 \<and> opt_true (ps_cursor_note s))"

definition attempt_key :: "coord_env \<Rightarrow> PipelineRunState \<Rightarrow> string \<Rightarrow> string" where
  "attempt_key env s i = (let as = attempts_of s i in
     if is_running s i \<and> sa_idempotency_key (last as) \<noteq> [] then sa_idempotency_key (last as)
     else stage_idempotency_key (ce_digest env) (ps_run_id s) i (if is_running s i then sa_attempt (last as) else length as + 1))"

definition new_attempt :: "nat \<Rightarrow> string \<Rightarrow> StageAttempt" where
  "new_attempt n key = \<lparr>sa_attempt = n, sa_status = S_RUNNING, sa_error = None, sa_output = PDict [], sa_qc_verdict = None,
     sa_idempotency_key = key, sa_provider_handle = None\<rparr>"

definition begin_attempt :: "coord_env \<Rightarrow> PipelineRunState \<Rightarrow> string \<Rightarrow> PipelineRunState coord" where
  "begin_attempt env s i = (let key = attempt_key env s i in
     if is_running s i then cret (on_attempt i (\<lambda>a. a\<lparr>sa_idempotency_key := key\<rparr>) s)
     else csave_event (put_attempts i (attempts_of s i @ [new_attempt (length (attempts_of s i) + 1) key]) s) ''stage_started'')"

definition run_attempt :: "coord_env \<Rightarrow> PipelineRunState \<Rightarrow> pydict \<Rightarrow> string \<Rightarrow> string \<Rightarrow> (string \<times> pydict) list \<Rightarrow> PipelineRunState coord" where
  "run_attempt env s stage i authority m =
     cbind (begin_attempt env s i) (\<lambda>s1.
     cbind (execute_stage env s1 stage i authority (is_running s i) (attempt_key env s i)) (\<lambda>(s2, r).
     case hold_attempt s2 i authority r of
       Inl waiting \<Rightarrow> waiting
     | Inr r' \<Rightarrow> conclude_attempt env s2 stage i r' m))"

definition run_current_stage :: "coord_env \<Rightarrow> PipelineRunState \<Rightarrow> PipelineRunState coord" where
  "run_current_stage env s =
     (let m = stage_map_of (plan_stages s) in
      case ps_current_stage_id s of
        None \<Rightarrow> terminalize s SUCCESS ''All stages completed''
      | Some i \<Rightarrow>
          (case map_of m i of
             None \<Rightarrow> terminalize s SUCCESS ''All stages completed''
           | Some stage \<Rightarrow>
               (case ce_resolve env stage of
                  None \<Rightarrow> craise ''stage authority''
                | Some authority \<Rightarrow>
                    if latest_stage_status s i = Some S_COMPLETED \<and> \<not> rerun_allowed s i then advance_to_next_stage s m
                    else run_attempt env s stage i authority m)))"

text \<open>\<open>_cascade_cancellation\<close>.\<close>

definition cancel_external :: "coord_env \<Rightarrow> PipelineRunState \<Rightarrow> string list coord" where
  "cancel_external env s =
     (case ps_current_stage_id s of
        None \<Rightarrow> cret []
      | Some i \<Rightarrow>
          if i = [] \<or> \<not> is_running s i then cret []
          else (case map_of (stage_map_of (plan_stages s)) i of
            None \<Rightarrow> cret []
          | Some stage \<Rightarrow>
              (case ce_resolve env stage of
                 None \<Rightarrow> cbind (cdo (Event ''cancellation_error'')) (\<lambda>_. cret [''unknown:'' @ i])
               | Some authority \<Rightarrow>
                   if authority \<noteq> ''external'' then cret []
                   else cbind (cdo (Cancel_stage i)) (\<lambda>_.
                     case ce_cancel env (ps_run_id s) i of
                       Some True \<Rightarrow> cret []
                     | Some False \<Rightarrow> cret [''external:'' @ i]
                     | None \<Rightarrow> cbind (cdo (Event ''cancellation_error'')) (\<lambda>_. cret [''external:'' @ i])))))"

definition active_child :: "ChildJobRef \<Rightarrow> bool" where
  "active_child c \<longleftrightarrow> \<not> cj_cancelled c \<and> cj_status c \<notin> {''completed'', ''failed'', ''cancelled''}"

fun cancel_children :: "coord_env \<Rightarrow> ChildJobRef list \<Rightarrow> (ChildJobRef list \<times> string list \<times> string list) coord" where
  "cancel_children env [] = cret ([], [], [])"
| "cancel_children env (c # cs) =
     (if \<not> active_child c then cbind (cancel_children env cs) (\<lambda>(cs', done_ids, unresolved). cret (c # cs', done_ids, unresolved))
      else cbind (cdo (Cancel_leaf (cj_child_job_id c))) (\<lambda>_.
        case ce_leaf_cancel env (cj_child_job_id c) of
          Some True \<Rightarrow> cbind (cancel_children env cs) (\<lambda>(cs', done_ids, unresolved).
            cret (c\<lparr>cj_cancelled := True, cj_status := ''cancelled''\<rparr> # cs', cj_child_job_id c # done_ids, unresolved))
        | Some False \<Rightarrow> cbind (cancel_children env cs) (\<lambda>(cs', done_ids, unresolved).
            cret (c # cs', done_ids, (''leaf:'' @ cj_child_job_id c) # unresolved))
        | None \<Rightarrow> cbind (cdo (Event ''cancellation_error'')) (\<lambda>_. cbind (cancel_children env cs) (\<lambda>(cs', done_ids, unresolved).
            cret (c # cs', done_ids, (''leaf:'' @ cj_child_job_id c) # unresolved)))))"

fun join_comma :: "string list \<Rightarrow> string" where
  "join_comma [] = []"
| "join_comma [x] = x"
| "join_comma (x # y # ys) = x @ '', '' @ join_comma (y # ys)"

definition cascade_cancellation :: "coord_env \<Rightarrow> PipelineRunState \<Rightarrow> PipelineRunState coord" where
  "cascade_cancellation env s =
     cbind (cdo (Event ''cancellation_cascade'')) (\<lambda>_.
     cbind (cancel_external env s) (\<lambda>unresolved.
     cbind (cancel_children env (ps_child_jobs s)) (\<lambda>(cs, done_ids, unresolved').
     let s' = s\<lparr>ps_child_jobs := cs, ps_cancelled_children := ps_cancelled_children s @ done_ids, ps_cancelled := True, ps_cancellation_intent := False\<rparr>
     in if unresolved @ unresolved' \<noteq> []
        then terminalize s' UNSAFE_RESUME (''Cancellation requested but provider stop is unresolved: '' @ join_comma (take 32 (unresolved @ unresolved')))
        else terminalize s' COORDINATOR_CANCELLED ''Cancelled by request'')))"

text \<open>\<open>advance\<close>, on the state that was loaded.\<close>

definition current_running :: "PipelineRunState \<Rightarrow> bool" where
  "current_running s \<longleftrightarrow> is_running s (case ps_current_stage_id s of None \<Rightarrow> [] | Some i \<Rightarrow> i)"

text \<open>The next stage of a correction.\<close>

definition take_pending :: "PipelineRunState \<Rightarrow> PipelineRunState" where
  "take_pending s = s\<lparr>ps_pending_stage_ids := tl (ps_pending_stage_ids s), ps_current_stage_id := Some (hd (ps_pending_stage_ids s)),
     ps_cursor_note := (if ps_correction_count s > 0 then Some (correction_note (ps_correction_count s)) else None)\<rparr>"

definition advance :: "coord_env \<Rightarrow> PipelineRunState \<Rightarrow> PipelineRunState coord" where
  "advance env s =
     (if ps_cancellation_intent s \<and> \<not> ps_cancelled s then cascade_cancellation env s
      else if run_over s then cret s
      else if ps_pending_stage_ids s \<noteq> [] \<and> \<not> current_running s
      then (if hd (ps_pending_stage_ids s) \<notin> fst ` set (stage_map_of (plan_stages s))
            then csave (s\<lparr>ps_pending_stage_ids := tl (ps_pending_stage_ids s)\<rparr>)
            else cbind (csave (take_pending s)) (run_current_stage env))
      else run_current_stage env s)"

section \<open>Admission, resumption and cancellation of a run\<close>

definition first_str :: "pydict \<Rightarrow> string list \<Rightarrow> string \<Rightarrow> string" where
  "first_str d ks dflt = (case find (has_key d) ks of None \<Rightarrow> dflt | Some k \<Rightarrow> str_at d k)"

definition submitted_state :: "string \<Rightarrow> string \<Rightarrow> pydict \<Rightarrow> pydict \<Rightarrow> string + PipelineRunState" where
  "submitted_state parent_job_id run_id compiled params =
     (case (deep_sanitize ''$'' (PDict params), deep_sanitize ''$'' (PDict compiled)) of
        (Inr (PDict ps), Inr (PDict cp)) \<Rightarrow>
          let s = \<lparr>ps_parent_job_id = parent_job_id, ps_run_id = run_id, ps_pipeline_id = first_str compiled [''pipeline_id'', ''service_id''] ''?'',
                ps_revision_hash = first_str compiled [''revision_hash'', ''workflow_fingerprint''] [], ps_status = Run_running,
                ps_current_stage_id = None, ps_cursor_note = None, ps_request_params = ps, ps_compiled_pipeline = cp, ps_child_jobs = [],
                ps_stage_attempts = [], ps_stage_qc_verdicts = [], ps_correction_count = 0, ps_max_corrections = int_at compiled ''max_loop_count'',
                ps_loop_iterations = (\<lambda>_. 0), ps_pending_stage_ids = [], ps_artifact = None, ps_initial_artifact = None, ps_last_good_artifact = None,
                ps_cancelled = False, ps_cancellation_intent = False, ps_cancelled_children = [], ps_terminal_code = None, ps_terminal_reason = None,
                ps_resume_count = 0\<rparr>
          in Inr (s\<lparr>ps_current_stage_id := first_ready_stage_id s
               (stage_map_of (filter (\<lambda>x. stage_name x \<noteq> []) (dicts_at compiled ''stages'')))\<rparr>)
      | (Inl e, _) \<Rightarrow> Inl e
      | (_, Inl e) \<Rightarrow> Inl e
      | _ \<Rightarrow> Inl ''not a dictionary'')"

text \<open>\<open>process_one\<close> of the coordinator, on the claimed state.\<close>

definition resume_run :: "PipelineRunState \<Rightarrow> PipelineRunState coord" where
  "resume_run s =
     (let s' = (if ps_current_stage_id s = None \<and> plan_stages s \<noteq> [] then s\<lparr>ps_current_stage_id := Some (stage_name (hd (plan_stages s)))\<rparr> else s)
      in csave_event (s'\<lparr>ps_resume_count := ps_resume_count s' + 1\<rparr>) ''resumed'')"

text \<open>\<open>request_cancellation\<close>, on the state that was loaded: \<open>None\<close> is the answer \<open>False\<close>.\<close>

definition cancelling :: "PipelineRunState \<Rightarrow> PipelineRunState option" where
  "cancelling s = (if run_over s then None else Some (s\<lparr>ps_cancellation_intent := True\<rparr>))"

end
