(* ===== verification/Pipeline_Runs.thy ===== *)
theory Pipeline_Runs
  imports Pipeline_Coordinator
begin

text \<open>
  Facts on runs of the coordinator. \<open>traced A P m\<close> says that all effects of \<open>m\<close> satisfy \<open>A\<close> and its result satisfies \<open>P\<close>.
\<close>

section \<open>Effects of a computation\<close>

definition traced :: "(action \<Rightarrow> bool) \<Rightarrow> ('a \<Rightarrow> bool) \<Rightarrow> 'a coord \<Rightarrow> bool" where
  "traced A P m \<longleftrightarrow> (\<forall>a \<in> set (snd m). A a) \<and> (\<forall>x. fst m = Inr x \<longrightarrow> P x)"

lemma traced_bind:
  assumes "traced A Q m" and "\<And>x. Q x \<Longrightarrow> traced A P (k x)"
  shows "traced A P (cbind m k)"
  using assms by (auto simp: traced_def cbind_def split: sum.splits prod.splits)

lemma traced_basic [simp]:
  "traced A P (cret x) \<longleftrightarrow> P x" "traced A P (craise e)" "traced A Q (csave s) \<longleftrightarrow> A (Saved s) \<and> Q s"
  "traced A Q (csave_event s e) \<longleftrightarrow> A (Saved s) \<and> A (Event e) \<and> Q s" "traced A R (cdo a) \<longleftrightarrow> A a \<and> R ()"
  by (auto simp: traced_def cret_def craise_def csave_def csave_event_def cdo_def)

lemma traced_mono: "traced A P m \<Longrightarrow> (\<And>x. P x \<Longrightarrow> Q x) \<Longrightarrow> traced A Q m"
  by (auto simp: traced_def)

lemma traced_pair: "traced A P m \<Longrightarrow> (\<And>x y. P (x, y) \<Longrightarrow> traced A Q (k x y)) \<Longrightarrow> traced A Q (cbind m (\<lambda>(x, y). k x y))"
  by (rule traced_bind [where Q = P]) auto

section \<open>What an update leaves alone\<close>

lemma attempts_put [simp]: "attempts_of (put_attempts i as s) j = (if j = i then as else attempts_of s j)"
  by (simp add: attempts_of_def put_attempts_def update_conv')

lemma attempts_on [simp]:
  "attempts_of (on_attempt i f s) j = (if j = i \<and> attempts_of s i \<noteq> [] then butlast (attempts_of s i) @ [f (last (attempts_of s i))] else attempts_of s j)"
  by (auto simp: on_attempt_def Let_def)

lemma attempts_of_fields [simp]:
  "attempts_of (s\<lparr>ps_current_stage_id := a\<rparr>) = attempts_of s" "attempts_of (s\<lparr>ps_cursor_note := b\<rparr>) = attempts_of s"
  "attempts_of (s\<lparr>ps_child_jobs := c\<rparr>) = attempts_of s" "attempts_of (s\<lparr>ps_stage_qc_verdicts := e\<rparr>) = attempts_of s"
  "attempts_of (s\<lparr>ps_correction_count := n\<rparr>) = attempts_of s" "attempts_of (s\<lparr>ps_loop_iterations := g\<rparr>) = attempts_of s"
  "attempts_of (s\<lparr>ps_pending_stage_ids := p\<rparr>) = attempts_of s" "attempts_of (s\<lparr>ps_artifact := h\<rparr>) = attempts_of s"
  "attempts_of (s\<lparr>ps_initial_artifact := h\<rparr>) = attempts_of s" "attempts_of (s\<lparr>ps_last_good_artifact := h\<rparr>) = attempts_of s"
  "attempts_of (s\<lparr>ps_cancelled := x\<rparr>) = attempts_of s" "attempts_of (s\<lparr>ps_cancellation_intent := x\<rparr>) = attempts_of s"
  "attempts_of (s\<lparr>ps_cancelled_children := l\<rparr>) = attempts_of s" "attempts_of (s\<lparr>ps_terminal_code := tc\<rparr>) = attempts_of s"
  "attempts_of (s\<lparr>ps_terminal_reason := tr\<rparr>) = attempts_of s" "attempts_of (s\<lparr>ps_resume_count := n\<rparr>) = attempts_of s"
  "attempts_of (s\<lparr>ps_status := st\<rparr>) = attempts_of s"
  by (auto simp: attempts_of_def fun_eq_iff)

lemma update_simps [simp]:
  "ps_current_stage_id (put_attempts i as s) = ps_current_stage_id s" "ps_current_stage_id (on_attempt i f s) = ps_current_stage_id s"
  "ps_cursor_note (put_attempts i as s) = ps_cursor_note s" "ps_cursor_note (on_attempt i f s) = ps_cursor_note s"
  "ps_pending_stage_ids (put_attempts i as s) = ps_pending_stage_ids s" "ps_pending_stage_ids (on_attempt i f s) = ps_pending_stage_ids s"
  "ps_status (put_attempts i as s) = ps_status s" "ps_status (on_attempt i f s) = ps_status s"
  "ps_compiled_pipeline (put_attempts i as s) = ps_compiled_pipeline s" "ps_compiled_pipeline (on_attempt i f s) = ps_compiled_pipeline s"
  "ps_loop_iterations (put_attempts i as s) = ps_loop_iterations s" "ps_loop_iterations (on_attempt i f s) = ps_loop_iterations s"
  "ps_correction_count (put_attempts i as s) = ps_correction_count s" "ps_correction_count (on_attempt i f s) = ps_correction_count s"
  "ps_max_corrections (put_attempts i as s) = ps_max_corrections s" "ps_max_corrections (on_attempt i f s) = ps_max_corrections s"
  "ps_run_id (put_attempts i as s) = ps_run_id s" "ps_run_id (on_attempt i f s) = ps_run_id s"
  "ps_cancelled (put_attempts i as s) = ps_cancelled s" "ps_cancelled (on_attempt i f s) = ps_cancelled s"
  "ps_cancellation_intent (put_attempts i as s) = ps_cancellation_intent s" "ps_cancellation_intent (on_attempt i f s) = ps_cancellation_intent s"
  by (simp_all add: put_attempts_def on_attempt_def Let_def)

lemma note_simps [simp]:
  "ps_current_stage_id (note_verdict i v s) = ps_current_stage_id s" "ps_current_stage_id (note_artifact now stage i a s) = ps_current_stage_id s"
  "ps_cursor_note (note_verdict i v s) = ps_cursor_note s" "ps_cursor_note (note_artifact now stage i a s) = ps_cursor_note s"
  "ps_pending_stage_ids (note_verdict i v s) = ps_pending_stage_ids s" "ps_pending_stage_ids (note_artifact now stage i a s) = ps_pending_stage_ids s"
  "ps_status (note_verdict i v s) = ps_status s" "ps_status (note_artifact now stage i a s) = ps_status s"
  "ps_compiled_pipeline (note_verdict i v s) = ps_compiled_pipeline s" "ps_compiled_pipeline (note_artifact now stage i a s) = ps_compiled_pipeline s"
  "ps_loop_iterations (note_verdict i v s) = ps_loop_iterations s" "ps_loop_iterations (note_artifact now stage i a s) = ps_loop_iterations s"
  "ps_correction_count (note_verdict i v s) = ps_correction_count s" "ps_correction_count (note_artifact now stage i a s) = ps_correction_count s"
  "ps_max_corrections (note_verdict i v s) = ps_max_corrections s" "ps_max_corrections (note_artifact now stage i a s) = ps_max_corrections s"
  "ps_run_id (note_verdict i v s) = ps_run_id s" "ps_run_id (note_artifact now stage i a s) = ps_run_id s"
  "ps_cancelled (note_verdict i v s) = ps_cancelled s" "ps_cancelled (note_artifact now stage i a s) = ps_cancelled s"
  "ps_cancellation_intent (note_verdict i v s) = ps_cancellation_intent s" "ps_cancellation_intent (note_artifact now stage i a s) = ps_cancellation_intent s"
  "attempts_of (note_verdict i v s) = attempts_of s" "attempts_of (note_artifact now stage i a s) = attempts_of s"
  by (simp_all add: note_verdict_def note_artifact_def Let_def split: option.splits prod.splits)

text \<open>What no part of a step but the start of an attempt changes.\<close>

definition view :: "PipelineRunState \<Rightarrow> (string \<Rightarrow> nat) \<times> bool \<times> bool \<times> string \<times> pydict \<times> int" where
  "view s = (\<lambda>i. length (attempts_of s i), ps_cancellation_intent s, ps_cancelled s, ps_run_id s, ps_compiled_pipeline s, ps_max_corrections s)"

definition calm :: "PipelineRunState \<Rightarrow> action \<Rightarrow> bool" where
  "calm s a = (case a of Saved x \<Rightarrow> view x = view s | Executed _ _ _ \<Rightarrow> False | _ \<Rightarrow> True)"

abbreviation steady :: "PipelineRunState \<Rightarrow> PipelineRunState coord \<Rightarrow> bool" where
  "steady s m \<equiv> traced (calm s) (\<lambda>x. view x = view s) m"

lemma calm_simps [simp]:
  "calm s (Saved x) \<longleftrightarrow> view x = view s" "calm s (Event e)" "\<not> calm s (Executed i n k)" "calm s (Polled i h)" "calm s (Cancel_stage i)"
  "calm s (Submitted_leaf i k)" "calm s (Polled_leaf i)" "calm s (Cancel_leaf i)"
  by (simp_all add: calm_def)

lemma calm_cong: "view t = view s \<Longrightarrow> calm t = calm s"
  by (auto simp: calm_def fun_eq_iff split: action.splits)

lemma view_on_attempt [simp]: "view (on_attempt i f s) = view s"
  by (auto simp: view_def fun_eq_iff)

lemma view_fields [simp]:
  "view (s\<lparr>ps_current_stage_id := a\<rparr>) = view s" "view (s\<lparr>ps_cursor_note := b\<rparr>) = view s" "view (s\<lparr>ps_child_jobs := c\<rparr>) = view s"
  "view (s\<lparr>ps_pending_stage_ids := p\<rparr>) = view s" "view (s\<lparr>ps_artifact := h\<rparr>) = view s" "view (s\<lparr>ps_last_good_artifact := h\<rparr>) = view s"
  "view (s\<lparr>ps_terminal_code := tc\<rparr>) = view s" "view (s\<lparr>ps_terminal_reason := tr\<rparr>) = view s" "view (s\<lparr>ps_status := st\<rparr>) = view s"
  "view (s\<lparr>ps_correction_count := n\<rparr>) = view s" "view (s\<lparr>ps_loop_iterations := g\<rparr>) = view s" "view (s\<lparr>ps_resume_count := n\<rparr>) = view s"
  by (simp_all add: view_def)

lemma take_pending_simps [simp]:
  "view (take_pending s) = view s" "attempts_of (take_pending s) = attempts_of s" "ps_status (take_pending s) = ps_status s"
  "ps_compiled_pipeline (take_pending s) = ps_compiled_pipeline s" "ps_loop_iterations (take_pending s) = ps_loop_iterations s"
  "ps_max_corrections (take_pending s) = ps_max_corrections s" "ps_correction_count (take_pending s) = ps_correction_count s"
  "ps_current_stage_id (take_pending s) = Some (hd (ps_pending_stage_ids s))" "ps_pending_stage_ids (take_pending s) = tl (ps_pending_stage_ids s)"
  "ps_cancellation_intent (take_pending s) = ps_cancellation_intent s" "ps_cancelled (take_pending s) = ps_cancelled s"
  by (simp_all add: take_pending_def)

lemma view_correction [simp]: "view (start_correction s l c os) = view s"
  by (simp add: start_correction_def Let_def)

lemma steady_terminalize: "view t = view s \<Longrightarrow> steady s (terminalize t c r)"
  by (simp add: terminalize_def Let_def split: option.splits)

lemma steady_next: "view t = view s \<Longrightarrow> steady s (advance_to_next_stage t m)"
  by (auto simp: advance_to_next_stage_def intro!: steady_terminalize split: option.splits)

lemma steady_qc: "view t = view s \<Longrightarrow> steady s (handle_qc_result t v m)"
  unfolding handle_qc_result_def
  by (rule traced_bind [where Q = "\<lambda>_. True"])
    (auto intro!: steady_terminalize steady_next traced_bind [where Q = "\<lambda>x. view x = view s"] split: option.splits)

lemma steady_failure: "view t = view s \<Longrightarrow> steady s (handle_stage_failure t stage e)"
  by (auto simp: handle_stage_failure_def Let_def intro!: steady_terminalize)

lemma view_note [simp]: "view (note_verdict i v s) = view s" "view (note_artifact now stage i a s) = view s"
  by (simp_all add: view_def)

lemma steady_conclude: "view t = view s \<Longrightarrow> steady s (conclude_attempt env t stage i r m)"
  unfolding conclude_attempt_def Let_def
  by (auto intro!: traced_bind [where Q = "\<lambda>_. True"] steady_failure steady_qc steady_next split: sum.splits prod.splits option.splits)

lemma steady_hold: "view t = view s \<Longrightarrow> hold_attempt t i au r = Inl w \<Longrightarrow> steady s w"
  by (auto simp: hold_attempt_def split: if_splits sum.splits)

lemma steady_leaf: "view t = view s \<Longrightarrow> traced (calm s) (\<lambda>x. view (fst x) = view s) (execute_leaf env t stage key)"
proof -
  assume v: "view t = view s"
  have earlier: "traced (calm s) (\<lambda>_. True) (earlier_child env t i ns)" for i ns
    by (induction env t i ns rule: earlier_child.induct) (auto simp: Let_def intro!: traced_bind [where Q = "\<lambda>_. True"] split: option.splits)
  have "traced (calm s) (\<lambda>x. view (fst x) = view s) (child_of_attempt env t stage key)"
    unfolding child_of_attempt_def submit_child_def using v
    by (auto simp: Let_def intro!: traced_bind [where Q = "\<lambda>_. True"] earlier split: option.splits)
  then show ?thesis unfolding execute_leaf_def
    by (rule traced_pair) (auto simp: Let_def intro!: traced_bind [where Q = "\<lambda>_. True"] split: option.splits)
qed

section \<open>The trace of one step\<close>

definition lens :: "PipelineRunState \<Rightarrow> string \<Rightarrow> nat" where
  "lens s i = length (attempts_of s i)"

definition idle :: "PipelineRunState \<Rightarrow> action \<Rightarrow> bool" where
  "idle s a = (case a of Saved x \<Rightarrow> lens x = lens s | Executed _ _ _ \<Rightarrow> False | _ \<Rightarrow> True)"

lemma idle_simps [simp]:
  "idle s (Saved x) \<longleftrightarrow> lens x = lens s" "idle s (Event e)" "\<not> idle s (Executed i n k)" "idle s (Polled i h)" "idle s (Cancel_stage i)"
  "idle s (Submitted_leaf i k)" "idle s (Polled_leaf i)" "idle s (Cancel_leaf i)"
  by (simp_all add: idle_def)

lemma view_lens: "view x = view s \<Longrightarrow> lens x = lens s"
  by (simp add: view_def lens_def fun_eq_iff)

lemma calm_idle: "calm s a \<Longrightarrow> idle s a"
  by (cases a) (auto dest: view_lens)

lemma lens_cong: "attempts_of x = attempts_of s \<Longrightarrow> lens x = lens s"
  by (simp add: lens_def fun_eq_iff)

text \<open>A step is idle, or saves one new attempt and may then execute it, once.\<close>

definition orderly :: "PipelineRunState \<Rightarrow> action list \<Rightarrow> bool" where
  "orderly d t \<longleftrightarrow> (\<forall>a \<in> set t. idle d a)
     \<or> (\<exists>p s x i e k u. t = p @ Saved s # Event x # e @ u \<and> (\<forall>a \<in> set p. idle d a) \<and> lens s = (lens d)(i := Suc (lens d i))
          \<and> e \<in> {[], [Executed i (Suc (lens d i)) k]} \<and> (\<forall>a \<in> set u. idle s a))"

lemma orderly_idle: "traced (idle d) P m \<Longrightarrow> orderly d (snd m)"
  unfolding orderly_def traced_def by blast

lemma orderly_calm: "traced (calm d) P m \<Longrightarrow> orderly d (snd m)"
  unfolding orderly_def traced_def by (intro disjI1) (blast intro: calm_idle)

lemma snd_bind: "snd (cbind m k) = snd m @ (case fst m of Inl _ \<Rightarrow> [] | Inr x \<Rightarrow> snd (k x))"
  by (auto simp: cbind_def split: prod.splits sum.splits)

lemma fst_bind: "fst (cbind m k) = (case fst m of Inl e \<Rightarrow> Inl e | Inr x \<Rightarrow> fst (k x))"
  by (auto simp: cbind_def split: prod.splits sum.splits)

lemma execute_stage_trace:
  "\<exists>e u. snd (execute_stage env s stage i au resuming key) = e @ u \<and> (\<forall>a \<in> set u. calm s a)
     \<and> e \<in> {[], if resuming then [] else [Executed i (sa_attempt (last (attempts_of s i))) key]}
     \<and> (\<forall>x. fst (execute_stage env s stage i au resuming key) = Inr x \<longrightarrow> view (fst x) = view s)"
proof (cases "materialize_stage_inputs stage s")
  case (Inr stage')
  show ?thesis
  proof (cases "au = ''external''")
    case True
    have "traced (calm s) (\<lambda>_. True) (execute_external env s stage' i True key)"
      by (auto simp: execute_external_def Let_def intro!: traced_bind [where Q = "\<lambda>_. True"] split: option.splits)
    moreover have "snd (execute_external env s stage' i False key) = [Executed i (sa_attempt (last (attempts_of s i))) key]"
      by (simp add: execute_external_def Let_def snd_bind cdo_def cret_def)
    moreover have "snd (execute_stage env s stage i au resuming key) = snd (execute_external env s stage' i resuming key)"
      and "fst (execute_stage env s stage i au resuming key) = Inr x \<longrightarrow> fst x = s" for x
      using True Inr by (auto simp: execute_stage_def snd_bind fst_bind cret_def split: sum.splits)
    ultimately show ?thesis
      by (intro exI [of _ "if resuming then [] else [Executed i (sa_attempt (last (attempts_of s i))) key]"]
          exI [of _ "if resuming then snd (execute_external env s stage' i True key) else []"]) (auto simp: traced_def)
  next
    case False
    have "traced (calm s) (\<lambda>x. view (fst x) = view s) (execute_stage env s stage i au resuming key)"
      using False Inr steady_leaf [of s s] by (auto simp: execute_stage_def)
    then show ?thesis by (intro exI [of _ "[]"] exI) (auto simp: traced_def)
  qed
qed (auto simp: execute_stage_def cret_def)

lemma conclude_or_hold:
  assumes "view s2 = view s"
  shows "steady s (case hold_attempt s2 i au r of Inl w \<Rightarrow> w | Inr r' \<Rightarrow> conclude_attempt env s2 stage i r' m)"
  using steady_hold [OF assms, of i au r] steady_conclude [OF assms] by (auto split: sum.splits)

lemma after_begin_trace:
  "\<exists>e u. snd (cbind (execute_stage env s stage i au resuming key) (\<lambda>(s2, r). case hold_attempt s2 i au r of Inl w \<Rightarrow> w | Inr r' \<Rightarrow> conclude_attempt env s2 stage i r' m))
       = e @ u \<and> (\<forall>a \<in> set u. calm s a) \<and> e \<in> {[], if resuming then [] else [Executed i (sa_attempt (last (attempts_of s i))) key]}"
proof -
  obtain e u where eu: "snd (execute_stage env s stage i au resuming key) = e @ u" "\<forall>a \<in> set u. calm s a"
      "e \<in> {[], if resuming then [] else [Executed i (sa_attempt (last (attempts_of s i))) key]}"
      and x: "\<And>x. fst (execute_stage env s stage i au resuming key) = Inr x \<Longrightarrow> view (fst x) = view s"
    using execute_stage_trace [of env s stage i au resuming key] by blast
  show ?thesis
  proof (cases "fst (execute_stage env s stage i au resuming key)")
    case (Inl err)
    then show ?thesis using eu by (intro exI [of _ e] exI [of _ u]) (auto simp: snd_bind)
  next
    case (Inr y)
    obtain s2 r where y: "y = (s2, r)" by (cases y)
    let ?rest = "case hold_attempt s2 i au r of Inl w \<Rightarrow> w | Inr r' \<Rightarrow> conclude_attempt env s2 stage i r' m"
    have v: "view s2 = view s" using x [OF Inr] by (simp only: y fst_conv)
    have "steady s ?rest" by (rule conclude_or_hold [OF v])
    then have "\<forall>a \<in> set (snd ?rest). calm s a" unfolding traced_def by blast
    moreover have "snd (cbind (execute_stage env s stage i au resuming key) (\<lambda>(s2, r). case hold_attempt s2 i au r of Inl w \<Rightarrow> w | Inr r' \<Rightarrow> conclude_attempt env s2 stage i r' m))
       = e @ (u @ snd ?rest)"
      using eu(1) by (simp add: snd_bind Inr y)
    moreover have "\<forall>a \<in> set (u @ snd ?rest). calm s a" using calculation(1) eu(2) by (simp add: ball_Un)
    ultimately show ?thesis using eu(3) by blast
  qed
qed

lemma run_attempt_orderly: "orderly s (snd (run_attempt env s stage i au m))"
proof (cases "is_running s i")
  case True
  let ?s1 = "on_attempt i (\<lambda>a. a\<lparr>sa_idempotency_key := attempt_key env s i\<rparr>) s"
  have "\<forall>a \<in> set (snd (run_attempt env s stage i au m)). calm ?s1 a"
    using after_begin_trace [of env ?s1 stage i au True "attempt_key env s i" m] True
    by (auto simp: run_attempt_def begin_attempt_def snd_bind cret_def)
  then have "\<forall>a \<in> set (snd (run_attempt env s stage i au m)). idle s a" using calm_cong [of ?s1 s] calm_idle by auto
  then show ?thesis unfolding orderly_def by blast
next
  case False
  let ?key = "attempt_key env s i"
  let ?s1 = "put_attempts i (attempts_of s i @ [new_attempt (length (attempts_of s i) + 1) ?key]) s"
  obtain e u where eu: "snd (run_attempt env s stage i au m) = Saved ?s1 # Event ''stage_started'' # e @ u" "\<forall>a \<in> set u. calm ?s1 a"
      "e \<in> {[], [Executed i (Suc (lens s i)) ?key]}"
    using after_begin_trace [of env ?s1 stage i au False ?key m] False
    by (auto simp: run_attempt_def begin_attempt_def snd_bind csave_event_def Let_def new_attempt_def lens_def)
  moreover have "lens ?s1 = (lens s)(i := Suc (lens s i))" by (simp add: lens_def fun_eq_iff)
  ultimately show ?thesis unfolding orderly_def
    by (intro disjI2 exI [of _ "[]"] exI [of _ ?s1] exI [of _ "''stage_started''"] exI [of _ i] exI [of _ e] exI [of _ ?key] exI [of _ u]) (auto intro: calm_idle)
qed

lemma idle_cascade: "traced (idle s) (\<lambda>x. lens x = lens s) (cascade_cancellation env s)"
proof -
  have e: "traced (idle s) (\<lambda>_. True) (cancel_external env s)"
    by (auto simp: cancel_external_def intro!: traced_bind [where Q = "\<lambda>_. True"] split: option.splits bool.splits)
  have c: "traced (idle s) (\<lambda>_. True) (cancel_children env cs)" for cs
    by (induction env cs rule: cancel_children.induct) (auto intro!: traced_bind [where Q = "\<lambda>_. True"] split: option.splits bool.splits)
  have l: "lens (s\<lparr>ps_child_jobs := cs, ps_cancelled_children := ids, ps_cancelled := b, ps_cancellation_intent := b'\<rparr>) = lens s" for cs ids b b'
    by (simp add: lens_def fun_eq_iff)
  have t: "traced (idle s) (\<lambda>x. lens x = lens s) (terminalize s' code why)" if "lens s' = lens s" for s' code why
    using that by (simp add: terminalize_def lens_def fun_eq_iff Let_def split: option.splits)
  show ?thesis unfolding cascade_cancellation_def Let_def
    by (rule traced_bind [where Q = "\<lambda>_. True"], simp, rule traced_bind [OF e], rule traced_bind [OF c]) (auto intro!: t l split: prod.splits)
qed

lemma run_current_orderly: "orderly s (snd (run_current_stage env s))"
proof -
  have "orderly s (snd (terminalize s c r))" "orderly s (snd (advance_to_next_stage s m))" "orderly s (snd (craise e))" for c r m e
    using orderly_calm [OF steady_terminalize [of s s]] orderly_calm [OF steady_next [of s s]] orderly_calm [of s "\<lambda>_. True" "craise e"] by auto
  then show ?thesis by (auto simp: run_current_stage_def Let_def run_attempt_orderly split: option.splits)
qed

lemma orderly_prepend:
  assumes "idle d (Saved s)" and "orderly s t"
  shows "orderly d (Saved s # t)"
proof -
  have l: "lens s = lens d" and i: "idle s = idle d" using assms(1) by (auto simp: idle_def fun_eq_iff split: action.splits)
  from assms(2) consider "\<forall>a \<in> set t. idle d a"
    | p s' x i e k u where "t = p @ Saved s' # Event x # e @ u" "\<forall>a \<in> set p. idle d a" "lens s' = (lens d)(i := Suc (lens d i))"
        "e \<in> {[], [Executed i (Suc (lens d i)) k]}" "\<forall>a \<in> set u. idle s' a"
    unfolding orderly_def l i by blast
  then show ?thesis
  proof cases
    case 1
    then show ?thesis using l unfolding orderly_def by simp
  next
    case 2
    then have "Saved s # t = (Saved s # p) @ Saved s' # Event x # e @ u" "\<forall>a \<in> set (Saved s # p). idle d a" using l by simp_all
    with 2 show ?thesis unfolding orderly_def by blast
  qed
qed

lemma advance_orderly: "orderly d (snd (advance env d))"
proof -
  let ?s = "d\<lparr>ps_pending_stage_ids := tl (ps_pending_stage_ids d)\<rparr>"
  have popped: "orderly d (snd (cbind (csave s) (run_current_stage env)))" if "attempts_of s = attempts_of d" for s
    using orderly_prepend [of d s, OF _ run_current_orderly] lens_cong [OF that] by (simp add: snd_bind csave_def)
  have skip: "orderly d (snd (csave ?s))" using lens_cong [of ?s d] by (simp add: orderly_def csave_def)
  have over: "orderly d (snd (cret d))" by (simp add: orderly_def cret_def)
  show ?thesis unfolding advance_def Let_def
    using orderly_idle [OF idle_cascade] run_current_orderly skip over popped by (auto split: if_splits)
qed

section \<open>Runs with crashes\<close>

text \<open>The state a run goes on from after the effects \<open>t\<close>.\<close>

definition durable :: "PipelineRunState \<Rightarrow> action list \<Rightarrow> PipelineRunState" where
  "durable d t = fold (\<lambda>a x. case a of Saved y \<Rightarrow> y | _ \<Rightarrow> x) t d"

lemma durable_append [simp]: "durable d (t @ u) = durable (durable d t) u"
  by (simp add: durable_def)

lemma durable_Cons: "durable d (a # t) = durable (case a of Saved y \<Rightarrow> y | _ \<Rightarrow> d) t"
  by (simp add: durable_def)

lemma durable_Nil [simp]: "durable d [] = d"
  by (simp add: durable_def)

text \<open>A step of the coordinator that may end after any of its effects (\<open>t\<close>), with the whole history of effects.\<close>

inductive run_step :: "PipelineRunState \<times> action list \<Rightarrow> PipelineRunState \<times> action list \<Rightarrow> bool" where
  stepped: "snd (advance env d) = t @ rest \<Longrightarrow> run_step (d, h) (durable d t, h @ t)"
| resumed: "snd (resume_run d) = t @ rest \<Longrightarrow> run_step (d, h) (durable d t, h @ t)"
| cancel_requested: "cancelling d = Some d' \<Longrightarrow> run_step (d, h) (d', h @ [Saved d'])"

definition executions :: "action list \<Rightarrow> (string \<times> nat) list" where
  "executions t = concat (map (\<lambda>a. case a of Executed i n k \<Rightarrow> [(i, n)] | _ \<Rightarrow> []) t)"

lemma executions_simps [simp]:
  "executions [] = []" "executions (t @ u) = executions t @ executions u" "executions (Executed i n k # t) = (i, n) # executions t"
  "executions (Saved s # t) = executions t" "executions (Event x # t) = executions t"
  by (simp_all add: executions_def)

lemma idle_executions: "\<forall>a \<in> set t. idle d a \<Longrightarrow> executions t = []"
  by (auto simp: executions_def idle_def split: action.splits)

lemma idle_durable: "\<forall>a \<in> set t. idle d a \<Longrightarrow> lens x = lens d \<Longrightarrow> lens (durable x t) = lens d"
  by (induction t arbitrary: x) (auto simp: durable_Cons split: action.splits)

text \<open>What holds along a run: every executed attempt is on record, and none was executed twice.\<close>

definition executed_once :: "PipelineRunState \<times> action list \<Rightarrow> bool" where
  "executed_once dh \<longleftrightarrow> distinct (executions (snd dh)) \<and> (\<forall>(i, n) \<in> set (executions (snd dh)). n \<le> lens (fst dh) i)"

lemma executed_once_idle:
  assumes "executed_once (d, h)" and "\<forall>a \<in> set t. idle d a"
  shows "executed_once (durable d t, h @ t)"
  using assms idle_executions [OF assms(2)] idle_durable [OF assms(2) refl] by (simp add: executed_once_def)

lemma executed_once_orderly:
  assumes "executed_once (d, h)" and "orderly d (t @ rest)"
  shows "executed_once (durable d t, h @ t)"
proof -
  from assms(2) consider "\<forall>a \<in> set (t @ rest). idle d a"
    | p s x i e k u where "t @ rest = p @ Saved s # Event x # e @ u" "\<forall>a \<in> set p. idle d a" "lens s = (lens d)(i := Suc (lens d i))"
        "e \<in> {[], [Executed i (Suc (lens d i)) k]}" "\<forall>a \<in> set u. idle s a"
    unfolding orderly_def by blast
  then show ?thesis
  proof cases
    case 1
    then show ?thesis by (intro executed_once_idle [OF assms(1)]) simp
  next
    case 2
    have p: "executed_once (durable d p, h @ p)" "lens (durable d p) = lens d"
      using executed_once_idle [OF assms(1) 2(2)] idle_durable [OF 2(2) refl] by auto
    have old: "n \<le> lens d j" if "(j, n) \<in> set (executions (h @ p))" for j n using p that unfolding executed_once_def by fastforce
    have dist: "distinct (executions (h @ p))" using p(1) by (simp add: executed_once_def)
    have grown: "n \<le> lens s j" if "(j, n) \<in> set (executions (h @ p))" for j n using old [OF that] 2(3) by auto
    have s: "executed_once (s, h @ p @ [Saved s])" using dist grown by (auto simp: executed_once_def)
    have "(i, Suc (lens d i)) \<notin> set (executions (h @ p))" using old [of i "Suc (lens d i)"] by auto
    then have e: "executed_once (s, h @ p @ Saved s # Event x # e)" using dist grown 2(3,4) by (auto simp: executed_once_def)
    consider (early) v where "p = t @ v" | (begun) v where "t = p @ v" "v @ rest = Saved s # Event x # e @ u" "v \<noteq> []"
      using 2(1) by (cases "\<exists>v. p = t @ v") (auto simp: append_eq_append_conv2)
    then show ?thesis
    proof cases
      case early
      then show ?thesis using 2(2) by (intro executed_once_idle [OF assms(1)]) simp
    next
      case begun
      then obtain w where w: "v = Saved s # w" "w @ rest = Event x # e @ u" by (cases v) auto
      have d: "durable d t = durable s w" "h @ t = h @ p @ Saved s # w" using begun(1) w by (simp_all add: durable_Cons)
      consider "w = []" | "w = [Event x]" | w' where "w = Event x # e @ w'" "w' @ rest = u"
        using w(2) 2(4) by (cases w; cases "tl w") (auto simp: append_eq_Cons_conv)
      then show ?thesis
      proof cases
        case 3
        then have "\<forall>a \<in> set w'. idle s a" using 2(5) by auto
        then have "executed_once (durable s w', (h @ p @ Saved s # Event x # e) @ w')" by (rule executed_once_idle [OF e])
        moreover have "durable s w = durable s w'" using 3(1) 2(4) by (auto simp: durable_Cons)
        ultimately show ?thesis unfolding d using 3(1) by simp
      qed (use s d in \<open>auto simp: durable_Cons executed_once_def\<close>)
    qed
  qed
qed

lemma resume_idle: "\<forall>a \<in> set (snd (resume_run d)). idle d a"
  by (simp add: resume_run_def csave_event_def Let_def lens_def fun_eq_iff)

lemma run_step_once: "run_step a b \<Longrightarrow> executed_once a \<Longrightarrow> executed_once b"
proof (induction rule: run_step.induct)
  case (stepped env d t rest h)
  then show ?case using executed_once_orderly [of d h t rest] advance_orderly [of d env] by simp
next
  case (resumed d t rest h)
  then have "\<forall>a \<in> set t. idle d a" using resume_idle [of d] by simp
  then show ?case by (rule executed_once_idle [OF resumed(2)])
next
  case (cancel_requested d d' h)
  then have "lens d' = lens d" by (auto simp: cancelling_def lens_def fun_eq_iff split: if_splits)
  with cancel_requested show ?case by (simp add: executed_once_def)
qed

lemma run_steps_once: "run_step\<^sup>*\<^sup>* a b \<Longrightarrow> executed_once a \<Longrightarrow> executed_once b"
  by (induction rule: rtranclp_induct) (auto intro: run_step_once)

text \<open>C26. External work is handed out once. Over any sequence of steps of the coordinator, resumptions and cancellation requests, each of
  which may be cut short by a crash after any of its effects, no attempt of a stage is executed by its external provider twice, and
  every attempt that was executed is on record in the state the run goes on from.\<close>

theorem attempt_executed_at_most_once:
  assumes "run_step\<^sup>*\<^sup>* (s, []) (d, h)"
  shows "distinct (executions h) \<and> (\<forall>i n. (i, n) \<in> set (executions h) \<longrightarrow> n \<le> length (attempts_of d i))"
  using run_steps_once [OF assms] by (auto simp: executed_once_def lens_def)

section \<open>Cancellation\<close>

text \<open>Every stop the cancellation of \<open>s\<close> needs is confirmed by the adapters.\<close>

definition stops_confirmed :: "coord_env \<Rightarrow> PipelineRunState \<Rightarrow> bool" where
  "stops_confirmed env s \<longleftrightarrow>
     (\<forall>c \<in> set (ps_child_jobs s). active_child c \<longrightarrow> ce_leaf_cancel env (cj_child_job_id c) = Some True)
     \<and> (\<forall>i stage. ps_current_stage_id s = Some i \<and> i \<noteq> [] \<and> is_running s i \<and> map_of (stage_map_of (plan_stages s)) i = Some stage \<longrightarrow>
          ce_resolve env stage \<noteq> None \<and> (ce_resolve env stage = Some ''external'' \<longrightarrow> ce_cancel env (ps_run_id s) i = Some True))"

lemma cancel_external_run:
  "\<exists>u t. cancel_external env s = (Inr u, t) \<and> executions t = []
     \<and> (u = [] \<longleftrightarrow> (\<forall>i stage. ps_current_stage_id s = Some i \<and> i \<noteq> [] \<and> is_running s i \<and> map_of (stage_map_of (plan_stages s)) i = Some stage \<longrightarrow>
          ce_resolve env stage \<noteq> None \<and> (ce_resolve env stage = Some ''external'' \<longrightarrow> ce_cancel env (ps_run_id s) i = Some True)))"
  by (auto simp: cancel_external_def cbind_def cret_def cdo_def executions_def split: option.splits bool.splits)

lemma cancel_children_run:
  "\<exists>cs' ids u t. cancel_children env cs = (Inr (cs', ids, u), t) \<and> executions t = []
     \<and> (u = [] \<longleftrightarrow> (\<forall>c \<in> set cs. active_child c \<longrightarrow> ce_leaf_cancel env (cj_child_job_id c) = Some True))
     \<and> ids = map cj_child_job_id (filter (\<lambda>c. active_child c \<and> ce_leaf_cancel env (cj_child_job_id c) = Some True) cs)"
proof (induction cs)
  case (Cons c cs)
  then obtain cs' ids u t where "cancel_children env cs = (Inr (cs', ids, u), t)" "executions t = []"
      "u = [] \<longleftrightarrow> (\<forall>c \<in> set cs. active_child c \<longrightarrow> ce_leaf_cancel env (cj_child_job_id c) = Some True)"
      "ids = map cj_child_job_id (filter (\<lambda>c. active_child c \<and> ce_leaf_cancel env (cj_child_job_id c) = Some True) cs)"
    by blast
  then show ?case
    by (auto simp: cbind_def cret_def cdo_def executions_def split: option.splits bool.splits)
qed (simp add: cret_def)

lemma terminalize_run:
  "\<not> run_over s \<Longrightarrow> \<exists>s'. terminalize s code why = (Inr s', [Saved s', Event ''terminalized'']) \<and> ps_status s' = status_of_code code \<and> ps_terminal_code s' = Some code
     \<and> ps_cancellation_intent s' = ps_cancellation_intent s \<and> ps_cancelled_children s' = ps_cancelled_children s
     \<and> (code \<noteq> SUCCESS \<longrightarrow> ps_artifact s' = (case fallback_artifact s of None \<Rightarrow> ps_artifact s | Some a \<Rightarrow> Some a))"
  by (auto simp: terminalize_def csave_event_def Let_def split: option.splits)

lemma cascade_run:
  assumes "ps_cancellation_intent s" and "\<not> ps_cancelled s" and "\<not> run_over s"
  shows "\<exists>s' t. advance env s = (Inr s', t) \<and> last t = Event ''terminalized'' \<and> durable s t = s' \<and> executions t = [] \<and> \<not> ps_cancellation_intent s'
     \<and> ps_status s' = (if stops_confirmed env s then Run_cancelled else Run_failed)
     \<and> ps_terminal_code s' = Some (if stops_confirmed env s then COORDINATOR_CANCELLED else UNSAFE_RESUME)
     \<and> ps_cancelled_children s' = ps_cancelled_children s
         @ map cj_child_job_id (filter (\<lambda>c. active_child c \<and> ce_leaf_cancel env (cj_child_job_id c) = Some True) (ps_child_jobs s))"
proof -
  obtain u t where ext: "cancel_external env s = (Inr u, t)" "executions t = []"
      and u: "u = [] \<longleftrightarrow> (\<forall>i stage. ps_current_stage_id s = Some i \<and> i \<noteq> [] \<and> is_running s i \<and> map_of (stage_map_of (plan_stages s)) i = Some stage \<longrightarrow>
          ce_resolve env stage \<noteq> None \<and> (ce_resolve env stage = Some ''external'' \<longrightarrow> ce_cancel env (ps_run_id s) i = Some True))"
    using cancel_external_run [of env s] by blast
  obtain cs ids w v where ch: "cancel_children env (ps_child_jobs s) = (Inr (cs, ids, w), v)" "executions v = []"
      and w: "w = [] \<longleftrightarrow> (\<forall>c \<in> set (ps_child_jobs s). active_child c \<longrightarrow> ce_leaf_cancel env (cj_child_job_id c) = Some True)"
      and ids: "ids = map cj_child_job_id (filter (\<lambda>c. active_child c \<and> ce_leaf_cancel env (cj_child_job_id c) = Some True) (ps_child_jobs s))"
    using cancel_children_run [of env "ps_child_jobs s"] by blast
  let ?s = "s\<lparr>ps_child_jobs := cs, ps_cancelled_children := ps_cancelled_children s @ ids, ps_cancelled := True, ps_cancellation_intent := False\<rparr>"
  have conf: "u @ w = [] \<longleftrightarrow> stops_confirmed env s" using u w unfolding stops_confirmed_def append_is_Nil_conv by blast
  let ?code = "if stops_confirmed env s then COORDINATOR_CANCELLED else UNSAFE_RESUME"
  let ?why = "if stops_confirmed env s then ''Cancelled by request'' else ''Cancellation requested but provider stop is unresolved: '' @ join_comma (take 32 (u @ w))"
  obtain s' where s': "terminalize ?s ?code ?why = (Inr s', [Saved s', Event ''terminalized''])" "ps_status s' = status_of_code ?code"
     "ps_terminal_code s' = Some ?code" "\<not> ps_cancellation_intent s'" "ps_cancelled_children s' = ps_cancelled_children s @ ids"
    using terminalize_run [of ?s ?code ?why] assms(3) by (auto simp: run_over_def)
  have casc: "advance env s = cascade_cancellation env s" using assms by (simp add: advance_def)
  have "cascade_cancellation env s = cbind (cdo (Event ''cancellation_cascade'')) (\<lambda>_. cbind (Inr u, t) (\<lambda>_. cbind (Inr (cs, ids, w), v) (\<lambda>_. terminalize ?s ?code ?why)))"
    using conf by (cases "stops_confirmed env s") (simp_all add: cascade_cancellation_def ext(1) ch(1) Let_def cbind_def)
  then have adv: "advance env s = (Inr s', Event ''cancellation_cascade'' # t @ v @ [Saved s', Event ''terminalized''])"
    unfolding casc s'(1) by (simp add: cbind_def cdo_def)
  show ?thesis unfolding adv using s'(2-5) ext(2) ch(2) ids
    by (intro exI [of _ s'] exI [of _ "Event ''cancellation_cascade'' # t @ v @ [Saved s', Event ''terminalized'']"])
      (simp add: status_of_code_def durable_Cons)
qed

text \<open>C31. A cancellation tells the truth. On a run with a recorded request the next step ends the run without executing anything. The run is
  cancelled exactly when every active child and the running external stage confirmed that they stopped; otherwise it fails with the code for an
  unknown outcome. The children recorded as cancelled are exactly those whose stop was confirmed.\<close>

theorem cancellation_is_truthful:
  assumes "ps_cancellation_intent s" and "\<not> ps_cancelled s" and "\<not> run_over s"
  shows "\<exists>s' t. advance env s = (Inr s', t) \<and> last t = Event ''terminalized'' \<and> durable s t = s' \<and> executions t = [] \<and> \<not> ps_cancellation_intent s'
     \<and> ps_status s' = (if stops_confirmed env s then Run_cancelled else Run_failed)
     \<and> ps_terminal_code s' = Some (if stops_confirmed env s then COORDINATOR_CANCELLED else UNSAFE_RESUME)
     \<and> ps_cancelled_children s' = ps_cancelled_children s
         @ map cj_child_job_id (filter (\<lambda>c. active_child c \<and> ce_leaf_cancel env (cj_child_job_id c) = Some True) (ps_child_jobs s))"
  by (rule cascade_run [OF assms])

section \<open>A sample run\<close>

definition sample_stage :: "string \<Rightarrow> string \<Rightarrow> string list \<Rightarrow> pyval" where
  "sample_stage i kind deps = PDict [(''id'', PStr i), (''kind'', PStr kind), (''depends_on'', PList (map PStr deps))]"

definition sample_plan :: pydict where
  "sample_plan = [(''pipeline_id'', PStr ''p''), (''max_loop_count'', PInt 1),
     (''stages'', PList [sample_stage ''c'' ''qc'' [''g''], sample_stage ''g'' ''generate'' [], sample_stage ''k'' ''correct'' []])]"

definition sample_result :: "string \<Rightarrow> stage_result" where
  "sample_result i = \<lparr>sr_status = ''completed'', sr_output = PDict [], sr_error = None,
     sr_qc_verdict = (if i = ''c'' then Some \<lparr>qv_stage_id = i, qv_passed = False, qv_report = ''blurred'', qv_raw_data = None\<rparr> else None),
     sr_artifact = (if i = ''c'' then None else Some (''/out/'' @ i, ''00'')), sr_provider_handle = PNone\<rparr>"

definition sample_env :: coord_env where
  "sample_env = \<lparr>ce_now = ''now'', ce_text = (\<lambda>_. []), ce_digest = id, ce_resolve = (\<lambda>_. Some ''external''),
     ce_execute = (\<lambda>x s k. Inr (sample_result (stage_name x))), ce_poll = (\<lambda>x s k h. Inl ''lost''), ce_cancel = (\<lambda>r i. Some True),
     ce_leaf_submit = (\<lambda>x s k c. Some ''child''), ce_leaf_poll = (\<lambda>n c. Some \<lparr>lp_status = ''failed'', lp_output = PNone, lp_error = None, lp_qc_verdict = None, lp_artifact = None\<rparr>),
     ce_leaf_cancel = (\<lambda>c. Some True)\<rparr>"

definition sample_run :: PipelineRunState where
  "sample_run = projr (submitted_state ''job'' ''run'' sample_plan [])"

lemma sample_sanitized: "deep_sanitize ''$'' (PDict sample_plan) = Inr (PDict sample_plan)"
  by (simp add: sample_plan_def sample_stage_def has_key_def SANITIZE_REJECT_KEYS_def rejected_field_def SANITIZE_REJECT_SUFFIXES_def ends_with_def
    MAX_STR_LEN_def MAX_COLLECTION_ITEMS_def)

lemma empty_sanitized: "deep_sanitize ''$'' (PDict []) = Inr (PDict [])"
  by (simp add: has_key_def SANITIZE_REJECT_KEYS_def)

lemma sample_submitted: "submitted_state ''job'' ''run'' sample_plan [] = Inr sample_run"
  by (simp add: sample_run_def submitted_state_def sample_sanitized empty_sanitized Let_def del: deep_sanitize.simps)

text \<open>The run as a record, for evaluation: the sanitizer has nothing to change.\<close>

lemma sample_run_code [code]:
  "sample_run = \<lparr>ps_parent_job_id = ''job'', ps_run_id = ''run'', ps_pipeline_id = ''p'', ps_revision_hash = [], ps_status = Run_running,
     ps_current_stage_id = Some ''g'', ps_cursor_note = None, ps_request_params = [], ps_compiled_pipeline = sample_plan, ps_child_jobs = [],
     ps_stage_attempts = [], ps_stage_qc_verdicts = [], ps_correction_count = 0, ps_max_corrections = 1,
     ps_loop_iterations = (\<lambda>_. 0), ps_pending_stage_ids = [], ps_artifact = None, ps_initial_artifact = None, ps_last_good_artifact = None,
     ps_cancelled = False, ps_cancellation_intent = False, ps_cancelled_children = [], ps_terminal_code = None, ps_terminal_reason = None,
     ps_resume_count = 0\<rparr>"
proof -
  have "first_str sample_plan [''pipeline_id'', ''service_id''] ''?'' = ''p''" "first_str sample_plan [''revision_hash'', ''workflow_fingerprint''] [] = []"
      "int_at sample_plan ''max_loop_count'' = 1"
    by code_simp+
  moreover have "first_ready_stage_id s (stage_map_of (filter (\<lambda>x. stage_name x \<noteq> []) (dicts_at sample_plan ''stages''))) = Some ''g''"
    if "ps_stage_attempts s = []" for s
    using that
    by (simp add: first_ready_stage_id_def stage_map_of_def dicts_at_def sample_plan_def sample_stage_def dget_def dget_or_def str_at_def strs_at_def stage_ready_def
      stage_settled_def latest_stage_status_def attempts_of_def dependency_met_def default_enabled_def Let_def)
  ultimately show ?thesis by (simp add: sample_run_def submitted_state_def sample_sanitized empty_sanitized Let_def del: deep_sanitize.simps)
qed

lemma sample_executes: "executions (snd (advance sample_env sample_run)) = [(''g'', 1)]"
  by code_simp

theorem attempt_executed_at_most_once_witness: "distinct (executions (snd (advance sample_env sample_run))) \<and> executions (snd (advance sample_env sample_run)) = [(''g'', 1)]"
proof -
  have "run_step\<^sup>*\<^sup>* (sample_run, []) (durable sample_run (snd (advance sample_env sample_run)), [] @ snd (advance sample_env sample_run))"
    by (intro r_into_rtranclp run_step.stepped [where rest = "[]"]) simp
  from attempt_executed_at_most_once [OF this] show ?thesis using sample_executes by simp
qed

lemma sample_asked: "ps_cancellation_intent (sample_run\<lparr>ps_cancellation_intent := True\<rparr>)" "\<not> ps_cancelled (sample_run\<lparr>ps_cancellation_intent := True\<rparr>)"
    "\<not> run_over (sample_run\<lparr>ps_cancellation_intent := True\<rparr>)"
  by code_simp+

theorem cancellation_is_truthful_witness:
  "\<exists>s'. fst (advance sample_env (sample_run\<lparr>ps_cancellation_intent := True\<rparr>)) = Inr s' \<and> ps_status s' = Run_cancelled"
proof -
  have "stops_confirmed sample_env (sample_run\<lparr>ps_cancellation_intent := True\<rparr>)"
    by (simp add: stops_confirmed_def sample_env_def)
  then show ?thesis using cancellation_is_truthful [OF sample_asked, of sample_env] by auto
qed

end
