(* ===== verification/Pipeline_Progress.thy ===== *)
theory Pipeline_Progress
  imports Pipeline_Runs
begin

text \<open>
  Progress of runs of the coordinator: a step taken while a cancellation is requested, and the end of every run whose adapters answer.
\<close>

section \<open>A request during a step\<close>

definition unasked :: "action \<Rightarrow> bool" where
  "unasked a = (case a of Saved x \<Rightarrow> \<not> ps_cancellation_intent x \<and> \<not> ps_cancelled x | _ \<Rightarrow> True)"

lemma unasked_simps [simp]:
  "unasked (Saved x) \<longleftrightarrow> \<not> ps_cancellation_intent x \<and> \<not> ps_cancelled x" "unasked (Event e)" "unasked (Executed i n k)" "unasked (Polled i h)"
  "unasked (Cancel_stage i)" "unasked (Submitted_leaf i k)" "unasked (Polled_leaf i)" "unasked (Cancel_leaf i)"
  by (simp_all add: unasked_def)

abbreviation silent :: "PipelineRunState \<Rightarrow> bool" where
  "silent s \<equiv> \<not> ps_cancellation_intent s \<and> \<not> ps_cancelled s"

lemma view_silent: "view x = view s \<Longrightarrow> silent s \<Longrightarrow> silent x"
  by (simp add: view_def)

lemma calm_unasked: "calm s a \<Longrightarrow> silent s \<Longrightarrow> unasked a"
  by (cases a) (auto dest: view_silent)

lemma steady_unasked: "steady s m \<Longrightarrow> silent s \<Longrightarrow> \<forall>a \<in> set (snd m). unasked a"
  unfolding traced_def by (blast intro: calm_unasked)

lemma run_attempt_unasked:
  assumes "silent s"
  shows "\<forall>a \<in> set (snd (run_attempt env s stage i au m)). unasked a"
proof -
  let ?key = "attempt_key env s i"
  let ?s1 = "if is_running s i then on_attempt i (\<lambda>a. a\<lparr>sa_idempotency_key := ?key\<rparr>) s
    else put_attempts i (attempts_of s i @ [new_attempt (length (attempts_of s i) + 1) ?key]) s"
  have s1: "silent ?s1" using assms by simp
  obtain e u where "snd (run_attempt env s stage i au m) = (if is_running s i then [] else [Saved ?s1, Event ''stage_started'']) @ e @ u"
      and u: "\<forall>a \<in> set u. calm ?s1 a" and e: "e \<in> {[], if is_running s i then [] else [Executed i (sa_attempt (last (attempts_of ?s1 i))) ?key]}"
    using after_begin_trace [of env ?s1 stage i au "is_running s i" ?key m]
    by (cases "is_running s i") (auto simp: run_attempt_def begin_attempt_def snd_bind csave_event_def cret_def Let_def)
  moreover have "\<forall>a \<in> set u. unasked a" using u calm_unasked [OF _ s1] by blast
  moreover have "\<forall>a \<in> set e. unasked a" using e by (auto split: if_splits)
  ultimately show ?thesis using s1 by (auto split: if_splits)
qed

lemma run_current_unasked: "silent s \<Longrightarrow> \<forall>a \<in> set (snd (run_current_stage env s)). unasked a"
  using run_attempt_unasked [of s] steady_unasked [OF steady_terminalize [of s s]] steady_unasked [OF steady_next [of s s]]
  by (auto simp: run_current_stage_def Let_def craise_def split: option.splits)

lemma advance_unasked: "silent d \<Longrightarrow> \<forall>a \<in> set (snd (advance env d)). unasked a"
  using run_current_unasked [of d env] run_current_unasked [of "take_pending d" env]
  by (simp add: advance_def snd_bind csave_def cret_def)

lemma durable_unasked: "\<forall>a \<in> set u. unasked a \<Longrightarrow> \<exists>x. Saved x \<in> set u \<Longrightarrow> silent (durable c u)"
proof (induction u arbitrary: c)
  case (Cons a u)
  show ?case
  proof (cases "\<exists>x. Saved x \<in> set u")
    case True
    then show ?thesis using Cons by (simp add: durable_Cons)
  next
    case False
    then have "durable y u = y" for y by (induction u) (auto simp: durable_Cons split: action.splits)
    then show ?thesis using Cons(2,3) False by (auto simp: durable_Cons split: action.splits)
  qed
qed simp

text \<open>C34. A cancellation requested during a step is lost. The step works on the state it loaded: when the request is recorded after the effects
  \<open>t\<close> of the step and the step saves once more, the saved state knows of no request, and the next step goes on with the run.\<close>

theorem cancellation_request_lost:
  assumes "\<not> ps_cancellation_intent d" and "\<not> ps_cancelled d" and "snd (advance env d) = t @ u" and "cancelling (durable d t) = Some c"
    and "Saved x \<in> set u"
  shows "ps_cancellation_intent c \<and> \<not> ps_cancellation_intent (durable c u) \<and> \<not> ps_cancelled (durable c u)"
proof -
  have "\<forall>a \<in> set u. unasked a" using advance_unasked [of d env] assms(1-3) by auto
  then have "silent (durable c u)" using durable_unasked assms(5) by blast
  then show ?thesis using assms(4) by (auto simp: cancelling_def split: if_splits)
qed

section \<open>Adapters that answer\<close>

definition final_result :: "stage_result \<Rightarrow> bool" where
  "final_result r \<longleftrightarrow> sr_status r \<in> {''completed'', ''failed''} \<and> (\<exists>v. deep_sanitize ''$'' (sr_output r) = Inr v)"

text \<open>No adapter raises where nothing catches it, and every answer is final and can be stored.\<close>

definition decisive :: "coord_env \<Rightarrow> bool" where
  "decisive env \<longleftrightarrow> (\<forall>x. ce_resolve env x \<noteq> None)
     \<and> (\<forall>x s k r. ce_execute env x s k = Inr r \<longrightarrow> final_result r) \<and> (\<forall>x s k h r. ce_poll env x s k h = Inr r \<longrightarrow> final_result r)
     \<and> (\<forall>x s k c. ce_leaf_submit env x s k c \<noteq> None) \<and> (\<forall>n c. \<exists>p. ce_leaf_poll env n c = Some p \<and> final_result (leaf_result p))"

lemma final_failed [simp]: "final_result (failed_result e)"
  by (simp add: final_result_def failed_result_def SANITIZE_REJECT_KEYS_def has_key_def)

lemma cbind_Inr: "cbind (Inr x, t) k = (fst (k x), t @ snd (k x))"
  by (simp add: cbind_def split: prod.splits)

lemma execute_leaf_decisive:
  assumes "decisive env"
  shows "\<exists>cs r t. execute_leaf env s stage key = (Inr (s\<lparr>ps_child_jobs := cs\<rparr>, r), t) \<and> final_result r"
proof -
  have earlier: "\<exists>n t. earlier_child env s i ns = (Inr n, t)" for i ns
    by (induction ns) (auto simp: Let_def cbind_def cret_def cdo_def split: option.splits)
  obtain n t where n: "earlier_child env s (stage_name stage) (rev [0..<length (ps_child_jobs s)]) = (Inr n, t)" using earlier by blast
  have "\<exists>cs n t. submit_child env s stage key = (Inr (s\<lparr>ps_child_jobs := cs\<rparr>, n), t)"
  proof -
    obtain child where "ce_leaf_submit env stage s key (build_trusted_config (ce_text env) stage s) = Some child"
      using assms unfolding decisive_def by blast
    then show ?thesis by (auto simp: submit_child_def cbind_def cdo_def cret_def Let_def)
  qed
  then have "\<exists>cs n t. child_of_attempt env s stage key = (Inr (s\<lparr>ps_child_jobs := cs\<rparr>, n), t)"
    by (cases n; cases "own_child s (stage_name stage) key")
      (auto simp: child_of_attempt_def n cbind_Inr cret_def intro: exI [of _ "ps_child_jobs s"])
  then obtain cs n t where c: "child_of_attempt env s stage key = (Inr (s\<lparr>ps_child_jobs := cs\<rparr>, n), t)" by blast
  obtain p where "ce_leaf_poll env 1 (cj_child_job_id (cs ! n)) = Some p" "final_result (leaf_result p)"
    using assms unfolding decisive_def by meson
  then show ?thesis by (auto simp: execute_leaf_def c cbind_Inr cbind_def cdo_def cret_def Let_def)
qed

lemma execute_stage_decisive:
  assumes "decisive env"
  shows "\<exists>cs r t. execute_stage env s stage i au resuming key = (Inr (s\<lparr>ps_child_jobs := cs\<rparr>, r), t) \<and> final_result r"
proof (cases "materialize_stage_inputs stage s")
  case (Inr stage')
  have "\<exists>r t. execute_external env s stage' i resuming key = (Inr r, t) \<and> final_result r"
    using assms by (auto simp: execute_external_def decisive_def cbind_def cret_def cdo_def Let_def split: option.splits sum.splits)
  then show ?thesis using execute_leaf_decisive [OF assms, of s stage' key] Inr
    by (auto simp: execute_stage_def cbind_Inr cret_def intro: exI [of _ "ps_child_jobs s"])
qed (auto simp: execute_stage_def cret_def intro!: exI [of _ "ps_child_jobs s"])

lemma hold_final: "final_result r \<Longrightarrow> hold_attempt s i au r = Inr r"
  by (auto simp: hold_attempt_def final_result_def)

section \<open>A measure of the work left\<close>

text \<open>The rounds of correction that are left.\<close>

definition rounds_left :: "PipelineRunState \<Rightarrow> nat" where
  "rounds_left s = sum_list (map (\<lambda>l. nat (int_at l ''max_iterations'' - int (ps_loop_iterations s (str_at l ''id'')))) (plan_loops s))
     + (case find (\<lambda>x. stage_kind x = ''correct'') (plan_stages s) of
          None \<Rightarrow> 0 | Some c \<Rightarrow> nat (ps_max_corrections s - int (ps_loop_iterations s (stage_name c))))"

lemma sum_list_less:
  assumes "\<And>x. x \<in> set xs \<Longrightarrow> f x \<le> (g x :: nat)" and "y \<in> set xs" and "f y < g y"
  shows "sum_list (map f xs) < sum_list (map g xs)"
  using assms
proof (induction xs)
  case (Cons x xs)
  have "f x \<le> g x" "sum_list (map f xs) \<le> sum_list (map g xs)" using Cons.prems(1) by (auto intro: sum_list_mono)
  moreover have "f x < g x \<or> sum_list (map f xs) < sum_list (map g xs)" using Cons by auto
  ultimately show ?case by auto
qed simp

lemma plan_correction [simp]: "plan_loops (start_correction s l c os) = plan_loops s" "plan_stages (start_correction s l c os) = plan_stages s"
  by (simp_all add: plan_loops_def plan_stages_def start_correction_def Let_def)

lemma correction_uses_round:
  assumes "qc_loop s i = Some (l, c, mx, os)" and "int (ps_loop_iterations s l) < mx"
  shows "rounds_left (start_correction s l c os) < rounds_left s"
proof -
  let ?s = "start_correction s l c os"
  have it: "ps_loop_iterations ?s = (ps_loop_iterations s)(l := Suc (ps_loop_iterations s l))" "ps_max_corrections ?s = ps_max_corrections s"
    by (simp_all add: start_correction_def Let_def)
  let ?f = "\<lambda>s x. nat (int_at x ''max_iterations'' - int (ps_loop_iterations s (str_at x ''id'')))"
  let ?g = "\<lambda>s. case find (\<lambda>x. stage_kind x = ''correct'') (plan_stages s) of None \<Rightarrow> 0
      | Some c \<Rightarrow> nat (ps_max_corrections s - int (ps_loop_iterations s (stage_name c)))"
  have le: "?f ?s x \<le> ?f s x" "?g ?s \<le> ?g s" for x by (auto simp: it split: option.splits)
  show ?thesis
  proof (cases "find (\<lambda>x. dget x ''trigger_stage_id'' = PStr i) (plan_loops s)")
    case (Some x)
    have "str_at x ''id'' = l" "int_at x ''max_iterations'' = mx" using assms(1) by (simp_all add: qc_loop_def Some)
    moreover have "x \<in> set (plan_loops s)" using Some by (auto simp: find_Some_iff)
    ultimately have "sum_list (map (?f ?s) (plan_loops s)) < sum_list (map (?f s) (plan_loops s))"
      using assms(2) le(1) by (intro sum_list_less [of "plan_loops s" _ _ x]) (auto simp: it)
    then show ?thesis using le(2) by (simp add: rounds_left_def)
  next
    case None
    then have "?g ?s < ?g s" using assms by (auto simp: qc_loop_def it split: option.splits)
    moreover have "sum_list (map (?f ?s) (plan_loops s)) \<le> sum_list (map (?f s) (plan_loops s))" by (intro sum_list_mono le(1))
    ultimately show ?thesis by (simp add: rounds_left_def)
  qed
qed

text \<open>What a step that does not end the run leaves of the plan, and how it leaves the attempts of a stage.\<close>

definition plan_of :: "PipelineRunState \<Rightarrow> pydict \<times> int" where
  "plan_of s = (ps_compiled_pipeline s, ps_max_corrections s)"

lemma plan_ofD: "plan_of s = plan_of t \<Longrightarrow> plan_stages s = plan_stages t \<and> plan_loops s = plan_loops t \<and> ps_max_corrections s = ps_max_corrections t"
  by (simp add: plan_of_def plan_stages_def plan_loops_def)

lemma rounds_cong: "plan_of s = plan_of t \<Longrightarrow> ps_loop_iterations s = ps_loop_iterations t \<Longrightarrow> rounds_left s = rounds_left t"
  by (auto simp: rounds_left_def dest!: plan_ofD split: option.splits)

text \<open>The run goes on after the attempt of stage \<open>i\<close> ended with status \<open>st\<close>.\<close>

definition goes_on :: "PipelineRunState \<Rightarrow> string \<Rightarrow> PipelineStageStatus \<Rightarrow> PipelineRunState \<Rightarrow> bool" where
  "goes_on s i st s' \<longleftrightarrow> plan_of s' = plan_of s \<and> (rounds_left s' < rounds_left s
     \<or> ps_loop_iterations s' = ps_loop_iterations s \<and> ps_pending_stage_ids s' = ps_pending_stage_ids s
       \<and> (if st = S_COMPLETED
          then (ps_pending_stage_ids s \<noteq> [] \<and> ps_current_stage_id s' = None)
            \<or> (ps_pending_stage_ids s = [] \<and> (\<exists>n. ps_current_stage_id s' = Some n \<and> \<not> stage_settled s' n))
          else ps_current_stage_id s' = Some i))"

lemma stage_settled_cong: "attempts_of s = attempts_of t \<Longrightarrow> stage_settled s = stage_settled t"
  by (simp add: stage_settled_def latest_stage_status_def fun_eq_iff)

lemma first_readyD: "first_ready_stage_id s m = Some n \<Longrightarrow> \<not> stage_settled s n"
  by (auto simp: first_ready_stage_id_def stage_ready_def find_Some_iff)

lemma terminal_over: "status_of_code c \<noteq> Run_running"
  by (simp add: status_of_code_def)

lemma terminalize_over: "\<exists>s' t. terminalize s code why = (Inr s', t) \<and> run_over s'"
  using terminalize_run [of s code why] terminal_over [of code] by (cases "run_over s") (auto simp: terminalize_def cret_def run_over_def)

lemma next_goes_on:
  assumes "ps_current_stage_id s = Some i" and "stage_settled s i"
  shows "\<exists>s' t. advance_to_next_stage s m = (Inr s', t) \<and> (run_over s' \<or> (attempts_of s' = attempts_of s \<and> goes_on s i S_COMPLETED s'))"
proof (cases "ps_pending_stage_ids s = []")
  case True
  show ?thesis
  proof (cases "first_ready_stage_id s m")
    case None
    then show ?thesis using True terminalize_over by (fastforce simp: advance_to_next_stage_def)
  next
    case (Some n)
    have n: "\<not> stage_settled s n" by (rule first_readyD [OF Some])
    then have "n \<noteq> i" using assms(2) by auto
    let ?s = "s\<lparr>ps_current_stage_id := Some n, ps_cursor_note := None\<rparr>"
    have "goes_on s i S_COMPLETED ?s" using n True stage_settled_cong [of ?s s] by (simp add: goes_on_def plan_of_def)
    then show ?thesis using Some True assms(1) \<open>n \<noteq> i\<close> terminalize_over [of s SUCCESS "''All stages completed''"]
      by (auto simp: advance_to_next_stage_def csave_event_def)
  qed
next
  case False
  then show ?thesis by (auto simp: advance_to_next_stage_def csave_def goes_on_def plan_of_def)
qed

lemma qc_goes_on:
  assumes "ps_current_stage_id s = Some i" and "stage_settled s i"
  shows "\<exists>s' t. handle_qc_result s v m = (Inr s', t) \<and> (run_over s' \<or> (attempts_of s' = attempts_of s \<and> goes_on s i S_COMPLETED s'))"
proof (cases "qv_passed v")
  case True
  let ?s = "case ps_artifact s of None \<Rightarrow> s | Some a \<Rightarrow> s\<lparr>ps_last_good_artifact := Some a\<rparr>"
  have same: "attempts_of ?s = attempts_of s" "plan_of ?s = plan_of s" "ps_loop_iterations ?s = ps_loop_iterations s"
      "ps_pending_stage_ids ?s = ps_pending_stage_ids s" "ps_current_stage_id ?s = ps_current_stage_id s"
    by (auto simp: plan_of_def split: option.splits)
  obtain s' t where n: "advance_to_next_stage ?s m = (Inr s', t)" "run_over s' \<or> (attempts_of s' = attempts_of ?s \<and> goes_on ?s i S_COMPLETED s')"
    using next_goes_on [of ?s i m] assms same(1,5) stage_settled_cong [OF same(1)] by auto
  have "goes_on s i S_COMPLETED s'" if "goes_on ?s i S_COMPLETED s'"
    using that same(2-4) rounds_cong [OF same(2,3)] by (simp add: goes_on_def)
  then show ?thesis using n same(1) True
    by (cases "ps_artifact s") (auto simp: handle_qc_result_def cbind_def cdo_def csave_def)
next
  case False
  show ?thesis
  proof (cases "qc_loop s (qv_stage_id v)")
    case None
    obtain s' t where "terminalize s QC_EXHAUSTED ''QC failed but no correct stage defined'' = (Inr s', t)" "run_over s'" using terminalize_over by blast
    then show ?thesis using None False by (simp add: handle_qc_result_def cbind_def cdo_def)
  next
    case (Some l)
    obtain lid c mx os where l: "l = (lid, c, mx, os)" by (cases l)
    let ?s = "start_correction s lid c os"
    have a: "attempts_of ?s = attempts_of s" "plan_of ?s = plan_of s" by (simp_all add: start_correction_def Let_def plan_of_def)
    have "goes_on s i S_COMPLETED ?s" if "\<not> mx \<le> int (ps_loop_iterations s lid)"
      using correction_uses_round [of s "qv_stage_id v" lid c mx os] Some that a(2) by (simp add: goes_on_def l)
    moreover obtain s' t where "terminalize s QC_EXHAUSTED (''QC failed after '' @ show_nat (ps_loop_iterations s lid) @ ''/'' @ show_int mx @ '' correction iterations'')
        = (Inr s', t)" "run_over s'" using terminalize_over by blast
    ultimately show ?thesis using False Some l a
      by (cases "mx \<le> int (ps_loop_iterations s lid)") (simp_all add: handle_qc_result_def cbind_def cdo_def csave_event_def)
  qed
qed

lemma failure_goes_on:
  assumes "stage_name stage = i"
  shows "\<exists>s' t. handle_stage_failure s stage e = (Inr s', t) \<and> (run_over s' \<or> (attempts_of s' = attempts_of s \<and> goes_on s i S_FAILED s' \<and> current_attempt s i < 11))"
proof -
  have m: "max_attempts stage \<le> 11" by (simp add: max_attempts_def Let_def)
  show ?thesis using terminalize_over m assms
    by (fastforce simp: handle_stage_failure_def Let_def csave_event_def goes_on_def plan_of_def)
qed

lemma goes_on_cong:
  assumes "goes_on s3 i st s'" and "plan_of s3 = plan_of s" and "ps_loop_iterations s3 = ps_loop_iterations s"
    and "ps_pending_stage_ids s3 = ps_pending_stage_ids s"
  shows "goes_on s i st s'"
  using assms rounds_cong [OF assms(2,3)] by (auto simp: goes_on_def)

lemma conclude_goes_on:
  assumes "final_result r" and "attempts_of s i \<noteq> []" and "ps_current_stage_id s = Some i" and "stage_name stage = i"
  shows "\<exists>s' t a. conclude_attempt env s stage i r m = (Inr s', t) \<and> sa_status a \<in> {S_COMPLETED, S_FAILED}
     \<and> (run_over s' \<or> (attempts_of s' = (attempts_of s)(i := butlast (attempts_of s i) @ [a]) \<and> goes_on s i (sa_status a) s'
          \<and> (sa_status a = S_FAILED \<longrightarrow> current_attempt s i < 11)))"
proof -
  obtain out where out: "deep_sanitize ''$'' (sr_output r) = Inr out" using assms(1) by (auto simp: final_result_def)
  obtain r' h where rh: "checked_handle r = (r', h)" by (cases "checked_handle r")
  have st: "sr_status r' \<in> {''completed'', ''failed''}"
    using rh assms(1) by (auto simp: checked_handle_def final_result_def split: if_splits sum.splits)
  define a where "a = end_of_attempt r' out h (last (attempts_of s i))"
  define s3 where "s3 = note_artifact (ce_now env) stage i (sr_artifact r') (note_verdict i (sr_qc_verdict r') (on_attempt i (end_of_attempt r' out h) s))"
  have att: "attempts_of s3 = (attempts_of s)(i := butlast (attempts_of s i) @ [a])" using assms(2) by (auto simp: s3_def a_def fun_eq_iff)
  have same: "plan_of s3 = plan_of s" "ps_loop_iterations s3 = ps_loop_iterations s" "ps_pending_stage_ids s3 = ps_pending_stage_ids s"
      "current_attempt s3 i = current_attempt s i" "ps_current_stage_id s3 = Some i"
    using assms(2,3) att by (simp_all add: s3_def plan_of_def current_attempt_def Let_def a_def end_of_attempt_def)
  have status: "sa_status a = (if sr_status r' = ''completed'' then S_COMPLETED else S_FAILED)" by (simp add: a_def end_of_attempt_def)
  have done_i: "stage_settled s3 i" if "sr_status r' = ''completed''"
    using that att status by (simp add: stage_settled_def latest_stage_status_def Let_def)
  let ?k = "if sr_status r' = ''failed'' then handle_stage_failure s3 stage (sr_error r')
     else case sr_qc_verdict r' of Some v \<Rightarrow> if stage_kind stage = ''qc'' then handle_qc_result s3 v m else advance_to_next_stage s3 m
       | None \<Rightarrow> advance_to_next_stage s3 m"
  have "\<exists>s' t. ?k = (Inr s', t) \<and> (run_over s' \<or> (attempts_of s' = attempts_of s3 \<and> goes_on s3 i (sa_status a) s'
      \<and> (sa_status a = S_FAILED \<longrightarrow> current_attempt s3 i < 11)))"
  proof (cases "sr_status r' = ''failed''")
    case True
    then show ?thesis using failure_goes_on [OF assms(4), of s3 "sr_error r'"] status by simp
  next
    case False
    then have d: "stage_settled s3 i" and c: "sa_status a = S_COMPLETED" using st done_i status by auto
    show ?thesis using qc_goes_on [OF same(5) d] next_goes_on [OF same(5) d] False c by (cases "sr_qc_verdict r'") auto
  qed
  then obtain s' t where k: "?k = (Inr s', t)" and over: "run_over s' \<or> (attempts_of s' = attempts_of s3
      \<and> goes_on s3 i (sa_status a) s' \<and> (sa_status a = S_FAILED \<longrightarrow> current_attempt s3 i < 11))" by blast
  have "conclude_attempt env s stage i r m = cbind (cdo (Saved s3)) (\<lambda>_. ?k)" 
    unfolding s3_def conclude_attempt_def out rh Let_def sum.case prod.case by (rule refl)
  then have "conclude_attempt env s stage i r m = (Inr s', Saved s3 # t)" unfolding k by (simp add: cbind_def cdo_def)
  moreover have "sa_status a \<in> {S_COMPLETED, S_FAILED}" using status by simp
  ultimately show ?thesis using over att same(4) goes_on_cong [OF _ same(1-3)] by auto
qed

lemma run_attempt_goes_on:
  assumes "decisive env" and "ps_current_stage_id s = Some i" and "stage_name stage = i"
  shows "\<exists>s' t a. run_attempt env s stage i au m = (Inr s', t) \<and> sa_status a \<in> {S_COMPLETED, S_FAILED}
     \<and> (run_over s' \<or> (attempts_of s' = (attempts_of s)(i := (if is_running s i then butlast (attempts_of s i) else attempts_of s i) @ [a])
          \<and> goes_on s i (sa_status a) s' \<and> (sa_status a = S_FAILED \<and> \<not> is_running s i \<longrightarrow> lens s i < 10)))"
proof -
  let ?key = "attempt_key env s i"
  let ?s1 = "if is_running s i then on_attempt i (\<lambda>a. a\<lparr>sa_idempotency_key := ?key\<rparr>) s
    else put_attempts i (attempts_of s i @ [new_attempt (length (attempts_of s i) + 1) ?key]) s"
  have begun: "\<exists>t. begin_attempt env s i = (Inr ?s1, t)" by (simp add: begin_attempt_def Let_def cret_def csave_event_def)
  have running: "attempts_of s i \<noteq> []" if "is_running s i" using that by (auto simp: is_running_def latest_stage_status_def Let_def split: if_splits)
  obtain cs r t where ex: "execute_stage env ?s1 stage i au (is_running s i) ?key = (Inr (?s1\<lparr>ps_child_jobs := cs\<rparr>, r), t)" and r: "final_result r"
    using execute_stage_decisive [OF assms(1)] by blast
  let ?s2 = "?s1\<lparr>ps_child_jobs := cs\<rparr>"
  have ne: "attempts_of ?s2 i \<noteq> []" using running by auto
  have cur: "ps_current_stage_id ?s2 = Some i" using assms(2) by simp
  obtain s' t' a where con: "conclude_attempt env ?s2 stage i r m = (Inr s', t')" and a: "sa_status a \<in> {S_COMPLETED, S_FAILED}"
      and over: "run_over s' \<or> (attempts_of s' = (attempts_of ?s2)(i := butlast (attempts_of ?s2 i) @ [a]) \<and> goes_on ?s2 i (sa_status a) s'
        \<and> (sa_status a = S_FAILED \<longrightarrow> current_attempt ?s2 i < 11))"
    using conclude_goes_on [OF r ne cur assms(3)] by blast
  obtain t0 where t0: "begin_attempt env s i = (Inr ?s1, t0)" using begun by blast
  have "run_attempt env s stage i au m = (Inr s', t0 @ t @ t')"
    unfolding run_attempt_def t0 cbind_Inr ex by (simp add: cbind_Inr hold_final [OF r] con)
  moreover have "attempts_of ?s2 = attempts_of ?s1" by (simp add: attempts_of_def fun_eq_iff)
  moreover have "(attempts_of ?s1)(i := butlast (attempts_of ?s1 i) @ [a])
      = (attempts_of s)(i := (if is_running s i then butlast (attempts_of s i) else attempts_of s i) @ [a])"
    using running by (auto simp: fun_eq_iff)
  moreover have "goes_on s i (sa_status a) s'" if "goes_on ?s2 i (sa_status a) s'"
    using that by (rule goes_on_cong) (simp_all add: plan_of_def)
  moreover have "current_attempt ?s2 i = Suc (lens s i)" if "\<not> is_running s i"
    using that by (simp add: current_attempt_def Let_def lens_def new_attempt_def)
  ultimately show ?thesis using a over by (intro exI [of _ s'] exI [of _ "t0 @ t @ t'"] exI [of _ a]) auto
qed

text \<open>The measure: rounds, attempts before the limit of eleven, pending stages, stages not done, and whether the cursor stands on a stage that is
  done or running.\<close>

definition stage_names :: "PipelineRunState \<Rightarrow> string set" where
  "stage_names s = fst ` set (stage_map_of (plan_stages s))"

definition work_left :: "PipelineRunState \<Rightarrow> nat \<times> nat \<times> nat \<times> nat \<times> nat \<times> nat" where
  "work_left s = (rounds_left s, \<Sum>i\<in>stage_names s. 11 - lens s i, length (ps_pending_stage_ids s), card {i \<in> stage_names s. \<not> stage_settled s i},
     if \<exists>i. ps_current_stage_id s = Some i \<and> stage_settled s i then 1 else 0, if current_running s then 1 else 0)"

abbreviation less_work :: "((nat \<times> nat \<times> nat \<times> nat \<times> nat \<times> nat) \<times> (nat \<times> nat \<times> nat \<times> nat \<times> nat \<times> nat)) set" where
  "less_work \<equiv> less_than <*lex*> less_than <*lex*> less_than <*lex*> less_than <*lex*> less_than <*lex*> less_than"

lemma stage_map_names: "map_of (stage_map_of xs) i = Some x \<Longrightarrow> stage_name x = i"
proof -
  have "map_of (fold (\<lambda>s m. AList.update (stage_name s) s m) xs m) i = Some x \<Longrightarrow> (\<And>j y. map_of m j = Some y \<Longrightarrow> stage_name y = j) \<Longrightarrow> stage_name x = i" for m
  proof (induction xs arbitrary: m)
    case (Cons a xs)
    show ?case by (rule Cons.IH [OF Cons.prems(1) [simplified]]) (use Cons.prems(2) in \<open>auto simp: update_conv' split: if_splits\<close>)
  qed auto
  from this [of "[]"] show "map_of (stage_map_of xs) i = Some x \<Longrightarrow> stage_name x = i" by (simp add: stage_map_of_def)
qed

lemma finite_stage_names [simp]: "finite (stage_names s)"
  by (simp add: stage_names_def)

lemma stage_names_plan: "plan_of s' = plan_of s \<Longrightarrow> stage_names s' = stage_names s"
  using plan_ofD [of s' s] by (simp add: stage_names_def)

lemma over_or_less:
  assumes "goes_on s i (sa_status a) s'" and "sa_status a \<in> {S_COMPLETED, S_FAILED}" and "i \<in> stage_names s" and "ps_current_stage_id s = Some i"
    and "attempts_of s' = (attempts_of s)(i := (if is_running s i then butlast (attempts_of s i) else attempts_of s i) @ [a])"
    and "sa_status a = S_FAILED \<and> \<not> is_running s i \<longrightarrow> lens s i < 10" and "ps_pending_stage_ids s = [] \<or> is_running s i"
  shows "(work_left s', work_left s) \<in> less_work"
proof (cases "rounds_left s' < rounds_left s")
  case False
  have names: "stage_names s' = stage_names s" by (rule stage_names_plan) (use assms(1) in \<open>simp add: goes_on_def\<close>)
  have same: "ps_loop_iterations s' = ps_loop_iterations s" "ps_pending_stage_ids s' = ps_pending_stage_ids s" "plan_of s' = plan_of s"
    using assms(1) False by (auto simp: goes_on_def)
  have rounds: "rounds_left s' = rounds_left s" by (rule rounds_cong [OF same(3,1)])
  have run: "attempts_of s i \<noteq> []" if "is_running s i" using that by (auto simp: is_running_def latest_stage_status_def Let_def split: if_splits)
  have len: "lens s' j = (if j = i \<and> \<not> is_running s i then Suc (lens s i) else lens s j)" for j
    using run assms(5) by (auto simp: lens_def)
  have dn: "stage_settled s' j = (if j = i then sa_status a = S_COMPLETED else stage_settled s j)" for j
    using assms(2,5) by (auto simp: stage_settled_def latest_stage_status_def Let_def)
  let ?F = "\<lambda>t. \<Sum>j\<in>stage_names s. 11 - lens t j"
  have F: "?F s' \<le> ?F s" by (intro sum_mono) (auto simp: len)
  have notdone: "\<not> stage_settled s i" if "is_running s i" using that by (auto simp: stage_settled_def is_running_def)
  have U: "card {j \<in> stage_names s. \<not> stage_settled s' j} < card {j \<in> stage_names s. \<not> stage_settled s j}"
    if "sa_status a = S_COMPLETED" "\<not> stage_settled s i"
    using that assms(3) by (intro psubset_card_mono) (auto simp: dn split: if_splits)
  have U': "{j \<in> stage_names s. \<not> stage_settled s' j} = {j \<in> stage_names s. \<not> stage_settled s j}" if "sa_status a = S_COMPLETED \<longleftrightarrow> stage_settled s i"
    using that by (auto simp: dn)
  consider (fewer) "?F s' < ?F s" | (finished) "?F s' = ?F s" "sa_status a = S_COMPLETED" | (again) "?F s' = ?F s" "sa_status a = S_FAILED"
    using F assms(2) by fastforce
  then show ?thesis
  proof cases
    case finished
    then show ?thesis
    proof (cases "stage_settled s i")
      case True
      then have p: "ps_pending_stage_ids s = []" using assms(7) notdone by blast
      then obtain n where "ps_current_stage_id s' = Some n" "\<not> stage_settled s' n" using assms(1) finished False by (auto simp: goes_on_def)
      then show ?thesis using rounds names same finished U' True assms(4) by (simp add: work_left_def)
    qed (use U rounds names same finished in \<open>simp add: work_left_def\<close>)
  next
    case again
    have r: "is_running s i"
    proof (rule ccontr)
      assume n: "\<not> is_running s i"
      then have "lens s i < 10" using again assms(6) by simp
      then have "?F s' < ?F s" using assms(3) n by (intro sum_strict_mono_ex1) (auto simp: len)
      then show False using again by simp
    qed
    have c: "ps_current_stage_id s' = Some i" using assms(1) again False by (auto simp: goes_on_def)
    have "current_running s" "\<not> current_running s'" using r c assms(4,5) again by (auto simp: current_running_def is_running_def latest_stage_status_def Let_def)
    then show ?thesis using rounds names same again U' notdone [OF r] c assms(4) dn [of i] by (simp add: work_left_def)
  qed (use rounds names same in \<open>simp add: work_left_def\<close>)
qed (simp add: work_left_def)

text \<open>A step that took a pending stage: whatever became of it, the list is shorter or a round is used.\<close>

lemma shorter_less:
  assumes "goes_on s0 i st s'" and "plan_of s0 = plan_of s" and "ps_loop_iterations s0 = ps_loop_iterations s"
    and "length (ps_pending_stage_ids s0) < length (ps_pending_stage_ids s)" and "\<And>j. lens s j \<le> lens s' j"
  shows "(work_left s', work_left s) \<in> less_work"
proof -
  have p: "plan_of s' = plan_of s" using assms(1,2) by (simp add: goes_on_def)
  have names: "stage_names s' = stage_names s" by (rule stage_names_plan [OF p])
  have r0: "rounds_left s0 = rounds_left s" by (rule rounds_cong [OF assms(2,3)])
  have F: "(\<Sum>j\<in>stage_names s. 11 - lens s' j) \<le> (\<Sum>j\<in>stage_names s. 11 - lens s j)" using assms(5) by (intro sum_mono diff_le_mono2)
  show ?thesis
  proof (cases "rounds_left s' < rounds_left s")
    case False
    then have "ps_loop_iterations s' = ps_loop_iterations s" "ps_pending_stage_ids s' = ps_pending_stage_ids s0"
      using assms(1,3) r0 by (auto simp: goes_on_def)
    then show ?thesis using rounds_cong [OF p] F names assms(4) by (auto simp: work_left_def)
  qed (simp add: work_left_def)
qed

lemma stage_in_map: "map_of (stage_map_of (plan_stages s)) i = Some x \<Longrightarrow> i \<in> stage_names s"
  by (force simp: stage_names_def dest: map_of_SomeD)

lemma run_current_progress:
  assumes "decisive env"
  shows "\<exists>s' t. run_current_stage env s = (Inr s', t) \<and> (run_over s'
     \<or> (\<exists>i st. goes_on s i st s' \<and> (\<forall>j. lens s j \<le> lens s' j) \<and> (ps_pending_stage_ids s = [] \<or> current_running s \<longrightarrow> (work_left s', work_left s) \<in> less_work)))"
proof (cases "\<exists>i x. ps_current_stage_id s = Some i \<and> map_of (stage_map_of (plan_stages s)) i = Some x")
  case False
  then show ?thesis using terminalize_over [of s SUCCESS "''All stages completed''"] by (auto simp: run_current_stage_def Let_def split: option.splits)
next
  case True
  then obtain i x where ix: "ps_current_stage_id s = Some i" "map_of (stage_map_of (plan_stages s)) i = Some x" by blast
  obtain au where au: "ce_resolve env x = Some au" using assms unfolding decisive_def by blast
  let ?m = "stage_map_of (plan_stages s)"
  have n: "stage_name x = i" by (rule stage_map_names [OF ix(2)])
  have i: "i \<in> stage_names s" by (rule stage_in_map [OF ix(2)])
  show ?thesis
  proof (cases "latest_stage_status s i = Some S_COMPLETED \<and> \<not> rerun_allowed s i")
    case True
    then have d: "stage_settled s i" and nr: "\<not> current_running s" using ix(1) by (auto simp: stage_settled_def current_running_def is_running_def)
    obtain s' t where nxt: "advance_to_next_stage s ?m = (Inr s', t)" "run_over s' \<or> (attempts_of s' = attempts_of s \<and> goes_on s i S_COMPLETED s')"
      using next_goes_on [OF ix(1) d] by blast
    have less: "(work_left s', work_left s) \<in> less_work" if a: "attempts_of s' = attempts_of s" and g: "goes_on s i S_COMPLETED s'" and p: "ps_pending_stage_ids s = []"
    proof (cases "rounds_left s' < rounds_left s")
      case False
      then have same: "plan_of s' = plan_of s" "ps_loop_iterations s' = ps_loop_iterations s" "ps_pending_stage_ids s' = []"
          "\<exists>n. ps_current_stage_id s' = Some n \<and> \<not> stage_settled s' n" using g p by (auto simp: goes_on_def)
      have "stage_names s' = stage_names s" by (rule stage_names_plan [OF same(1)])
      moreover have "stage_settled s' = stage_settled s" "lens s' = lens s" by (rule stage_settled_cong [OF a], rule lens_cong [OF a])
      ultimately show ?thesis using rounds_cong [OF same(1,2)] same(3,4) p d ix(1) by (auto simp: work_left_def)
    qed (simp add: work_left_def)
    then show ?thesis using nxt True au ix nr lens_cong [of s' s] by (auto simp: run_current_stage_def Let_def)
  next
    case False
    obtain s' t a where run: "run_attempt env s x i au ?m = (Inr s', t)" "sa_status a \<in> {S_COMPLETED, S_FAILED}"
        and over: "run_over s' \<or> (attempts_of s' = (attempts_of s)(i := (if is_running s i then butlast (attempts_of s i) else attempts_of s i) @ [a])
          \<and> goes_on s i (sa_status a) s' \<and> (sa_status a = S_FAILED \<and> \<not> is_running s i \<longrightarrow> lens s i < 10))"
      using run_attempt_goes_on [OF assms ix(1) n] by blast
    have cr: "current_running s = is_running s i" using ix(1) by (simp add: current_running_def)
    have grow: "lens s j \<le> lens s' j" if "attempts_of s' = (attempts_of s)(i := (if is_running s i then butlast (attempts_of s i) else attempts_of s i) @ [a])" for j
      using that by (simp add: lens_def) arith
    have "run_current_stage env s = (Inr s', t)" unfolding run_current_stage_def Let_def using ix au False run(1) by auto
    then show ?thesis using over grow cr over_or_less [OF _ run(2) i ix(1)] by blast
  qed
qed

lemma advance_progress:
  assumes "decisive env" and "\<not> run_over s"
  shows "\<exists>s' t. advance env s = (Inr s', t) \<and> (run_over s' \<or> (work_left s', work_left s) \<in> less_work)"
proof (cases "ps_cancellation_intent s \<and> \<not> ps_cancelled s")
  case True
  then obtain s' t where "advance env s = (Inr s', t)" "ps_status s' = (if stops_confirmed env s then Run_cancelled else Run_failed)"
    using cascade_run [of s env] assms(2) by blast
  then show ?thesis by (auto simp: run_over_def)
next
  case False
  show ?thesis
  proof (cases "ps_pending_stage_ids s \<noteq> [] \<and> \<not> current_running s")
    case pending: True
    show ?thesis
    proof (cases "hd (ps_pending_stage_ids s) \<in> fst ` set (stage_map_of (plan_stages s))")
      case True
      obtain s' t where r: "run_current_stage env (take_pending s) = (Inr s', t)"
          "run_over s' \<or> (\<exists>i st. goes_on (take_pending s) i st s' \<and> (\<forall>j. lens (take_pending s) j \<le> lens s' j))"
        using run_current_progress [OF assms(1), of "take_pending s"] by blast
      have l: "lens (take_pending s) = lens s" by (rule lens_cong) simp
      have "(work_left s', work_left s) \<in> less_work" if "goes_on (take_pending s) i st s'" "\<forall>j. lens (take_pending s) j \<le> lens s' j" for i st
        by (rule shorter_less [OF that(1)]) (use pending that(2) l in \<open>auto simp: plan_of_def\<close>)
      then have "run_over s' \<or> (work_left s', work_left s) \<in> less_work" using r(2) by blast
      moreover have "advance env s = (Inr s', Saved (take_pending s) # t)"
        unfolding advance_def if_not_P [OF False] if_not_P [OF assms(2)] if_P [OF pending] using True r(1) by (simp add: cbind_def csave_def)
      ultimately show ?thesis by blast
    next
      case missing: False
      let ?s = "s\<lparr>ps_pending_stage_ids := tl (ps_pending_stage_ids s)\<rparr>"
      have p: "plan_of ?s = plan_of s" by (simp add: plan_of_def)
      have "rounds_left ?s = rounds_left s" "stage_names ?s = stage_names s" "lens ?s = lens s"
        by (rule rounds_cong [OF p], simp, rule stage_names_plan [OF p], rule lens_cong, simp)
      then have "(work_left ?s, work_left s) \<in> less_work" using pending by (simp add: work_left_def)
      then show ?thesis unfolding advance_def if_not_P [OF False] if_not_P [OF assms(2)] if_P [OF pending] using missing by (simp add: csave_def)
    qed
  next
    case other: False
    have "advance env s = run_current_stage env s"
      unfolding advance_def if_not_P [OF False] if_not_P [OF assms(2)] if_not_P [OF other] by (rule refl)
    then show ?thesis using run_current_progress [OF assms(1), of s] other by auto
  qed
qed

text \<open>The state after \<open>n\<close> steps; a step that raises leaves the run where it was.\<close>

fun advances :: "(nat \<Rightarrow> coord_env) \<Rightarrow> nat \<Rightarrow> PipelineRunState \<Rightarrow> PipelineRunState" where
  "advances envs 0 s = s"
| "advances envs (Suc n) s = (case fst (advance (envs 0) s) of Inl _ \<Rightarrow> advances (\<lambda>k. envs (Suc k)) n s | Inr s' \<Rightarrow> advances (\<lambda>k. envs (Suc k)) n s')"

lemma wf_less_work: "wf (inv_image less_work work_left)"
  by auto

text \<open>C29. Every run ends. When no adapter raises and every answer is final and can be stored, the run reaches a terminal state after finitely many
  steps, whatever the plan, the outcomes of the stages and the verdicts of the checks are.\<close>

theorem coordinator_run_ends:
  assumes "\<And>n. decisive (envs n)"
  shows "\<exists>n. run_over (advances envs n s)"
proof -
  have "\<forall>envs. (\<forall>n. decisive (envs n)) \<longrightarrow> (\<exists>n. run_over (advances envs n s))"
  proof (induction s rule: wf_induct_rule [OF wf_less_work])
    case (1 s)
    show ?case
    proof (intro allI impI)
      fix envs :: "nat \<Rightarrow> coord_env"
      assume d: "\<forall>n. decisive (envs n)"
      show "\<exists>n. run_over (advances envs n s)"
      proof (cases "run_over s")
        case True
        then have "run_over (advances envs 0 s)" by simp
        then show ?thesis by blast
      next
        case False
        obtain s' t where a: "advance (envs 0) s = (Inr s', t)" "run_over s' \<or> (work_left s', work_left s) \<in> less_work"
          using advance_progress [OF _ False] d by blast
        have "\<exists>n. run_over (advances (\<lambda>k. envs (Suc k)) n s')"
        proof (cases "run_over s'")
          case True
          then have "run_over (advances (\<lambda>k. envs (Suc k)) 0 s')" by simp
          then show ?thesis by blast
        qed (use a(2) 1 d in \<open>simp add: in_inv_image\<close>)
        then obtain n where "run_over (advances (\<lambda>k. envs (Suc k)) n s')" by blast
        then have "run_over (advances envs (Suc n) s)" using a(1) by simp
        then show ?thesis by blast
      qed
    qed
  qed
  then show ?thesis using assms by blast
qed

section \<open>Samples\<close>

lemma sample_decisive: "decisive sample_env"
  by (auto simp: decisive_def sample_env_def final_result_def sample_result_def leaf_result_def failed_result_def SANITIZE_REJECT_KEYS_def has_key_def)

theorem coordinator_run_ends_witness: "\<exists>n. run_over (advances (\<lambda>_. sample_env) n sample_run)"
  by (rule coordinator_run_ends) (rule sample_decisive)

lemma saved_member: "list_ex (\<lambda>a. case a of Saved x \<Rightarrow> True | _ \<Rightarrow> False) t \<Longrightarrow> \<exists>x. Saved x \<in> set t"
  by (induction t) (auto split: action.split_asm)

text \<open>The request is recorded when the step has loaded the run and has not saved anything yet.\<close>

theorem cancellation_request_lost_witness:
  "\<exists>c. cancelling sample_run = Some c \<and> ps_cancellation_intent c \<and> \<not> ps_cancellation_intent (durable c (snd (advance sample_env sample_run)))"
proof -
  have d: "\<not> ps_cancellation_intent sample_run" "\<not> ps_cancelled sample_run" "\<not> run_over sample_run" by code_simp+
  have c: "cancelling (durable sample_run []) = Some (sample_run\<lparr>ps_cancellation_intent := True\<rparr>)" using d(3) by (simp add: cancelling_def)
  have "list_ex (\<lambda>a. case a of Saved x \<Rightarrow> True | _ \<Rightarrow> False) (snd (advance sample_env sample_run))" by code_simp
  then obtain x where "Saved x \<in> set (snd (advance sample_env sample_run))" using saved_member by blast
  then show ?thesis using cancellation_request_lost [OF d(1,2) append_Nil [symmetric] c] c by simp
qed

end
