(* ===== verification/Pipeline_Order.thy ===== *)
theory Pipeline_Order
  imports Pipeline_Progress
begin

text \<open>
  The order of the stages of a run, and what a correction can do to it.
\<close>

section \<open>Stages wait for their dependencies\<close>

abbreviation run_map :: "PipelineRunState \<Rightarrow> (string \<times> pydict) list" where
  "run_map s \<equiv> stage_map_of (plan_stages s)"

definition deps_met :: "PipelineRunState \<Rightarrow> pydict \<Rightarrow> bool" where
  "deps_met s x \<longleftrightarrow> list_all (dependency_met s (run_map s)) (strs_at x ''depends_on'')"

text \<open>Before the first correction: the cursor stands on a stage whose dependencies are done and on which no stage that has started depends,
  and every stage that has started had its dependencies done.\<close>

definition in_order :: "PipelineRunState \<Rightarrow> bool" where
  "in_order s \<longleftrightarrow> (ps_correction_count s = 0 \<longrightarrow> ps_pending_stage_ids s = []
     \<and> (\<exists>i x. ps_current_stage_id s = Some i \<and> map_of (run_map s) i = Some x \<and> deps_met s x
          \<and> (\<forall>j y. map_of (run_map s) j = Some y \<and> (attempts_of s j \<noteq> [] \<or> j = i) \<longrightarrow> i \<notin> set (strs_at y ''depends_on'')))
     \<and> (\<forall>j y. map_of (run_map s) j = Some y \<and> attempts_of s j \<noteq> [] \<longrightarrow> deps_met s y))"

definition order_core :: "PipelineRunState \<Rightarrow> nat \<times> string list \<times> string option \<times> pydict \<times> (string \<Rightarrow> StageAttempt list)" where
  "order_core s = (ps_correction_count s, ps_pending_stage_ids s, ps_current_stage_id s, ps_compiled_pipeline s, attempts_of s)"


lemma deps_met_cong: "stage_settled s = stage_settled t \<Longrightarrow> plan_stages s = plan_stages t \<Longrightarrow> deps_met s = deps_met t"
proof -
  assume d: "stage_settled s = stage_settled t" and p: "plan_stages s = plan_stages t"
  have "dependency_met s = dependency_met t" by (intro ext) (simp add: dependency_met_def d split: option.split)
  then show ?thesis by (intro ext) (simp only: deps_met_def p)
qed

lemma in_order_cong:
  assumes "order_core s = order_core t"
  shows "in_order s = in_order t"
proof -
  have "plan_stages s = plan_stages t" "attempts_of s = attempts_of t" "ps_correction_count s = ps_correction_count t"
      "ps_pending_stage_ids s = ps_pending_stage_ids t" "ps_current_stage_id s = ps_current_stage_id t"
    using assms by (simp_all add: order_core_def plan_stages_def)
  moreover from this have "deps_met s = deps_met t" by (intro deps_met_cong stage_settled_cong)
  ultimately show ?thesis by (simp add: in_order_def)
qed



definition ordered :: "action \<Rightarrow> bool" where
  "ordered a = (case a of Saved x \<Rightarrow> in_order x | _ \<Rightarrow> True)"

lemma ordered_simps [simp]:
  "ordered (Saved x) \<longleftrightarrow> in_order x" "ordered (Event e)" "ordered (Executed i n k)" "ordered (Polled i h)"
  "ordered (Cancel_stage i)" "ordered (Submitted_leaf i k)" "ordered (Polled_leaf i)" "ordered (Cancel_leaf i)"
  by (simp_all add: ordered_def)


lemma in_order_fields [simp]:
  "in_order (s\<lparr>ps_artifact := a\<rparr>) = in_order s" "in_order (s\<lparr>ps_status := b\<rparr>) = in_order s" "in_order (s\<lparr>ps_terminal_code := c\<rparr>) = in_order s"
  "in_order (s\<lparr>ps_terminal_reason := d\<rparr>) = in_order s" "in_order (s\<lparr>ps_last_good_artifact := a\<rparr>) = in_order s" "in_order (s\<lparr>ps_child_jobs := e\<rparr>) = in_order s"
  "in_order (s\<lparr>ps_cancelled_children := f\<rparr>) = in_order s" "in_order (s\<lparr>ps_cancelled := g\<rparr>) = in_order s" "in_order (s\<lparr>ps_cancellation_intent := g\<rparr>) = in_order s"
  "in_order (s\<lparr>ps_resume_count := n\<rparr>) = in_order s" "in_order (s\<lparr>ps_cursor_note := d\<rparr>) = in_order s"
  by (rule in_order_cong, simp add: order_core_def)+









lemma order_core_notes [simp]:
  "order_core (note_verdict i v s) = order_core s" "order_core (note_artifact now stage i a s) = order_core s" "order_core (s\<lparr>ps_child_jobs := cs\<rparr>) = order_core s"
  by (simp_all add: order_core_def)














section \<open>Where the order is lost\<close>

text \<open>A retry that is scheduled while stages of a correction are pending is not made: the next step takes the first pending stage.\<close>

lemma retry_lost_in_correction:
  assumes "fst (handle_stage_failure s stage err) = Inr s'" and "\<not> run_over s'" and "\<not> ps_cancellation_intent s'"
    and "ps_pending_stage_ids s = q # qs" and "q \<in> fst ` set (stage_map_of (plan_stages s))" and "\<not> is_running s (stage_name stage)"
  shows "ps_current_stage_id s' = Some (stage_name stage)
    \<and> (\<exists>x t. snd (advance env s') = Saved x # t \<and> ps_current_stage_id x = Some q \<and> ps_pending_stage_ids x = qs)"
proof -
  obtain w where s': "s' = s\<lparr>ps_current_stage_id := Some (stage_name stage), ps_cursor_note := w\<rparr>"
    using assms(1,2) by (auto simp: handle_stage_failure_def Let_def terminalize_def status_of_code_def run_over_def cret_def csave_event_def
      split: if_splits option.splits prod.splits)
  have r: "\<not> current_running s'" using assms(6) by (simp add: s' current_running_def is_running_def latest_stage_status_def)
  have "advance env s' = cbind (csave (take_pending s')) (run_current_stage env)"
    using assms(2-5) r by (simp add: advance_def s' plan_stages_def)
  moreover have "ps_current_stage_id (take_pending s') = Some q" "ps_pending_stage_ids (take_pending s') = qs"
    using assms(4) by (simp_all add: take_pending_def s')
  ultimately show ?thesis by (auto simp: s' cbind_def csave_def split: prod.splits sum.splits)
qed

text \<open>A correction may end in success unchecked. Where the plan declares no loop for the check, the fallback runs the first correction stage and not the
  check again: the run below completes although the only verdict it ever recorded is a failure.\<close>

theorem unchecked_correction_succeeds:
  "ps_terminal_code (advances (\<lambda>_. sample_env) 3 sample_run) = Some SUCCESS
   \<and> map (\<lambda>(i, vs). (i, map qv_passed vs)) (ps_stage_qc_verdicts (advances (\<lambda>_. sample_env) 3 sample_run)) = [(''c'', [False])]"
  by (intro conjI) code_simp+

section \<open>A sample run\<close>





end
