(* ===== verification/Pipeline_Store.thy ===== *)
theory Pipeline_Store
  imports Redis_Model Pipeline_Coordinator
begin

text \<open>
  \<open>RedisCoordinatorStore\<close> of \<open>scripts/pipeline_coordinator.py\<close> and \<open>ControllerPipelineRuntime\<close> of \<open>scripts/gpu_manager_pipeline_runtime.py\<close>:
  the state hash of every run, the parent stream with its consumer group, the event logs, and the loop body that claims one run, lets the coordinator
  take one step and acknowledges or replaces the stream entry. A hash holds the state it encodes. As in \<open>Redis_Model\<close> a command is answered,
  is never sent, or is carried out while the reply is lost. \<open>loads\<close> is \<open>json.loads\<close> (\<open>None\<close> for an error) and \<open>idle_ms\<close> the idle time Redis reports for
  a pending entry.
\<close>

section \<open>State and commands\<close>

record coord_store =
  co_states :: "string \<rightharpoonup> PipelineRunState"
  co_stream :: rstream
  co_events :: "string \<Rightarrow> string list"
  co_ms :: nat
  co_faults :: "fault list"
  co_entry_ids :: "string \<rightharpoonup> stream_id"

definition COORDINATOR_GROUP :: string where
  "COORDINATOR_GROUP = ''coordinator''"

definition RECLAIM_MIN_IDLE_MS :: nat where
  "RECLAIM_MIN_IDLE_MS = 30000"

type_synonym 'a cop = "coord_store \<Rightarrow> (string + 'a) \<times> coord_store"

definition sret :: "'a \<Rightarrow> 'a cop" where
  "sret x c = (Inr x, c)"

definition sraise :: "string \<Rightarrow> 'a cop" where
  "sraise e c = (Inl e, c)"

definition sbind :: "'a cop \<Rightarrow> ('a \<Rightarrow> 'b cop) \<Rightarrow> 'b cop" where
  "sbind m k c = (case m c of (Inl e, c') \<Rightarrow> (Inl e, c') | (Inr x, c') \<Rightarrow> k x c')"

text \<open>\<open>except Exception: return v\<close>.\<close>

definition caught :: "'a \<Rightarrow> 'a cop \<Rightarrow> 'a cop" where
  "caught v m c = (case m c of (Inl _, c') \<Rightarrow> (Inr v, c') | r \<Rightarrow> r)"

definition redis_call :: "'a cop \<Rightarrow> 'a cop" where
  "redis_call f c =
     (let c' = c\<lparr>co_faults := tl (co_faults c)\<rparr> in
      case co_faults c of
        [] \<Rightarrow> f c
      | Answered # _ \<Rightarrow> f c'
      | Not_sent # _ \<Rightarrow> (Inl ''RedisError'', c')
      | Reply_lost # _ \<Rightarrow> (Inl ''RedisError'', snd (f c')))"

definition remember :: "string \<Rightarrow> stream_id \<Rightarrow> unit cop" where
  "remember r i c = (Inr (), c\<lparr>co_entry_ids := (co_entry_ids c)(r \<mapsto> i)\<rparr>)"

definition forget :: "string \<Rightarrow> unit cop" where
  "forget r c = (Inr (), c\<lparr>co_entry_ids := (co_entry_ids c)(r := None)\<rparr>)"

section \<open>The store\<close>

definition ensure_coordinator_group :: "unit cop" where
  "ensure_coordinator_group = caught () (redis_call (\<lambda>c. (Inr (), c\<lparr>co_stream := stream_group COORDINATOR_GROUP (co_stream c)\<rparr>)))"

definition parent_fields :: "PipelineRunState \<Rightarrow> sfields" where
  "parent_fields s = [(''run_id'', ps_run_id s), (''parent_job_id'', ps_parent_job_id s), (''pipeline_id'', ps_pipeline_id s)]"

definition put_state :: "PipelineRunState \<Rightarrow> coord_store \<Rightarrow> coord_store" where
  "put_state s c = c\<lparr>co_states := (co_states c)(ps_run_id s \<mapsto> s)\<rparr>"

definition add_event :: "string \<Rightarrow> string \<Rightarrow> coord_store \<Rightarrow> coord_store" where
  "add_event r e c = c\<lparr>co_events := (co_events c)(r := co_events c r @ [e])\<rparr>"

definition add_parent :: "PipelineRunState \<Rightarrow> coord_store \<Rightarrow> coord_store" where
  "add_parent s c = c\<lparr>co_stream := stream_add (co_ms c) (parent_fields s) (co_stream c)\<rparr>"

definition save_state :: "PipelineRunState \<Rightarrow> bool cop" where
  "save_state s = caught False (redis_call (\<lambda>c. (Inr True, put_state s c)))"

text \<open>\<open>_SUBMIT_PARENT_LUA\<close>.\<close>

definition submit_parent_script :: "PipelineRunState \<Rightarrow> bool cop" where
  "submit_parent_script s = redis_call (\<lambda>c. if co_states c (ps_run_id s) \<noteq> None then (Inr False, c)
     else (Inr True, add_parent s (add_event (ps_run_id s) ''submitted'' (put_state s c))))"

definition submit_parent :: "PipelineRunState \<Rightarrow> bool cop" where
  "submit_parent s = caught False (submit_parent_script s)"

definition load_state :: "string \<Rightarrow> PipelineRunState option cop" where
  "load_state r = redis_call (\<lambda>c. (Inr (co_states c r), c))"

definition enqueue_parent :: "PipelineRunState \<Rightarrow> bool cop" where
  "enqueue_parent s = caught False (redis_call (\<lambda>c. (Inr True, add_parent s c)))"

definition decode_stream_field :: "(string \<Rightarrow> pyval option) \<Rightarrow> string \<Rightarrow> string" where
  "decode_stream_field loads v = (if \<not> (has_prefix v [CHR 34] \<or> has_prefix v [CHR 39]) then v
     else case loads v of Some (PStr t) \<Rightarrow> t | _ \<Rightarrow> v)"

definition run_of :: "(string \<Rightarrow> pyval option) \<Rightarrow> sfields \<Rightarrow> string" where
  "run_of loads fs = (case map_of fs ''run_id'' of None \<Rightarrow> [] | Some v \<Rightarrow> if v = [] then [] else decode_stream_field loads v)"

definition read_parent :: "string \<Rightarrow> entry list cop" where
  "read_parent consumer = redis_call (\<lambda>c. case stream_claim COORDINATOR_GROUP consumer 1 (co_stream c) of
     None \<Rightarrow> (Inl ''NOGROUP'', c) | Some (es, st) \<Rightarrow> (Inr es, c\<lparr>co_stream := st\<rparr>))"

definition dequeue_parent :: "(string \<Rightarrow> pyval option) \<Rightarrow> string \<Rightarrow> PipelineRunState option cop" where
  "dequeue_parent loads consumer = sbind (read_parent consumer) (\<lambda>es. case es of
       [] \<Rightarrow> sret None
     | (i, fs) # _ \<Rightarrow> let r = run_of loads fs in
         if r = [] then sraise ''StoreError: no run_id''
         else sbind (remember r i) (\<lambda>_. sbind (load_state r) (\<lambda>x. case x of
           None \<Rightarrow> sraise ''StoreError: no durable state'' | Some s \<Rightarrow> sret (Some s))))"

definition claim_parent :: "string \<Rightarrow> bool cop" where
  "claim_parent r = sbind (load_state r) (\<lambda>x. sret (x \<noteq> None))"

definition pending_ids :: "rstream \<Rightarrow> stream_id set" where
  "pending_ids st = (case st_groups st COORDINATOR_GROUP of None \<Rightarrow> {} | Some g \<Rightarrow> fst ` set (gr_pel g))"

text \<open>\<open>XACK\<close> of several ids, and the number of those that were pending.\<close>

definition xack :: "stream_id list \<Rightarrow> nat cop" where
  "xack is = redis_call (\<lambda>c. (Inr (length (filter (\<lambda>i. i \<in> pending_ids (co_stream c)) is)),
     c\<lparr>co_stream := fold (stream_ack COORDINATOR_GROUP) is (co_stream c)\<rparr>))"

definition ack_parent :: "string \<Rightarrow> bool cop" where
  "ack_parent r c = (case co_entry_ids c r of
     None \<Rightarrow> sret True c
   | Some i \<Rightarrow> sbind (forget r) (\<lambda>_. caught False (sbind (xack [i]) (\<lambda>_. sret True))) c)"

definition append_event :: "string \<Rightarrow> string \<Rightarrow> bool cop" where
  "append_event r e = caught False (redis_call (\<lambda>c. (Inr True, add_event r e c)))"

definition get_events :: "string \<Rightarrow> string list cop" where
  "get_events r = caught [] (redis_call (\<lambda>c. (Inr (co_events c r), c)))"

definition clear_cancellation :: "string \<Rightarrow> unit cop" where
  "clear_cancellation r = sbind (load_state r) (\<lambda>x. case x of
     None \<Rightarrow> sret () | Some s \<Rightarrow> sbind (save_state (s\<lparr>ps_cancellation_intent := False\<rparr>)) (\<lambda>_. sret ()))"

definition requeue_parent :: "PipelineRunState \<Rightarrow> bool cop" where
  "requeue_parent s c = (case co_entry_ids c (ps_run_id s) of
     None \<Rightarrow> enqueue_parent s c
   | Some i \<Rightarrow> caught False (sbind (redis_call (\<lambda>c. (Inr (), (add_parent s c)\<lparr>co_stream := stream_ack COORDINATOR_GROUP i (co_stream (add_parent s c))\<rparr>)))
       (\<lambda>_. sbind (forget (ps_run_id s)) (\<lambda>_. sret True))) c)"

section \<open>Recovery of claimed entries\<close>

definition pending_range :: "nat \<Rightarrow> (stream_id \<times> string) list cop" where
  "pending_range n = redis_call (\<lambda>c. case st_groups (co_stream c) COORDINATOR_GROUP of
     None \<Rightarrow> (Inl ''NOGROUP'', c) | Some g \<Rightarrow> (Inr (take n (gr_pel g)), c))"

definition entry_of :: "rstream \<Rightarrow> stream_id \<Rightarrow> entry list" where
  "entry_of st i = (case find_entry i st of None \<Rightarrow> [] | Some fs \<Rightarrow> [(i, fs)])"

text \<open>\<open>XCLAIM\<close> of one entry for the consumer.\<close>

definition move_pending :: "string \<Rightarrow> stream_id \<Rightarrow> rstream \<Rightarrow> rstream" where
  "move_pending consumer i st = st\<lparr>st_groups := (\<lambda>h. if h = COORDINATOR_GROUP
     then map_option (gr_pel_update (map (\<lambda>p. if fst p = i then (i, consumer) else p))) (st_groups st h) else st_groups st h)\<rparr>"

definition take_over :: "(stream_id \<Rightarrow> nat) \<Rightarrow> string \<Rightarrow> stream_id \<times> string \<Rightarrow> entry list cop" where
  "take_over idle_ms consumer p =
     (if snd p = consumer then redis_call (\<lambda>c. (Inr (entry_of (co_stream c) (fst p)), c))
      else if idle_ms (fst p) \<ge> RECLAIM_MIN_IDLE_MS
      then redis_call (\<lambda>c. if fst p \<in> pending_ids (co_stream c)
        then (Inr (entry_of (co_stream c) (fst p)), c\<lparr>co_stream := move_pending consumer (fst p) (co_stream c)\<rparr>) else (Inr [], c))
      else sret [])"

definition note_entry :: "(string \<Rightarrow> pyval option) \<Rightarrow> entry \<Rightarrow> (string \<times> stream_id list) list \<Rightarrow> (string \<times> stream_id list) list" where
  "note_entry loads e m = (let r = run_of loads (snd e) in
     if r = [] then m else AList.update r ((case map_of m r of None \<Rightarrow> [] | Some is \<Rightarrow> is) @ [fst e]) m)"

fun collect_orphans ::
  "(string \<Rightarrow> pyval option) \<Rightarrow> (stream_id \<Rightarrow> nat) \<Rightarrow> string \<Rightarrow> (stream_id \<times> string) list \<Rightarrow> (string \<times> stream_id list) list \<Rightarrow> (string \<times> stream_id list) list cop" where
  "collect_orphans loads idle_ms consumer [] m = sret m"
| "collect_orphans loads idle_ms consumer (p # ps) m =
     sbind (take_over idle_ms consumer p) (\<lambda>es. collect_orphans loads idle_ms consumer ps (fold (note_entry loads) es m))"

definition drop_duplicates :: "stream_id list \<Rightarrow> unit cop" where
  "drop_duplicates is = (if is = [] then sret ()
     else sbind (xack is) (\<lambda>n. if n \<noteq> length is then sraise ''StoreError: duplicates'' else sret ()))"

fun recover_runs :: "(string \<times> stream_id list) list \<Rightarrow> PipelineRunState list cop" where
  "recover_runs [] = sret []"
| "recover_runs ((r, is) # rest) = (let entry_ids = sort (remdups is) in
     sbind (drop_duplicates (butlast entry_ids)) (\<lambda>_.
     sbind (load_state r) (\<lambda>x. case x of
       None \<Rightarrow> sraise ''StoreError: state missing''
     | Some s \<Rightarrow> sbind (remember r (last entry_ids)) (\<lambda>_. sbind (recover_runs rest) (\<lambda>ss. sret (s # ss))))))"

definition reclaim_orphaned_parents :: "(string \<Rightarrow> pyval option) \<Rightarrow> (stream_id \<Rightarrow> nat) \<Rightarrow> string \<Rightarrow> PipelineRunState list cop" where
  "reclaim_orphaned_parents loads idle_ms consumer =
     sbind (pending_range 100) (\<lambda>ps. sbind (collect_orphans loads idle_ms consumer ps []) (\<lambda>m. recover_runs (sort_key fst m)))"

section \<open>The coordinator on the store\<close>

text \<open>The effects of a step that reach the store: the coordinator does not look at what \<open>save_state\<close> and \<open>append_event\<close> answer.\<close>

definition perform_action :: "string \<Rightarrow> action \<Rightarrow> coord_store \<Rightarrow> coord_store" where
  "perform_action r a c = (case a of Saved s \<Rightarrow> snd (save_state s c) | Event e \<Rightarrow> snd (append_event r e c) | _ \<Rightarrow> c)"

definition perform :: "string \<Rightarrow> action list \<Rightarrow> coord_store \<Rightarrow> coord_store" where
  "perform r t c = fold (perform_action r) t c"

definition on_store :: "string \<Rightarrow> 'a coord \<Rightarrow> 'a cop" where
  "on_store r m c = (fst m, perform r (snd m) c)"

definition submit_run :: "string \<Rightarrow> string \<Rightarrow> pydict \<Rightarrow> pydict \<Rightarrow> bool cop" where
  "submit_run parent_job_id run_id compiled params =
     sbind (load_state run_id) (\<lambda>x. if x \<noteq> None then sret False
       else case submitted_state parent_job_id run_id compiled params of Inl e \<Rightarrow> sraise e | Inr s \<Rightarrow> submit_parent s)"

definition claim_run :: "(string \<Rightarrow> pyval option) \<Rightarrow> (stream_id \<Rightarrow> nat) \<Rightarrow> string \<Rightarrow> PipelineRunState option cop" where
  "claim_run loads idle_ms consumer =
     sbind (dequeue_parent loads consumer) (\<lambda>x.
     sbind (case x of Some s \<Rightarrow> sret (Some s)
       | None \<Rightarrow> sbind (reclaim_orphaned_parents loads idle_ms consumer) (\<lambda>ss. sret (case ss of [] \<Rightarrow> None | s # _ \<Rightarrow> Some s))) (\<lambda>y.
     case y of None \<Rightarrow> sret None
     | Some s \<Rightarrow> sbind (load_state (ps_run_id s)) (\<lambda>z. case z of
         None \<Rightarrow> sraise ''claimed parent state disappeared'' | Some s' \<Rightarrow> sret (Some s'))))"

text \<open>\<open>advance\<close> loads the state once more before it works on it.\<close>

definition loaded_run :: "(string \<Rightarrow> pyval option) \<Rightarrow> (stream_id \<Rightarrow> nat) \<Rightarrow> string \<Rightarrow> PipelineRunState option cop" where
  "loaded_run loads idle_ms consumer = sbind (claim_run loads idle_ms consumer) (\<lambda>x. case x of
     None \<Rightarrow> sret None
   | Some s \<Rightarrow> sbind (load_state (ps_run_id s)) (\<lambda>y. sret (Some (case y of None \<Rightarrow> s | Some s' \<Rightarrow> s'))))"

definition finish_run :: "PipelineRunState \<Rightarrow> PipelineRunState option cop" where
  "finish_run s = sbind (if run_over s then ack_parent (ps_run_id s) else requeue_parent s) (\<lambda>ok.
     if ok then sret (Some s) else sraise (if run_over s then ''ack_parent failed'' else ''requeue_parent failed''))"

definition process_one :: "coord_env \<Rightarrow> (string \<Rightarrow> pyval option) \<Rightarrow> (stream_id \<Rightarrow> nat) \<Rightarrow> string \<Rightarrow> PipelineRunState option cop" where
  "process_one env loads idle_ms consumer = sbind (loaded_run loads idle_ms consumer) (\<lambda>x. case x of
     None \<Rightarrow> sret None | Some s \<Rightarrow> sbind (on_store (ps_run_id s) (advance env s)) finish_run)"

text \<open>\<open>PipelineCoordinator.process_one\<close>.\<close>

definition resume_one :: "(string \<Rightarrow> pyval option) \<Rightarrow> (stream_id \<Rightarrow> nat) \<Rightarrow> string \<Rightarrow> PipelineRunState option cop" where
  "resume_one loads idle_ms consumer = sbind (claim_run loads idle_ms consumer) (\<lambda>x. case x of
     None \<Rightarrow> sret None | Some s \<Rightarrow> sbind (on_store (ps_run_id s) (resume_run s)) (\<lambda>s'. sret (Some s')))"

definition request_cancellation :: "string \<Rightarrow> bool cop" where
  "request_cancellation r = sbind (load_state r) (\<lambda>x. case Option.bind x cancelling of
     None \<Rightarrow> sret False
   | Some s \<Rightarrow> sbind (save_state s) (\<lambda>ok. if \<not> ok then sret False
       else sbind (requeue_parent s) (\<lambda>ok'. if \<not> ok' then sret False
         else sbind (append_event r ''cancellation_requested'') (\<lambda>_. sret True))))"

end
