(* ===== verification/Pipeline_Queue.thy ===== *)
theory Pipeline_Queue
  imports Pipeline_Store
begin

text \<open>
  The invariant of the store of the pipeline coordinator: its stream is sound, the entry ids the process remembers belong to the runs they are filed under, and
  a run that is not over awaits delivery. Every operation of the store keeps the invariant, whatever happens to its commands; \<open>ensures\<close> are the rules
  for sequences of commands, with the invariant as the postcondition of every exception.
\<close>

section \<open>The parent stream\<close>

definition stream_sound :: "rstream \<Rightarrow> bool" where
  "stream_sound st \<longleftrightarrow> sorted_wrt (<) (map fst (st_entries st)) \<and> (\<forall>e \<in> set (st_entries st). (0, 0) < fst e \<and> fst e \<le> st_last st)
     \<and> (\<forall>g. st_groups st COORDINATOR_GROUP = Some g \<longrightarrow> gr_last g \<le> st_last st)"

text \<open>The entries that will still be handed out: not delivered, or delivered and not acknowledged.\<close>

definition undelivered :: "rstream \<Rightarrow> stream_id \<Rightarrow> bool" where
  "undelivered st i \<longleftrightarrow> (case st_groups st COORDINATOR_GROUP of None \<Rightarrow> True | Some g \<Rightarrow> gr_last g < i)"

definition open_id :: "rstream \<Rightarrow> stream_id \<Rightarrow> bool" where
  "open_id st i \<longleftrightarrow> undelivered st i \<or> i \<in> pending_ids st"

definition awaits :: "(string \<Rightarrow> pyval option) \<Rightarrow> rstream \<Rightarrow> string \<Rightarrow> bool" where
  "awaits loads st r \<longleftrightarrow> (\<exists>i fs. (i, fs) \<in> set (st_entries st) \<and> run_of loads fs = r \<and> open_id st i)"

definition entry_for :: "(string \<Rightarrow> pyval option) \<Rightarrow> rstream \<Rightarrow> string \<Rightarrow> stream_id \<Rightarrow> bool" where
  "entry_for loads st r i \<longleftrightarrow> (\<exists>fs. (i, fs) \<in> set (st_entries st) \<and> run_of loads fs = r)"

lemma awaits_entry: "awaits loads st r \<longleftrightarrow> (\<exists>i. entry_for loads st r i \<and> open_id st i)"
  by (auto simp: awaits_def entry_for_def)

lemma entry_for_unique: "stream_sound st \<Longrightarrow> entry_for loads st r i \<Longrightarrow> entry_for loads st r' i \<Longrightarrow> r = r'"
  by (auto simp: stream_sound_def entry_for_def strict_sorted_iff dest: eq_key_imp_eq_value)

lemma next_id_bound: "st_last st < next_id ms st"
  by (cases "st_last st") (auto simp: next_id_def less_prod_def)

lemma sound_add:
  assumes "stream_sound st"
  shows "stream_sound (stream_add ms fs st)"
proof -
  have l: "st_last st < next_id ms st" by (rule next_id_bound)
  then have "(0, 0) < next_id ms st" by (cases "st_last st", cases "next_id ms st") (auto simp: less_prod_def)
  then show ?thesis using assms l by (fastforce simp: stream_sound_def stream_add_def sorted_wrt_append)
qed

lemma add_simps [simp]: "pending_ids (stream_add ms fs st) = pending_ids st" "undelivered (stream_add ms fs st) = undelivered st"
    "open_id (stream_add ms fs st) = open_id st"
  by (auto simp: fun_eq_iff stream_add_def open_id_def undelivered_def pending_ids_def)

lemma entry_for_add: "entry_for loads st r i \<Longrightarrow> entry_for loads (stream_add ms fs st) r i"
  by (auto simp: entry_for_def stream_add_def)

lemma awaits_add: "awaits loads st r \<Longrightarrow> awaits loads (stream_add ms fs st) r"
  unfolding awaits_entry using entry_for_add by fastforce

lemma awaits_added:
  assumes "stream_sound st" and "run_of loads fs = r"
  shows "entry_for loads (stream_add ms fs st) r (next_id ms st)" "undelivered st (next_id ms st)"
proof -
  show "undelivered st (next_id ms st)"
    using assms(1) le_less_trans [OF _ next_id_bound] by (auto simp: undelivered_def stream_sound_def split: option.splits)
qed (use assms(2) in \<open>auto simp: entry_for_def stream_add_def\<close>)

lemma ack_simps [simp]:
  "st_entries (stream_ack g i st) = st_entries st" "st_last (stream_ack g i st) = st_last st"
  "entry_for loads (stream_ack g i st) r j \<longleftrightarrow> entry_for loads st r j"
  by (auto simp: stream_ack_def entry_for_def)

lemma pending_ack [simp]: "pending_ids (stream_ack COORDINATOR_GROUP i st) = pending_ids st - {i}"
    "undelivered (stream_ack COORDINATOR_GROUP i st) = undelivered st"
  by (auto simp: pending_ids_def undelivered_def stream_ack_def fun_eq_iff split: option.splits)

lemma sound_ack [simp]: "stream_sound (stream_ack COORDINATOR_GROUP i st) \<longleftrightarrow> stream_sound st"
  by (auto simp: stream_sound_def stream_ack_def split: option.splits)

lemma acks_simps [simp]:
  "entry_for loads (fold (stream_ack COORDINATOR_GROUP) is st) = entry_for loads st"
  "pending_ids (fold (stream_ack COORDINATOR_GROUP) is st) = pending_ids st - set is" "undelivered (fold (stream_ack COORDINATOR_GROUP) is st) = undelivered st"
  "stream_sound (fold (stream_ack COORDINATOR_GROUP) is st) \<longleftrightarrow> stream_sound st"
  by (induction "is" arbitrary: st) (simp_all add: fun_eq_iff set_diff_eq)

lemma awaits_acks:
  assumes "awaits loads st r" and "stream_sound st" and "\<forall>i \<in> set is. entry_for loads st r' i" and "r' \<noteq> r"
  shows "awaits loads (fold (stream_ack COORDINATOR_GROUP) is st) r"
proof -
  obtain i where i: "entry_for loads st r i" "open_id st i" using assms(1) unfolding awaits_entry by blast
  then have "i \<notin> set is" using entry_for_unique [OF assms(2) i(1)] assms(3,4) by blast
  then have "open_id (fold (stream_ack COORDINATOR_GROUP) is st) i" using i(2) by (simp add: open_id_def)
  then show ?thesis using i(1) unfolding awaits_entry acks_simps by blast
qed

lemma awaits_ack: "awaits loads st r \<Longrightarrow> stream_sound st \<Longrightarrow> entry_for loads st r' i \<Longrightarrow> r' \<noteq> r \<Longrightarrow> awaits loads (stream_ack COORDINATOR_GROUP i st) r"
  using awaits_acks [of loads st r "[i]" r'] by simp

lemma awaits_same:
  "entry_for loads st' = entry_for loads st \<Longrightarrow> open_id st' = open_id st \<Longrightarrow> awaits loads st' = awaits loads st"
  by (simp add: fun_eq_iff awaits_entry)

lemma pending_moved: "fst ` set (map (\<lambda>p. if fst p = i then (i, k) else p) ps) = fst ` set ps"
  by (induction ps) auto

lemma move_simps [simp]:
  "pending_ids (move_pending k i st) = pending_ids st" "undelivered (move_pending k i st) = undelivered st"
  "entry_for loads (move_pending k i st) = entry_for loads st" "stream_sound (move_pending k i st) \<longleftrightarrow> stream_sound st"
  using pending_moved [of i k]
  by (auto simp: fun_eq_iff pending_ids_def undelivered_def entry_for_def stream_sound_def move_pending_def simp del: set_map split: option.splits)

lemma awaits_move [simp]: "awaits loads (move_pending k i st) = awaits loads st"
  by (rule awaits_same) (simp_all add: fun_eq_iff open_id_def)

lemma group_same:
  assumes "stream_sound st"
  shows "stream_sound (stream_group COORDINATOR_GROUP st)" "entry_for loads (stream_group COORDINATOR_GROUP st) = entry_for loads st"
proof -
  have "(0, 0) \<le> st_last st" by (cases "st_last st") simp
  then show "stream_sound (stream_group COORDINATOR_GROUP st)" using assms by (auto simp: stream_sound_def stream_group_def)
qed (auto simp: stream_group_def entry_for_def fun_eq_iff)

lemma awaits_group:
  assumes "stream_sound st" and "awaits loads st r"
  shows "awaits loads (stream_group COORDINATOR_GROUP st) r"
proof -
  obtain i where i: "entry_for loads st r i" "open_id st i" using assms(2) unfolding awaits_entry by blast
  have "(0, 0) < i" using assms(1) i(1) by (auto simp: stream_sound_def entry_for_def)
  then have "open_id (stream_group COORDINATOR_GROUP st) i" using i(2)
    by (auto simp: open_id_def undelivered_def pending_ids_def stream_group_def split: option.splits)
  then show ?thesis using i(1) unfolding awaits_entry group_same(2) [OF assms(1)] by blast
qed

lemma claim_one:
  assumes "stream_claim COORDINATOR_GROUP k 1 st = Some (es, st')"
  obtains "es = []" "st' = st"
  | g e es' where "st_groups st COORDINATOR_GROUP = Some g" "after (gr_last g) st = e # es'" "es = [e]"
      "st' = st\<lparr>st_groups := (st_groups st)(COORDINATOR_GROUP \<mapsto> \<lparr>gr_last = fst e, gr_pel = gr_pel g @ [(fst e, k)]\<rparr>)\<rparr>"
proof (cases "st_groups st COORDINATOR_GROUP")
  case (Some g)
  show ?thesis
  proof (cases "after (gr_last g) st")
    case Nil
    show ?thesis by (rule that(1)) (use assms Some Nil in \<open>simp_all add: stream_claim_def Let_def\<close>)
  next
    case (Cons e es')
    show ?thesis by (rule that(2) [OF Some Cons]) (use assms Some Cons in \<open>simp_all add: stream_claim_def Let_def\<close>)
  qed
qed (use assms in \<open>simp add: stream_claim_def\<close>)

lemma claim_same:
  assumes "stream_claim COORDINATOR_GROUP k 1 st = Some (es, st')" and "stream_sound st"
  shows "entry_for loads st' = entry_for loads st" "stream_sound st'" "\<forall>e \<in> set es. e \<in> set (st_entries st) \<and> fst e \<in> pending_ids st'"
    "awaits loads st r \<Longrightarrow> awaits loads st' r"
proof -
  have "entry_for loads st' = entry_for loads st \<and> stream_sound st' \<and> (\<forall>e \<in> set es. e \<in> set (st_entries st) \<and> fst e \<in> pending_ids st')
    \<and> (\<forall>i. i \<in> fst ` set (st_entries st) \<longrightarrow> open_id st i \<longrightarrow> open_id st' i)"
    using assms(1)
  proof (cases rule: claim_one)
    case (2 g e es')
    have e: "e \<in> set (st_entries st)" "gr_last g < fst e" using 2(2) by (auto simp: after_def filter_eq_Cons_iff)
    have s: "sorted_wrt (<) (map fst (e # es'))" using assms(2) unfolding 2(2) [symmetric] after_def stream_sound_def
      by (auto simp: sorted_wrt_map intro: sorted_wrt_filter)
    have "open_id st' i" if i: "i \<in> fst ` set (st_entries st)" "open_id st i" for i
    proof (cases "gr_last g < i")
      case True
      then have "i \<in> fst ` set (e # es')" using i(1) unfolding 2(2) [symmetric] after_def by auto
      then show ?thesis using s by (auto simp: open_id_def undelivered_def pending_ids_def 2(4))
    next
      case False
      then show ?thesis using i(2) 2(1) by (auto simp: open_id_def undelivered_def pending_ids_def 2(4))
    qed
    then show ?thesis using 2 e assms(2) by (auto simp: entry_for_def stream_sound_def pending_ids_def fun_eq_iff)
  qed (use assms(2) in simp)
  note same = this
  then show "entry_for loads st' = entry_for loads st" "stream_sound st'" "\<forall>e \<in> set es. e \<in> set (st_entries st) \<and> fst e \<in> pending_ids st'" by blast+
  show "awaits loads st' r" if aw: "awaits loads st r"
  proof -
    obtain i where i: "entry_for loads st r i" "open_id st i" using aw unfolding awaits_entry by blast
    then have "i \<in> fst ` set (st_entries st)" by (force simp: entry_for_def)
    then have "open_id st' i" using i(2) same by blast
    then show ?thesis using i(1) same unfolding awaits_entry by metis
  qed
qed

section \<open>The invariant of the store\<close>

text \<open>A run id that comes back unchanged from a stream field.\<close>

definition plain_id :: "string \<Rightarrow> bool" where
  "plain_id r \<longleftrightarrow> r \<noteq> [] \<and> hd r \<noteq> CHR 34 \<and> hd r \<noteq> CHR 39"

definition store_ok :: "(string \<Rightarrow> pyval option) \<Rightarrow> coord_store \<Rightarrow> bool" where
  "store_ok loads c \<longleftrightarrow> stream_sound (co_stream c) \<and> (\<forall>r i. co_entry_ids c r = Some i \<longrightarrow> entry_for loads (co_stream c) r i)
     \<and> (\<forall>r s. co_states c r = Some s \<longrightarrow> ps_run_id s = r \<and> plain_id r \<and> (run_over s \<or> awaits loads (co_stream c) r))"

lemma run_of_parent: "plain_id (ps_run_id s) \<Longrightarrow> run_of loads (parent_fields s) = ps_run_id s"
  by (cases "ps_run_id s") (auto simp: plain_id_def run_of_def parent_fields_def decode_stream_field_def has_prefix_def)

lemma ok_sound: "store_ok loads c \<Longrightarrow> stream_sound (co_stream c)"
  by (simp add: store_ok_def)

lemma ok_state: "store_ok loads c \<Longrightarrow> co_states c r = Some s \<Longrightarrow> ps_run_id s = r \<and> plain_id r \<and> (run_over s \<or> awaits loads (co_stream c) r)"
  by (simp add: store_ok_def)

lemma ok_loaded: "store_ok loads c \<Longrightarrow> Some s = co_states c r \<Longrightarrow> ps_run_id s = r"
  using ok_state by metis

lemma ok_entry: "store_ok loads c \<Longrightarrow> co_entry_ids c r = Some i \<Longrightarrow> entry_for loads (co_stream c) r i"
  unfolding store_ok_def by blast

lemma ok_faults [simp]: "store_ok loads (c\<lparr>co_faults := fs\<rparr>) \<longleftrightarrow> store_ok loads c" "store_ok loads (add_event r e c) \<longleftrightarrow> store_ok loads c"
    "store_ok loads (c\<lparr>co_ms := n\<rparr>) \<longleftrightarrow> store_ok loads c" "store_ok loads (c\<lparr>co_events := es\<rparr>) \<longleftrightarrow> store_ok loads c"
  by (simp_all add: store_ok_def add_event_def)

lemma ok_put: "store_ok loads c \<Longrightarrow> plain_id (ps_run_id s) \<Longrightarrow> run_over s \<or> awaits loads (co_stream c) (ps_run_id s) \<Longrightarrow> store_ok loads (put_state s c)"
  by (simp add: store_ok_def put_state_def)

lemma ok_stream:
  assumes "store_ok loads c" and "stream_sound st" and "\<And>r i. entry_for loads (co_stream c) r i \<Longrightarrow> entry_for loads st r i"
    and "\<And>r s. co_states c r = Some s \<Longrightarrow> \<not> run_over s \<Longrightarrow> awaits loads (co_stream c) r \<Longrightarrow> awaits loads st r"
  shows "store_ok loads (c\<lparr>co_stream := st\<rparr>)"
  using assms unfolding store_ok_def by simp blast

lemma ok_add_parent: "store_ok loads c \<Longrightarrow> store_ok loads (add_parent s c)"
  unfolding add_parent_def by (rule ok_stream) (auto intro: sound_add awaits_add entry_for_add ok_sound)

lemma added_awaits:
  assumes "stream_sound (co_stream c)" and "plain_id (ps_run_id s)"
  shows "awaits loads (co_stream (add_parent s c)) (ps_run_id s)"
proof -
  note n = awaits_added [where ms = "co_ms c" and loads = loads, OF assms(1) run_of_parent [OF assms(2)]]
  then have "open_id (co_stream (add_parent s c)) (next_id (co_ms c) (co_stream c))" by (simp add: add_parent_def open_id_def)
  then show ?thesis using n(1) unfolding awaits_entry by (auto simp: add_parent_def simp del: split_paired_Ex)
qed

lemma ok_acks:
  assumes "store_ok loads c" and "\<forall>i \<in> set is. entry_for loads (co_stream c) r i"
    and "\<And>s. co_states c r = Some s \<Longrightarrow> run_over s \<or> awaits loads (fold (stream_ack COORDINATOR_GROUP) is (co_stream c)) r"
  shows "store_ok loads (c\<lparr>co_stream := fold (stream_ack COORDINATOR_GROUP) is (co_stream c)\<rparr>)"
proof (rule ok_stream [OF assms(1)])
  fix r' s
  assume s: "co_states c r' = Some s" "\<not> run_over s" "awaits loads (co_stream c) r'"
  show "awaits loads (fold (stream_ack COORDINATOR_GROUP) is (co_stream c)) r'"
  proof (cases "r' = r")
    case False
    then show ?thesis using awaits_acks [OF s(3) ok_sound [OF assms(1)] assms(2)] by blast
  qed (use assms(3) s in blast)
qed (use ok_sound [OF assms(1)] in simp_all)

lemma ok_replace:
  assumes "store_ok loads c" and "plain_id (ps_run_id s)" and "entry_for loads (co_stream c) (ps_run_id s) i"
  shows "store_ok loads ((add_parent s c)\<lparr>co_stream := stream_ack COORDINATOR_GROUP i (co_stream (add_parent s c))\<rparr>)"
proof -
  let ?c = "add_parent s c" and ?n = "next_id (co_ms c) (co_stream c)"
  have c: "store_ok loads ?c" by (rule ok_add_parent [OF assms(1)])
  have e: "entry_for loads (co_stream ?c) (ps_run_id s) i" using assms(3) by (simp add: add_parent_def entry_for_add)
  note n = awaits_added [where ms = "co_ms c" and loads = loads, OF ok_sound [OF assms(1)] run_of_parent [OF assms(2)]]
  have "open_id (stream_ack COORDINATOR_GROUP i (co_stream ?c)) ?n" using n(2) by (simp add: add_parent_def open_id_def)
  then have "awaits loads (stream_ack COORDINATOR_GROUP i (co_stream ?c)) (ps_run_id s)"
    using n(1) unfolding awaits_entry ack_simps by (auto simp: add_parent_def simp del: split_paired_Ex)
  then show ?thesis using ok_acks [OF c, of "[i]" "ps_run_id s"] e by simp
qed

lemma ok_remember: "store_ok loads c \<Longrightarrow> entry_for loads (co_stream c) r i \<Longrightarrow> store_ok loads (c\<lparr>co_entry_ids := (co_entry_ids c)(r \<mapsto> i)\<rparr>)"
  by (auto simp: store_ok_def)

lemma ok_forget: "store_ok loads c \<Longrightarrow> store_ok loads (c\<lparr>co_entry_ids := (co_entry_ids c)(r := None)\<rparr>)" "store_ok loads c \<Longrightarrow> store_ok loads (c\<lparr>co_entry_ids := Map.empty\<rparr>)"
  by (auto simp: store_ok_def)

section \<open>Operations of the store\<close>

definition ensures :: "(string \<Rightarrow> pyval option) \<Rightarrow> (coord_store \<Rightarrow> bool) \<Rightarrow> 'a cop \<Rightarrow> ('a \<Rightarrow> coord_store \<Rightarrow> bool) \<Rightarrow> bool" where
  "ensures loads P m Q \<longleftrightarrow> (\<forall>c. P c \<longrightarrow> (case m c of (Inl e, c') \<Rightarrow> store_ok loads c' | (Inr x, c') \<Rightarrow> Q x c'))"

definition guards :: "(string \<Rightarrow> pyval option) \<Rightarrow> (coord_store \<Rightarrow> bool) \<Rightarrow> bool" where
  "guards loads P \<longleftrightarrow> (\<forall>c. P c \<longrightarrow> store_ok loads c \<and> (\<forall>fs. P (c\<lparr>co_faults := fs\<rparr>)))"

lemma ensures_bind: "ensures loads P m R \<Longrightarrow> (\<And>x. ensures loads (R x) (k x) Q) \<Longrightarrow> ensures loads P (sbind m k) Q"
  unfolding ensures_def sbind_def by (fastforce split: prod.splits sum.splits)

lemma ensures_mono: "ensures loads P m Q \<Longrightarrow> (\<And>c. P' c \<Longrightarrow> P c) \<Longrightarrow> (\<And>x c. Q x c \<Longrightarrow> Q' x c) \<Longrightarrow> ensures loads P' m Q'"
  unfolding ensures_def by (fastforce split: prod.splits sum.splits)

lemma ensures_vacuous: "(\<And>c. \<not> P c) \<Longrightarrow> ensures loads P m Q"
  by (simp add: ensures_def)

lemma ensures_basic:
  "(\<And>c. P c \<Longrightarrow> Q x c) \<Longrightarrow> ensures loads P (sret x) Q"
  "(\<And>c. P c \<Longrightarrow> store_ok loads c) \<Longrightarrow> ensures loads P (sraise e) Q"
  by (simp_all add: ensures_def sret_def sraise_def)

lemma ensures_caught: "ensures loads P m Q \<Longrightarrow> (\<And>c. store_ok loads c \<Longrightarrow> Q v c) \<Longrightarrow> ensures loads P (caught v m) Q"
  unfolding ensures_def caught_def by (fastforce split: prod.splits sum.splits)

lemma ensures_call:
  assumes "guards loads P" and "\<And>c. P c \<Longrightarrow> store_ok loads (snd (f c)) \<and> (\<forall>x. fst (f c) = Inr x \<longrightarrow> Q x (snd (f c)))"
  shows "ensures loads P (redis_call f) Q"
  unfolding ensures_def
proof (intro allI impI)
  fix c
  assume "P c"
  then have f: "store_ok loads (c\<lparr>co_faults := tl (co_faults c)\<rparr>)" "P c" "P (c\<lparr>co_faults := tl (co_faults c)\<rparr>)" using assms(1) by (simp_all add: guards_def)
  show "case redis_call f c of (Inl e, c') \<Rightarrow> store_ok loads c' | (Inr x, c') \<Rightarrow> Q x c'"
    using f(1) assms(2) [OF f(2)] assms(2) [OF f(3)] by (auto simp: redis_call_def Let_def split: list.splits fault.splits prod.splits sum.splits)
qed

lemma guards_ok [simp]: "guards loads (store_ok loads)"
  by (simp add: guards_def)

lemma ensures_load: "guards loads P \<Longrightarrow> ensures loads P (load_state r) (\<lambda>x c. P c \<and> x = co_states c r)"
  unfolding load_state_def by (rule ensures_call) (auto simp: guards_def)

lemma ensures_save:
  assumes "plain_id (ps_run_id s)"
  shows "ensures loads (\<lambda>c. store_ok loads c \<and> (run_over s \<or> awaits loads (co_stream c) (ps_run_id s))) (save_state s) (\<lambda>_. store_ok loads)"
  unfolding save_state_def by (intro ensures_caught ensures_call) (auto simp: guards_def intro: ok_put assms)

lemma ensures_event: "ensures loads (store_ok loads) (append_event r e) (\<lambda>_. store_ok loads)"
  unfolding append_event_def by (intro ensures_caught ensures_call) auto

lemma ensures_enqueue: "ensures loads (store_ok loads) (enqueue_parent s) (\<lambda>_. store_ok loads)"
  unfolding enqueue_parent_def by (intro ensures_caught ensures_call) (auto intro: ok_add_parent)

lemma ensures_submit:
  assumes "plain_id (ps_run_id s)"
  shows "ensures loads (store_ok loads) (submit_parent s) (\<lambda>_. store_ok loads)"
proof -
  have "store_ok loads (add_parent s (add_event r e (put_state s c)))" if c: "store_ok loads c" for r e c
  proof -
    have a: "store_ok loads (add_parent s c)" by (rule ok_add_parent [OF c])
    have "awaits loads (co_stream (add_parent s c)) (ps_run_id s)" by (rule added_awaits [OF ok_sound [OF c] assms])
    then have "store_ok loads (add_event r e (put_state s (add_parent s c)))" using ok_put [OF a assms] by simp
    moreover have "add_parent s (add_event r e (put_state s c)) = add_event r e (put_state s (add_parent s c))"
      by (simp add: add_parent_def add_event_def put_state_def)
    ultimately show ?thesis by simp
  qed
  then show ?thesis unfolding submit_parent_def submit_parent_script_def by (intro ensures_caught ensures_call) auto
qed

lemma ensures_requeue:
  assumes "plain_id (ps_run_id s)"
  shows "ensures loads (store_ok loads) (requeue_parent s) (\<lambda>_. store_ok loads)"
proof -
  have "ensures loads (\<lambda>c. store_ok loads c \<and> entry_for loads (co_stream c) (ps_run_id s) i)
      (caught False (sbind (redis_call (\<lambda>c. (Inr (), (add_parent s c)\<lparr>co_stream := stream_ack COORDINATOR_GROUP i (co_stream (add_parent s c))\<rparr>)))
        (\<lambda>_. sbind (forget (ps_run_id s)) (\<lambda>_. sret True)))) (\<lambda>_. store_ok loads)" for i
    by (intro ensures_caught ensures_bind [where R = "\<lambda>_. store_ok loads"] ensures_call ensures_basic)
      (auto simp: guards_def ensures_def forget_def intro: ok_replace assms ok_forget)
  then show ?thesis using ensures_enqueue [of loads s] ok_entry [of loads _ "ps_run_id s"]
    unfolding ensures_def requeue_parent_def by (auto split: option.splits)
qed

lemma ensures_xack:
  assumes "guards loads P" and "\<And>c. P c \<Longrightarrow> Q (c\<lparr>co_stream := fold (stream_ack COORDINATOR_GROUP) is (co_stream c)\<rparr>)" and "\<And>c. Q c \<Longrightarrow> store_ok loads c"
  shows "ensures loads P (xack is) (\<lambda>_. Q)"
  unfolding xack_def by (rule ensures_call) (use assms in auto)

lemma ensures_ack: "ensures loads (\<lambda>c. store_ok loads c \<and> (\<forall>s. co_states c r = Some s \<longrightarrow> run_over s)) (ack_parent r) (\<lambda>_. store_ok loads)"
proof -
  let ?P = "\<lambda>i c. store_ok loads c \<and> (\<forall>s. co_states c r = Some s \<longrightarrow> run_over s) \<and> entry_for loads (co_stream c) r i"
  have "ensures loads (?P i) (sbind (forget r) (\<lambda>_. caught False (sbind (xack [i]) (\<lambda>_. sret True)))) (\<lambda>_. store_ok loads)" for i
  proof (rule ensures_bind [where R = "\<lambda>_. ?P i"])
    show "ensures loads (?P i) (forget r) (\<lambda>_. ?P i)" by (auto simp: ensures_def forget_def intro: ok_forget)
    have "ensures loads (?P i) (xack [i]) (\<lambda>_. store_ok loads)" by (rule ensures_xack) (auto simp: guards_def intro: ok_acks [of loads _ "[i]" r, simplified])
    then show "ensures loads (?P i) (caught False (sbind (xack [i]) (\<lambda>_. sret True))) (\<lambda>_. store_ok loads)"
      by (intro ensures_caught ensures_bind [where R = "\<lambda>_. store_ok loads"] ensures_basic)
  qed
  then show ?thesis using ok_entry [of loads _ r] unfolding ensures_def ack_parent_def by (auto simp: sret_def split: option.splits)
qed

lemma ensures_remember: "ensures loads (\<lambda>c. store_ok loads c \<and> entry_for loads (co_stream c) r i) (remember r i) (\<lambda>_. store_ok loads)"
  by (auto simp: ensures_def remember_def intro: ok_remember)

lemma ok_read:
  assumes "stream_claim COORDINATOR_GROUP k 1 (co_stream c) = Some (es, st)" and "store_ok loads c"
  shows "store_ok loads (c\<lparr>co_stream := st\<rparr>) \<and> (\<forall>e \<in> set es. e \<in> set (st_entries st))"
proof -
  note same = claim_same [OF assms(1) ok_sound [OF assms(2)]]
  have "set (st_entries st) = set (st_entries (co_stream c))" using assms(1) by (cases rule: claim_one) auto
  moreover have "store_ok loads (c\<lparr>co_stream := st\<rparr>)" by (rule ok_stream [OF assms(2) same(2)]) (simp_all add: same(1,4))
  ultimately show ?thesis using same(3) by blast
qed

lemma ensures_read:
  "ensures loads (store_ok loads) (read_parent k) (\<lambda>es c. store_ok loads c \<and> (\<forall>e \<in> set es. e \<in> set (st_entries (co_stream c))))"
  unfolding read_parent_def by (rule ensures_call) (auto dest: ok_read simp del: One_nat_def split: option.splits)

lemma ensures_dequeue: "ensures loads (store_ok loads) (dequeue_parent loads k) (\<lambda>_. store_ok loads)"
  unfolding dequeue_parent_def
proof (rule ensures_bind [OF ensures_read])
  fix es
  show "ensures loads (\<lambda>c. store_ok loads c \<and> (\<forall>e \<in> set es. e \<in> set (st_entries (co_stream c))))
    (case es of [] \<Rightarrow> sret None | (i, fs) # _ \<Rightarrow> let r = run_of loads fs in if r = [] then sraise ''StoreError: no run_id''
       else sbind (remember r i) (\<lambda>_. sbind (load_state r) (\<lambda>x. case x of None \<Rightarrow> sraise ''StoreError: no durable state'' | Some s \<Rightarrow> sret (Some s))))
    (\<lambda>_. store_ok loads)"
  proof (cases es)
    case (Cons e es')
    obtain i fs where e: "e = (i, fs)" by (cases e)
    let ?r = "run_of loads fs"
    have "ensures loads (\<lambda>c. store_ok loads c \<and> (\<forall>e \<in> set es. e \<in> set (st_entries (co_stream c)))) (remember ?r i) (\<lambda>_. store_ok loads)"
      by (rule ensures_mono [OF ensures_remember]) (auto simp: entry_for_def Cons e)
    moreover have "ensures loads (store_ok loads) (sbind (load_state ?r) (\<lambda>x. case x of None \<Rightarrow> sraise ''StoreError: no durable state'' | Some s \<Rightarrow> sret (Some s))) (\<lambda>_. store_ok loads)"
      by (rule ensures_bind [OF ensures_load]) (auto intro: ensures_basic split: option.splits)
    ultimately show ?thesis by (auto simp: Cons e Let_def intro: ensures_bind ensures_basic)
  qed (auto intro: ensures_basic)
qed

text \<open>Entries that were collected for recovery are pending and belong to the run they are filed under.\<close>

definition filed :: "(string \<Rightarrow> pyval option) \<Rightarrow> (string \<times> stream_id list) list \<Rightarrow> coord_store \<Rightarrow> bool" where
  "filed loads m c \<longleftrightarrow> distinct (map fst m) \<and> (\<forall>(r, is) \<in> set m. is \<noteq> [] \<and> (\<forall>i \<in> set is. entry_for loads (co_stream c) r i \<and> i \<in> pending_ids (co_stream c)))"

lemma ok_drop:
  assumes "store_ok loads c" and "filed loads ((r, is) # m) c"
  shows "store_ok loads (c\<lparr>co_stream := fold (stream_ack COORDINATOR_GROUP) (butlast (sort (remdups is))) (co_stream c)\<rparr>)"
    "filed loads m (c\<lparr>co_stream := fold (stream_ack COORDINATOR_GROUP) (butlast (sort (remdups is))) (co_stream c)\<rparr>)"
    "entry_for loads (co_stream c) r (last (sort (remdups is)))"
proof -
  let ?ids = "sort (remdups is)" and ?st = "co_stream c"
  have "is \<noteq> []" and i: "\<forall>i \<in> set ?ids. entry_for loads ?st r i \<and> i \<in> pending_ids ?st" using assms(2) by (auto simp: filed_def)
  then have ne: "?ids \<noteq> []" by (metis remdups_eq_nil_iff set_empty set_sort)
  then show l: "entry_for loads ?st r (last ?ids)" using i last_in_set by blast
  have b: "\<forall>j \<in> set (butlast ?ids). entry_for loads ?st r j" using i by (meson in_set_butlastD)
  have "distinct (butlast ?ids @ [last ?ids])" using ne by simp
  then have "last ?ids \<notin> set (butlast ?ids)" by (simp del: append_butlast_last_id)
  moreover have "last ?ids \<in> pending_ids ?st" using i last_in_set [OF ne] by blast
  ultimately have "last ?ids \<in> pending_ids (fold (stream_ack COORDINATOR_GROUP) (butlast ?ids) ?st)" by simp
  then have "awaits loads (fold (stream_ack COORDINATOR_GROUP) (butlast ?ids) ?st) r" using l unfolding awaits_entry acks_simps open_id_def by blast
  then show "store_ok loads (c\<lparr>co_stream := fold (stream_ack COORDINATOR_GROUP) (butlast ?ids) ?st\<rparr>)" by (intro ok_acks [OF assms(1) b]) simp
  have nj: "j \<notin> set (butlast ?ids)" if "(r', is') \<in> set m" "j \<in> set is'" for r' is' j
  proof
    assume "j \<in> set (butlast ?ids)"
    then have "entry_for loads ?st r j" using b by blast
    moreover have "entry_for loads ?st r' j" using assms(2) that by (auto simp: filed_def)
    ultimately have "r = r'" by (rule entry_for_unique [OF ok_sound [OF assms(1)]])
    moreover have "r \<notin> fst ` set m" using assms(2) by (simp add: filed_def)
    moreover have "r' \<in> fst ` set m" using that(1) by force
    ultimately show False by simp
  qed
  have "is' \<noteq> [] \<and> (\<forall>j \<in> set is'. entry_for loads ?st r' j \<and> j \<in> pending_ids ?st - set (butlast ?ids))" if m: "(r', is') \<in> set m" for r' is'
  proof -
    have "is' \<noteq> [] \<and> (\<forall>j \<in> set is'. entry_for loads ?st r' j \<and> j \<in> pending_ids ?st)" using assms(2) m by (auto simp: filed_def)
    then show ?thesis using nj [OF m] by blast
  qed
  moreover have "distinct (map fst m)" using assms(2) by (simp add: filed_def)
  ultimately show "filed loads m (c\<lparr>co_stream := fold (stream_ack COORDINATOR_GROUP) (butlast ?ids) ?st\<rparr>)" unfolding filed_def by auto
qed

lemma filed_load: "guards loads (\<lambda>c. store_ok loads c \<and> filed loads m c \<and> entry_for loads (co_stream c) r i)"
  by (simp add: guards_def filed_def)

lemma ensures_drop:
  "ensures loads (\<lambda>c. store_ok loads c \<and> filed loads ((r, is) # m) c) (drop_duplicates (butlast (sort (remdups is))))
     (\<lambda>_ c. store_ok loads c \<and> filed loads m c \<and> entry_for loads (co_stream c) r (last (sort (remdups is))))"
proof (cases "butlast (sort (remdups is)) = []")
  case True
  show ?thesis using ok_drop [of loads _ r "is" m] unfolding True by (auto simp: drop_duplicates_def intro: ensures_basic)
next
  case False
  let ?Q = "\<lambda>c. store_ok loads c \<and> filed loads m c \<and> entry_for loads (co_stream c) r (last (sort (remdups is)))"
  have "ensures loads (\<lambda>c. store_ok loads c \<and> filed loads ((r, is) # m) c) (xack (butlast (sort (remdups is)))) (\<lambda>_. ?Q)"
  proof (rule ensures_xack)
    show "guards loads (\<lambda>c. store_ok loads c \<and> filed loads ((r, is) # m) c)" by (simp add: guards_def filed_def)
  qed (use ok_drop [of loads _ r "is" m] in auto)
  then show ?thesis using False by (auto simp: drop_duplicates_def intro!: ensures_bind ensures_basic split: if_splits)
qed

lemma ensures_recover: "ensures loads (\<lambda>c. store_ok loads c \<and> filed loads m c) (recover_runs m) (\<lambda>_. store_ok loads)"
proof (induction m rule: recover_runs.induct)
  case 1
  show ?case by (auto intro: ensures_basic)
next
  case (2 r "is" rest)
  let ?i = "last (sort (remdups is))"
  have m: "ensures loads (\<lambda>c. store_ok loads c \<and> filed loads rest c \<and> entry_for loads (co_stream c) r ?i) (remember r ?i) (\<lambda>_ c. store_ok loads c \<and> filed loads rest c)"
    by (auto simp: ensures_def remember_def filed_def intro: ok_remember)
  have rest: "ensures loads (\<lambda>c. store_ok loads c \<and> filed loads rest c) (sbind (recover_runs rest) (\<lambda>ss. sret (s # ss))) (\<lambda>_. store_ok loads)" for s
    by (intro ensures_bind [OF 2 [OF refl]] ensures_basic)
  show ?case unfolding recover_runs.simps Let_def
  proof (rule ensures_bind [OF ensures_drop], rule ensures_bind [OF ensures_load [OF filed_load]])
    fix x
    show "ensures loads (\<lambda>c. (store_ok loads c \<and> filed loads rest c \<and> entry_for loads (co_stream c) r ?i) \<and> x = co_states c r)
      (case x of None \<Rightarrow> sraise ''StoreError: state missing'' | Some s \<Rightarrow> sbind (remember r ?i) (\<lambda>_. sbind (recover_runs rest) (\<lambda>ss. sret (s # ss)))) (\<lambda>_. store_ok loads)"
      by (cases x) (auto intro!: ensures_basic ensures_bind [OF ensures_mono [OF m] rest])
  qed
qed

lemma filed_note:
  assumes "filed loads m c" and "e \<in> set (st_entries (co_stream c))" and "fst e \<in> pending_ids (co_stream c)"
  shows "filed loads (note_entry loads e m) c"
proof -
  have e: "entry_for loads (co_stream c) (run_of loads (snd e)) (fst e)" using assms(2) by (auto simp: entry_for_def intro: exI [of _ "snd e"])
  have old: "\<forall>i \<in> set (case map_of m r of None \<Rightarrow> [] | Some is \<Rightarrow> is). entry_for loads (co_stream c) r i \<and> i \<in> pending_ids (co_stream c)" for r
    using assms(1) by (auto simp: filed_def dest!: map_of_SomeD split: option.splits)
  have u: "set (AList.update k v m) \<subseteq> insert (k, v) (set m)" for k v by (induction m) auto
  show ?thesis using assms(1,3) e old u by (fastforce simp: filed_def note_entry_def Let_def AList.distinct_update)
qed

lemma ensures_take_over:
  "ensures loads (\<lambda>c. store_ok loads c \<and> filed loads m c \<and> fst p \<in> pending_ids (co_stream c) \<and> fst ` set ps \<subseteq> pending_ids (co_stream c)) (take_over idle_ms k p)
     (\<lambda>es c. store_ok loads c \<and> filed loads (fold (note_entry loads) es m) c \<and> fst ` set ps \<subseteq> pending_ids (co_stream c))"
proof -
  have found: "filed loads (fold (note_entry loads) (entry_of (co_stream c) (fst p)) m) c" if "filed loads m c" "fst p \<in> pending_ids (co_stream c)" for c
    using that filed_note [OF that(1), of "(fst p, _)"] by (simp add: entry_of_def find_entry_def map_of_SomeD split: option.splits)
  have moved: "filed loads m' (c\<lparr>co_stream := move_pending k i (co_stream c)\<rparr>) \<longleftrightarrow> filed loads m' c" for m' c i by (simp add: filed_def)
  have ok: "store_ok loads (c\<lparr>co_stream := move_pending k i (co_stream c)\<rparr>)" if "store_ok loads c" for c i
    by (rule ok_stream [OF that]) (use ok_sound [OF that] in simp_all)
  have g: "guards loads (\<lambda>c. store_ok loads c \<and> filed loads m c \<and> fst p \<in> pending_ids (co_stream c) \<and> fst ` set ps \<subseteq> pending_ids (co_stream c))" by (simp add: guards_def filed_def)
  show ?thesis unfolding take_over_def
    by (auto intro!: ensures_call [OF g] ensures_basic simp: found moved ok)
qed

lemma ensures_collect:
  "ensures loads (\<lambda>c. store_ok loads c \<and> filed loads m c \<and> fst ` set ps \<subseteq> pending_ids (co_stream c)) (collect_orphans loads idle_ms k ps m)
     (\<lambda>m' c. store_ok loads c \<and> filed loads m' c)"
proof (induction loads idle_ms k ps m rule: collect_orphans.induct)
  case (2 loads idle_ms k p ps m)
  show ?case unfolding collect_orphans.simps by (rule ensures_bind [OF ensures_mono [OF ensures_take_over] 2]) auto
qed (auto intro: ensures_basic)

lemma filed_sorted: "filed loads (sort_key fst m) c \<longleftrightarrow> filed loads m c"
proof -
  have "distinct (map fst (sort_key fst m)) \<longleftrightarrow> distinct (map fst m)" by (simp add: distinct_map)
  then show ?thesis by (simp add: filed_def)
qed

lemma ensures_reclaim: "ensures loads (store_ok loads) (reclaim_orphaned_parents loads idle_ms k) (\<lambda>_. store_ok loads)"
proof -
  have "ensures loads (store_ok loads) (pending_range 100) (\<lambda>ps c. store_ok loads c \<and> filed loads [] c \<and> fst ` set ps \<subseteq> pending_ids (co_stream c))"
    unfolding pending_range_def
    by (rule ensures_call) (auto simp: filed_def pending_ids_def dest: in_set_takeD split: option.splits)
  then show ?thesis unfolding reclaim_orphaned_parents_def
    by (intro ensures_bind [OF ensures_bind [OF _ ensures_collect]] ensures_bind [OF _ ensures_bind [OF ensures_collect ensures_mono [OF ensures_recover]]])
      (simp_all add: filed_sorted)
qed

text \<open>A claimed run is the one the store has.\<close>

lemma ensures_claim:
  "ensures loads (store_ok loads) (claim_run loads idle_ms k) (\<lambda>x c. store_ok loads c \<and> (\<forall>s. x = Some s \<longrightarrow> co_states c (ps_run_id s) = Some s))"
proof -
  have "ensures loads (store_ok loads) (case x of Some s \<Rightarrow> sret (Some s)
      | None \<Rightarrow> sbind (reclaim_orphaned_parents loads idle_ms k) (\<lambda>ss. sret (case ss of [] \<Rightarrow> None | s # _ \<Rightarrow> Some s))) (\<lambda>_. store_ok loads)" for x
    by (cases x) (auto intro!: ensures_basic ensures_bind [OF ensures_reclaim])
  moreover have "ensures loads (store_ok loads) (case y of None \<Rightarrow> sret None
      | Some s \<Rightarrow> sbind (load_state (ps_run_id s)) (\<lambda>z. case z of None \<Rightarrow> sraise ''claimed parent state disappeared'' | Some s' \<Rightarrow> sret (Some s')))
      (\<lambda>x c. store_ok loads c \<and> (\<forall>s. x = Some s \<longrightarrow> co_states c (ps_run_id s) = Some s))" for y
  proof (cases y)
    case (Some a)
    have "co_states c (ps_run_id s) = Some s" if "store_ok loads c" "Some s = co_states c (ps_run_id a)" for c s
      using that ok_loaded [OF that] by metis
    then show ?thesis unfolding Some option.case by (intro ensures_bind [OF ensures_load [OF guards_ok]]) (auto intro!: ensures_basic split: option.splits)
  qed (auto intro: ensures_basic)
  ultimately show ?thesis unfolding claim_run_def by (intro ensures_bind [OF ensures_dequeue] ensures_bind)
qed

lemma ensures_loaded:
  "ensures loads (store_ok loads) (loaded_run loads idle_ms k) (\<lambda>x c. store_ok loads c \<and> (\<forall>s. x = Some s \<longrightarrow> co_states c (ps_run_id s) = Some s))"
  unfolding loaded_run_def
proof (rule ensures_bind [OF ensures_claim])
  fix x
  show "ensures loads (\<lambda>c. store_ok loads c \<and> (\<forall>s. x = Some s \<longrightarrow> co_states c (ps_run_id s) = Some s))
    (case x of None \<Rightarrow> sret None | Some s \<Rightarrow> sbind (load_state (ps_run_id s)) (\<lambda>y. sret (Some (case y of None \<Rightarrow> s | Some s' \<Rightarrow> s'))))
    (\<lambda>x c. store_ok loads c \<and> (\<forall>s. x = Some s \<longrightarrow> co_states c (ps_run_id s) = Some s))"
  proof (cases x)
    case (Some s)
    have "guards loads (\<lambda>c. store_ok loads c \<and> co_states c (ps_run_id s) = Some s)" by (simp add: guards_def)
    then show ?thesis unfolding Some by (auto intro!: ensures_bind [OF ensures_load] ensures_basic)
  qed (auto intro: ensures_basic)
qed

lemma ensures_request: "ensures loads (store_ok loads) (request_cancellation r) (\<lambda>_. store_ok loads)"
  unfolding request_cancellation_def
proof (rule ensures_bind [OF ensures_load [OF guards_ok]])
  fix x
  show "ensures loads (\<lambda>c. store_ok loads c \<and> x = co_states c r) (case Option.bind x cancelling of None \<Rightarrow> sret False
     | Some s \<Rightarrow> sbind (save_state s) (\<lambda>ok. if \<not> ok then sret False else sbind (requeue_parent s) (\<lambda>ok'. if \<not> ok' then sret False
         else sbind (append_event r ''cancellation_requested'') (\<lambda>_. sret True)))) (\<lambda>_. store_ok loads)"
  proof (cases "Option.bind x cancelling")
    case (Some s)
    then obtain s0 where s: "x = Some s0" "s = s0\<lparr>ps_cancellation_intent := True\<rparr>" "\<not> run_over s0"
      by (auto simp: bind_eq_Some_conv cancelling_def split: if_splits)
    show ?thesis
    proof (cases "plain_id (ps_run_id s)")
      case True
      have "ensures loads (\<lambda>c. store_ok loads c \<and> x = co_states c r) (save_state s) (\<lambda>_. store_ok loads)"
        by (rule ensures_mono [OF ensures_save [OF True]]) (use s in \<open>auto simp: run_over_def dest: ok_state [OF _ sym]\<close>)
      then show ?thesis using Some ensures_requeue [OF True, of loads] ensures_event [of loads]
        by (auto intro!: ensures_bind [where R = "\<lambda>_. store_ok loads"] ensures_basic)
    next
      case False
      have "\<not> (store_ok loads c \<and> x = co_states c r)" for c using False s ok_state [of loads c r s0] by auto
      then show ?thesis by (rule ensures_vacuous)
    qed
  qed (auto intro: ensures_basic)
qed

lemma ensures_clear: "ensures loads (store_ok loads) (clear_cancellation r) (\<lambda>_. store_ok loads)"
  unfolding clear_cancellation_def
proof (rule ensures_bind [OF ensures_load [OF guards_ok]])
  fix x
  show "ensures loads (\<lambda>c. store_ok loads c \<and> x = co_states c r) (case x of None \<Rightarrow> sret ()
     | Some s \<Rightarrow> sbind (save_state (s\<lparr>ps_cancellation_intent := False\<rparr>)) (\<lambda>_. sret ())) (\<lambda>_. store_ok loads)"
  proof (cases x)
    case (Some s)
    show ?thesis
    proof (cases "plain_id (ps_run_id (s\<lparr>ps_cancellation_intent := False\<rparr>))")
      case True
      show ?thesis unfolding Some option.case
        by (rule ensures_bind [OF ensures_mono [OF ensures_save [OF True]] ensures_basic(1)]) (auto simp: run_over_def dest: ok_state [OF _ sym])
    next
      case False
      have "\<not> (store_ok loads c \<and> x = co_states c r)" for c using False Some ok_state [of loads c r s] by auto
      then show ?thesis by (rule ensures_vacuous)
    qed
  qed (auto intro: ensures_basic)
qed

end
