(* ===== verification/Pipeline_Delivery.thy ===== *)
theory Pipeline_Delivery
  imports Pipeline_Queue Pipeline_Runs
begin

text \<open>
  No run is lost between the store and the runtime loop: as long as the saves of a step reach Redis, every run that is not over has an entry in the
  parent stream that was not delivered yet or is pending, whatever replies are lost and wherever the process dies. A step on the store refines
  a step of the run. When the save of a terminal state does not reach Redis, the entry is acknowledged all the same and the run is stranded.
\<close>

section \<open>What a step tells the store\<close>

text \<open>Every state a step saves is a state of the run.\<close>

definition of_run :: "string \<Rightarrow> action \<Rightarrow> bool" where
  "of_run r a = (case a of Saved x \<Rightarrow> ps_run_id x = r | _ \<Rightarrow> True)"

abbreviation kept :: "PipelineRunState \<Rightarrow> PipelineRunState \<Rightarrow> bool" where
  "kept s x \<equiv> ps_run_id x = ps_run_id s \<and> (run_over x \<longleftrightarrow> run_over s)"

lemma of_run_simps [simp]:
  "of_run r (Saved x) \<longleftrightarrow> ps_run_id x = r" "of_run r (Event e)" "of_run r (Executed i n k)" "of_run r (Polled i h)"
  "of_run r (Cancel_stage i)" "of_run r (Submitted_leaf i k)" "of_run r (Polled_leaf i)" "of_run r (Cancel_leaf i)"
  by (simp_all add: of_run_def)

lemma traced_weaken: "traced A P m \<Longrightarrow> (\<And>a. A a \<Longrightarrow> B a) \<Longrightarrow> (\<And>x. P x \<Longrightarrow> Q x) \<Longrightarrow> traced B Q m"
  by (auto simp: traced_def)

lemma steady_of_run: "steady s m \<Longrightarrow> traced (of_run (ps_run_id s)) (\<lambda>x. ps_run_id x = ps_run_id s) m"
proof (erule traced_weaken)
  show "of_run (ps_run_id s) a" if "calm s a" for a using that by (cases a) (auto simp: view_def)
qed (simp add: view_def)

lemma leaf_kept: "traced (of_run (ps_run_id s)) (\<lambda>x. kept s (fst x)) (execute_leaf env s stage key)"
proof -
  have earlier: "traced (of_run (ps_run_id s)) (\<lambda>_. True) (earlier_child env s i ns)" for i ns
    by (induction env s i ns rule: earlier_child.induct) (auto simp: Let_def intro!: traced_bind [where Q = "\<lambda>_. True"] split: option.splits)
  have "traced (of_run (ps_run_id s)) (\<lambda>x. kept s (fst x)) (child_of_attempt env s stage key)"
    unfolding child_of_attempt_def submit_child_def
    by (auto simp: Let_def run_over_def intro!: traced_bind [where Q = "\<lambda>_. True"] earlier split: option.splits)
  then show ?thesis unfolding execute_leaf_def
    by (rule traced_pair) (auto simp: Let_def run_over_def intro!: traced_bind [where Q = "\<lambda>_. True"] split: option.splits)
qed

lemma execute_kept: "traced (of_run (ps_run_id s)) (\<lambda>x. kept s (fst x)) (execute_stage env s stage i au res key)"
  by (auto simp: execute_stage_def execute_external_def Let_def intro!: leaf_kept traced_bind [where Q = "\<lambda>_. True"] split: sum.splits option.splits)

lemma begin_kept: "traced (of_run (ps_run_id s)) (kept s) (begin_attempt env s i)"
  by (auto simp: begin_attempt_def Let_def run_over_def)

lemma run_attempt_of_run: "traced (of_run (ps_run_id s)) (\<lambda>x. ps_run_id x = ps_run_id s) (run_attempt env s stage i au m)"
  unfolding run_attempt_def
proof (rule traced_bind [OF begin_kept], elim conjE, rule traced_pair [where P = "\<lambda>x. ps_run_id (fst x) = ps_run_id s"])
  fix s1 :: PipelineRunState
  assume s1: "ps_run_id s1 = ps_run_id s"
  show "traced (of_run (ps_run_id s)) (\<lambda>x. ps_run_id (fst x) = ps_run_id s) (execute_stage env s1 stage i au (is_running s i) (attempt_key env s i))"
    by (rule traced_weaken [OF execute_kept]) (simp_all add: s1)
  fix s2 :: PipelineRunState and r :: stage_result
  assume "ps_run_id (fst (s2, r)) = ps_run_id s"
  then show "traced (of_run (ps_run_id s)) (\<lambda>x. ps_run_id x = ps_run_id s)
      (case hold_attempt s2 i au r of Inl w \<Rightarrow> w | Inr r' \<Rightarrow> conclude_attempt env s2 stage i r' m)"
    using steady_of_run [OF steady_hold [of s2 s2 i au r]] steady_of_run [OF steady_conclude [of s2 s2 env stage i _ m]]
    by (auto split: sum.splits)
qed

lemma cascade_of_run: "traced (of_run (ps_run_id s)) (\<lambda>x. ps_run_id x = ps_run_id s) (cascade_cancellation env s)"
proof -
  have e: "traced (of_run (ps_run_id s)) (\<lambda>_. True) (cancel_external env s)"
    by (auto simp: cancel_external_def intro!: traced_bind [where Q = "\<lambda>_. True"] split: option.splits bool.splits)
  have c: "traced (of_run (ps_run_id s)) (\<lambda>_. True) (cancel_children env cs)" for cs
    by (induction env cs rule: cancel_children.induct) (auto intro!: traced_bind [where Q = "\<lambda>_. True"] split: option.splits bool.splits)
  show ?thesis unfolding cascade_cancellation_def Let_def
    by (rule traced_bind [where Q = "\<lambda>_. True"], simp, rule traced_bind [OF e], rule traced_bind [OF c])
      (auto simp: terminalize_def Let_def split: prod.splits option.splits)
qed

lemma run_current_of_run: "traced (of_run (ps_run_id s)) (\<lambda>x. ps_run_id x = ps_run_id s) (run_current_stage env s)"
  using steady_of_run [OF steady_terminalize [OF refl]] steady_of_run [OF steady_next [OF refl]] run_attempt_of_run [of s]
  by (auto simp: run_current_stage_def Let_def split: option.splits)

lemma advance_of_run: "traced (of_run (ps_run_id s)) (\<lambda>x. ps_run_id x = ps_run_id s) (advance env s)"
proof -
  have "traced (of_run (ps_run_id s)) (\<lambda>x. ps_run_id x = ps_run_id s) (cbind (csave (take_pending s)) (run_current_stage env))"
  proof (rule traced_bind [where Q = "\<lambda>x. ps_run_id x = ps_run_id s"])
    show "traced (of_run (ps_run_id s)) (\<lambda>y. ps_run_id y = ps_run_id s) (run_current_stage env x)" if "ps_run_id x = ps_run_id s" for x
      using run_current_of_run [of x env] that by simp
  qed (simp add: take_pending_def)
  then show ?thesis using cascade_of_run run_current_of_run by (auto simp: advance_def)
qed

text \<open>A step that returns a run that is over has saved it.\<close>

definition tells :: "PipelineRunState coord \<Rightarrow> bool" where
  "tells m \<longleftrightarrow> (\<forall>d x. fst m = Inr x \<longrightarrow> run_over x \<longrightarrow> run_over (durable d (snd m)))"

lemma tells_bind: "(\<And>x. fst m = Inr x \<Longrightarrow> tells (k x)) \<Longrightarrow> tells (cbind m k)"
  by (auto simp: tells_def fst_bind snd_bind split: sum.splits)

lemma tells_basic [simp]: "tells (craise e)" "tells (csave s)" "tells (csave_event s e)"
  by (simp_all add: tells_def craise_def csave_def csave_event_def durable_Cons)

lemma tells_terminalize: "\<not> run_over s \<Longrightarrow> tells (terminalize s c why)"
  by (auto simp: terminalize_def Let_def split: prod.splits)

lemma tells_next: "\<not> run_over s \<Longrightarrow> tells (advance_to_next_stage s m)"
  by (auto simp: advance_to_next_stage_def tells_terminalize split: option.splits)

lemma tells_qc: "\<not> run_over s \<Longrightarrow> tells (handle_qc_result s v m)"
  by (auto simp: handle_qc_result_def csave_def run_over_def intro!: tells_bind tells_next tells_terminalize split: option.splits)

lemma tells_failure: "\<not> run_over s \<Longrightarrow> tells (handle_stage_failure s stage e)"
  by (auto simp: handle_stage_failure_def Let_def intro!: tells_terminalize)

lemma tells_conclude: "\<not> run_over s \<Longrightarrow> tells (conclude_attempt env s stage i r m)"
  by (auto simp: conclude_attempt_def Let_def run_over_def intro!: tells_bind tells_failure tells_qc tells_next split: sum.splits prod.splits option.splits)

lemma tells_hold: "hold_attempt s i au r = Inl w \<Longrightarrow> tells w"
  by (auto simp: hold_attempt_def split: if_splits sum.splits)

lemma tracedD: "traced A P m \<Longrightarrow> fst m = Inr x \<Longrightarrow> P x"
  by (simp add: traced_def)

lemma tells_run_attempt:
  assumes "\<not> run_over s"
  shows "tells (run_attempt env s stage i au m)"
  unfolding run_attempt_def
proof (intro tells_bind)
  fix s1 x
  assume s1: "fst (begin_attempt env s i) = Inr s1" and x: "fst (execute_stage env s1 stage i au (is_running s i) (attempt_key env s i)) = Inr x"
  have "\<not> run_over (fst x)" using tracedD [OF execute_kept x] tracedD [OF begin_kept s1] assms by simp
  then show "tells (case x of (s2, r) \<Rightarrow> case hold_attempt s2 i au r of Inl w \<Rightarrow> w | Inr r' \<Rightarrow> conclude_attempt env s2 stage i r' m)"
    by (auto intro: tells_conclude tells_hold split: prod.splits sum.splits)
qed

lemma tells_run_current: "\<not> run_over s \<Longrightarrow> tells (run_current_stage env s)"
  by (auto simp: run_current_stage_def Let_def intro: tells_terminalize tells_next tells_run_attempt split: option.splits)

lemma tells_cascade: "\<not> run_over s \<Longrightarrow> tells (cascade_cancellation env s)"
  by (auto simp: cascade_cancellation_def Let_def run_over_def intro!: tells_bind tells_terminalize split: prod.splits)

lemma tells_advance: "\<not> run_over s \<Longrightarrow> tells (advance env s)"
  by (auto simp: advance_def run_over_def intro!: tells_bind tells_cascade tells_run_current) (auto simp: csave_def take_pending_def)

lemma durable_unsaved: "\<forall>x. Saved x \<notin> set t \<Longrightarrow> durable d t = d"
  by (induction t) (auto simp: durable_Cons split: action.splits)

lemma over_unsaved:
  assumes "run_over s"
  shows "Saved x \<notin> set (snd (advance env s))"
proof -
  define A where "A = (\<lambda>a. case a of Saved _ \<Rightarrow> False | _ \<Rightarrow> True)"
  have A [simp]: "A (Event e)" "A (Executed i n k)" "A (Polled i h)" "A (Cancel_stage i)" "A (Submitted_leaf i k)" "A (Polled_leaf i)" "A (Cancel_leaf i)" for e i n k h
    by (simp_all add: A_def)
  have e: "traced A (\<lambda>_. True) (cancel_external env s)"
    by (auto simp: cancel_external_def intro!: traced_bind [where Q = "\<lambda>_. True"] split: option.splits bool.splits)
  have c: "traced A (\<lambda>_. True) (cancel_children env cs)" for cs
    by (induction env cs rule: cancel_children.induct) (auto intro!: traced_bind [where Q = "\<lambda>_. True"] split: option.splits bool.splits)
  have "traced A (\<lambda>_. True) (cascade_cancellation env s)" unfolding cascade_cancellation_def Let_def
    by (rule traced_bind [where Q = "\<lambda>_. True"], simp, rule traced_bind [OF e], rule traced_bind [OF c])
      (use assms in \<open>auto simp: terminalize_def run_over_def split: prod.splits\<close>)
  then have "\<forall>a \<in> set (snd (advance env s)). A a" using assms by (auto simp: advance_def traced_def cret_def)
  then show ?thesis by (auto simp: A_def)
qed

lemma advance_tells:
  assumes "fst (advance env s) = Inr s'" and "run_over s'"
  shows "run_over (durable s (snd (advance env s)))"
proof (cases "run_over s")
  case True
  then show ?thesis using durable_unsaved [of "snd (advance env s)" s] over_unsaved [OF True] by simp
qed (use assms tells_advance in \<open>auto simp: tells_def\<close>)

section \<open>A step on the store\<close>

definition store_commands :: "action list \<Rightarrow> nat" where
  "store_commands t = length (filter (\<lambda>a. case a of Saved _ \<Rightarrow> True | Event _ \<Rightarrow> True | _ \<Rightarrow> False) t)"

text \<open>The next \<open>n\<close> commands reach the server.\<close>

definition reached :: "nat \<Rightarrow> coord_store \<Rightarrow> bool" where
  "reached n c \<longleftrightarrow> list_all (\<lambda>f. f \<noteq> Not_sent) (take n (co_faults c))"

lemma save_effect:
  "snd (save_state s c) = (if reached 1 c then put_state s (c\<lparr>co_faults := tl (co_faults c)\<rparr>) else c\<lparr>co_faults := tl (co_faults c)\<rparr>)"
  "snd (append_event r e c) = (if reached 1 c then add_event r e (c\<lparr>co_faults := tl (co_faults c)\<rparr>) else c\<lparr>co_faults := tl (co_faults c)\<rparr>)"
proof -
  have c: "c = c\<lparr>co_faults := []\<rparr>" if "co_faults c = []" using that by (cases c) simp
  show "snd (save_state s c) = (if reached 1 c then put_state s (c\<lparr>co_faults := tl (co_faults c)\<rparr>) else c\<lparr>co_faults := tl (co_faults c)\<rparr>)"
    "snd (append_event r e c) = (if reached 1 c then add_event r e (c\<lparr>co_faults := tl (co_faults c)\<rparr>) else c\<lparr>co_faults := tl (co_faults c)\<rparr>)"
    by (auto simp: save_state_def append_event_def caught_def redis_call_def reached_def Let_def intro: arg_cong [OF c] split: list.splits fault.splits)
qed

lemma perform_simps [simp]: "perform r [] c = c" "perform r (a # t) c = perform r t (perform_action r a c)"
  by (simp_all add: perform_def)

lemma perform_ok:
  assumes "store_ok loads c" and "plain_id r" and "\<forall>a \<in> set t. of_run r a" and "\<forall>x. Saved x \<in> set t \<longrightarrow> run_over x \<or> awaits loads (co_stream c) r"
  shows "store_ok loads (perform r t c) \<and> co_stream (perform r t c) = co_stream c \<and> (\<forall>r'. r' \<noteq> r \<longrightarrow> co_states (perform r t c) r' = co_states c r')"
  using assms
proof (induction t arbitrary: c)
  case (Cons a t)
  have "store_ok loads (perform_action r a c) \<and> co_stream (perform_action r a c) = co_stream c \<and> (\<forall>r'. r' \<noteq> r \<longrightarrow> co_states (perform_action r a c) r' = co_states c r')"
  proof (cases a)
    case (Saved x)
    have "store_ok loads (put_state x (c\<lparr>co_faults := tl (co_faults c)\<rparr>))" by (rule ok_put) (use Cons.prems Saved in auto)
    then show ?thesis using Cons.prems Saved by (auto simp: perform_action_def save_effect put_state_def)
  qed (use Cons.prems in \<open>auto simp: perform_action_def save_effect add_event_def\<close>)
  then show ?case using Cons.IH [of "perform_action r a c"] Cons.prems by auto
qed simp

lemma perform_durable:
  assumes "reached (store_commands t) c" and "\<forall>a \<in> set t. of_run r a" and "co_states c r = Some s"
  shows "co_states (perform r t c) r = Some (durable s t)"
  using assms
proof (induction t arbitrary: c s)
  case (Cons a t)
  have step: "reached (store_commands t) (perform_action r a c) \<and> co_states (perform_action r a c) r = Some (case a of Saved y \<Rightarrow> y | _ \<Rightarrow> s)"
    using Cons.prems
    by (cases a; cases "co_faults c") (auto simp: perform_action_def save_effect reached_def store_commands_def put_state_def add_event_def)
  then show ?case using Cons.IH Cons.prems(2) by (simp add: durable_Cons)
qed simp

section \<open>The runs of the store\<close>

definition fresh_store :: coord_store where
  "fresh_store = \<lparr>co_states = Map.empty, co_stream = empty_stream, co_events = (\<lambda>_. []), co_ms = 0, co_faults = [], co_entry_ids = Map.empty\<rparr>"

text \<open>What the controller does with the store. The clock and the faults to come are arbitrary. A step of the runtime loop has its saves reach the server,
  or the process dies after some of its effects, and the entry stays pending.\<close>

inductive coord_step :: "(string \<Rightarrow> pyval option) \<Rightarrow> coord_store \<Rightarrow> coord_store \<Rightarrow> bool" for loads where
  cs_submitted: "plain_id run_id \<Longrightarrow> coord_step loads c (snd (submit_run job run_id compiled params c))"
| cs_processed: "\<forall>s c1. loaded_run loads idle_ms k c = (Inr (Some s), c1) \<longrightarrow> reached (store_commands (snd (advance env s))) c1
    \<Longrightarrow> coord_step loads c (snd (process_one env loads idle_ms k c))"
| cs_died: "loaded_run loads idle_ms k c = (Inr (Some s), c1)
    \<Longrightarrow> coord_step loads c ((perform (ps_run_id s) (take n (snd (advance env s))) c1)\<lparr>co_entry_ids := Map.empty\<rparr>)"
| cs_resumed: "coord_step loads c (snd (resume_one loads idle_ms k c))"
| cs_cancelled: "coord_step loads c (snd (request_cancellation r c))"
| cs_cleared: "coord_step loads c (snd (clear_cancellation r c))"
| cs_restarted: "coord_step loads c (snd (ensure_coordinator_group (c\<lparr>co_entry_ids := Map.empty\<rparr>)))"
| cs_passed: "coord_step loads c (c\<lparr>co_ms := n, co_faults := fs\<rparr>)"

lemma ensures_snd: "ensures loads (store_ok loads) m (\<lambda>_. store_ok loads) \<Longrightarrow> store_ok loads c \<Longrightarrow> store_ok loads (snd (m c))"
  unfolding ensures_def by (cases "m c") (auto split: sum.splits)

lemma submitted_run: "submitted_state job r compiled params = Inr s \<Longrightarrow> ps_run_id s = r"
  by (auto simp: submitted_state_def Let_def split: sum.splits pyval.splits)

lemma ensures_submit_run:
  assumes "plain_id run_id"
  shows "ensures loads (store_ok loads) (submit_run job run_id compiled params) (\<lambda>_. store_ok loads)"
  unfolding submit_run_def
  by (rule ensures_bind [OF ensures_mono [OF ensures_load [OF guards_ok], where Q' = "\<lambda>_. store_ok loads"]])
    (auto intro!: ensures_basic ensures_submit simp: assms submitted_run split: sum.splits)

lemma loaded_ok:
  assumes "store_ok loads c"
  shows "store_ok loads (snd (loaded_run loads idle_ms k c))" "loaded_run loads idle_ms k c = (Inr (Some s), c1) \<Longrightarrow> store_ok loads c1 \<and> co_states c1 (ps_run_id s) = Some s"
  using ensures_loaded [of loads idle_ms k] assms unfolding ensures_def by (fastforce split: prod.splits sum.splits)+

lemma claim_ok:
  assumes "store_ok loads c"
  shows "store_ok loads (snd (claim_run loads idle_ms k c))" "claim_run loads idle_ms k c = (Inr (Some s), c1) \<Longrightarrow> store_ok loads c1 \<and> co_states c1 (ps_run_id s) = Some s"
  using ensures_claim [of loads idle_ms k] assms unfolding ensures_def by (fastforce split: prod.splits sum.splits)+

lemma advance_perform_ok:
  assumes "store_ok loads c" and "co_states c (ps_run_id s) = Some s" and "set t \<subseteq> set (snd (advance env s))"
  shows "store_ok loads (perform (ps_run_id s) t c)"
proof -
  have r: "plain_id (ps_run_id s)" "run_over s \<or> awaits loads (co_stream c) (ps_run_id s)" using ok_state [OF assms(1,2)] by auto
  have "\<forall>a \<in> set t. of_run (ps_run_id s) a" using advance_of_run [of s env] assms(3) by (auto simp: traced_def)
  moreover have "\<forall>x. Saved x \<in> set t \<longrightarrow> run_over x \<or> awaits loads (co_stream c) (ps_run_id s)" using r(2) over_unsaved assms(3) by blast
  ultimately show ?thesis using perform_ok [OF assms(1) r(1)] by blast
qed

lemma finish_ok:
  assumes "store_ok loads c" and "plain_id (ps_run_id s)" and "run_over s \<Longrightarrow> \<forall>x. co_states c (ps_run_id s) = Some x \<longrightarrow> run_over x"
  shows "store_ok loads (snd (finish_run s c))"
proof -
  have "ensures loads (\<lambda>c. store_ok loads c \<and> (run_over s \<longrightarrow> (\<forall>x. co_states c (ps_run_id s) = Some x \<longrightarrow> run_over x))) (finish_run s) (\<lambda>_. store_ok loads)"
    unfolding finish_run_def
    by (rule ensures_bind [where R = "\<lambda>_. store_ok loads"])
      (auto intro: ensures_mono [OF ensures_ack] ensures_mono [OF ensures_requeue [OF assms(2)]] ensures_basic)
  then show ?thesis using assms(1,3) unfolding ensures_def by (fastforce split: prod.splits sum.splits)
qed

lemma process_eq:
  "process_one env loads idle_ms k c = (case loaded_run loads idle_ms k c of (Inl e, c1) \<Rightarrow> (Inl e, c1) | (Inr None, c1) \<Rightarrow> (Inr None, c1)
     | (Inr (Some s), c1) \<Rightarrow> (case fst (advance env s) of Inl e \<Rightarrow> (Inl e, perform (ps_run_id s) (snd (advance env s)) c1)
         | Inr s' \<Rightarrow> finish_run s' (perform (ps_run_id s) (snd (advance env s)) c1)))"
  by (auto simp: process_one_def sbind_def on_store_def sret_def split: prod.splits sum.splits option.splits)

lemma process_ok:
  assumes "store_ok loads c" and "\<forall>s c1. loaded_run loads idle_ms k c = (Inr (Some s), c1) \<longrightarrow> reached (store_commands (snd (advance env s))) c1"
  shows "store_ok loads (snd (process_one env loads idle_ms k c))"
proof (cases "\<exists>s c1. loaded_run loads idle_ms k c = (Inr (Some s), c1)")
  case True
  then obtain s c1 where s: "loaded_run loads idle_ms k c = (Inr (Some s), c1)" by blast
  note c1 = loaded_ok(2) [OF assms(1) s]
  let ?c2 = "perform (ps_run_id s) (snd (advance env s)) c1"
  have c2: "store_ok loads ?c2" using advance_perform_ok [of loads c1 s "snd (advance env s)" env] c1 by simp
  have a: "\<forall>a \<in> set (snd (advance env s)). of_run (ps_run_id s) a" using advance_of_run [of s env] by (simp add: traced_def)
  have d: "co_states ?c2 (ps_run_id s) = Some (durable s (snd (advance env s)))" using perform_durable [OF _ a] assms(2) s c1 by blast
  have "store_ok loads (snd (finish_run s' ?c2))" if s': "fst (advance env s) = Inr s'" for s'
  proof (rule finish_ok [OF c2])
    have i: "ps_run_id s' = ps_run_id s" using tracedD [OF advance_of_run s'] .
    then show "plain_id (ps_run_id s')" using ok_state [of loads c1 "ps_run_id s" s] c1 by simp
    show "\<forall>x. co_states ?c2 (ps_run_id s') = Some x \<longrightarrow> run_over x" if "run_over s'" using advance_tells [OF s' that] d i by simp
  qed
  then show ?thesis using s c2 by (auto simp: process_eq split: sum.splits)
next
  case False
  then show ?thesis using loaded_ok(1) [OF assms(1), of idle_ms k] by (auto simp: process_eq split: prod.splits sum.splits option.splits)
qed

lemma died_ok:
  assumes "store_ok loads c" and "loaded_run loads idle_ms k c = (Inr (Some s), c1)"
  shows "store_ok loads ((perform (ps_run_id s) (take n (snd (advance env s))) c1)\<lparr>co_entry_ids := Map.empty\<rparr>)"
proof -
  note c1 = loaded_ok(2) [OF assms]
  show ?thesis by (rule ok_forget(2), rule advance_perform_ok) (use c1 in \<open>auto dest: in_set_takeD\<close>)
qed

lemma resume_ok:
  assumes "store_ok loads c"
  shows "store_ok loads (snd (resume_one loads idle_ms k c))"
proof (cases "\<exists>s c1. claim_run loads idle_ms k c = (Inr (Some s), c1)")
  case True
  then obtain s c1 where s: "claim_run loads idle_ms k c = (Inr (Some s), c1)" by blast
  note c1 = claim_ok(2) [OF assms s]
  then have r: "plain_id (ps_run_id s)" "run_over s \<or> awaits loads (co_stream c1) (ps_run_id s)" using ok_state by blast+
  have "\<forall>a \<in> set (snd (resume_run s)). of_run (ps_run_id s) a" "\<forall>x. Saved x \<in> set (snd (resume_run s)) \<longrightarrow> run_over x \<or> awaits loads (co_stream c1) (ps_run_id s)"
    using r(2) by (auto simp: resume_run_def csave_event_def Let_def run_over_def)
  then have "store_ok loads (perform (ps_run_id s) (snd (resume_run s)) c1)" using perform_ok [OF _ r(1)] c1 by blast
  then show ?thesis using s by (auto simp: resume_one_def sbind_def on_store_def sret_def split: sum.splits)
next
  case False
  then show ?thesis using claim_ok(1) [OF assms, of idle_ms k] by (auto simp: resume_one_def sbind_def sret_def split: prod.splits sum.splits option.splits)
qed

lemma group_ok:
  assumes "store_ok loads c"
  shows "store_ok loads (snd (ensure_coordinator_group c))"
proof -
  have "store_ok loads (c\<lparr>co_stream := stream_group COORDINATOR_GROUP (co_stream c)\<rparr>)" if "store_ok loads c" for c
    by (rule ok_stream [OF that]) (use ok_sound [OF that] in \<open>auto simp: group_same awaits_group\<close>)
  then have "ensures loads (store_ok loads) ensure_coordinator_group (\<lambda>_. store_ok loads)"
    unfolding ensure_coordinator_group_def by (intro ensures_caught ensures_call) auto
  then show ?thesis using assms by (rule ensures_snd)
qed

lemma coord_step_ok: "coord_step loads c c' \<Longrightarrow> store_ok loads c \<Longrightarrow> store_ok loads c'"
  by (induction rule: coord_step.induct)
    (auto intro: ensures_snd [OF ensures_submit_run] ensures_snd [OF ensures_request] ensures_snd [OF ensures_clear] process_ok died_ok resume_ok group_ok ok_forget)

lemma coord_steps_ok: "(coord_step loads)\<^sup>*\<^sup>* fresh_store c \<Longrightarrow> store_ok loads c"
proof (induction rule: rtranclp_induct)
  case base
  show ?case by (simp add: store_ok_def fresh_store_def empty_stream_def stream_sound_def)
qed (rule coord_step_ok)

text \<open>C27. No unfinished run is lost. Along every history of the store, with lost commands, lost replies, crashes, restarts and cancellations, a run whose stored
  state is not terminal has an entry in the parent stream that was not delivered yet or is pending: it will be claimed or reclaimed again.\<close>

theorem unfinished_run_stays_queued:
  assumes "(coord_step loads)\<^sup>*\<^sup>* fresh_store c" and "co_states c r = Some s" and "\<not> run_over s"
  shows "\<exists>i fs. (i, fs) \<in> set (st_entries (co_stream c)) \<and> run_of loads fs = r \<and> (undelivered (co_stream c) i \<or> i \<in> pending_ids (co_stream c))"
  using ok_state [OF coord_steps_ok [OF assms(1)] assms(2)] assms(3) by (simp add: awaits_def open_id_def)

section \<open>A step on the store refines a step of the run\<close>

definition quiet :: "'a cop \<Rightarrow> bool" where
  "quiet m \<longleftrightarrow> (\<forall>c. co_states (snd (m c)) = co_states c)"

lemma quiet_bind: "quiet m \<Longrightarrow> (\<And>x. quiet (k x)) \<Longrightarrow> quiet (sbind m k)"
  unfolding quiet_def sbind_def by (auto split: prod.splits sum.splits) (metis snd_conv)+

lemma snd_caught [simp]: "snd (caught v m c) = snd (m c)"
  by (simp add: caught_def split: prod.splits sum.splits)

lemma quiet_basic [simp]: "quiet (sret x)" "quiet (sraise e)" "quiet (remember r i)" "quiet (forget r)" "quiet (caught v m) \<longleftrightarrow> quiet m"
  by (simp_all add: quiet_def sret_def sraise_def remember_def forget_def)

lemma quiet_call: "(\<And>c. co_states (snd (f c)) = co_states c) \<Longrightarrow> quiet (redis_call f)"
  by (auto simp: quiet_def redis_call_def Let_def split: list.splits fault.splits)

lemma quiet_commands [simp]:
  "quiet (load_state r)" "quiet (read_parent k)" "quiet (xack is)" "quiet (enqueue_parent s)" "quiet (pending_range n)" "quiet (take_over idle_ms k p)"
  unfolding load_state_def read_parent_def xack_def enqueue_parent_def pending_range_def take_over_def
  by (auto intro!: quiet_call simp: add_parent_def split: option.splits)

lemma quiet_recovery [simp]: "quiet (collect_orphans loads idle_ms k ps m)" "quiet (recover_runs m)"
proof -
  show "quiet (collect_orphans loads idle_ms k ps m)"
    by (induction loads idle_ms k ps m rule: collect_orphans.induct) (auto intro!: quiet_bind)
  show "quiet (recover_runs m)"
    by (induction m rule: recover_runs.induct) (auto simp: Let_def drop_duplicates_def intro!: quiet_bind split: option.splits)
qed

lemma quiet_loaded: "quiet (loaded_run loads idle_ms k)"
  by (auto simp: loaded_run_def claim_run_def dequeue_parent_def reclaim_orphaned_parents_def Let_def intro!: quiet_bind split: option.splits list.splits)

lemma quiet_finish: "quiet (finish_run s)"
proof -
  have "quiet (ack_parent r)" for r
    unfolding quiet_def
  proof
    fix c
    have "quiet (sbind (forget r) (\<lambda>_. caught False (sbind (xack [i]) (\<lambda>_. sret True))))" for i by (intro quiet_bind) (auto intro!: quiet_bind)
    then show "co_states (snd (ack_parent r c)) = co_states c" by (simp add: ack_parent_def quiet_def sret_def split: option.splits)
  qed
  moreover have "quiet (requeue_parent s)"
    unfolding quiet_def
  proof
    fix c
    have "quiet (caught False (sbind (redis_call (\<lambda>c. (Inr (), (add_parent s c)\<lparr>co_stream := stream_ack COORDINATOR_GROUP i (co_stream (add_parent s c))\<rparr>)))
       (\<lambda>_. sbind (forget (ps_run_id s)) (\<lambda>_. sret True))))" for i by (auto simp: add_parent_def intro!: quiet_bind quiet_call)
    moreover have "quiet (enqueue_parent s)" by simp
    ultimately show "co_states (snd (requeue_parent s c)) = co_states c" by (simp add: requeue_parent_def quiet_def split: option.splits)
  qed
  ultimately show ?thesis by (auto simp: finish_run_def intro!: quiet_bind)
qed

text \<open>C28. The runtime loop refines the coordinator. When the runtime claims the stored state \<open>s\<close> and the saves of the step reach the server, the store
  afterwards holds what one step of the run leads to, whatever becomes of the acknowledgement, and no other run changes.\<close>

theorem process_one_refines_step:
  assumes "(coord_step loads)\<^sup>*\<^sup>* fresh_store c" and "loaded_run loads idle_ms k c = (Inr (Some s), c1)" and "reached (store_commands (snd (advance env s))) c1"
  shows "co_states c (ps_run_id s) = Some s
    \<and> (\<exists>s'. run_step (s, h) (s', h @ snd (advance env s))
        \<and> co_states (snd (process_one env loads idle_ms k c)) = (co_states c)(ps_run_id s \<mapsto> s'))"
proof -
  let ?t = "snd (advance env s)" and ?r = "ps_run_id s"
  have ok: "store_ok loads c" by (rule coord_steps_ok [OF assms(1)])
  note c1 = loaded_ok(2) [OF ok assms(2)]
  have q: "co_states c1 = co_states c" using quiet_loaded [of loads idle_ms k] assms(2) unfolding quiet_def by (metis snd_conv)
  have a: "\<forall>a \<in> set ?t. of_run ?r a" using advance_of_run [of s env] by (simp add: traced_def)
  have d: "co_states (perform ?r ?t c1) ?r = Some (durable s ?t)" using perform_durable [OF assms(3) a] c1 by blast
  have "plain_id ?r" "run_over s \<or> awaits loads (co_stream c1) ?r" using ok_state c1 by blast+
  then have "\<forall>r. r \<noteq> ?r \<longrightarrow> co_states (perform ?r ?t c1) r = co_states c1 r" using perform_ok [OF _ _ a] over_unsaved c1 by blast
  then have p: "co_states (perform ?r ?t c1) = (co_states c)(?r \<mapsto> durable s ?t)" using d q by (auto simp: fun_eq_iff)
  have "co_states (snd (process_one env loads idle_ms k c)) = co_states (perform ?r ?t c1)"
    using quiet_finish by (auto simp: process_eq assms(2) quiet_def split: sum.splits)
  moreover have "run_step (s, h) (durable s ?t, h @ ?t)" by (rule run_step.stepped [where rest = "[]"]) simp
  ultimately show ?thesis using p c1 q by auto
qed

section \<open>Samples, and a run that is stranded\<close>

definition sample_store :: coord_store where
  "sample_store = snd (ensure_coordinator_group (snd (submit_run ''job'' ''run'' sample_plan [] fresh_store)))"

lemma sample_store_reached: "(coord_step loads)\<^sup>*\<^sup>* fresh_store sample_store"
proof -
  let ?c = "snd (submit_run ''job'' ''run'' sample_plan [] fresh_store)"
  have "coord_step loads fresh_store ?c" by (rule cs_submitted) (simp add: plain_id_def)
  moreover have "co_entry_ids ?c = Map.empty"
    by (simp add: submit_run_def sbind_def load_state_def redis_call_def fresh_store_def sample_submitted submit_parent_def submit_parent_script_def caught_def
      add_parent_def add_event_def put_state_def)
  then have "?c\<lparr>co_entry_ids := Map.empty\<rparr> = ?c" by simp
  then have "coord_step loads ?c sample_store" unfolding sample_store_def using cs_restarted [of loads ?c] by simp
  ultimately show ?thesis by (meson converse_rtranclp_into_rtranclp r_into_rtranclp)
qed

lemma sample_stored: "co_states sample_store ''run'' = Some sample_run" "co_faults sample_store = []"
  by (simp_all add: sample_store_def ensure_coordinator_group_def submit_run_def sbind_def load_state_def redis_call_def fresh_store_def sample_submitted submit_parent_def
    submit_parent_script_def caught_def add_parent_def add_event_def put_state_def submitted_run [OF sample_submitted])

theorem unfinished_run_stays_queued_witness:
  "\<exists>i fs. (i, fs) \<in> set (st_entries (co_stream sample_store)) \<and> run_of (\<lambda>_. None) fs = ''run''
     \<and> (undelivered (co_stream sample_store) i \<or> i \<in> pending_ids (co_stream sample_store))"
  by (rule unfinished_run_stays_queued [OF sample_store_reached sample_stored(1)]) (simp add: run_over_def sample_run_code)

lemma sample_store_code [code]:
  "sample_store = \<lparr>co_states = [''run'' \<mapsto> sample_run], co_stream = stream_group COORDINATOR_GROUP (stream_add 0 (parent_fields sample_run) empty_stream),
     co_events = (\<lambda>_. [])(''run'' := [''submitted'']), co_ms = 0, co_faults = [], co_entry_ids = Map.empty\<rparr>"
  by (simp add: sample_store_def ensure_coordinator_group_def submit_run_def sbind_def load_state_def redis_call_def fresh_store_def sample_submitted submit_parent_def
    submit_parent_script_def caught_def add_parent_def add_event_def put_state_def submitted_run [OF sample_submitted])

theorem process_one_refines_step_witness:
  "\<exists>s c1 s'. loaded_run (\<lambda>_. None) (\<lambda>_. 0) ''w'' sample_store = (Inr (Some s), c1) \<and> run_step (s, []) (s', snd (advance sample_env s))
     \<and> co_states (snd (process_one sample_env (\<lambda>_. None) (\<lambda>_. 0) ''w'' sample_store)) (ps_run_id s) = Some s'"
proof -
  let ?m = "loaded_run (\<lambda>_. None) (\<lambda>_. 0) ''w'' sample_store"
  have "case fst ?m of Inr (Some s) \<Rightarrow> True | _ \<Rightarrow> False" by code_simp
  then obtain s where s: "?m = (Inr (Some s), snd ?m)" by (cases ?m) (auto split: sum.splits option.splits)
  have "co_faults (snd ?m) = []" by code_simp
  then have "reached (store_commands (snd (advance sample_env s))) (snd ?m)" by (simp add: reached_def)
  from process_one_refines_step [OF sample_store_reached s this, of "[]"] show ?thesis using s by auto
qed












end
