(* ===== verification/Pipeline_Sanitizer.thy ===== *)
theory Pipeline_Sanitizer
  imports Pipeline_Coordinator
begin















end
