(* ===== verification/Spec2Isabelle.thy ===== *)
theory Spec2Isabelle
  imports Recovery Queue_Outcomes Job_Receipts Slot_Facts Routing_Facts Bundle_Store Bundle_Redis Runtime_Supervisor Broker_Dispatch Workflow_Store Runtime_Controller Priority_Contract Repository_Safety Pipeline_Order Pipeline_Delivery Pipeline_Sanitizer
begin

text \<open>
  Verification of the control plane of GPUManager.

  \<^bold>\<open>The program.\<close> GPUManager (Python, under \<open>scripts/\<close>) admits generation jobs, queues them in Redis, places them on GPU services and drives the services themselves.
  Its control plane consists of parts that own durable state and rules, which are modelled here, and of a large HTTP process (\<open>gpu-manager.py\<close>) that wires them to the
  network, to processes and to GPUs, which is not.

  \<^item> Bundle lifecycle (\<open>bundle_lifecycle.py\<close>). A bundle is a group of services that is started and stopped together. The recovery reducer turns health observations into
    actions; the stores, one in memory and one in Redis, grant fenced transition leases and resource leases; the controller runs an operation under a lease it keeps alive.
  \<^item> Runtime instances (\<open>runtime_contracts.py\<close>, \<open>runtime_state.py\<close>, \<open>runtime_supervisor.py\<close>, \<open>runtime_controller.py\<close>). Profiles and model sets are validated; the store holds
    a fenced record for each instance, in memory or in a file; the supervisor drives one transition through an adapter; the controller binds bundles to checked profiles.
  \<^item> Broker (\<open>gemma_broker/\<close>). Members and their readiness, admission, two job repositories (in memory, the semantic reference, and Redis with Lua scripts), the one-attempt
    dispatcher, drain and rejoin of members.
  \<^item> Queue engine (\<open>queue_engine.py\<close>). Streams of jobs in priority lanes with dead letters, the job tracker with its idempotency markers, worker slots, capacity counters and
    the routing engine. The priority contract (\<open>gpu_manager_contracts.py\<close>) translates priorities between the conventions of these parts.
  \<^item> Workflows (\<open>workflow_contracts.py\<close>, \<open>workflow_runtime.py\<close>). A graph of stages is validated, admitted as a job, and every stage goes through a fixed life cycle; two stores.
  \<^item> Pipelines (\<open>pipeline_coordinator.py\<close>, \<open>gpu_manager_pipeline_runtime.py\<close>). The coordinator runs a compiled pipeline stage by stage with retries, a quality loop,
    cancellation and recovery; its Redis store and the runtime loop deliver every unfinished run again after a crash.

  \<^bold>\<open>Theories.\<close> Each group lists first the theories with the definitions, in the order of the code, then those that only prove.

  \<^item> \<open>Prelude\<close>: Python values (\<open>pyval\<close>, \<open>pydict\<close>), texts of numbers, maps and lists, the collections of simplification rules.
  \<^item> \<open>Recovery\<close>; \<open>Bundle_Data\<close>, \<open>Bundle_Controller\<close>, \<open>Bundle_Store\<close>, \<open>Bundle_Redis\<close>: the bundle lifecycle.
  \<^item> \<open>Runtime_Contracts\<close>, \<open>Runtime_State\<close>, \<open>Runtime_Supervisor\<close>, \<open>Runtime_Controller\<close>: runtime instances.
  \<^item> \<open>Broker_Contracts\<close>, \<open>Broker_Repository\<close>, \<open>Broker_Dispatch\<close>, \<open>Redis_Repository\<close>; \<open>Repository_Evolution\<close>, \<open>Repository_Safety\<close>: the broker.
  \<^item> \<open>Redis_Model\<close>, \<open>Queue_Engine\<close>, \<open>Job_Tracker\<close>, \<open>Slot_Manager\<close>, \<open>Routing_Engine\<close>, \<open>Priority_Contract\<close>; \<open>Queue_Delivery\<close>, \<open>Queue_Outcomes\<close>, \<open>Job_Ids\<close>, \<open>Job_Receipts\<close>,
    \<open>Slot_Facts\<close>, \<open>Routing_Facts\<close>: the queue engine and the priorities.
  \<^item> \<open>Workflow_Contracts\<close>, \<open>Workflow_Runtime\<close>, \<open>Workflow_Store\<close>: workflows.
  \<^item> \<open>Pipeline_Coordinator\<close>, \<open>Pipeline_Store\<close>; \<open>Pipeline_Sanitizer\<close>, \<open>Pipeline_Runs\<close>, \<open>Pipeline_Progress\<close>, \<open>Pipeline_Order\<close>, \<open>Pipeline_Queue\<close>, \<open>Pipeline_Delivery\<close>: pipelines.

  \<^bold>\<open>How code becomes definitions.\<close> A dataclass is a record, an enumeration a datatype, a method a function from the state it reads to its answer and the new state. An exception is a value
  (\<open>None\<close>, \<open>Inl\<close>, or a constructor of an outcome type). Where a method talks to Redis it is a sequence of atomic commands, and a fault script says of each command whether it is answered,
  is never sent, or is carried out while its reply is lost; a Lua script and a transaction are one command. In \<open>Job_Tracker\<close>, \<open>Slot_Manager\<close> and \<open>Redis_Repository\<close> the model also
  says where other clients act between two commands. A step of the coordinator yields the sequence of its effects, so that a crash is a prefix of it. Time is a parameter of type real or a field.

  \<^bold>\<open>Interfaces.\<close> \<open>transition_store\<close> is what the bundle controller needs of a store (a lease that ended or was superseded is refused), interpreted for the in-memory and the Redis store;
  \<open>runtime_store\<close> is the same for the supervisor, interpreted for the in-memory and the file store; \<open>admission_store\<close> states idempotent admission, interpreted for both workflow stores;
  \<open>redis_invariant\<close> gives the rules by which every tracker command keeps an assertion; \<open>rely_guarantee\<close> gives those by which a call of the Redis repository stays within a preorder on databases
  when other clients do, interpreted for the evolution of the repository and for what a read-only call leaves unchanged.

  \<^bold>\<open>What the lemmas show.\<close>
  Leases: a superseded or ended lease is refused for ever, resource leases exclude each other, a group is fenced whole or not at all, the Redis store refines the one in memory, fences survive restarts.
  Supervision: a transition reports success only with evidence. Jobs: in both repositories a job past acceptance is never handed out again; with Redis the queues hold exactly the queued jobs under every
  interleaving, a claim takes the head of a queue and a free slot, a superseded dispatcher is fenced. Queues: an entry is handed out at most once, is waiting or pending until it is settled, and is cancelled
  at most once; receipts of unfinished jobs do not vanish. Workflows: stages run in dependency order, a job is never stuck, the validator accepts exactly acyclic graphs, admission is idempotent
  over failed writes and restarts. Pipelines: an attempt is executed at most once over crashes, stages wait for their dependencies, runs end, cancellation reports the truth, a step on the store refines
  a step of the run, and no unfinished run is lost as long as the saves of a step reach Redis. Theorems about errors show where the code falls short of this on precise conditions.

  \<^bold>\<open>Bounds.\<close> All loops are total functions; there is no fuel. The bounds that occur are those of the code: three attempts of \<open>mark_cancellation_intent_if_in_flight\<close>, at most eleven attempts of a
  pipeline stage, 500 entries of a stream and 100 dead letters, job ids up to 9999, strings of 10000 characters and lists of 1000 items in a stored run, 100 pending entries for each recovery pass.
  Integers are unbounded as in Python; Redis counters stay far below 64 bits.

  \<^bold>\<open>Parameters.\<close> JSON text and digests (\<open>jsonf\<close>, \<open>loads\<close>, \<open>fp\<close>, \<open>ce_digest\<close>), adapters and transports, the order in which \<open>HGETALL\<close> lists fields, idle times and clocks are arguments
  of the definitions; what a theorem needs of them (text reads back, a digest is a function of its argument) is a named hypothesis. A state hash of the pipeline store holds the state it encodes.
  Texts of errors are abbreviated where the code quotes a value in them.

  \<^bold>\<open>Not modelled.\<close> \<open>gpu-manager.py\<close> with its routes, probes and subprocesses; providers, the host runtime and the leaf client, which are the adapters above; the compilers that emit pipelines, whose output is any
  dictionary here; metrics, gossip and observations of the queue engine; the HTTP service around the broker; converters and package tools. They perform input and output or reshape documents, and hold none of the
  state the theorems are about. The in-memory store of the coordinator is a test double that shares its objects with the caller.
\<close>

end
